(* ===== verification/Prelude.thy ===== *)
theory Prelude
  imports Main "HOL-Library.AList"
begin

text \<open>
  Shared vocabulary of the development.

  \<^item> Instants and durations are microseconds (\<open>time\<close>, \<open>duration\<close>), the resolution of Python's
    \<^verbatim>\<open>datetime\<close> and \<^verbatim>\<open>timedelta\<close> and of PostgreSQL's \<^verbatim>\<open>timestamptz\<close>. Every reading of a clock is an
    argument of the operation that makes it.
  \<^item> Python exceptions are values of \<open>error\<close>, with the text of the source. A stateful operation
    returns a pair: the exception or the value, and the state it leaves behind. Where an
    exception interrupts a method half way, the state of the pair is the half-updated one.
  \<^item> A Python \<^verbatim>\<open>dict\<close> that the code iterates over is an association list: \<open>AList.update\<close> keeps the
    position of a key that is already there and appends a new one at the end, \<open>AList.delete\<close>
    removes it, \<open>map_of\<close> reads it. This is the insertion order Python guarantees.
  \<^item> JSON-like payloads (\<^verbatim>\<open>dict[str, Any]\<close>) are association lists of \<open>jval\<close>.
\<close>

type_synonym time = int
type_synonym duration = int

definition seconds :: "int \<Rightarrow> duration" where
  "seconds n = n * 1000000"

definition milliseconds :: "int \<Rightarrow> duration" where
  "milliseconds n = n * 1000"

datatype error =
    ValueError string
  | TypeError string
  | KeyError string
  | LookupError string
  | RuntimeError string
  | FencingConflict string
  | DeliveryInProgress nat
  | ConfirmationError string
  | HumanReviewRequired string
  | ToolExecutionConflict string
  | ProviderError string
  | AssertionError string
  | PostgresError string
  | OverflowError string
  | InvalidTag
  | RedisError string
  | IdempotencyConflict string
  | ControlVersionConflict string
  | MigrationManifestConflict string
  | AuthenticationError string
  | AuthorizationError string
  | HTTPException nat string

type_synonym ('a, 's) outcome = "(error + 'a) \<times> 's"

abbreviation raise_in :: "'s \<Rightarrow> error \<Rightarrow> ('a, 's) outcome" where
  "raise_in st e \<equiv> (Inl e, st)"

abbreviation return_in :: "'s \<Rightarrow> 'a \<Rightarrow> ('a, 's) outcome" where
  "return_in st a \<equiv> (Inr a, st)"

datatype jval =
    JNull
  | JBool bool
  | JInt int
  | JStr string
  | JTime time
  | JList "jval list"
  | JObj "(string \<times> jval) list"

type_synonym json = "(string \<times> jval) list"

text \<open>Python's \<^verbatim>\<open>value or default\<close> on an optional string: the empty string is falsy too.\<close>

definition str_or :: "string option \<Rightarrow> string \<Rightarrow> string" where
  "str_or s d = (case s of None \<Rightarrow> d | Some v \<Rightarrow> if v = [] then d else v)"

text \<open>\<^verbatim>\<open>x is not None and x > now\<close>, the test the code makes on every optional timestamp.\<close>

definition later_than :: "time option \<Rightarrow> time \<Rightarrow> bool" where
  "later_than x now = (case x of None \<Rightarrow> False | Some t \<Rightarrow> now < t)"

definition not_later_than :: "time option \<Rightarrow> time \<Rightarrow> bool" where
  "not_later_than x now = (case x of None \<Rightarrow> False | Some t \<Rightarrow> t \<le> now)"

named_theorems fields_simps \<open>effect of the store updates on the observable components\<close>
named_theorems step_defs \<open>definitions of the operations of a step relation\<close>
named_theorems inv_intros \<open>preservation of a component's invariant by its operations\<close>

lemma later_than_simps [simp]:
  "later_than None now = False"
  "later_than (Some t) now = (now < t)"
  by (simp_all add: later_than_def)

lemma not_later_than_simps [simp]:
  "not_later_than None now = False"
  "not_later_than (Some t) now = (t \<le> now)"
  by (simp_all add: not_later_than_def)

lemma later_than_iff: "later_than x now \<longleftrightarrow> (\<exists>t. x = Some t \<and> now < t)"
  by (cases x) auto

lemma not_later_than_iff: "not_later_than x now \<longleftrightarrow> (\<exists>t. x = Some t \<and> t \<le> now)"
  by (cases x) auto

lemma later_than_not_later: "later_than x now \<Longrightarrow> \<not> not_later_than x now"
  by (cases x) auto

lemma map_of_update [simp]: "map_of (AList.update k v al) = (map_of al)(k \<mapsto> v)"
  by (rule update_conv')

lemma map_of_delete [simp]: "map_of (AList.delete k al) = (map_of al)(k := None)"
  by (rule delete_conv')

lemma keys_update: "fst ` set (AList.update k v al) = insert k (fst ` set al)"
  by (simp add: dom_map_of_conv_image_fst [symmetric])

lemma keys_update_existing:
  "k \<in> fst ` set al \<Longrightarrow> map fst (AList.update k v al) = map fst al"
  by (induction al) auto

lemma keys_update_fresh:
  "k \<notin> fst ` set al \<Longrightarrow> AList.update k v al = al @ [(k, v)]"
  by (induction al) auto

lemma map_of_key [simp]: "map_of al k = Some v \<Longrightarrow> k \<in> fst ` set al"
  by (force dest: map_of_SomeD)

lemma find_None_map_of:
  assumes "distinct (map fst al)" and "find (\<lambda>v. P v) (map snd al) = None" and "map_of al n = Some v"
  shows "\<not> P v"
  using assms by (force simp: find_None_iff dest: map_of_SomeD)

lemma find_Some_map_of:
  assumes "distinct (map fst al)" and "find (\<lambda>v. P v) (map snd al) = Some v"
  shows "\<exists>n. map_of al n = Some v \<and> P v"
proof -
  from assms(2) obtain i where i: "i < length al" "P (snd (al ! i))" "v = snd (al ! i)"
    by (auto simp: find_Some_iff)
  from i(1,3) have "(fst (al ! i), v) \<in> set al"
    by (metis nth_mem surjective_pairing)
  with assms(1) have "map_of al (fst (al ! i)) = Some v" by simp
  with i(2,3) show ?thesis by blast
qed

subsection \<open>State machines and their invariants\<close>

text \<open>
  Every stateful component comes with a step relation. The interface below is all a safety
  argument needs of it: the start state satisfies the invariant and every step keeps it. Each
  component interprets it on its own relation.
\<close>

inductive reachable_from :: "('s \<Rightarrow> 's \<Rightarrow> bool) \<Rightarrow> 's \<Rightarrow> 's \<Rightarrow> bool" for step s0 where
  here: "reachable_from step s0 s0"
| there: "reachable_from step s0 s \<Longrightarrow> step s t \<Longrightarrow> reachable_from step s0 t"

lemma reachable_from_trans:
  assumes "reachable_from step b c" and "reachable_from step a b"
  shows "reachable_from step a c"
  using assms
proof (induction rule: reachable_from.induct)
  case here
  then show ?case .
next
  case (there s t)
  then show ?case by (blast intro: reachable_from.there)
qed

lemma reachable_from_step: "step s t \<Longrightarrow> reachable_from step s t"
  by (blast intro: reachable_from.intros)

locale state_machine =
  fixes step :: "'s \<Rightarrow> 's \<Rightarrow> bool"
    and inv :: "'s \<Rightarrow> bool"
  assumes step_inv: "step s t \<Longrightarrow> inv s \<Longrightarrow> inv t"
begin

lemma reachable_inv:
  assumes "reachable_from step s t" and "inv s"
  shows "inv t"
  using assms by (induction rule: reachable_from.induct) (auto intro: step_inv)

end

text \<open>
  A fenced resource: a machine in which every key carries an epoch that no step lowers, and in
  which a holder of a token is recognised only at the epoch the token was issued for. The two
  implementations of the mailbox store are instances.
\<close>

locale fenced_machine = state_machine step inv
  for step :: "'s \<Rightarrow> 's \<Rightarrow> bool" and inv :: "'s \<Rightarrow> bool" +
  fixes epoch :: "'s \<Rightarrow> 'k \<Rightarrow> nat"
    and token_key :: "'l \<Rightarrow> 'k"
    and token_epoch :: "'l \<Rightarrow> nat"
    and holds :: "'s \<Rightarrow> 'l \<Rightarrow> time \<Rightarrow> bool"
  assumes epoch_mono: "step s t \<Longrightarrow> inv s \<Longrightarrow> epoch s k \<le> epoch t k"
    and holds_epoch: "inv s \<Longrightarrow> holds s l now \<Longrightarrow> epoch s (token_key l) = token_epoch l"
begin

lemma reachable_epoch_mono:
  assumes "reachable_from step s t" and "inv s"
  shows "epoch s k \<le> epoch t k"
  using assms
proof (induction rule: reachable_from.induct)
  case here
  then show ?case by simp
next
  case (there u t)
  from there have "inv u" by (blast intro: reachable_inv)
  with there show ?case by (blast intro: order_trans epoch_mono)
qed

lemma stale_token_never_holds:
  assumes "reachable_from step s t" and "inv s" and "token_epoch l < epoch s (token_key l)"
  shows "\<not> holds t l now"
proof
  assume "holds t l now"
  moreover have "inv t" using assms(1,2) by (rule reachable_inv)
  ultimately have "epoch t (token_key l) = token_epoch l" by (blast intro: holds_epoch)
  moreover have "epoch s (token_key l) \<le> epoch t (token_key l)"
    using assms(1,2) by (rule reachable_epoch_mono)
  ultimately show False using assms(3) by simp
qed

end

subsection \<open>Batch loops\<close>

text \<open>
  The periodic jobs of the service walk over a snapshot of keys, act on every key that is due and
  stop once a limit is reached. \<open>batch\<close> asks of the action that it keeps the invariant and leaves
  the other keys alone, \<open>clearing_batch\<close> also that a key is no longer due after the action.
\<close>

fun batch_loop ::
    "('k \<Rightarrow> 's \<Rightarrow> 'v) \<Rightarrow> ('v \<Rightarrow> bool) \<Rightarrow> ('k \<Rightarrow> 's \<Rightarrow> 's) \<Rightarrow> 'k list \<Rightarrow> nat \<Rightarrow> nat \<Rightarrow> 's \<Rightarrow> nat \<times> 's"
where
  "batch_loop view due act [] handled limit s = (handled, s)"
| "batch_loop view due act (k # ks) handled limit s =
     (if limit \<le> handled then (handled, s)
      else if due (view k s) then batch_loop view due act ks (Suc handled) limit (act k s)
      else batch_loop view due act ks handled limit s)"

lemma batch_loop_view:
  assumes "\<And>k s. due' (view' k s) = due (view k s)"
  shows "batch_loop view due act ks h l s = batch_loop view' due' act ks h l s"
  by (induction ks arbitrary: h s) (simp_all add: assms)

locale batch =
  fixes inv :: "'s \<Rightarrow> bool"
    and view :: "'k \<Rightarrow> 's \<Rightarrow> 'v"
    and due :: "'v \<Rightarrow> bool"
    and act :: "'k \<Rightarrow> 's \<Rightarrow> 's"
  assumes act_inv: "inv s \<Longrightarrow> inv (act k s)"
    and act_other: "inv s \<Longrightarrow> k' \<noteq> k \<Longrightarrow> view k' (act k s) = view k' s"
begin

lemma batch_untouched:
  assumes "inv s" and "distinct ks" and "k \<notin> set ks \<or> \<not> due (view k s)"
  shows "view k (snd (batch_loop view due act ks h l s)) = view k s"
  using assms
proof (induction ks arbitrary: h s)
  case (Cons k' ks)
  show ?case
  proof (cases "due (view k' s)")
    case True
    with Cons.prems have "k \<noteq> k'" by auto
    with True Cons.prems Cons.IH [of "act k' s" "Suc h"] show ?thesis by (simp add: act_inv act_other)
  next
    case False
    with Cons.prems Cons.IH [of s h] show ?thesis by auto
  qed
qed simp

lemma filter_act_other:
  assumes "inv s" and "k \<notin> set ks"
  shows "filter (\<lambda>k'. due (view k' (act k s))) ks = filter (\<lambda>k'. due (view k' s)) ks"
proof (rule filter_cong [OF refl])
  fix x assume "x \<in> set ks"
  with assms have "x \<noteq> k" by auto
  with assms(1) show "due (view x (act k s)) = due (view x s)" by (simp add: act_other)
qed

lemma batch_count:
  assumes "inv s" and "distinct ks" and "h \<le> l"
  shows "fst (batch_loop view due act ks h l s) = min l (h + length (filter (\<lambda>k. due (view k s)) ks))"
  using assms
proof (induction ks arbitrary: h s)
  case (Cons k ks)
  from Cons show ?case by (auto simp: act_inv filter_act_other)
qed simp

lemma batch_acts:
  assumes "inv s" and "distinct ks" and "h + length (filter (\<lambda>k. due (view k s)) ks) \<le> l"
    and "k \<in> set ks" and "due (view k s)"
  shows "\<exists>s1. inv s1 \<and> view k s1 = view k s \<and> view k (snd (batch_loop view due act ks h l s)) = view k (act k s1)"
  using assms
proof (induction ks arbitrary: h s)
  case (Cons k' ks)
  have f: "filter (\<lambda>k. due (view k (act k' s))) ks = filter (\<lambda>k. due (view k s)) ks"
    using Cons.prems by (simp add: filter_act_other)
  show ?case
  proof (cases "k = k'")
    case True
    then have "view k (snd (batch_loop view due act ks (Suc h) l (act k' s))) = view k (act k s)"
      using Cons.prems by (subst batch_untouched) (auto simp: act_inv)
    then show ?thesis using True Cons.prems by auto
  next
    case False
    then have o: "view k (act k' s) = view k s" using Cons.prems by (simp add: act_other)
    show ?thesis
    proof (cases "due (view k' s)")
      case True
      with False Cons.prems o f Cons.IH [of "act k' s" "Suc h"] show ?thesis by (auto simp: act_inv)
    next
      case not_due: False
      have "filter (\<lambda>k. due (view k s)) ks \<noteq> []" using False Cons.prems by (auto simp: filter_empty_conv)
      then have "0 < length (filter (\<lambda>k. due (view k s)) ks)" by simp
      then have "\<not> l \<le> h" using Cons.prems(3) not_due by (simp del: length_greater_0_conv)
      with False not_due Cons.prems Cons.IH [of s h] show ?thesis by auto
    qed
  qed
qed simp

end

locale clearing_batch = batch +
  assumes act_clears: "inv s \<Longrightarrow> due (view k s) \<Longrightarrow> \<not> due (view k (act k s))"
begin

lemma batch_clears:
  assumes "inv s" and "distinct ks" and "h + length (filter (\<lambda>k. due (view k s)) ks) \<le> l" and "k \<in> set ks"
  shows "\<not> due (view k (snd (batch_loop view due act ks h l s)))"
proof (cases "due (view k s)")
  case True
  then obtain s1 where "inv s1" "view k s1 = view k s" "view k (snd (batch_loop view due act ks h l s)) = view k (act k s1)"
    using batch_acts [OF assms] by blast
  then show ?thesis using True act_clears [of s1 k] by simp
next
  case False
  then show ?thesis using batch_untouched [OF assms(1,2), of k h l] by simp
qed

end

subsection \<open>Batches of rows\<close>

text \<open>
  A batch function of the database works through the rows it selected. The interface asks of the work on one
  row that it keeps the invariant and follows the history order as long as the row still is what the selection
  found, and that it leaves all other sessions alone.
\<close>

fun rows_loop :: "('r \<Rightarrow> 's \<Rightarrow> error + (bool \<times> 's)) \<Rightarrow> 'r list \<Rightarrow> nat \<Rightarrow> 's \<Rightarrow> error + (nat \<times> 's)" where
  "rows_loop body [] n s = Inr (n, s)"
| "rows_loop body (r # rs) n s =
     (case body r s of
        Inl e \<Rightarrow> Inl e
      | Inr (counted, t) \<Rightarrow> rows_loop body rs (if counted then Suc n else n) t)"

locale row_batch =
  fixes inv :: "'s \<Rightarrow> bool"
    and le :: "'s \<Rightarrow> 's \<Rightarrow> bool"
    and row_key :: "'r \<Rightarrow> 'k"
    and obs :: "'k \<Rightarrow> 's \<Rightarrow> 'v"
    and valid :: "'r \<Rightarrow> 'v \<Rightarrow> bool"
    and body :: "'r \<Rightarrow> 's \<Rightarrow> error + (bool \<times> 's)"
  assumes le_refl: "le s s"
    and le_trans: "le s t \<Longrightarrow> le t u \<Longrightarrow> le s u"
    and body_step: "inv s \<Longrightarrow> valid r (obs (row_key r) s) \<Longrightarrow> body r s = Inr (c, t) \<Longrightarrow> inv t \<and> le s t"
    and body_total: "inv s \<Longrightarrow> valid r (obs (row_key r) s) \<Longrightarrow> \<exists>c t. body r s = Inr (c, t)"
    and body_frame: "body r s = Inr (c, t) \<Longrightarrow> k \<noteq> row_key r \<Longrightarrow> obs k t = obs k s"
begin

lemma rows_step:
  assumes "inv s" and "distinct (map row_key rs)" and "\<forall>r \<in> set rs. valid r (obs (row_key r) s)"
    and "rows_loop body rs n s = Inr (n', t)"
  shows "inv t \<and> le s t"
  using assms
proof (induction rs arbitrary: s n)
  case Nil
  then show ?case by (simp add: le_refl)
next
  case (Cons r rs)
  from Cons.prems(4) obtain c u where b: "body r s = Inr (c, u)" and l: "rows_loop body rs (if c then Suc n else n) u = Inr (n', t)"
    by (auto split: sum.splits prod.splits)
  have u: "inv u" "le s u" using body_step [OF Cons.prems(1) _ b] Cons.prems(3) by auto
  have "valid x (obs (row_key x) u)" if "x \<in> set rs" for x
  proof -
    have "row_key x \<noteq> row_key r" using that Cons.prems(2) by simp (metis imageI)
    then show ?thesis using that Cons.prems(3) body_frame [OF b, of "row_key x"] by simp
  qed
  then show ?case using Cons.IH [OF u(1) _ _ l] Cons.prems(2) u(2) le_trans by auto
qed

lemma rows_frame:
  assumes "rows_loop body rs n s = Inr (n', t)" and "k \<notin> row_key ` set rs"
  shows "obs k t = obs k s"
  using assms
proof (induction rs arbitrary: s n)
  case (Cons r rs)
  then show ?case by (auto split: sum.splits prod.splits dest: body_frame)
qed simp

lemma rows_total:
  assumes "inv s" and "distinct (map row_key rs)" and "\<forall>r \<in> set rs. valid r (obs (row_key r) s)"
  shows "\<exists>n' t. rows_loop body rs n s = Inr (n', t)"
  using assms
proof (induction rs arbitrary: s n)
  case (Cons r rs)
  from Cons.prems obtain c u where b: "body r s = Inr (c, u)" using body_total [OF Cons.prems(1), of r] by auto
  have "inv u" using body_step [OF Cons.prems(1) _ b] Cons.prems(3) by simp
  moreover have "valid x (obs (row_key x) u)" if "x \<in> set rs" for x
    using that Cons.prems(2,3) body_frame [OF b, of "row_key x"] by (cases "row_key x = row_key r") (simp, metis imageI, simp)
  ultimately show ?case using Cons.IH [of u] Cons.prems(2) b by simp
qed simp

text \<open>What the batch does to the session of one of its rows is what the work on that row does.\<close>

lemma rows_at:
  assumes "inv s" and "distinct (map row_key rs)" and "\<forall>r \<in> set rs. valid r (obs (row_key r) s)"
    and "rows_loop body rs n s = Inr (n', t)" and "r \<in> set rs"
  shows "\<exists>u c v. inv u \<and> obs (row_key r) u = obs (row_key r) s \<and> body r u = Inr (c, v) \<and> obs (row_key r) t = obs (row_key r) v"
  using assms
proof (induction rs arbitrary: s n)
  case (Cons x rs)
  from Cons.prems(4) obtain c u where b: "body x s = Inr (c, u)" and l: "rows_loop body rs (if c then Suc n else n) u = Inr (n', t)"
    by (auto split: sum.splits prod.splits)
  show ?case
  proof (cases "r = x")
    case True
    have "obs (row_key r) t = obs (row_key r) u" using rows_frame [OF l] Cons.prems(2) True by simp
    then show ?thesis using Cons.prems(1) b True by blast
  next
    case False
    then have m: "r \<in> set rs" using Cons.prems(5) by simp
    have ne: "row_key y \<noteq> row_key x" if "y \<in> set rs" for y using that Cons.prems(2) by simp (metis imageI)
    have "inv u" using body_step [OF Cons.prems(1) _ b] Cons.prems(3) by simp
    moreover have "\<forall>y \<in> set rs. valid y (obs (row_key y) u)"
      using Cons.prems(3) body_frame [OF b] ne by (metis list.set_intros(2))
    ultimately show ?thesis
      using Cons.IH [of u "if c then Suc n else n"] Cons.prems(2) l m body_frame [OF b ne [OF m]] by simp
  qed
qed simp

lemma rows_count: "rows_loop body rs n s = Inr (n', t) \<Longrightarrow> n' \<le> n + length rs"
  by (induction rs arbitrary: s n) (fastforce split: sum.splits prod.splits if_splits)+

end

end
