(* ===== verification/Models.thy ===== *)
theory Models
  imports Prelude Complex_Main
begin

text \<open>
  The persistence-neutral records of \<^verbatim>\<open>src/trpc_service/storage/models.py\<close>, the envelopes of
  \<^verbatim>\<open>src/trpc_service/channels/envelopes.py\<close> and the identities of
  \<^verbatim>\<open>src/trpc_service/tenant/models.py\<close> that the runtime passes around. The Pydantic models are
  frozen, so \<^verbatim>\<open>model_copy(update=...)\<close> is a record update; it does not validate, and neither does
  the record update here. The declared field bounds that can fail on a constructor call of the
  modelled code are checked where the constructor is called.

  Counters that the code only ever increments from a non-negative start are \<open>nat\<close>; a priority,
  which a caller supplies, is an \<open>int\<close>. The Python floats (a rollout percentage, a provider's
  back-off, an event's timestamp, the model sampling parameters) are exact rationals. A secret
  reference is its string.
\<close>

subsection \<open>Enumerations\<close>

datatype mailbox_status = IDLE | QUEUED | RUNNING | RETRY_WAIT

datatype mailbox_claim_status = CLAIMED | STALE | CLAIM_RUNNING | EMPTY

datatype delivery_status = DELIVERED | FAILED | AMBIGUOUS

datatype channel = WECOM_AI_BOT | FEISHU

datatype conversation_kind = DIRECT | GROUP

datatype payload_kind = TEXT | IMAGE | FILE | VIDEO | VOICE | MIXED | EVENT

datatype tool_risk = IDEMPOTENT | NON_IDEMPOTENT | UNKNOWN_RISK

definition channel_value :: "channel \<Rightarrow> string" where
  "channel_value c = (case c of WECOM_AI_BOT \<Rightarrow> ''wecom_ai_bot'' | FEISHU \<Rightarrow> ''feishu'')"

definition delivery_status_value :: "delivery_status \<Rightarrow> string" where
  "delivery_status_value s =
     (case s of DELIVERED \<Rightarrow> ''delivered'' | FAILED \<Rightarrow> ''failed'' | AMBIGUOUS \<Rightarrow> ''ambiguous'')"

definition conversation_kind_value :: "conversation_kind \<Rightarrow> string" where
  "conversation_kind_value k = (case k of DIRECT \<Rightarrow> ''direct'' | GROUP \<Rightarrow> ''group'')"

definition payload_kind_value :: "payload_kind \<Rightarrow> string" where
  "payload_kind_value k =
     (case k of TEXT \<Rightarrow> ''text'' | IMAGE \<Rightarrow> ''image'' | FILE \<Rightarrow> ''file'' | VIDEO \<Rightarrow> ''video''
      | VOICE \<Rightarrow> ''voice'' | MIXED \<Rightarrow> ''mixed'' | EVENT \<Rightarrow> ''event'')"

subsection \<open>Identities and envelopes\<close>

record tenant_context =
  tc_tenant_id :: string
  tc_app_id :: string
  tc_config_version :: nat
  tc_channel_binding_id :: string
  tc_principal_id :: string
  tc_session_id :: string
  tc_request_id :: string
  tc_trace_id :: string

record channel_binding =
  cb_binding_id :: string
  cb_tenant_id :: string
  cb_app_id :: string
  cb_channel :: channel
  cb_account_id :: string
  cb_secret_refs :: "(string \<times> string) list"
  cb_enabled :: bool
  cb_control_version :: nat
  cb_capabilities :: "string list"

record binding_route =
  br_binding :: channel_binding
  br_tenant_active :: bool
  br_active_config_version :: nat
  br_candidate_config_version :: "nat option"
  br_candidate_percent :: rat

record media_reference =
  mr_provider_url :: "string option"
  mr_provider_media_id :: "string option"
  mr_encryption_key_ref :: "string option"
  mr_filename :: "string option"
  mr_content_type :: "string option"

record inbound_envelope =
  ie_channel :: channel
  ie_account_id :: string
  ie_external_message_id :: string
  ie_external_user_id :: string
  ie_conversation_kind :: conversation_kind
  ie_external_conversation_id :: "string option"
  ie_payload_kind :: payload_kind
  ie_text :: "string option"
  ie_media :: "media_reference list"
  ie_event_type :: "string option"
  ie_occurred_at :: time
  ie_provider_metadata :: json

record outbound_envelope =
  oe_outbound_id :: string
  oe_tenant_id :: string
  oe_binding_id :: string
  oe_channel :: channel
  oe_target_id :: string
  oe_session_id :: string
  oe_payload_kind :: payload_kind
  oe_text :: "string option"
  oe_media :: "media_reference list"
  oe_in_reply_to :: "string option"
  oe_trace_headers :: "(string \<times> string) list"

record delivery_receipt =
  dr_outbound_id :: string
  dr_status :: delivery_status
  dr_provider_message_id :: "string option"
  dr_provider_code :: "string option"
  dr_retryable :: bool
  dr_retry_after_seconds :: "rat option"
  dr_attempts :: nat

definition opt_json :: "string option \<Rightarrow> jval" where
  "opt_json s = (case s of None \<Rightarrow> JNull | Some v \<Rightarrow> JStr v)"

definition media_json :: "media_reference \<Rightarrow> jval" where
  "media_json r =
     JObj [(''provider_url'', opt_json (mr_provider_url r)),
           (''provider_media_id'', opt_json (mr_provider_media_id r)),
           (''encryption_key_ref'', opt_json (mr_encryption_key_ref r)),
           (''filename'', opt_json (mr_filename r)),
           (''content_type'', opt_json (mr_content_type r))]"

text \<open>\<^verbatim>\<open>OutboundEnvelope.model_dump(mode="json")\<close>: one entry per field, in declaration order.\<close>

definition outbound_json :: "outbound_envelope \<Rightarrow> json" where
  "outbound_json e =
     [(''outbound_id'', JStr (oe_outbound_id e)), (''tenant_id'', JStr (oe_tenant_id e)),
      (''binding_id'', JStr (oe_binding_id e)), (''channel'', JStr (channel_value (oe_channel e))),
      (''target_id'', JStr (oe_target_id e)), (''session_id'', JStr (oe_session_id e)),
      (''payload_kind'', JStr (payload_kind_value (oe_payload_kind e))),
      (''text'', opt_json (oe_text e)), (''media'', JList (map media_json (oe_media e))),
      (''in_reply_to'', opt_json (oe_in_reply_to e)),
      (''trace_headers'', JObj (map (\<lambda>(k, v). (k, JStr v)) (oe_trace_headers e)))]"

subsection \<open>Tenant configuration\<close>

record model_policy =
  mp_provider :: string
  mp_model :: string
  mp_api_key_ref :: "string option"
  mp_base_url :: "string option"
  mp_timeout_seconds :: rat
  mp_temperature :: "rat option"
  mp_top_p :: "rat option"
  mp_stop_sequences :: "string list"
  mp_reasoning_effort :: "string option"
  mp_thinking_budget_tokens :: "int option"
  mp_fallback_model :: "string option"

record budget_policy =
  bp_max_tokens_per_turn :: int
  bp_monthly_cost_units :: int
  bp_max_parallel_turns :: int

record tool_policy =
  tp_allow :: "string set"
  tp_require_confirmation :: "string set"
  tp_classifications :: "(string \<times> tool_risk) list"

record audit_policy =
  ap_retention_days :: int
  ap_record_content :: bool

record media_policy =
  me_enabled :: bool
  me_max_items_per_turn :: int
  me_max_bytes_per_item :: int
  me_max_total_bytes :: int
  me_max_pdf_pages :: int
  me_max_extracted_chars :: int
  me_inline_images :: bool

record storage_selection =
  st_profile_id :: string
  st_session_backend :: string
  st_memory_backend :: string
  st_artifact_backend :: string
  st_knowledge_backend :: string

record tenant_config =
  cf_tenant_id :: string
  cf_app_id :: string
  cf_version :: nat
  cf_model :: model_policy
  cf_tools :: tool_policy
  cf_budget :: budget_policy
  cf_audit :: audit_policy
  cf_media :: media_policy
  cf_storage :: storage_selection
  cf_instructions :: string
  cf_policy_version :: nat
  cf_created_at :: time

subsection \<open>Turns and sessions\<close>

record acceptance =
  ac_inbound_id :: string
  ac_context :: tenant_context
  ac_envelope :: inbound_envelope
  ac_accepted_at :: time
  ac_duplicate :: bool

record stored_event =
  se_event_id :: string
  se_author :: string
  se_timestamp :: rat
  se_event :: json
  se_state_delta :: json

record sequenced_event = stored_event +
  se_sequence :: nat

record session_snapshot =
  ss_tenant_id :: string
  ss_app_id :: string
  ss_session_id :: string
  ss_principal_id :: string
  ss_version :: nat
  ss_next_sequence :: nat
  ss_state :: json
  ss_events :: "sequenced_event list"

definition new_session_snapshot :: "string \<Rightarrow> string \<Rightarrow> string \<Rightarrow> string \<Rightarrow> session_snapshot" where
  "new_session_snapshot tenant app session principal_id =
     \<lparr>ss_tenant_id = tenant, ss_app_id = app, ss_session_id = session, ss_principal_id = principal_id,
      ss_version = 0, ss_next_sequence = 1, ss_state = [], ss_events = []\<rparr>"

record session_lease =
  sl_tenant_id :: string
  sl_session_id :: string
  sl_turn_id :: string
  sl_inbound_id :: string
  sl_worker_id :: string
  sl_fencing_token :: nat
  sl_expires_at :: time
  sl_attempt :: nat
  sl_snapshot :: session_snapshot
  sl_snapshot_hydrated :: bool

subsection \<open>Mailboxes\<close>

record session_mailbox =
  mb_tenant_id :: string
  mb_session_id :: string
  mb_status :: mailbox_status
  mb_accepted_sequence :: nat
  mb_resolved_sequence :: nat
  mb_processing_sequence :: "nat option"
  mb_processing_inbound_id :: "string option"
  mb_queue_generation :: nat
  mb_lease_owner :: "string option"
  mb_lease_epoch :: nat
  mb_lease_expires_at :: "time option"
  mb_retry_count :: nat
  mb_attempt :: nat
  mb_priority :: int
  mb_retry_at :: "time option"
  mb_updated_at :: time

definition new_session_mailbox :: "string \<Rightarrow> string \<Rightarrow> time \<Rightarrow> session_mailbox" where
  "new_session_mailbox tenant session now =
     \<lparr>mb_tenant_id = tenant, mb_session_id = session, mb_status = IDLE,
      mb_accepted_sequence = 0, mb_resolved_sequence = 0,
      mb_processing_sequence = None, mb_processing_inbound_id = None,
      mb_queue_generation = 0, mb_lease_owner = None, mb_lease_epoch = 0,
      mb_lease_expires_at = None, mb_retry_count = 0, mb_attempt = 0, mb_priority = 0,
      mb_retry_at = None, mb_updated_at = now\<rparr>"

record mailbox_item =
  it_tenant_id :: string
  it_session_id :: string
  it_inbound_id :: string
  it_sequence :: nat
  it_trace_id :: string
  it_priority :: int
  it_retry_count :: nat
  it_attempt :: nat
  it_retry_at :: "time option"
  it_accepted_at :: time

record mailbox_lease =
  ml_tenant_id :: string
  ml_session_id :: string
  ml_inbound_id :: string
  ml_sequence :: nat
  ml_owner_id :: string
  ml_epoch :: nat
  ml_expires_at :: time
  ml_attempt :: nat
  ml_retry_count :: nat
  ml_priority :: int

record session_claim =
  sc_status :: mailbox_claim_status
  sc_mailbox :: session_mailbox
  sc_lease :: "mailbox_lease option"
  sc_acceptance :: "acceptance option"
  sc_execution_lease :: "session_lease option"

definition sc_claimed :: "session_claim \<Rightarrow> bool" where
  "sc_claimed c = (sc_status c = CLAIMED)"

subsection \<open>Commits, outbox and delivery attempts\<close>

record turn_commit =
  tu_context :: tenant_context
  tu_lease :: session_lease
  tu_state :: json
  tu_events :: "stored_event list"
  tu_outbound :: "outbound_envelope option"

record commit_result =
  cr_turn_id :: string
  cr_first_sequence :: "nat option"
  cr_last_sequence :: "nat option"
  cr_outbound_id :: "string option"

record outbox_record =
  ob_outbox_id :: string
  ob_tenant_id :: string
  ob_event_type :: string
  ob_aggregate_id :: string
  ob_payload :: json
  ob_trace_headers :: "(string \<times> string) list"
  ob_attempts :: nat

record delivery_attempt =
  da_tenant_id :: string
  da_outbound_id :: string
  da_attempt_number :: nat
  da_owner_id :: string

type_synonym session_key = "string \<times> string"

abbreviation mb_key :: "session_mailbox \<Rightarrow> session_key" where
  "mb_key m \<equiv> (mb_tenant_id m, mb_session_id m)"

abbreviation ml_key :: "mailbox_lease \<Rightarrow> session_key" where
  "ml_key l \<equiv> (ml_tenant_id l, ml_session_id l)"

abbreviation sl_key :: "session_lease \<Rightarrow> session_key" where
  "sl_key l \<equiv> (sl_tenant_id l, sl_session_id l)"

end
