(* ===== verification/Mailbox.thy ===== *)
theory Mailbox
  imports Models
begin

text \<open>
  The in-memory session mailbox of \<^verbatim>\<open>src/trpc_service/storage/mailbox.py\<close>
  (\<^verbatim>\<open>InMemorySessionMailboxStore\<close>): ordered inbound items per session, one fenced processing lease,
  and the append-only list of \<^verbatim>\<open>session.ready.v2\<close> wake-ups.

  Each method runs under the lock of its session key and contains no suspension point between
  taking and releasing it, so it is one atomic state transformer. The argument \<open>now\<close> is the
  method's \<^verbatim>\<open>_now(now)\<close>. The random identifiers of \<^verbatim>\<open>uuid4\<close> are read one after the other from
  \<open>ms_uuid\<close>. \<^verbatim>\<open>_validate_uuid_if_present\<close> accepts every string and has no counterpart.
\<close>

subsection \<open>State\<close>

record mailbox_store =
  ms_mailboxes :: "(session_key \<times> session_mailbox) list"
  ms_items :: "session_key \<Rightarrow> (nat \<times> mailbox_item) list"
  ms_outbox :: "outbox_record list"
  ms_uuid :: "nat \<Rightarrow> string"
  ms_uuids_drawn :: nat

definition init_mailbox_store :: "(nat \<Rightarrow> string) \<Rightarrow> mailbox_store" where
  "init_mailbox_store uuids =
     \<lparr>ms_mailboxes = [], ms_items = (\<lambda>_. []), ms_outbox = [], ms_uuid = uuids,
      ms_uuids_drawn = 0\<rparr>"

definition ms_get :: "session_key \<Rightarrow> mailbox_store \<Rightarrow> session_mailbox option" where
  "ms_get k st = map_of (ms_mailboxes st) k"

definition ms_put :: "session_key \<Rightarrow> session_mailbox \<Rightarrow> mailbox_store \<Rightarrow> mailbox_store" where
  "ms_put k m st = st\<lparr>ms_mailboxes := AList.update k m (ms_mailboxes st)\<rparr>"

definition ms_item :: "session_key \<Rightarrow> nat \<Rightarrow> mailbox_store \<Rightarrow> mailbox_item option" where
  "ms_item k n st = map_of (ms_items st k) n"

definition ms_put_item :: "session_key \<Rightarrow> nat \<Rightarrow> mailbox_item \<Rightarrow> mailbox_store \<Rightarrow> mailbox_store" where
  "ms_put_item k n it st = st\<lparr>ms_items := (ms_items st)(k := AList.update n it (ms_items st k))\<rparr>"

subsection \<open>Validation and helpers\<close>

definition RECONCILE_READY_GRACE :: duration where
  "RECONCILE_READY_GRACE = seconds 5"

definition validate_lease_for :: "duration \<Rightarrow> error option" where
  "validate_lease_for lease_for =
     (if lease_for \<le> 0 then Some (ValueError ''mailbox lease must be positive'') else None)"

definition validate_priority :: "int \<Rightarrow> error option" where
  "validate_priority p =
     (if p < 0 then Some (ValueError ''mailbox priority must be non-negative'') else None)"

definition validate_ids :: "string list \<Rightarrow> error option" where
  "validate_ids values =
     (if \<exists>v \<in> set values. v = []
      then Some (ValueError ''mailbox identifiers must be non-empty'') else None)"

definition owns :: "session_mailbox option \<Rightarrow> mailbox_lease \<Rightarrow> time \<Rightarrow> bool" where
  "owns mailbox lease now =
     (case mailbox of
        None \<Rightarrow> False
      | Some m \<Rightarrow> mb_status m = RUNNING
          \<and> mb_processing_sequence m = Some (ml_sequence lease)
          \<and> mb_processing_inbound_id m = Some (ml_inbound_id lease)
          \<and> mb_lease_owner m = Some (ml_owner_id lease)
          \<and> mb_lease_epoch m = ml_epoch lease
          \<and> later_than (mb_lease_expires_at m) now)"

definition ready_status :: "session_mailbox \<Rightarrow> nat \<Rightarrow> time \<Rightarrow> mailbox_status" where
  "ready_status m resolved now =
     (if mb_accepted_sequence m \<le> resolved then IDLE
      else if later_than (mb_retry_at m) now then RETRY_WAIT
      else QUEUED)"

definition append_ready ::
    "session_mailbox \<Rightarrow> mailbox_item \<Rightarrow> time \<Rightarrow> nat \<Rightarrow> mailbox_store \<Rightarrow> session_mailbox \<times> mailbox_store"
where
  "append_ready m it now generation st =
     (m, st\<lparr>ms_outbox := ms_outbox st @
              [\<lparr>ob_outbox_id = ms_uuid st (ms_uuids_drawn st),
                ob_tenant_id = mb_tenant_id m,
                ob_event_type = ''session.ready.v2'',
                ob_aggregate_id = mb_session_id m,
                ob_payload =
                  [(''generation'', JInt (int generation)),
                   (''priority'', JInt (it_priority it)),
                   (''trace_id'', JStr (str_or (Some (it_trace_id it)) (it_inbound_id it))),
                   (''created_at'', JTime now)],
                ob_trace_headers = [],
                ob_attempts = 0\<rparr>],
            ms_uuids_drawn := Suc (ms_uuids_drawn st)\<rparr>)"

definition emit_ready ::
    "session_mailbox \<Rightarrow> mailbox_item \<Rightarrow> time \<Rightarrow> mailbox_store \<Rightarrow> session_mailbox \<times> mailbox_store"
where
  "emit_ready m it now st =
     (let generation = mb_queue_generation m + 1;
          updated = m\<lparr>mb_queue_generation := generation\<rparr>
      in append_ready updated it now generation st)"

definition ready_record_for :: "session_key \<Rightarrow> outbox_record \<Rightarrow> bool" where
  "ready_record_for k r =
     (ob_event_type r = ''session.ready.v2'' \<and> ob_tenant_id r = fst k \<and> ob_aggregate_id r = snd k)"

definition requeue_ready ::
    "session_mailbox \<Rightarrow> mailbox_item \<Rightarrow> time \<Rightarrow> mailbox_store \<Rightarrow> session_mailbox \<times> mailbox_store"
where
  "requeue_ready m it now st =
     (let generation = max 1 (mb_queue_generation m);
          updated = m\<lparr>mb_queue_generation := generation\<rparr>;
          has_record =
            list_ex (\<lambda>r. ready_record_for (mb_key m) r
                       \<and> map_of (ob_payload r) ''generation'' = Some (JInt (int generation)))
                    (ms_outbox st)
      in if has_record then (updated, st) else append_ready updated it now generation st)"

definition ensure_mailbox ::
    "session_key \<Rightarrow> time \<Rightarrow> mailbox_store \<Rightarrow> session_mailbox \<times> mailbox_store"
where
  "ensure_mailbox k now st =
     (let m = new_session_mailbox (fst k) (snd k) now in (m, ms_put k m st))"

definition require_owned ::
    "session_key \<Rightarrow> mailbox_lease \<Rightarrow> time \<Rightarrow> mailbox_store \<Rightarrow> error + session_mailbox"
where
  "require_owned k lease now st =
     (case ms_get k st of
        None \<Rightarrow> Inl (FencingConflict ''mailbox lease is no longer current'')
      | Some m \<Rightarrow>
          if owns (Some m) lease now then Inr m
          else Inl (FencingConflict ''mailbox lease is no longer current''))"

subsection \<open>Accepting an inbound message\<close>

text \<open>The status and the effective retry time after appending an item.\<close>

definition accept_status ::
    "session_mailbox \<Rightarrow> time option \<Rightarrow> time \<Rightarrow> mailbox_status \<times> time option"
where
  "accept_status m retry_at now =
     (case mb_status m of
        RETRY_WAIT \<Rightarrow>
          if later_than (mb_retry_at m) now then (RETRY_WAIT, mb_retry_at m) else (QUEUED, None)
      | IDLE \<Rightarrow>
          if later_than retry_at now then (RETRY_WAIT, retry_at) else (QUEUED, None)
      | s \<Rightarrow> (s, mb_retry_at m))"

definition accept_new ::
    "session_key \<Rightarrow> string \<Rightarrow> int \<Rightarrow> time option \<Rightarrow> string option \<Rightarrow> time \<Rightarrow> session_mailbox
     \<Rightarrow> mailbox_store \<Rightarrow> (session_mailbox, mailbox_store) outcome"
where
  "accept_new k inbound_id priority retry_at trace_id now m st =
     (let sequence = mb_accepted_sequence m + 1;
          trace = str_or trace_id inbound_id
      in if length trace > 512
         then raise_in st (ValueError ''trace_id'')
         else
           let it = \<lparr>it_tenant_id = fst k, it_session_id = snd k, it_inbound_id = inbound_id,
                     it_sequence = sequence, it_trace_id = trace, it_priority = priority,
                     it_retry_count = 0, it_attempt = 0, it_retry_at = retry_at,
                     it_accepted_at = now\<rparr>;
               st1 = ms_put_item k sequence it st;
               (status, effective_retry_at) = accept_status m retry_at now;
               updated = m\<lparr>mb_status := status, mb_accepted_sequence := sequence,
                           mb_priority := max (mb_priority m) priority,
                           mb_retry_at := effective_retry_at, mb_updated_at := now\<rparr>;
               (updated', st2) =
                 (if mb_status m \<in> {IDLE, RETRY_WAIT} \<and> status = QUEUED
                  then emit_ready updated it now st1 else (updated, st1))
           in return_in (ms_put k updated' st2) updated')"

definition accept ::
    "session_key \<Rightarrow> string \<Rightarrow> int \<Rightarrow> time option \<Rightarrow> string option \<Rightarrow> time
     \<Rightarrow> mailbox_store \<Rightarrow> (session_mailbox, mailbox_store) outcome"
where
  "accept k inbound_id priority retry_at trace_id now st =
     (case validate_ids [fst k, snd k, inbound_id] of Some e \<Rightarrow> raise_in st e | None \<Rightarrow>
      case validate_priority priority of Some e \<Rightarrow> raise_in st e | None \<Rightarrow>
      (let existing = find (\<lambda>it. it_inbound_id it = inbound_id) (map snd (ms_items st k))
       in case (existing, ms_get k st) of
            (Some _, Some m) \<Rightarrow> return_in st m
          | (Some _, None) \<Rightarrow> (let (m, st1) = ensure_mailbox k now st in return_in st1 m)
          | (None, Some m) \<Rightarrow> accept_new k inbound_id priority retry_at trace_id now m st
          | (None, None) \<Rightarrow>
              (let (m, st1) = ensure_mailbox k now st
               in accept_new k inbound_id priority retry_at trace_id now m st1)))"

subsection \<open>Claiming\<close>

definition grant_claim ::
    "session_key \<Rightarrow> string \<Rightarrow> duration \<Rightarrow> time \<Rightarrow> session_mailbox \<Rightarrow> nat \<Rightarrow> mailbox_item
     \<Rightarrow> mailbox_store \<Rightarrow> (mailbox_lease option, mailbox_store) outcome"
where
  "grant_claim k owner_id lease_for now m sequence it st =
     (let epoch = mb_lease_epoch m + 1;
          expires_at = now + lease_for;
          attempt = it_attempt it + 1;
          st1 = ms_put_item k sequence (it\<lparr>it_attempt := attempt\<rparr>) st;
          m' = m\<lparr>mb_status := RUNNING, mb_processing_sequence := Some sequence,
                 mb_processing_inbound_id := Some (it_inbound_id it),
                 mb_lease_owner := Some owner_id, mb_lease_epoch := epoch,
                 mb_lease_expires_at := Some expires_at, mb_attempt := attempt,
                 mb_retry_count := it_retry_count it, mb_priority := it_priority it,
                 mb_retry_at := it_retry_at it, mb_updated_at := now\<rparr>
      in return_in (ms_put k m' st1)
           (Some \<lparr>ml_tenant_id = fst k, ml_session_id = snd k, ml_inbound_id = it_inbound_id it,
                  ml_sequence = sequence, ml_owner_id = owner_id, ml_epoch = epoch,
                  ml_expires_at = expires_at, ml_attempt = attempt,
                  ml_retry_count = it_retry_count it, ml_priority = it_priority it\<rparr>))"

definition claim ::
    "session_key \<Rightarrow> string \<Rightarrow> duration \<Rightarrow> time
     \<Rightarrow> mailbox_store \<Rightarrow> (mailbox_lease option, mailbox_store) outcome"
where
  "claim k owner_id lease_for now st =
     (case validate_ids [fst k, snd k, owner_id] of Some e \<Rightarrow> raise_in st e | None \<Rightarrow>
      case validate_lease_for lease_for of Some e \<Rightarrow> raise_in st e | None \<Rightarrow>
      case ms_get k st of
        None \<Rightarrow> return_in st None
      | Some m \<Rightarrow>
          if later_than (mb_lease_expires_at m) now then return_in st None
          else case mb_processing_sequence m of
            Some sequence \<Rightarrow>
              (case ms_item k sequence st of
                 None \<Rightarrow> return_in st None
               | Some it \<Rightarrow> grant_claim k owner_id lease_for now m sequence it st)
          | None \<Rightarrow>
              if mb_accepted_sequence m \<le> mb_resolved_sequence m
              then return_in (ms_put k (m\<lparr>mb_status := IDLE, mb_updated_at := now\<rparr>) st) None
              else (let sequence = mb_resolved_sequence m + 1
                    in case ms_item k sequence st of
                         None \<Rightarrow> return_in st None
                       | Some it \<Rightarrow>
                           if later_than (it_retry_at it) now
                           then return_in
                                  (ms_put k (m\<lparr>mb_status := RETRY_WAIT,
                                               mb_retry_at := it_retry_at it,
                                               mb_updated_at := now\<rparr>) st) None
                           else grant_claim k owner_id lease_for now m sequence it st))"

definition claim_session ::
    "session_key \<Rightarrow> string \<Rightarrow> duration \<Rightarrow> int option \<Rightarrow> int option \<Rightarrow> acceptance option \<Rightarrow> time
     \<Rightarrow> mailbox_store \<Rightarrow> (session_claim, mailbox_store) outcome"
where
  "claim_session k owner_id lease_for expected_generation expected_epoch acc now st =
     (let expected = (case expected_generation of None \<Rightarrow> expected_epoch | Some g \<Rightarrow> Some g);
          before = (case ms_get k st of
                      None \<Rightarrow> new_session_mailbox (fst k) (snd k) now | Some m \<Rightarrow> m);
          result = (\<lambda>s m l. \<lparr>sc_status = s, sc_mailbox = m, sc_lease = l, sc_acceptance = acc,
                             sc_execution_lease = None\<rparr>)
      in if expected \<noteq> None \<and> expected \<noteq> Some (int (mb_queue_generation before))
         then return_in st (result STALE before None)
         else case claim k owner_id lease_for now st of
                (Inl e, st1) \<Rightarrow> raise_in st1 e
              | (Inr lease, st1) \<Rightarrow>
                  (let m = (case ms_get k st1 of None \<Rightarrow> before | Some m \<Rightarrow> m)
                   in if lease \<noteq> None then return_in st1 (result CLAIMED m lease)
                      else if later_than (mb_lease_expires_at m) now
                      then return_in st1 (result CLAIM_RUNNING m None)
                      else if expected \<noteq> None \<and> expected \<noteq> Some (int (mb_queue_generation m))
                      then return_in st1 (result STALE m None)
                      else return_in st1 (result EMPTY m None)))"

subsection \<open>Renewing\<close>

definition renew ::
    "mailbox_lease \<Rightarrow> duration \<Rightarrow> time \<Rightarrow> mailbox_store \<Rightarrow> (mailbox_lease, mailbox_store) outcome"
where
  "renew lease lease_for now st =
     (case validate_lease_for lease_for of Some e \<Rightarrow> raise_in st e | None \<Rightarrow>
      case require_owned (ml_key lease) lease now st of
        Inl e \<Rightarrow> raise_in st e
      | Inr m \<Rightarrow>
          (let expires_at = (case mb_lease_expires_at m of
                               None \<Rightarrow> now + lease_for | Some t \<Rightarrow> max (now + lease_for) (t + 1))
           in return_in
                (ms_put (ml_key lease)
                   (m\<lparr>mb_lease_expires_at := Some expires_at, mb_updated_at := now\<rparr>) st)
                (lease\<lparr>ml_expires_at := expires_at\<rparr>)))"

fun renew_many ::
    "mailbox_lease list \<Rightarrow> duration \<Rightarrow> time \<Rightarrow> mailbox_store
     \<Rightarrow> (mailbox_lease list, mailbox_store) outcome"
where
  "renew_many [] lease_for now st = return_in st []"
| "renew_many (l # ls) lease_for now st =
     (case renew l lease_for now st of
        (Inl e, st1) \<Rightarrow> raise_in st1 e
      | (Inr l', st1) \<Rightarrow>
          (case renew_many ls lease_for now st1 of
             (Inl e, st2) \<Rightarrow> raise_in st2 e
           | (Inr ls', st2) \<Rightarrow> return_in st2 (l' # ls')))"

subsection \<open>Committing and releasing\<close>

definition commit ::
    "mailbox_lease \<Rightarrow> time \<Rightarrow> mailbox_store \<Rightarrow> (session_mailbox, mailbox_store) outcome"
where
  "commit lease now st =
     (case require_owned (ml_key lease) lease now st of
        Inl e \<Rightarrow> raise_in st e
      | Inr m \<Rightarrow>
          if mb_processing_sequence m \<noteq> Some (ml_sequence lease)
          then raise_in st (FencingConflict ''mailbox sequence is no longer current'')
          else
            (let k = ml_key lease;
                 next_item = ms_item k (ml_sequence lease + 1) st;
                 resolved = m\<lparr>mb_resolved_sequence := ml_sequence lease,
                              mb_processing_sequence := None, mb_processing_inbound_id := None,
                              mb_lease_owner := None, mb_lease_expires_at := None,
                              mb_status := ready_status m (ml_sequence lease) now,
                              mb_retry_at := None, mb_updated_at := now\<rparr>;
                 (resolved', st1) =
                   (case next_item of
                      None \<Rightarrow> (resolved, st)
                    | Some it \<Rightarrow>
                        if later_than (it_retry_at it) now
                        then (resolved\<lparr>mb_status := RETRY_WAIT, mb_retry_at := it_retry_at it\<rparr>, st)
                        else emit_ready (resolved\<lparr>mb_status := QUEUED\<rparr>) it now st)
             in return_in (ms_put k resolved' st1) resolved'))"

definition release ::
    "mailbox_lease \<Rightarrow> time option \<Rightarrow> int option \<Rightarrow> bool \<Rightarrow> bool \<Rightarrow> time
     \<Rightarrow> mailbox_store \<Rightarrow> (session_mailbox, mailbox_store) outcome"
where
  "release lease retry_at priority increment_retry emit now st =
     (case (case priority of None \<Rightarrow> None | Some p \<Rightarrow> validate_priority p) of
        Some e \<Rightarrow> raise_in st e
      | None \<Rightarrow>
      case require_owned (ml_key lease) lease now st of
        Inl e \<Rightarrow> raise_in st e
      | Inr m \<Rightarrow>
          if mb_processing_sequence m \<noteq> Some (ml_sequence lease)
          then raise_in st (FencingConflict ''mailbox sequence is no longer current'')
          else
            (let k = ml_key lease
             in case ms_item k (ml_sequence lease) st of
                  None \<Rightarrow> raise_in st (KeyError ''mailbox item'')
                | Some it \<Rightarrow>
                    (let retries = it_retry_count it + (if increment_retry then 1 else 0);
                         it' = it\<lparr>it_retry_count := retries, it_retry_at := retry_at,
                                  it_priority := (case priority of None \<Rightarrow> it_priority it
                                                                 | Some p \<Rightarrow> p)\<rparr>;
                         st1 = ms_put_item k (ml_sequence lease) it' st;
                         status0 = ready_status (m\<lparr>mb_retry_at := retry_at\<rparr>)
                                     (mb_resolved_sequence m) now;
                         status = (if emit then status0 else RETRY_WAIT);
                         updated = m\<lparr>mb_status := status, mb_processing_sequence := None,
                                     mb_processing_inbound_id := None, mb_lease_owner := None,
                                     mb_lease_expires_at := None, mb_retry_count := retries,
                                     mb_attempt := it_attempt it, mb_priority := it_priority it',
                                     mb_retry_at := retry_at, mb_updated_at := now\<rparr>;
                         (updated', st2) =
                           (if status = QUEUED \<and> emit then emit_ready updated it' now st1
                            else (updated, st1))
                     in return_in (ms_put k updated' st2) updated')))"

definition reschedule ::
    "mailbox_lease \<Rightarrow> time option \<Rightarrow> int option \<Rightarrow> time
     \<Rightarrow> mailbox_store \<Rightarrow> (session_mailbox, mailbox_store) outcome"
where
  "reschedule lease retry_at priority now = release lease retry_at priority False True now"

definition retry ::
    "mailbox_lease \<Rightarrow> time option \<Rightarrow> int option \<Rightarrow> time
     \<Rightarrow> mailbox_store \<Rightarrow> (session_mailbox, mailbox_store) outcome"
where
  "retry lease retry_at priority now = release lease retry_at priority True True now"

definition retry_without_wakeup ::
    "mailbox_lease \<Rightarrow> time option \<Rightarrow> time
     \<Rightarrow> mailbox_store \<Rightarrow> (session_mailbox, mailbox_store) outcome"
where
  "retry_without_wakeup lease retry_at now = release lease retry_at None True False now"

subsection \<open>Recovery\<close>

text \<open>\<^verbatim>\<open>mailbox.processing_sequence or mailbox.resolved_sequence + 1\<close>.\<close>

definition head_sequence :: "session_mailbox \<Rightarrow> nat" where
  "head_sequence m =
     (case mb_processing_sequence m of
        None \<Rightarrow> mb_resolved_sequence m + 1
      | Some n \<Rightarrow> if n = 0 then mb_resolved_sequence m + 1 else n)"

text \<open>The status an unleased mailbox should have, judged from its head item.\<close>

definition head_status ::
    "mailbox_item option \<Rightarrow> nat \<Rightarrow> session_mailbox \<Rightarrow> time \<Rightarrow> mailbox_status \<times> time option"
where
  "head_status item sequence m now =
     (case item of
        None \<Rightarrow> (IDLE, None)
      | Some it \<Rightarrow>
          if mb_accepted_sequence m < sequence then (IDLE, None)
          else if later_than (it_retry_at it) now then (RETRY_WAIT, it_retry_at it)
          else (QUEUED, None))"

definition recover ::
    "session_key \<Rightarrow> time \<Rightarrow> mailbox_store \<Rightarrow> session_mailbox option \<times> mailbox_store"
where
  "recover k now st =
     (case ms_get k st of
        None \<Rightarrow> (None, st)
      | Some m \<Rightarrow>
          if \<not> not_later_than (mb_lease_expires_at m) now then (None, st)
          else
            (let sequence = head_sequence m;
                 item = ms_item k sequence st;
                 (status, retry_at) = head_status item sequence m now;
                 updated = m\<lparr>mb_status := status, mb_processing_sequence := None,
                             mb_processing_inbound_id := None, mb_lease_owner := None,
                             mb_lease_expires_at := None, mb_retry_at := retry_at,
                             mb_updated_at := now\<rparr>;
                 (updated', st1) =
                   (case item of
                      Some it \<Rightarrow> if status = QUEUED then emit_ready updated it now st
                                 else (updated, st)
                    | None \<Rightarrow> (updated, st))
             in (Some updated', ms_put k updated' st1)))"

definition lease_active :: "session_mailbox \<Rightarrow> time \<Rightarrow> bool" where
  "lease_active m now =
     (mb_processing_sequence m \<noteq> None \<and> mb_processing_inbound_id m \<noteq> None
      \<and> mb_lease_owner m \<noteq> None \<and> mb_lease_expires_at m \<noteq> None
      \<and> \<not> not_later_than (mb_lease_expires_at m) now)"

definition reconcile ::
    "session_key \<Rightarrow> time \<Rightarrow> mailbox_store \<Rightarrow> session_mailbox option \<times> mailbox_store"
where
  "reconcile k now st =
     (case ms_get k st of
        None \<Rightarrow> (None, st)
      | Some m \<Rightarrow>
          (let active = lease_active m now;
               sequence = head_sequence m;
               item = ms_item k sequence st;
               (status0, retry_at) = head_status item sequence m now;
               status = (if active then RUNNING else status0);
               queued_is_recent =
                 (\<not> active \<and> status = QUEUED \<and> item \<noteq> None \<and> mb_status m = QUEUED
                  \<and> now - mb_updated_at m < RECONCILE_READY_GRACE)
           in if queued_is_recent then (Some m, st)
              else
                (let updated = m\<lparr>mb_status := status,
                       mb_processing_sequence := (if active then mb_processing_sequence m else None),
                       mb_processing_inbound_id :=
                         (if active then mb_processing_inbound_id m else None),
                       mb_lease_owner := (if active then mb_lease_owner m else None),
                       mb_lease_expires_at := (if active then mb_lease_expires_at m else None),
                       mb_retry_at := (if active then mb_retry_at m else retry_at),
                       mb_updated_at := now\<rparr>;
                     (updated', st1) =
                       (case item of
                          None \<Rightarrow> (updated, st)
                        | Some it \<Rightarrow>
                            if \<not> active \<and> status = QUEUED
                            then if mb_status m = QUEUED \<and> 1 \<le> mb_queue_generation m
                                 then requeue_ready updated it now st
                                 else emit_ready updated it now st
                            else (updated, st))
                 in (Some updated', ms_put k updated' st1))))"

text \<open>
  The three batch loops iterate over a snapshot of the keys (\<^verbatim>\<open>tuple(self._mailboxes)\<close>). The index
  \<^verbatim>\<open>self._mailboxes[key]\<close> cannot fail: no method removes a mailbox.
\<close>

fun sweep_loop ::
    "session_key list \<Rightarrow> nat \<Rightarrow> nat \<Rightarrow> time \<Rightarrow> mailbox_store \<Rightarrow> nat \<times> mailbox_store"
where
  "sweep_loop [] handled limit now st = (handled, st)"
| "sweep_loop (k # ks) handled limit now st =
     (if limit \<le> handled then (handled, st)
      else case ms_get k st of
             None \<Rightarrow> sweep_loop ks handled limit now st
           | Some m \<Rightarrow>
               if not_later_than (mb_lease_expires_at m) now
               then (case recover k now st of
                       (None, st1) \<Rightarrow> sweep_loop ks handled limit now st1
                     | (Some _, st1) \<Rightarrow> sweep_loop ks (Suc handled) limit now st1)
               else sweep_loop ks handled limit now st)"

definition recovery_limit_error :: error where
  "recovery_limit_error = ValueError ''recovery limit must be positive''"

definition sweep_expired_leases ::
    "int \<Rightarrow> time \<Rightarrow> mailbox_store \<Rightarrow> (nat, mailbox_store) outcome"
where
  "sweep_expired_leases limit now st =
     (if limit < 1 then raise_in st recovery_limit_error
      else let (n, st1) = sweep_loop (map fst (ms_mailboxes st)) 0 (nat limit) now st
           in return_in st1 n)"

fun schedule_loop ::
    "session_key list \<Rightarrow> nat \<Rightarrow> nat \<Rightarrow> time \<Rightarrow> mailbox_store \<Rightarrow> nat \<times> mailbox_store"
where
  "schedule_loop [] handled limit now st = (handled, st)"
| "schedule_loop (k # ks) handled limit now st =
     (if limit \<le> handled then (handled, st)
      else case ms_get k st of
             None \<Rightarrow> schedule_loop ks handled limit now st
           | Some m \<Rightarrow>
               if mb_status m = RETRY_WAIT \<and> not_later_than (mb_retry_at m) now
               then (case reconcile k now st of
                       (None, st1) \<Rightarrow> schedule_loop ks handled limit now st1
                     | (Some _, st1) \<Rightarrow> schedule_loop ks (Suc handled) limit now st1)
               else schedule_loop ks handled limit now st)"

definition schedule_retries ::
    "int \<Rightarrow> time \<Rightarrow> mailbox_store \<Rightarrow> (nat, mailbox_store) outcome"
where
  "schedule_retries limit now st =
     (if limit < 1 then raise_in st recovery_limit_error
      else let (n, st1) = schedule_loop (map fst (ms_mailboxes st)) 0 (nat limit) now st
           in return_in st1 n)"

fun reconcile_loop ::
    "session_key list \<Rightarrow> nat \<Rightarrow> nat \<Rightarrow> time \<Rightarrow> mailbox_store \<Rightarrow> nat \<times> mailbox_store"
where
  "reconcile_loop [] handled limit now st = (handled, st)"
| "reconcile_loop (k # ks) handled limit now st =
     (if limit \<le> handled then (handled, st)
      else case ms_get k st of
             None \<Rightarrow> reconcile_loop ks handled limit now st
           | Some m \<Rightarrow>
               if mb_status m = RUNNING then reconcile_loop ks handled limit now st
               else (case reconcile k now st of
                       (None, st1) \<Rightarrow> reconcile_loop ks handled limit now st1
                     | (Some _, st1) \<Rightarrow> reconcile_loop ks (Suc handled) limit now st1))"

definition reconcile_sessions ::
    "int \<Rightarrow> time \<Rightarrow> mailbox_store \<Rightarrow> (nat, mailbox_store) outcome"
where
  "reconcile_sessions limit now st =
     (if limit < 1 then raise_in st recovery_limit_error
      else let (n, st1) = reconcile_loop (map fst (ms_mailboxes st)) 0 (nat limit) now st
           in return_in st1 n)"

end
