(* ===== verification/Mailbox_Inv.thy ===== *)
theory Mailbox_Inv
  imports Mailbox
begin

text \<open>
  The invariant of the in-memory mailbox store and its preservation by every operation of
  \<^verbatim>\<open>InMemorySessionMailboxStore\<close>. \<open>mailbox_wf\<close> constrains one mailbox row (contiguous
  sequences, status against backlog, the six lease columns set or clear together),
  \<open>items_wf\<close> its accepted items (one per sequence number, distinct inbound ids),
  \<open>generations_upto\<close> the wake-up records it has emitted (exactly one per generation), and
  \<open>store_inv\<close> puts them together for every session of the store.
\<close>

declare map_of_eq_Some_iff [simp del]

definition ready_generations :: "session_key \<Rightarrow> mailbox_store \<Rightarrow> jval option list" where
  "ready_generations k st =
     map (\<lambda>r. map_of (ob_payload r) ''generation'') (filter (ready_record_for k) (ms_outbox st))"

definition mailbox_wf :: "session_mailbox \<Rightarrow> bool" where
  "mailbox_wf m \<longleftrightarrow>
     mb_resolved_sequence m \<le> mb_accepted_sequence m
   \<and> (mb_status m = IDLE \<longleftrightarrow> mb_resolved_sequence m = mb_accepted_sequence m)
   \<and> (mb_status m = QUEUED \<longrightarrow> 1 \<le> mb_queue_generation m)
   \<and> (if mb_status m = RUNNING
      then mb_processing_sequence m = Some (mb_resolved_sequence m + 1)
         \<and> mb_processing_inbound_id m \<noteq> None \<and> mb_lease_owner m \<noteq> None
         \<and> mb_lease_expires_at m \<noteq> None \<and> 1 \<le> mb_lease_epoch m
      else mb_processing_sequence m = None \<and> mb_processing_inbound_id m = None
         \<and> mb_lease_owner m = None \<and> mb_lease_expires_at m = None)"

definition items_wf :: "session_key \<Rightarrow> nat \<Rightarrow> (nat \<times> mailbox_item) list \<Rightarrow> bool" where
  "items_wf k accepted items \<longleftrightarrow>
     distinct (map fst items)
   \<and> dom (map_of items) = {1..accepted}
   \<and> (\<forall>n it. map_of items n = Some it \<longrightarrow>
        it_sequence it = n \<and> it_tenant_id it = fst k \<and> it_session_id it = snd k)
   \<and> (\<forall>i j a b. map_of items i = Some a \<longrightarrow> map_of items j = Some b \<longrightarrow>
        it_inbound_id a = it_inbound_id b \<longrightarrow> i = j)"

definition generations_upto :: "nat \<Rightarrow> jval option list" where
  "generations_upto n = map (\<lambda>g. Some (JInt (int g))) [1..<Suc n]"

definition session_wf ::
    "session_key \<Rightarrow> session_mailbox option \<Rightarrow> (nat \<times> mailbox_item) list \<Rightarrow> jval option list \<Rightarrow> bool"
where
  "session_wf k mo items gens =
     (case mo of
        None \<Rightarrow> items = [] \<and> gens = []
      | Some m \<Rightarrow> mb_tenant_id m = fst k \<and> mb_session_id m = snd k
          \<and> mailbox_wf m
          \<and> items_wf k (mb_accepted_sequence m) items
          \<and> gens = generations_upto (mb_queue_generation m)
          \<and> (\<forall>n. mb_processing_sequence m = Some n \<longrightarrow>
               (\<exists>it. map_of items n = Some it
                   \<and> mb_processing_inbound_id m = Some (it_inbound_id it))))"

definition store_inv :: "mailbox_store \<Rightarrow> bool" where
  "store_inv st \<longleftrightarrow>
     distinct (map fst (ms_mailboxes st))
   \<and> (\<forall>k. session_wf k (ms_get k st) (ms_items st k) (ready_generations k st))"

subsection \<open>Effect of the primitive updates\<close>

lemma ms_get_put [fields_simps]: "ms_get k' (ms_put k m st) = (if k' = k then Some m else ms_get k' st)"
  by (simp add: ms_get_def ms_put_def)

lemma ms_put_other [fields_simps]:
  "ms_items (ms_put k m st) = ms_items st"
  "ms_outbox (ms_put k m st) = ms_outbox st"
  "ms_uuid (ms_put k m st) = ms_uuid st"
  "ms_uuids_drawn (ms_put k m st) = ms_uuids_drawn st"
  "ready_generations k' (ms_put k m st) = ready_generations k' st"
  by (simp_all add: ms_put_def ready_generations_def)

lemma ms_put_item_other [fields_simps]:
  "ms_mailboxes (ms_put_item k n it st) = ms_mailboxes st"
  "ms_get k' (ms_put_item k n it st) = ms_get k' st"
  "ms_outbox (ms_put_item k n it st) = ms_outbox st"
  "ms_uuid (ms_put_item k n it st) = ms_uuid st"
  "ms_uuids_drawn (ms_put_item k n it st) = ms_uuids_drawn st"
  "ready_generations k' (ms_put_item k n it st) = ready_generations k' st"
  by (simp_all add: ms_put_item_def ready_generations_def ms_get_def)

lemma ms_items_put_item [fields_simps]:
  "ms_items (ms_put_item k n it st) k' =
     (if k' = k then AList.update n it (ms_items st k) else ms_items st k')"
  by (simp add: ms_put_item_def)

lemma ms_item_put_item [fields_simps]:
  "ms_item k' n' (ms_put_item k n it st) =
     (if k' = k \<and> n' = n then Some it else ms_item k' n' st)"
  by (simp add: ms_put_item_def ms_item_def)

lemma ms_item_put [fields_simps]: "ms_item k' n (ms_put k m st) = ms_item k' n st"
  by (simp add: ms_put_def ms_item_def)

lemma distinct_keys_put [simp]:
  "distinct (map fst (ms_mailboxes st)) \<Longrightarrow> distinct (map fst (ms_mailboxes (ms_put k m st)))"
  by (simp add: ms_put_def distinct_update)

lemma fst_append_ready [simp]: "fst (append_ready m it now g st) = m"
  by (simp add: append_ready_def)

lemma snd_append_ready [fields_simps]:
  "ms_mailboxes (snd (append_ready m it now g st)) = ms_mailboxes st"
  "ms_get k (snd (append_ready m it now g st)) = ms_get k st"
  "ms_items (snd (append_ready m it now g st)) = ms_items st"
  "ms_item k n (snd (append_ready m it now g st)) = ms_item k n st"
  "ms_uuid (snd (append_ready m it now g st)) = ms_uuid st"
  by (simp_all add: append_ready_def ms_get_def ms_item_def)

lemma ready_generations_append_ready [fields_simps]:
  "ready_generations k (snd (append_ready m it now g st)) =
     ready_generations k st @ (if mb_key m = k then [Some (JInt (int g))] else [])"
  by (auto simp: append_ready_def ready_generations_def ready_record_for_def)

lemma emit_ready_eq:
  "emit_ready m it now st =
     (m\<lparr>mb_queue_generation := mb_queue_generation m + 1\<rparr>,
      snd (append_ready (m\<lparr>mb_queue_generation := mb_queue_generation m + 1\<rparr>) it now
             (mb_queue_generation m + 1) st))"
  by (simp add: emit_ready_def Let_def append_ready_def)

lemma generations_upto_Suc: "generations_upto (Suc n) = generations_upto n @ [Some (JInt (int (Suc n)))]"
  by (simp add: generations_upto_def)

lemma generations_upto_0 [simp]: "generations_upto 0 = []"
  by (simp add: generations_upto_def)

text \<open>An operation on one session leaves the invariant of the others alone.\<close>

lemma store_inv_session:
  "store_inv st \<Longrightarrow> session_wf k (ms_get k st) (ms_items st k) (ready_generations k st)"
  unfolding store_inv_def by blast

lemma store_inv_distinct: "store_inv st \<Longrightarrow> distinct (map fst (ms_mailboxes st))"
  by (simp add: store_inv_def)

lemma store_inv_local:
  assumes "store_inv st" and "distinct (map fst (ms_mailboxes st'))"
    and "\<And>k'. k' \<noteq> k \<Longrightarrow> ms_get k' st' = ms_get k' st"
    and "\<And>k'. k' \<noteq> k \<Longrightarrow> ms_items st' k' = ms_items st k'"
    and "\<And>k'. k' \<noteq> k \<Longrightarrow> ready_generations k' st' = ready_generations k' st"
    and "session_wf k (ms_get k st') (ms_items st' k) (ready_generations k st')"
  shows "store_inv st'"
proof -
  have "session_wf k' (ms_get k' st') (ms_items st' k') (ready_generations k' st')" for k'
    using assms(3-6) store_inv_session [OF assms(1), of k'] by (cases "k' = k") simp_all
  then show ?thesis using assms(2) by (simp add: store_inv_def)
qed

lemma store_invD:
  assumes "store_inv st" and "ms_get k st = Some m"
  shows "mb_tenant_id m = fst k" and "mb_session_id m = snd k" and "mailbox_wf m"
    and "items_wf k (mb_accepted_sequence m) (ms_items st k)"
    and "ready_generations k st = generations_upto (mb_queue_generation m)"
    and "mb_processing_sequence m = Some n \<Longrightarrow>
           \<exists>it. ms_item k n st = Some it \<and> mb_processing_inbound_id m = Some (it_inbound_id it)"
  using store_inv_session [OF assms(1), of k] assms(2) by (auto simp: session_wf_def ms_item_def)

lemma store_inv_absent:
  "store_inv st \<Longrightarrow> ms_get k st = None \<Longrightarrow> ms_items st k = [] \<and> ready_generations k st = []"
  by (drule store_inv_session [of _ k]) (simp add: session_wf_def)

text \<open>
  Every operation ends by storing the mailbox of its session. The rule reduces the preservation of
  the invariant to the mailbox stored, the items and the wake-ups of that session.
\<close>

lemma store_inv_put:
  assumes "store_inv st" and "ms_mailboxes st1 = ms_mailboxes st"
    and "\<And>k'. k' \<noteq> k \<Longrightarrow> ms_items st1 k' = ms_items st k'"
    and "\<And>k'. k' \<noteq> k \<Longrightarrow> ready_generations k' st1 = ready_generations k' st"
    and "mb_tenant_id m = fst k" and "mb_session_id m = snd k"
    and "mailbox_wf m"
    and "items_wf k (mb_accepted_sequence m) (ms_items st1 k)"
    and "ready_generations k st1 = generations_upto (mb_queue_generation m)"
    and "\<And>n. mb_processing_sequence m = Some n \<Longrightarrow>
           \<exists>it. ms_item k n st1 = Some it \<and> mb_processing_inbound_id m = Some (it_inbound_id it)"
  shows "store_inv (ms_put k m st1)"
proof (rule store_inv_local [OF assms(1), where k = k])
  show "distinct (map fst (ms_mailboxes (ms_put k m st1)))"
    using store_inv_distinct [OF assms(1)] assms(2) by simp
  show "session_wf k (ms_get k (ms_put k m st1)) (ms_items (ms_put k m st1) k)
      (ready_generations k (ms_put k m st1))"
    using assms(5-10) by (simp add: session_wf_def fields_simps ms_item_def)
  show "ms_get k' (ms_put k m st1) = ms_get k' st" if "k' \<noteq> k" for k'
    using that assms(2) by (simp add: ms_get_put) (simp add: ms_get_def)
qed (use assms(3,4) in \<open>simp_all add: fields_simps\<close>)

lemma items_wf_update:
  assumes "items_wf k acc items" and "map_of items n = Some it"
    and "it_sequence it' = it_sequence it" and "it_tenant_id it' = it_tenant_id it"
    and "it_session_id it' = it_session_id it" and "it_inbound_id it' = it_inbound_id it"
  shows "items_wf k acc (AList.update n it' items)"
proof -
  have "dom (map_of (AList.update n it' items)) = {1..acc}"
    using assms(1,2) by (auto simp: items_wf_def)
  moreover have "distinct (map fst (AList.update n it' items))"
    using assms(1) by (simp add: items_wf_def distinct_update)
  moreover have "i = j"
    if "map_of (AList.update n it' items) i = Some a" "map_of (AList.update n it' items) j = Some b"
      "it_inbound_id a = it_inbound_id b" for i j a b
    using assms that by (auto simp: items_wf_def split: if_splits)
  moreover have "it_sequence a = i \<and> it_tenant_id a = fst k \<and> it_session_id a = snd k"
    if "map_of (AList.update n it' items) i = Some a" for i a
    using assms that by (auto simp: items_wf_def split: if_splits)
  ultimately show ?thesis unfolding items_wf_def by blast
qed

lemma items_wf_append:
  assumes "items_wf k acc items" and "find (\<lambda>it. it_inbound_id it = it_inbound_id it') (map snd items) = None"
    and "it_sequence it' = Suc acc" and "it_tenant_id it' = fst k" and "it_session_id it' = snd k"
  shows "items_wf k (Suc acc) (AList.update (Suc acc) it' items)"
proof -
  have d: "distinct (map fst items)" and dm: "dom (map_of items) = {1..acc}"
    using assms(1) by (auto simp: items_wf_def)
  have new: "it_inbound_id a \<noteq> it_inbound_id it'" if "map_of items i = Some a" for i a
    using find_None_map_of [OF d assms(2) that] .
  have "dom (map_of (AList.update (Suc acc) it' items)) = {1..Suc acc}"
    using dm by auto
  moreover have "distinct (map fst (AList.update (Suc acc) it' items))"
    using d by (simp add: distinct_update)
  moreover have "i = j"
    if "map_of (AList.update (Suc acc) it' items) i = Some a"
      "map_of (AList.update (Suc acc) it' items) j = Some b"
      "it_inbound_id a = it_inbound_id b" for i j a b
    using assms(1) that new [of i a] new [of j b] by (auto simp: items_wf_def split: if_splits)
  moreover have "it_sequence a = i \<and> it_tenant_id a = fst k \<and> it_session_id a = snd k"
    if "map_of (AList.update (Suc acc) it' items) i = Some a" for i a
    using assms that by (auto simp: items_wf_def split: if_splits)
  ultimately show ?thesis unfolding items_wf_def by blast
qed

lemma item_exists:
  assumes "items_wf k acc items"
  shows "(\<exists>it. map_of items n = Some it) \<longleftrightarrow> 1 \<le> n \<and> n \<le> acc"
  using assms by (auto simp: items_wf_def dom_def set_eq_iff)

subsection \<open>Preservation, operation by operation\<close>

lemma store_inv_ensure:
  assumes "store_inv st" and "ms_get k st = None"
  shows "store_inv (ms_put k (new_session_mailbox (fst k) (snd k) now) st)"
  using assms store_inv_absent [OF assms]
  by (intro store_inv_put [where st = st]) (auto simp: new_session_mailbox_def mailbox_wf_def items_wf_def)

lemma accept_status_cases:
  assumes "accept_status m r now = (s, t)"
  shows "s \<noteq> IDLE" and "s = RUNNING \<longleftrightarrow> mb_status m = RUNNING"
    and "s = QUEUED \<longrightarrow> mb_status m \<noteq> QUEUED \<longrightarrow> mb_status m \<in> {IDLE, RETRY_WAIT}"
  using assms by (auto simp: accept_status_def split: mailbox_status.splits if_splits)

lemma accept_new_inv:
  assumes "store_inv st" and "ms_get k st = Some m"
    and "find (\<lambda>it. it_inbound_id it = inbound) (map snd (ms_items st k)) = None"
  shows "store_inv (snd (accept_new k inbound p r tr now m st))"
proof (cases "length (str_or tr inbound) > 512")
  case True
  then show ?thesis using assms(1) by (simp add: accept_new_def)
next
  case False
  obtain s t where s: "accept_status m r now = (s, t)" by fastforce
  note d = store_invD [OF assms(1,2)]
  note c = accept_status_cases [OF s]
  let ?it = "\<lparr>it_tenant_id = fst k, it_session_id = snd k, it_inbound_id = inbound,
                     it_sequence = Suc (mb_accepted_sequence m), it_trace_id = str_or tr inbound, it_priority = p,
                     it_retry_count = 0, it_attempt = 0, it_retry_at = r,
                     it_accepted_at = now\<rparr>"
  have iw: "items_wf k (Suc (mb_accepted_sequence m))
      (AList.update (Suc (mb_accepted_sequence m)) ?it (ms_items st k))"
    using d(4) assms(3) by (intro items_wf_append) simp_all
  have pr: "\<exists>it. ms_item k n (ms_put_item k (Suc (mb_accepted_sequence m)) ?it st) = Some it
      \<and> mb_processing_inbound_id m = Some (it_inbound_id it)"
    if "mb_processing_sequence m = Some n" for n
    using d(3) d(6) [OF that] that by (auto simp: mailbox_wf_def fields_simps split: if_splits)
  show ?thesis
    using False s c d(1,2,3,5) iw pr unfolding accept_new_def
    by (auto simp: Let_def emit_ready_eq fields_simps mailbox_wf_def generations_upto_Suc
        intro!: store_inv_put [OF assms(1)])
qed

subsection \<open>Admission, claiming and renewal\<close>

lemma accept_inv [inv_intros]:
  assumes "store_inv st"
  shows "store_inv (snd (accept k inbound p r tr now st))"
proof (cases "ms_get k st")
  case None
  let ?m = "new_session_mailbox (fst k) (snd k) now"
  have i: "store_inv (ms_put k ?m st)" using assms None by (rule store_inv_ensure)
  have g: "ms_get k (ms_put k ?m st) = Some ?m" by (simp add: fields_simps)
  have "find (\<lambda>it. it_inbound_id it = inbound) (map snd (ms_items (ms_put k ?m st) k)) = None"
    using store_inv_absent [OF assms None] by (simp add: fields_simps)
  from accept_new_inv [OF i g this] show ?thesis
    using None assms i by (auto simp: accept_def ensure_mailbox_def Let_def split: option.splits)
next
  case (Some m)
  then show ?thesis using assms accept_new_inv [OF assms Some]
    by (auto simp: accept_def Let_def split: option.splits)
qed

lemma grant_claim_inv:
  assumes "store_inv st" and "ms_get k st = Some m" and "ms_item k n st = Some it"
    and "n = mb_resolved_sequence m + 1" and "n \<le> mb_accepted_sequence m"
  shows "store_inv (snd (grant_claim k owner lf now m n it st))"
proof -
  note d = store_invD [OF assms(1,2)]
  have "items_wf k (mb_accepted_sequence m)
      (AList.update n (it\<lparr>it_attempt := it_attempt it + 1\<rparr>) (ms_items st k))"
    using d(4) assms(3) by (intro items_wf_update [where it = it]) (simp_all add: ms_item_def)
  then show ?thesis using d assms(4,5)
    unfolding grant_claim_def Let_def snd_conv
    by (intro store_inv_put [OF assms(1)]) (auto simp: fields_simps mailbox_wf_def)
qed

text \<open>An update of the mailbox row alone.\<close>

lemma store_inv_put_row:
  assumes "store_inv st" and "ms_get k st = Some m"
    and "mb_tenant_id m' = mb_tenant_id m" and "mb_session_id m' = mb_session_id m"
    and "mb_accepted_sequence m' = mb_accepted_sequence m"
    and "mb_queue_generation m' = mb_queue_generation m"
    and "mb_processing_sequence m' \<noteq> None \<Longrightarrow>
           mb_processing_sequence m' = mb_processing_sequence m
         \<and> mb_processing_inbound_id m' = mb_processing_inbound_id m"
    and "mailbox_wf m'"
  shows "store_inv (ms_put k m' st)"
  using store_invD [OF assms(1,2)] assms(3-8) by (intro store_inv_put [OF assms(1)]) auto

lemma claim_inv [inv_intros]:
  assumes "store_inv st"
  shows "store_inv (snd (claim k owner lf now st))"
proof (cases "ms_get k st")
  case None
  then show ?thesis using assms by (auto simp: claim_def split: option.splits)
next
  case (Some m)
  note d = store_invD [OF assms Some]
  show ?thesis
  proof (cases "mb_processing_sequence m")
    case None
    have "store_inv (ms_put k (m\<lparr>mb_status := IDLE, mb_updated_at := now\<rparr>) st)"
      if "mb_accepted_sequence m \<le> mb_resolved_sequence m"
      using that d(3) None by (intro store_inv_put_row [OF assms Some]) (auto simp: mailbox_wf_def)
    moreover have "store_inv (ms_put k (m\<lparr>mb_status := RETRY_WAIT, mb_retry_at := r, mb_updated_at := now\<rparr>) st)"
      if "\<not> mb_accepted_sequence m \<le> mb_resolved_sequence m" for r
      using that d(3) None
      by (intro store_inv_put_row [OF assms Some]) (auto simp: mailbox_wf_def split: if_splits)
    moreover have "store_inv (snd (grant_claim k owner lf now m (mb_resolved_sequence m + 1) it st))"
      if "\<not> mb_accepted_sequence m \<le> mb_resolved_sequence m"
        "ms_item k (mb_resolved_sequence m + 1) st = Some it" for it
      using that by (intro grant_claim_inv [OF assms Some]) auto
    ultimately show ?thesis using Some None assms
      by (auto simp: claim_def Let_def split: option.splits)
  next
    case (Some n)
    with d(3) have "n = mb_resolved_sequence m + 1" "n \<le> mb_accepted_sequence m"
      by (auto simp: mailbox_wf_def split: if_splits)
    then have "store_inv (snd (grant_claim k owner lf now m n it st))"
      if "ms_item k n st = Some it" for it
      using that by (intro grant_claim_inv [OF assms \<open>ms_get k st = Some m\<close>]) auto
    then show ?thesis using Some \<open>ms_get k st = Some m\<close> assms
      by (auto simp: claim_def split: option.splits)
  qed
qed

lemma snd_claim_session:
  "snd (claim_session k owner lf eg ee acc now st) = st
   \<or> snd (claim_session k owner lf eg ee acc now st) = snd (claim k owner lf now st)"
  by (auto simp: claim_session_def Let_def split: prod.splits sum.splits)

lemma claim_session_inv [inv_intros]:
  "store_inv st \<Longrightarrow> store_inv (snd (claim_session k owner lf eg ee acc now st))"
  using snd_claim_session [of k owner lf eg ee acc now st] claim_inv by metis

lemma require_owned_Inr:
  "require_owned k lease now st = Inr m \<longleftrightarrow> ms_get k st = Some m \<and> owns (Some m) lease now"
  by (auto simp: require_owned_def split: option.splits if_splits)

lemma require_owned_Inl:
  "require_owned k lease now st = Inl e \<longleftrightarrow>
     \<not> owns (ms_get k st) lease now \<and> e = FencingConflict ''mailbox lease is no longer current''"
  by (auto simp: require_owned_def owns_def split: option.splits if_splits)

lemma renew_inv [inv_intros]:
  assumes "store_inv st"
  shows "store_inv (snd (renew lease lf now st))"
proof (cases "require_owned (ml_key lease) lease now st")
  case (Inl e)
  then show ?thesis using assms by (auto simp: renew_def split: option.splits)
next
  case (Inr m)
  then have g: "ms_get (ml_key lease) st = Some m" and o: "owns (Some m) lease now"
    by (auto simp: require_owned_Inr)
  have "store_inv (ms_put (ml_key lease) (m\<lparr>mb_lease_expires_at := Some t, mb_updated_at := now\<rparr>) st)" for t
    using store_invD(3) [OF assms g] o
    by (intro store_inv_put_row [OF assms g]) (auto simp: mailbox_wf_def owns_def)
  then show ?thesis using Inr assms by (auto simp: renew_def Let_def split: option.splits)
qed

lemma renew_many_inv [inv_intros]:
  "store_inv st \<Longrightarrow> store_inv (snd (renew_many leases lf now st))"
proof (induction leases arbitrary: st)
  case (Cons l ls)
  obtain res st1 where r: "renew l lf now st = (res, st1)" by fastforce
  with renew_inv [OF Cons.prems, of l lf now] have i1: "store_inv st1" by simp
  from Cons.IH [OF i1] show ?case using r i1
    by (auto split: sum.splits prod.splits)
qed simp

lemma owns_wf:
  assumes "store_inv st" and "ms_get k st = Some m" and "owns (Some m) lease now"
  shows "ml_sequence lease = mb_resolved_sequence m + 1"
    and "ml_sequence lease \<le> mb_accepted_sequence m"
    and "mb_processing_sequence m = Some (ml_sequence lease)"
    and "mb_status m = RUNNING"
    and "\<exists>it. ms_item k (ml_sequence lease) st = Some it \<and> ml_inbound_id lease = it_inbound_id it"
  using store_invD(3,6) [OF assms(1,2)] assms(3) by (auto simp: mailbox_wf_def owns_def)

lemma next_item_iff:
  assumes "store_inv st" and "ms_get k st = Some m"
  shows "ms_item k n st = None \<longleftrightarrow> n = 0 \<or> mb_accepted_sequence m < n"
  using item_exists [OF store_invD(4) [OF assms], of n] unfolding ms_item_def by (cases "map_of (ms_items st k) n") auto

subsection \<open>Giving the lease back\<close>

text \<open>A mailbox row without a lease, stored alone or together with a fresh wake-up.\<close>

definition unleased :: "session_mailbox \<Rightarrow> bool" where
  "unleased m \<longleftrightarrow> mb_processing_sequence m = None \<and> mb_processing_inbound_id m = None
     \<and> mb_lease_owner m = None \<and> mb_lease_expires_at m = None"

lemma mailbox_wf_unleased:
  "unleased m \<Longrightarrow> mailbox_wf m \<longleftrightarrow>
     mb_status m \<noteq> RUNNING \<and> mb_resolved_sequence m \<le> mb_accepted_sequence m
   \<and> (mb_status m = IDLE \<longleftrightarrow> mb_resolved_sequence m = mb_accepted_sequence m)
   \<and> (mb_status m = QUEUED \<longrightarrow> 1 \<le> mb_queue_generation m)"
  by (auto simp: mailbox_wf_def unleased_def)

lemma store_inv_put_unleased:
  assumes "store_inv st" and "ms_get k st = Some m"
    and "unleased m'" and "mailbox_wf m'"
    and "mb_tenant_id m' = mb_tenant_id m" and "mb_session_id m' = mb_session_id m"
    and "mb_accepted_sequence m' = mb_accepted_sequence m"
    and "mb_queue_generation m' = mb_queue_generation m"
  shows "store_inv (ms_put k m' st)"
  using assms by (intro store_inv_put_row [OF assms(1,2)]) (auto simp: unleased_def)

lemma store_inv_emit_unleased:
  assumes "store_inv st" and "ms_get k st = Some m"
    and "unleased m'" and "mb_status m' = QUEUED"
    and "mb_resolved_sequence m' < mb_accepted_sequence m'"
    and "mb_tenant_id m' = mb_tenant_id m" and "mb_session_id m' = mb_session_id m"
    and "mb_accepted_sequence m' = mb_accepted_sequence m"
    and "mb_queue_generation m' = mb_queue_generation m"
    and "emit_ready m' it now st = (m'', st')"
  shows "store_inv (ms_put k m'' st')"
proof -
  note d = store_invD [OF assms(1,2)]
  have e: "m'' = m'\<lparr>mb_queue_generation := mb_queue_generation m' + 1\<rparr>"
    "st' = snd (append_ready (m'\<lparr>mb_queue_generation := mb_queue_generation m' + 1\<rparr>) it now
                 (mb_queue_generation m' + 1) st)"
    using assms(10) by (auto simp: emit_ready_eq)
  show ?thesis unfolding e
    using d assms(3-9)
    by (intro store_inv_put [OF assms(1)])
      (auto simp: fields_simps mailbox_wf_def unleased_def generations_upto_Suc)
qed

lemma store_inv_put_item:
  assumes "store_inv st" and "ms_item k n st = Some it"
    and "it_sequence it' = it_sequence it" and "it_tenant_id it' = it_tenant_id it"
    and "it_session_id it' = it_session_id it" and "it_inbound_id it' = it_inbound_id it"
  shows "store_inv (ms_put_item k n it' st)"
proof (cases "ms_get k st")
  case None
  with assms(1,2) show ?thesis by (auto simp: ms_item_def dest!: store_inv_absent)
next
  case (Some m)
  note d = store_invD [OF assms(1) Some]
  have "items_wf k (mb_accepted_sequence m) (AList.update n it' (ms_items st k))"
    using d(4) assms(2-6) by (intro items_wf_update [where it = it]) (simp_all add: ms_item_def)
  moreover have "\<exists>i. ms_item k j (ms_put_item k n it' st) = Some i
      \<and> mb_processing_inbound_id m = Some (it_inbound_id i)"
    if "mb_processing_sequence m = Some j" for j
    using d(6) [OF that] assms(2,6) by (auto simp: fields_simps)
  ultimately have "session_wf k (ms_get k (ms_put_item k n it' st)) (ms_items (ms_put_item k n it' st) k)
      (ready_generations k (ms_put_item k n it' st))"
    using d Some by (auto simp: session_wf_def fields_simps ms_item_def)
  then show ?thesis using store_inv_distinct [OF assms(1)]
    by (intro store_inv_local [OF assms(1), where k = k]) (simp_all add: fields_simps)
qed

lemma commit_inv [inv_intros]:
  assumes "store_inv st"
  shows "store_inv (snd (commit lease now st))"
proof (cases "require_owned (ml_key lease) lease now st")
  case (Inl e)
  then show ?thesis using assms by (simp add: commit_def)
next
  case (Inr m)
  then have g: "ms_get (ml_key lease) st = Some m" and o: "owns (Some m) lease now"
    by (auto simp: require_owned_Inr)
  note w = owns_wf [OF assms g o] and d = store_invD [OF assms g]
  let ?k = "ml_key lease" and ?n = "ml_sequence lease"
  let ?r = "m\<lparr>mb_resolved_sequence := ?n, mb_processing_sequence := None,
     mb_processing_inbound_id := None, mb_lease_owner := None, mb_lease_expires_at := None,
     mb_status := ready_status m ?n now, mb_retry_at := None, mb_updated_at := now\<rparr>"
  show ?thesis
  proof (cases "ms_item ?k (?n + 1) st")
    case None
    with next_item_iff [OF assms g] w(2) have "mb_accepted_sequence m = ?n" by fastforce
    then have "store_inv (ms_put ?k ?r st)"
      by (intro store_inv_put_unleased [OF assms g])
        (auto simp: unleased_def mailbox_wf_unleased ready_status_def)
    then show ?thesis using Inr w(3) None by (simp add: commit_def Let_def)
  next
    case (Some it)
    with next_item_iff [OF assms g, of "?n + 1"] have lt: "?n < mb_accepted_sequence m" by auto
    have "store_inv (ms_put ?k (?r\<lparr>mb_status := RETRY_WAIT, mb_retry_at := it_retry_at it\<rparr>) st)"
      using lt by (intro store_inv_put_unleased [OF assms g]) (auto simp: unleased_def mailbox_wf_unleased)
    moreover have "store_inv (ms_put ?k m'' st')"
      if "emit_ready (?r\<lparr>mb_status := QUEUED\<rparr>) it now st = (m'', st')" for m'' st'
      using lt that by (intro store_inv_emit_unleased [OF assms g]) (auto simp: unleased_def)
    ultimately show ?thesis using Inr w(3) Some
      by (auto simp: commit_def Let_def split: prod.splits)
  qed
qed

lemma release_inv [inv_intros]:
  assumes "store_inv st"
  shows "store_inv (snd (release lease r p inc emit now st))"
proof (cases "require_owned (ml_key lease) lease now st")
  case (Inl e)
  then show ?thesis using assms by (auto simp: release_def split: option.splits)
next
  case (Inr m)
  then have g: "ms_get (ml_key lease) st = Some m" and o: "owns (Some m) lease now"
    by (auto simp: require_owned_Inr)
  note w = owns_wf [OF assms g o] and d = store_invD [OF assms g]
  let ?k = "ml_key lease" and ?n = "ml_sequence lease"
  obtain it where it: "ms_item ?k ?n st = Some it" using w(5) by blast
  define it' where "it' = it\<lparr>it_retry_count := it_retry_count it + (if inc then 1 else 0),
     it_retry_at := r, it_priority := (case p of None \<Rightarrow> it_priority it | Some q \<Rightarrow> q)\<rparr>"
  have i1: "store_inv (ms_put_item ?k ?n it' st)"
    using it by (intro store_inv_put_item [OF assms]) (simp_all add: it'_def)
  have g1: "ms_get ?k (ms_put_item ?k ?n it' st) = Some m" using g by (simp add: fields_simps)
  let ?u = "\<lambda>s. m\<lparr>mb_status := s, mb_processing_sequence := None, mb_processing_inbound_id := None,
     mb_lease_owner := None, mb_lease_expires_at := None, mb_retry_count := it_retry_count it',
     mb_attempt := it_attempt it, mb_priority := it_priority it', mb_retry_at := r, mb_updated_at := now\<rparr>"
  have "store_inv (ms_put ?k (?u RETRY_WAIT) (ms_put_item ?k ?n it' st))"
    using w(1,2) by (intro store_inv_put_unleased [OF i1 g1]) (auto simp: unleased_def mailbox_wf_unleased)
  moreover have "store_inv (ms_put ?k m'' st')"
    if "emit_ready (?u QUEUED) it' now (ms_put_item ?k ?n it' st) = (m'', st')" for m'' st'
    using w(1,2) that by (intro store_inv_emit_unleased [OF i1 g1]) (auto simp: unleased_def)
  moreover have "ready_status (m\<lparr>mb_retry_at := r\<rparr>) (mb_resolved_sequence m) now \<in> {RETRY_WAIT, QUEUED}"
    using w(1,2) by (auto simp: ready_status_def)
  ultimately show ?thesis using Inr w(3) it assms
    by (auto simp: release_def Let_def it'_def split: prod.splits option.splits)
qed

lemma reschedule_inv [inv_intros]: "store_inv st \<Longrightarrow> store_inv (snd (reschedule l r p now st))"
  by (simp add: reschedule_def release_inv)

lemma retry_inv [inv_intros]: "store_inv st \<Longrightarrow> store_inv (snd (retry l r p now st))"
  by (simp add: retry_def release_inv)

lemma retry_without_wakeup_inv [inv_intros]:
  "store_inv st \<Longrightarrow> store_inv (snd (retry_without_wakeup l r now st))"
  by (simp add: retry_without_wakeup_def release_inv)

subsection \<open>Recovery and the periodic loops\<close>

lemma head_sequence_wf: "mailbox_wf m \<Longrightarrow> head_sequence m = mb_resolved_sequence m + 1"
  by (auto simp: head_sequence_def mailbox_wf_def split: option.splits if_splits)

lemma head_status_wf:
  assumes "store_inv st" and "ms_get k st = Some m"
    and "head_status (ms_item k (head_sequence m) st) (head_sequence m) m now = (s, r)"
  shows "s = IDLE \<longleftrightarrow> mb_resolved_sequence m = mb_accepted_sequence m" and "s \<noteq> RUNNING"
    and "s = QUEUED \<Longrightarrow> mb_resolved_sequence m < mb_accepted_sequence m"
    and "mb_resolved_sequence m \<le> mb_accepted_sequence m"
proof -
  note d = store_invD(3) [OF assms(1,2)]
  show le: "mb_resolved_sequence m \<le> mb_accepted_sequence m" using d by (simp add: mailbox_wf_def)
  have "ms_item k (head_sequence m) st = None \<longleftrightarrow> mb_accepted_sequence m \<le> mb_resolved_sequence m"
    using next_item_iff [OF assms(1,2), of "head_sequence m"] head_sequence_wf [OF d] by auto
  then show "s = IDLE \<longleftrightarrow> mb_resolved_sequence m = mb_accepted_sequence m" and "s \<noteq> RUNNING"
    and "s = QUEUED \<Longrightarrow> mb_resolved_sequence m < mb_accepted_sequence m"
    using assms(3) le head_sequence_wf [OF d]
    by (auto simp: head_status_def split: option.splits if_splits)
qed

lemma recover_inv [inv_intros]:
  assumes "store_inv st"
  shows "store_inv (snd (recover k now st))"
proof (cases "ms_get k st")
  case None
  then show ?thesis using assms by (simp add: recover_def)
next
  case (Some m)
  obtain s r where h: "head_status (ms_item k (head_sequence m) st) (head_sequence m) m now = (s, r)"
    by fastforce
  note w = head_status_wf [OF assms Some h]
  let ?u = "m\<lparr>mb_status := s, mb_processing_sequence := None, mb_processing_inbound_id := None,
     mb_lease_owner := None, mb_lease_expires_at := None, mb_retry_at := r, mb_updated_at := now\<rparr>"
  have "store_inv (ms_put k ?u st)" if "s \<noteq> QUEUED"
    using w that by (intro store_inv_put_unleased [OF assms Some]) (auto simp: unleased_def mailbox_wf_unleased)
  moreover have "store_inv (ms_put k m'' st')"
    if "s = QUEUED" "emit_ready ?u it now st = (m'', st')" for m'' st' it
    using w that by (intro store_inv_emit_unleased [OF assms Some]) (auto simp: unleased_def)
  moreover have "s \<noteq> QUEUED" if "ms_item k (head_sequence m) st = None"
    using h that by (auto simp: head_status_def split: option.splits)
  ultimately show ?thesis using Some h assms
    by (auto simp: recover_def Let_def split: prod.splits option.splits)
qed

lemma has_current_record:
  assumes "store_inv st" and "ms_get k st = Some m" and "1 \<le> mb_queue_generation m"
  shows "list_ex (\<lambda>r. ready_record_for k r
           \<and> map_of (ob_payload r) ''generation'' = Some (JInt (int (mb_queue_generation m)))) (ms_outbox st)"
proof -
  have "Some (JInt (int (mb_queue_generation m))) \<in> set (ready_generations k st)"
    using store_invD(5) [OF assms(1,2)] assms(3) by (auto simp: generations_upto_def)
  then show ?thesis by (auto simp: ready_generations_def list_ex_iff)
qed

lemma requeue_ready_noop:
  assumes "store_inv st" and "ms_get k st = Some m" and "1 \<le> mb_queue_generation m"
    and "mb_queue_generation m' = mb_queue_generation m" and "mb_key m' = k"
  shows "requeue_ready m' it now st = (m', st)"
  using has_current_record [OF assms(1-3)] assms(3-5)
  by (cases m') (simp add: requeue_ready_def Let_def max_def)

lemma lease_active_running:
  "mailbox_wf m \<Longrightarrow> lease_active m now \<Longrightarrow> mb_status m = RUNNING \<and> later_than (mb_lease_expires_at m) now"
  by (auto simp: lease_active_def mailbox_wf_def later_than_iff not_later_than_iff split: if_splits)

lemma lease_active_iff:
  "mailbox_wf m \<Longrightarrow> lease_active m now \<longleftrightarrow> later_than (mb_lease_expires_at m) now"
  by (auto simp: lease_active_def mailbox_wf_def later_than_iff not_later_than_iff split: if_splits)

lemma reconcile_active:
  assumes "store_inv st" and "ms_get k st = Some m" and "lease_active m now"
  shows "reconcile k now st = (Some (m\<lparr>mb_updated_at := now\<rparr>), ms_put k (m\<lparr>mb_updated_at := now\<rparr>) st)"
proof -
  have "mb_status m = RUNNING" using lease_active_running [OF store_invD(3) [OF assms(1,2)] assms(3)] by simp
  then show ?thesis using assms(2,3)
    by (cases m) (auto simp: reconcile_def Let_def split: prod.splits option.splits)
qed

lemma reconcile_inv [inv_intros]:
  assumes "store_inv st"
  shows "store_inv (snd (reconcile k now st))"
proof (cases "ms_get k st")
  case None
  then show ?thesis using assms by (simp add: reconcile_def)
next
  case (Some m)
  note d = store_invD [OF assms Some]
  show ?thesis
  proof (cases "lease_active m now")
    case True
    have "store_inv (ms_put k (m\<lparr>mb_updated_at := now\<rparr>) st)"
      using d(3) by (intro store_inv_put_row [OF assms Some]) (auto simp: mailbox_wf_def)
    then show ?thesis using reconcile_active [OF assms Some True] by simp
  next
    case False
    obtain s r where h: "head_status (ms_item k (head_sequence m) st) (head_sequence m) m now = (s, r)"
      by fastforce
    note w = head_status_wf [OF assms Some h]
    let ?u = "m\<lparr>mb_status := s, mb_processing_sequence := None, mb_processing_inbound_id := None,
       mb_lease_owner := None, mb_lease_expires_at := None, mb_retry_at := r, mb_updated_at := now\<rparr>"
    have ul: "unleased ?u" by (simp add: unleased_def)
    have a: "store_inv (ms_put k ?u st)" if "s \<noteq> QUEUED \<or> 1 \<le> mb_queue_generation m"
      using w that by (intro store_inv_put_unleased [OF assms Some ul]) (auto simp: unleased_def mailbox_wf_unleased)
    have b: "store_inv (ms_put k m'' st')"
      if "s = QUEUED" "emit_ready ?u it now st = (m'', st')" for m'' st' it
      using w that by (intro store_inv_emit_unleased [OF assms Some ul]) auto
    have c: "requeue_ready ?u it now st = (?u, st)" if "1 \<le> mb_queue_generation m" for it
      using that d(1,2) by (intro requeue_ready_noop [OF assms Some]) auto
    have "s \<noteq> QUEUED" if "ms_item k (head_sequence m) st = None"
      using h that by (auto simp: head_status_def split: option.splits)
    then show ?thesis using Some h assms False a b c
      by (auto simp: reconcile_def Let_def split: prod.splits option.splits)
  qed
qed

lemma sweep_loop_inv: "store_inv st \<Longrightarrow> store_inv (snd (sweep_loop ks h l now st))"
proof (induction ks h l now st rule: sweep_loop.induct)
  case (2 k ks h l now st)
  then show ?case using recover_inv [OF "2.prems", of k now]
    by (auto split: option.splits prod.splits)
qed simp

lemma schedule_loop_inv: "store_inv st \<Longrightarrow> store_inv (snd (schedule_loop ks h l now st))"
proof (induction ks h l now st rule: schedule_loop.induct)
  case (2 k ks h l now st)
  then show ?case using reconcile_inv [OF "2.prems", of k now]
    by (auto split: option.splits prod.splits)
qed simp

lemma reconcile_loop_inv: "store_inv st \<Longrightarrow> store_inv (snd (reconcile_loop ks h l now st))"
proof (induction ks h l now st rule: reconcile_loop.induct)
  case (2 k ks h l now st)
  then show ?case using reconcile_inv [OF "2.prems", of k now]
    by (auto split: option.splits prod.splits)
qed simp

lemma sweep_expired_leases_inv [inv_intros]:
  "store_inv st \<Longrightarrow> store_inv (snd (sweep_expired_leases limit now st))"
  using sweep_loop_inv [of st "map fst (ms_mailboxes st)" 0 "nat limit" now]
  by (auto simp: sweep_expired_leases_def split: prod.splits)

lemma schedule_retries_inv [inv_intros]:
  "store_inv st \<Longrightarrow> store_inv (snd (schedule_retries limit now st))"
  using schedule_loop_inv [of st "map fst (ms_mailboxes st)" 0 "nat limit" now]
  by (auto simp: schedule_retries_def split: prod.splits)

lemma reconcile_sessions_inv [inv_intros]:
  "store_inv st \<Longrightarrow> store_inv (snd (reconcile_sessions limit now st))"
  using reconcile_loop_inv [of st "map fst (ms_mailboxes st)" 0 "nat limit" now]
  by (auto simp: reconcile_sessions_def split: prod.splits)

lemma init_mailbox_store_inv: "store_inv (init_mailbox_store uuids)"
  by (simp add: store_inv_def init_mailbox_store_def ms_get_def session_wf_def ready_generations_def)

end
