(* ===== verification/Mailbox_History.thy ===== *)
theory Mailbox_History
  imports Mailbox_Inv
begin

text \<open>
  Histories of the in-memory mailbox store: an order on stores that no operation ever goes
  against, the step relation with one rule per public operation, and the store as an instance
  of the \<open>fenced_machine\<close> interface (the fencing token is the pair of session key and lease
  epoch).
\<close>

subsection \<open>What no operation ever undoes\<close>

definition mailbox_le :: "session_mailbox \<Rightarrow> session_mailbox \<Rightarrow> bool" where
  "mailbox_le m m' \<longleftrightarrow>
     mb_accepted_sequence m \<le> mb_accepted_sequence m'
   \<and> mb_resolved_sequence m \<le> mb_resolved_sequence m'
   \<and> mb_queue_generation m \<le> mb_queue_generation m'
   \<and> mb_lease_epoch m \<le> mb_lease_epoch m'"

text \<open>
  The outbox grows at its end only, and every new record carries an identifier drawn from the
  supply in between, in the order of the draws.
\<close>

definition outbox_ext :: "mailbox_store \<Rightarrow> mailbox_store \<Rightarrow> bool" where
  "outbox_ext st st' \<longleftrightarrow>
     ms_uuid st' = ms_uuid st \<and> ms_uuids_drawn st \<le> ms_uuids_drawn st'
   \<and> (\<exists>new drawn. ms_outbox st' = ms_outbox st @ new \<and> map ob_outbox_id new = map (ms_uuid st) drawn
        \<and> sorted_wrt (<) drawn \<and> set drawn \<subseteq> {ms_uuids_drawn st ..< ms_uuids_drawn st'})"

definition store_le :: "mailbox_store \<Rightarrow> mailbox_store \<Rightarrow> bool" where
  "store_le st st' \<longleftrightarrow>
     (\<forall>k m. ms_get k st = Some m \<longrightarrow> (\<exists>m'. ms_get k st' = Some m' \<and> mailbox_le m m'))
   \<and> (\<forall>k n it. ms_item k n st = Some it \<longrightarrow>
        (\<exists>it'. ms_item k n st' = Some it' \<and> it_inbound_id it' = it_inbound_id it
             \<and> it_attempt it \<le> it_attempt it'))
   \<and> outbox_ext st st'"

lemma outbox_ext_same:
  "ms_uuid st' = ms_uuid st \<Longrightarrow> ms_uuids_drawn st \<le> ms_uuids_drawn st' \<Longrightarrow> ms_outbox st' = ms_outbox st \<Longrightarrow> outbox_ext st st'"
  by (auto simp: outbox_ext_def)

lemma outbox_ext_trans:
  assumes "outbox_ext a b" and "outbox_ext b c"
  shows "outbox_ext a c"
proof -
  from assms(1) obtain n1 d1 where 1: "ms_outbox b = ms_outbox a @ n1" "map ob_outbox_id n1 = map (ms_uuid a) d1"
    "sorted_wrt (<) d1" "set d1 \<subseteq> {ms_uuids_drawn a ..< ms_uuids_drawn b}"
    and u1: "ms_uuid b = ms_uuid a" "ms_uuids_drawn a \<le> ms_uuids_drawn b"
    unfolding outbox_ext_def by blast
  from assms(2) obtain n2 d2 where 2: "ms_outbox c = ms_outbox b @ n2" "map ob_outbox_id n2 = map (ms_uuid b) d2"
    "sorted_wrt (<) d2" "set d2 \<subseteq> {ms_uuids_drawn b ..< ms_uuids_drawn c}"
    and u2: "ms_uuid c = ms_uuid b" "ms_uuids_drawn b \<le> ms_uuids_drawn c"
    unfolding outbox_ext_def by blast
  have "sorted_wrt (<) (d1 @ d2)" using 1(3,4) 2(3,4) by (auto simp: sorted_wrt_append) (force dest: subsetD)
  moreover have "set (d1 @ d2) \<subseteq> {ms_uuids_drawn a ..< ms_uuids_drawn c}"
    using 1(4) 2(4) u1(2) u2(2) by fastforce
  moreover have "ms_outbox c = ms_outbox a @ (n1 @ n2)" "map ob_outbox_id (n1 @ n2) = map (ms_uuid a) (d1 @ d2)"
    using 1(1,2) 2(1,2) u1(1) by simp_all
  ultimately show ?thesis using u1 u2 unfolding outbox_ext_def by (metis order_trans)
qed

lemma outbox_ext_append_ready: "outbox_ext st (snd (append_ready m it now g st))"
  unfolding outbox_ext_def append_ready_def
  by (auto intro!: exI [of _ "[ms_uuids_drawn st]"])

lemma mailbox_le_refl [simp]: "mailbox_le m m"
  by (simp add: mailbox_le_def)

lemma store_le_refl [simp]: "store_le st st"
  by (simp add: store_le_def outbox_ext_same)

lemma store_le_trans:
  assumes "store_le a b" and "store_le b c"
  shows "store_le a c"
proof -
  have "\<exists>m'. ms_get k c = Some m' \<and> mailbox_le m m'" if "ms_get k a = Some m" for k m
    using assms that unfolding store_le_def mailbox_le_def by (meson order_trans)
  moreover have "\<exists>it'. ms_item k n c = Some it' \<and> it_inbound_id it' = it_inbound_id it
      \<and> it_attempt it \<le> it_attempt it'" if i: "ms_item k n a = Some it" for k n it
  proof -
    from assms(1) i obtain x where x: "ms_item k n b = Some x" "it_inbound_id x = it_inbound_id it"
      "it_attempt it \<le> it_attempt x" unfolding store_le_def by blast
    from assms(2) x(1) obtain y where "ms_item k n c = Some y" "it_inbound_id y = it_inbound_id x"
      "it_attempt x \<le> it_attempt y" unfolding store_le_def by blast
    with x show ?thesis by auto
  qed
  moreover have "outbox_ext a c"
    using assms unfolding store_le_def by (blast intro: outbox_ext_trans)
  ultimately show ?thesis by (simp add: store_le_def)
qed

lemma store_le_put:
  assumes "ms_get k st = Some m" and "mailbox_le m m'"
  shows "store_le st (ms_put k m' st)"
  using assms by (auto simp: store_le_def outbox_ext_same fields_simps)

lemma store_le_put_new:
  assumes "ms_get k st = None"
  shows "store_le st (ms_put k m' st)"
  using assms by (auto simp: store_le_def outbox_ext_same fields_simps)

lemma store_le_put_item:
  assumes "\<And>it. ms_item k n st = Some it \<Longrightarrow> it_inbound_id it' = it_inbound_id it \<and> it_attempt it \<le> it_attempt it'"
  shows "store_le st (ms_put_item k n it' st)"
  using assms by (auto simp: store_le_def outbox_ext_same fields_simps)

lemma store_le_append_ready: "store_le st (snd (append_ready m it now g st))"
  unfolding store_le_def snd_append_ready by (simp add: outbox_ext_append_ready)

lemma store_le_emit:
  assumes "ms_get k st = Some m" and "mailbox_le m m''"
  shows "store_le st (ms_put k m'' (snd (append_ready m' it now g st)))"
proof (rule store_le_trans [OF store_le_append_ready store_le_put])
  show "ms_get k (snd (append_ready m' it now g st)) = Some m" using assms(1) by (simp add: fields_simps)
qed (rule assms(2))

lemma store_le_item_put:
  assumes "ms_get k st = Some m" and "mailbox_le m m''"
    and "\<And>it. ms_item k n st = Some it \<Longrightarrow> it_inbound_id it' = it_inbound_id it \<and> it_attempt it \<le> it_attempt it'"
  shows "store_le st (ms_put k m'' (ms_put_item k n it' st))"
  using assms by (intro store_le_trans [OF store_le_put_item store_le_put]) (auto simp: fields_simps)

lemma store_le_item_emit:
  assumes "ms_get k st = Some m" and "mailbox_le m m''"
    and "\<And>it. ms_item k n st = Some it \<Longrightarrow> it_inbound_id it' = it_inbound_id it \<and> it_attempt it \<le> it_attempt it'"
  shows "store_le st (ms_put k m'' (snd (append_ready m' i now g (ms_put_item k n it' st))))"
  using assms by (intro store_le_trans [OF store_le_put_item store_le_emit]) (auto simp: fields_simps)

lemma accept_new_le:
  assumes "store_inv st" and "ms_get k st = Some m"
  shows "store_le st (snd (accept_new k inbound p r tr now m st))"
proof -
  have "ms_item k (Suc (mb_accepted_sequence m)) st = None"
    using next_item_iff [OF assms] by simp
  then show ?thesis unfolding accept_new_def
    by (auto simp: Let_def mailbox_le_def emit_ready_eq split: prod.splits
        intro!: store_le_item_put [OF assms(2)] store_le_item_emit [OF assms(2)])
qed

lemma accept_le [inv_intros]:
  assumes "store_inv st"
  shows "store_le st (snd (accept k inbound p r tr now st))"
proof (cases "ms_get k st")
  case None
  let ?m = "new_session_mailbox (fst k) (snd k) now"
  have "store_le (ms_put k ?m st) (snd (accept_new k inbound p r tr now ?m (ms_put k ?m st)))"
    by (intro accept_new_le store_inv_ensure assms None) (simp add: fields_simps)
  then show ?thesis using None store_le_put_new [OF None, of ?m]
    by (auto simp: accept_def ensure_mailbox_def Let_def split: option.splits intro: store_le_trans)
next
  case (Some m)
  then show ?thesis using accept_new_le [OF assms Some]
    by (auto simp: accept_def Let_def split: option.splits)
qed

lemma grant_claim_le:
  assumes "ms_get k st = Some m" and "ms_item k n st = Some it"
  shows "store_le st (snd (grant_claim k owner lf now m n it st))"
  unfolding grant_claim_def Let_def snd_conv
  by (rule store_le_item_put [OF assms(1)]) (use assms(2) in \<open>auto simp: mailbox_le_def\<close>)

lemma claim_le [inv_intros]: "store_le st (snd (claim k owner lf now st))"
  by (auto simp: claim_def Let_def mailbox_le_def split: option.splits
      intro!: grant_claim_le store_le_put)

lemma claim_session_le [inv_intros]: "store_le st (snd (claim_session k owner lf eg ee acc now st))"
  using snd_claim_session [of k owner lf eg ee acc now st] claim_le [of st k owner lf now] by force

lemma renew_le [inv_intros]: "store_le st (snd (renew lease lf now st))"
  by (auto simp: renew_def Let_def mailbox_le_def require_owned_Inr split: option.splits sum.splits
      intro!: store_le_put)

lemma renew_many_le [inv_intros]: "store_le st (snd (renew_many leases lf now st))"
proof (induction leases arbitrary: st)
  case (Cons l ls)
  obtain res st1 where r: "renew l lf now st = (res, st1)" by fastforce
  with renew_le [of st l lf now] have "store_le st st1" by simp
  then show ?case using r Cons.IH [of st1]
    by (auto split: sum.splits prod.splits intro: store_le_trans)
qed simp

lemma commit_le [inv_intros]:
  assumes "store_inv st"
  shows "store_le st (snd (commit lease now st))"
proof (cases "require_owned (ml_key lease) lease now st")
  case (Inl e)
  then show ?thesis by (simp add: commit_def)
next
  case (Inr m)
  then have g: "ms_get (ml_key lease) st = Some m" and o: "owns (Some m) lease now"
    by (auto simp: require_owned_Inr)
  from owns_wf(1) [OF assms g o] show ?thesis using Inr
    by (auto simp: commit_def Let_def mailbox_le_def emit_ready_eq split: prod.splits option.splits
        intro!: store_le_put [OF g] store_le_emit [OF g])
qed

lemma release_le [inv_intros]: "store_le st (snd (release lease r p inc emit now st))"
proof (cases "require_owned (ml_key lease) lease now st")
  case (Inl e)
  then show ?thesis by (auto simp: release_def split: option.splits)
next
  case (Inr m)
  then have g: "ms_get (ml_key lease) st = Some m" by (auto simp: require_owned_Inr)
  show ?thesis
  proof (cases "ms_item (ml_key lease) (ml_sequence lease) st")
    case None
    then show ?thesis using Inr by (auto simp: release_def split: option.splits)
  next
    case (Some it)
    then show ?thesis using Inr
      by (auto simp: release_def Let_def mailbox_le_def emit_ready_eq split: prod.splits option.splits
          intro!: store_le_item_put [OF g] store_le_item_emit [OF g])
  qed
qed

lemma recover_le [inv_intros]: "store_le st (snd (recover k now st))"
  by (auto simp: recover_def Let_def mailbox_le_def emit_ready_eq split: prod.splits option.splits
      intro!: store_le_put store_le_emit)

lemma reconcile_le [inv_intros]:
  assumes "store_inv st"
  shows "store_le st (snd (reconcile k now st))"
proof (cases "ms_get k st")
  case None
  then show ?thesis by (simp add: reconcile_def)
next
  case (Some m)
  have "requeue_ready m' it now st = (m', st)"
    if "1 \<le> mb_queue_generation m" "mb_queue_generation m' = mb_queue_generation m" "mb_key m' = mb_key m" for m' it
    using that store_invD(1,2) [OF assms Some] by (intro requeue_ready_noop [OF assms Some]) auto
  then show ?thesis using Some
    by (auto simp: reconcile_def Let_def mailbox_le_def emit_ready_eq split: prod.splits option.splits
        intro!: store_le_put [OF Some] store_le_emit [OF Some])
qed

lemma sweep_loop_le: "store_le st (snd (sweep_loop ks h l now st))"
proof (induction ks h l now st rule: sweep_loop.induct)
  case (2 k ks h l now st)
  then show ?case using recover_le [of st k now]
    by (auto split: option.splits prod.splits intro: store_le_trans)
qed simp

lemma schedule_loop_le: "store_inv st \<Longrightarrow> store_le st (snd (schedule_loop ks h l now st))"
proof (induction ks h l now st rule: schedule_loop.induct)
  case (2 k ks h l now st)
  then show ?case using reconcile_le [OF "2.prems", of k now] reconcile_inv [OF "2.prems", of k now]
    by (auto split: option.splits prod.splits intro: store_le_trans)
qed simp

lemma reconcile_loop_le: "store_inv st \<Longrightarrow> store_le st (snd (reconcile_loop ks h l now st))"
proof (induction ks h l now st rule: reconcile_loop.induct)
  case (2 k ks h l now st)
  then show ?case using reconcile_le [OF "2.prems", of k now] reconcile_inv [OF "2.prems", of k now]
    by (auto split: option.splits prod.splits intro: store_le_trans)
qed simp

subsection \<open>The mailbox as a fenced state machine\<close>

inductive mailbox_step :: "mailbox_store \<Rightarrow> mailbox_store \<Rightarrow> bool" where
  step_accept: "mailbox_step st (snd (accept k inbound priority retry_at trace_id now st))"
| step_claim: "mailbox_step st (snd (claim k owner lease_for now st))"
| step_claim_session: "mailbox_step st (snd (claim_session k owner lease_for eg ee acc now st))"
| step_renew: "mailbox_step st (snd (renew lease lease_for now st))"
| step_renew_many: "mailbox_step st (snd (renew_many leases lease_for now st))"
| step_commit: "mailbox_step st (snd (commit lease now st))"
| step_reschedule: "mailbox_step st (snd (reschedule lease retry_at priority now st))"
| step_retry: "mailbox_step st (snd (retry lease retry_at priority now st))"
| step_retry_without_wakeup: "mailbox_step st (snd (retry_without_wakeup lease retry_at now st))"
| step_recover: "mailbox_step st (snd (recover k now st))"
| step_reconcile: "mailbox_step st (snd (reconcile k now st))"
| step_sweep: "mailbox_step st (snd (sweep_expired_leases limit now st))"
| step_schedule: "mailbox_step st (snd (schedule_retries limit now st))"
| step_reconcile_all: "mailbox_step st (snd (reconcile_sessions limit now st))"

definition mailbox_epoch :: "mailbox_store \<Rightarrow> session_key \<Rightarrow> nat" where
  "mailbox_epoch st k = (case ms_get k st of None \<Rightarrow> 0 | Some m \<Rightarrow> mb_lease_epoch m)"

definition lease_held :: "mailbox_store \<Rightarrow> mailbox_lease \<Rightarrow> time \<Rightarrow> bool" where
  "lease_held st l now = owns (ms_get (ml_key l) st) l now"

lemma mailbox_step_inv: "mailbox_step st st' \<Longrightarrow> store_inv st \<Longrightarrow> store_inv st'"
  by (induction rule: mailbox_step.induct) (auto intro: inv_intros)

lemma sweep_le: "store_le st (snd (sweep_expired_leases limit now st))"
  using sweep_loop_le [of st "map fst (ms_mailboxes st)" 0 "nat limit" now]
  by (auto simp: sweep_expired_leases_def split: prod.splits)

lemma schedule_le: "store_inv st \<Longrightarrow> store_le st (snd (schedule_retries limit now st))"
  using schedule_loop_le [of st "map fst (ms_mailboxes st)" 0 "nat limit" now]
  by (auto simp: schedule_retries_def split: prod.splits)

lemma reconcile_sessions_le: "store_inv st \<Longrightarrow> store_le st (snd (reconcile_sessions limit now st))"
  using reconcile_loop_le [of st "map fst (ms_mailboxes st)" 0 "nat limit" now]
  by (auto simp: reconcile_sessions_def split: prod.splits)

lemma mailbox_step_le: "mailbox_step st st' \<Longrightarrow> store_inv st \<Longrightarrow> store_le st st'"
  by (induction rule: mailbox_step.induct)
    (auto intro: inv_intros sweep_le schedule_le reconcile_sessions_le
      simp: reschedule_def retry_def retry_without_wakeup_def)

lemma store_le_get:
  assumes "store_le st st'" and "ms_get k st = Some m"
  obtains m' where "ms_get k st' = Some m'" and "mailbox_le m m'"
  using assms unfolding store_le_def by blast

lemma store_le_epoch: "store_le st st' \<Longrightarrow> mailbox_epoch st k \<le> mailbox_epoch st' k"
  by (cases "ms_get k st") (auto simp: mailbox_epoch_def mailbox_le_def elim!: store_le_get)

interpretation mailbox: fenced_machine mailbox_step store_inv mailbox_epoch ml_key ml_epoch lease_held
proof unfold_locales
  show "store_inv t" if "mailbox_step s t" "store_inv s" for s t
    using that by (rule mailbox_step_inv)
  show "mailbox_epoch s k \<le> mailbox_epoch t k" if "mailbox_step s t" "store_inv s" for s t k
    using that by (blast intro: store_le_epoch mailbox_step_le)
  show "mailbox_epoch s (ml_key l) = ml_epoch l" if "store_inv s" "lease_held s l now" for s l now
    using that by (auto simp: lease_held_def mailbox_epoch_def owns_def split: option.splits)
qed

lemma reachable_store_le:
  assumes "reachable_from mailbox_step st st'" and "store_inv st"
  shows "store_le st st'"
  using assms
proof (induction rule: reachable_from.induct)
  case (there s t)
  then show ?case by (blast intro: store_le_trans mailbox_step_le mailbox.reachable_inv)
qed simp

lemma not_held_fenced:
  assumes "\<not> lease_held st l now"
  shows "commit l now st = (Inl (FencingConflict ''mailbox lease is no longer current''), st)"
    and "0 < lf \<Longrightarrow> renew l lf now st = (Inl (FencingConflict ''mailbox lease is no longer current''), st)"
    and "p \<noteq> None \<longrightarrow> 0 \<le> the p \<Longrightarrow>
           release l r p inc emit now st = (Inl (FencingConflict ''mailbox lease is no longer current''), st)"
proof -
  have "require_owned (ml_key l) l now st = Inl (FencingConflict ''mailbox lease is no longer current'')"
    using assms by (simp add: require_owned_Inl lease_held_def)
  then show "commit l now st = (Inl (FencingConflict ''mailbox lease is no longer current''), st)"
    and "0 < lf \<Longrightarrow> renew l lf now st = (Inl (FencingConflict ''mailbox lease is no longer current''), st)"
    and "p \<noteq> None \<longrightarrow> 0 \<le> the p \<Longrightarrow>
           release l r p inc emit now st = (Inl (FencingConflict ''mailbox lease is no longer current''), st)"
    by (auto simp: commit_def renew_def release_def validate_lease_for_def validate_priority_def split: option.splits)
qed

lemma grant_claim_result:
  assumes "grant_claim k owner lf now m n it st = (Inr (Some l), st')"
  shows "ml_key l = k" and "ml_sequence l = n" and "ml_inbound_id l = it_inbound_id it"
    and "ml_owner_id l = owner" and "ml_epoch l = mb_lease_epoch m + 1" and "ml_expires_at l = now + lf"
    and "ml_attempt l = it_attempt it + 1"
    and "t < now + lf \<Longrightarrow> lease_held st' l t"
  using assms by (auto simp: grant_claim_def Let_def lease_held_def owns_def fields_simps)

lemma claim_granted:
  assumes "store_inv st" and "claim k owner lf now st = (Inr (Some l), st')"
  obtains m it where "ms_get k st = Some m" and "\<not> later_than (mb_lease_expires_at m) now"
    and "ms_item k (mb_resolved_sequence m + 1) st = Some it" and "0 < lf"
    and "mb_processing_sequence m = None \<Longrightarrow> \<not> later_than (it_retry_at it) now"
    and "grant_claim k owner lf now m (mb_resolved_sequence m + 1) it st = (Inr (Some l), st')"
proof -
  from assms(2) obtain m where m: "ms_get k st = Some m"
    by (auto simp: claim_def split: option.splits)
  note w = store_invD(3) [OF assms(1) m]
  show thesis
  proof (cases "mb_processing_sequence m")
    case None
    then show thesis using assms(2) m that [OF m]
      by (auto simp: claim_def Let_def validate_lease_for_def split: option.splits if_splits)
  next
    case (Some n)
    with w have "n = mb_resolved_sequence m + 1" by (auto simp: mailbox_wf_def split: if_splits)
    then show thesis using assms(2) m that [OF m] Some
      by (auto simp: claim_def Let_def validate_lease_for_def split: option.splits if_splits)
  qed
qed

end
