(* ===== verification/Mailbox_Loops.thy ===== *)
theory Mailbox_Loops
  imports Mailbox_History
begin

text \<open>
  Recovery, retry scheduling and reconciliation of the in-memory mailbox store: what one call of
  \<^verbatim>\<open>recover\<close> and of \<^verbatim>\<open>reconcile\<close> does to the row of its session, and the three periodic loops as
  instances of the batch interfaces.
\<close>

definition lease_expired :: "time \<Rightarrow> session_mailbox option \<Rightarrow> bool" where
  "lease_expired now mo = (case mo of None \<Rightarrow> False | Some m \<Rightarrow> not_later_than (mb_lease_expires_at m) now)"

definition retry_due :: "time \<Rightarrow> session_mailbox option \<Rightarrow> bool" where
  "retry_due now mo =
     (case mo of None \<Rightarrow> False | Some m \<Rightarrow> mb_status m = RETRY_WAIT \<and> not_later_than (mb_retry_at m) now)"

definition not_running :: "session_mailbox option \<Rightarrow> bool" where
  "not_running mo = (case mo of None \<Rightarrow> False | Some m \<Rightarrow> mb_status m \<noteq> RUNNING)"

lemma recover_Some: "lease_expired now (ms_get k st) \<Longrightarrow> \<exists>m. fst (recover k now st) = Some m"
  by (auto simp: recover_def lease_expired_def Let_def split_beta split: option.splits)

lemma reconcile_Some: "ms_get k st \<noteq> None \<Longrightarrow> \<exists>m. fst (reconcile k now st) = Some m"
  by (auto simp: reconcile_def Let_def split_beta split: option.splits)

lemma sweep_loop_batch:
  "sweep_loop ks h l now st = batch_loop ms_get (lease_expired now) (\<lambda>k st. snd (recover k now st)) ks h l st"
proof (induction ks h l now st rule: sweep_loop.induct)
  case (2 k ks h l now st)
  then show ?case using recover_Some [of now k st]
    by (cases "recover k now st") (auto simp: lease_expired_def split: option.splits)
qed simp

lemma schedule_loop_batch:
  "schedule_loop ks h l now st = batch_loop ms_get (retry_due now) (\<lambda>k st. snd (reconcile k now st)) ks h l st"
proof (induction ks h l now st rule: schedule_loop.induct)
  case (2 k ks h l now st)
  then show ?case using reconcile_Some [of k st now]
    by (cases "reconcile k now st") (auto simp: retry_due_def split: option.splits)
qed simp

lemma reconcile_loop_batch:
  "reconcile_loop ks h l now st = batch_loop ms_get not_running (\<lambda>k st. snd (reconcile k now st)) ks h l st"
proof (induction ks h l now st rule: reconcile_loop.induct)
  case (2 k ks h l now st)
  then show ?case using reconcile_Some [of k st now]
    by (cases "reconcile k now st") (auto simp: not_running_def split: option.splits)
qed simp

lemma recover_row:
  assumes "ms_get k st = Some m" and "not_later_than (mb_lease_expires_at m) now"
  obtains m' where "recover k now st = (Some m', snd (recover k now st))"
    and "ms_get k (snd (recover k now st)) = Some m'" and "unleased m'"
    and "mb_lease_epoch m' = mb_lease_epoch m"
    and "mb_accepted_sequence m' = mb_accepted_sequence m"
    and "mb_resolved_sequence m' = mb_resolved_sequence m"
    and "(mb_status m', mb_retry_at m') = head_status (ms_item k (head_sequence m) st) (head_sequence m) m now"
    and "mb_queue_generation m' = mb_queue_generation m + (if mb_status m' = QUEUED then 1 else 0)"
proof -
  obtain s r where h: "head_status (ms_item k (head_sequence m) st) (head_sequence m) m now = (s, r)" by fastforce
  then have n: "s \<noteq> QUEUED" if "ms_item k (head_sequence m) st = None" using that by (auto simp: head_status_def)
  show thesis
    by (rule that [of "the (fst (recover k now st))"]) (use assms h n in \<open>auto simp: recover_def Let_def fields_simps emit_ready_eq unleased_def split: option.splits\<close>)
qed

lemma recover_other: "k' \<noteq> k \<Longrightarrow> ms_get k' (snd (recover k now st)) = ms_get k' st"
  by (simp add: recover_def Let_def split_beta fields_simps emit_ready_eq split: option.splits)

lemma reconcile_other: "k' \<noteq> k \<Longrightarrow> ms_get k' (snd (reconcile k now st)) = ms_get k' st"
proof (cases "ms_get k st")
  case (Some m)
  have *: "ms_get k' (snd (requeue_ready m' it now st)) = ms_get k' st" for m' it
    by (simp add: requeue_ready_def Let_def fields_simps)
  assume "k' \<noteq> k"
  with Some show ?thesis
    by (simp add: reconcile_def Let_def split_beta fields_simps emit_ready_eq * split: option.splits)
qed (simp add: reconcile_def)

lemma head_status_RETRY_WAIT:
  "head_status item n m now = (RETRY_WAIT, r) \<Longrightarrow> later_than r now"
  by (auto simp: head_status_def split: option.splits if_splits)

definition reconciled_row :: "session_mailbox \<Rightarrow> mailbox_status \<Rightarrow> time option \<Rightarrow> time \<Rightarrow> session_mailbox" where
  "reconciled_row m s r now =
     m\<lparr>mb_status := s, mb_processing_sequence := None, mb_processing_inbound_id := None, mb_lease_owner := None,
       mb_lease_expires_at := None, mb_retry_at := r, mb_updated_at := now\<rparr>"

lemma reconcile_inactive:
  assumes "store_inv st" and "ms_get k st = Some m" and "\<not> later_than (mb_lease_expires_at m) now"
    and "head_status (ms_item k (head_sequence m) st) (head_sequence m) m now = (s, r)"
  shows "reconcile k now st =
     (if s = QUEUED \<and> mb_status m = QUEUED \<and> now - mb_updated_at m < RECONCILE_READY_GRACE then (Some m, st)
      else if s = QUEUED \<and> mb_status m \<noteq> QUEUED
      then (let u = (reconciled_row m s r now)\<lparr>mb_queue_generation := mb_queue_generation m + 1\<rparr>
            in (Some u, ms_put k u (snd (append_ready u (the (ms_item k (head_sequence m) st)) now
                                           (mb_queue_generation m + 1) st))))
      else (Some (reconciled_row m s r now), ms_put k (reconciled_row m s r now) st))"
proof -
  note w = store_invD [OF assms(1,2)]
  have a: "\<not> lease_active m now" using lease_active_iff [OF w(3)] assms(3) by simp
  have q: "1 \<le> mb_queue_generation m" if "mb_status m = QUEUED" using that w(3) by (auto simp: mailbox_wf_def)
  have n: "s \<noteq> QUEUED" if "ms_item k (head_sequence m) st = None" using that assms(4) by (auto simp: head_status_def)
  have rq: "requeue_ready (reconciled_row m s r now) it now st = (reconciled_row m s r now, st)"
    if "mb_status m = QUEUED" for it
    using requeue_ready_noop [OF assms(1,2) q [OF that]] that w(1,2) by (simp add: prod_eq_iff reconciled_row_def)
  show ?thesis
    by (cases "ms_item k (head_sequence m) st"; cases "s = QUEUED"; cases "mb_status m = QUEUED")
      (use assms(2,4) a q n rq in \<open>simp_all add: reconcile_def Let_def emit_ready_eq reconciled_row_def\<close>)
qed

lemma reconcile_row:
  assumes "store_inv st" and "ms_get k st = Some m" and "\<not> later_than (mb_lease_expires_at m) now"
    and "head_status (ms_item k (head_sequence m) st) (head_sequence m) m now = (s, r)"
  obtains m' where "fst (reconcile k now st) = Some m'"
    and "ms_get k (snd (reconcile k now st)) = Some m'" and "unleased m'"
    and "mb_status m' = s" and "s = RETRY_WAIT \<longrightarrow> mb_retry_at m' = r"
    and "mb_lease_epoch m' = mb_lease_epoch m" and "mb_accepted_sequence m' = mb_accepted_sequence m"
    and "mb_resolved_sequence m' = mb_resolved_sequence m"
    and "mb_queue_generation m' = mb_queue_generation m + (if s = QUEUED \<and> mb_status m \<noteq> QUEUED then 1 else 0)"
    and "mb_status m = QUEUED \<or> s \<noteq> QUEUED \<longrightarrow> ms_outbox (snd (reconcile k now st)) = ms_outbox st"
proof -
  have u: "unleased m" if "mb_status m = QUEUED"
    using that store_invD(3) [OF assms(1,2)] by (auto simp: mailbox_wf_def unleased_def)
  show thesis
    by (rule that [of "the (fst (reconcile k now st))"]; unfold reconcile_inactive [OF assms])
      (use assms(2) u in \<open>simp_all add: reconciled_row_def unleased_def fields_simps Let_def\<close>)
qed

lemma reconcile_clears_retry:
  assumes "store_inv st" and "retry_due now (ms_get k st)"
  shows "\<not> retry_due now (ms_get k (snd (reconcile k now st)))"
proof -
  from assms(2) obtain m where m: "ms_get k st = Some m" "mb_status m = RETRY_WAIT"
    by (auto simp: retry_due_def split: option.splits)
  have x: "\<not> later_than (mb_lease_expires_at m) now"
    using store_invD(3) [OF assms(1) m(1)] m(2) by (auto simp: mailbox_wf_def)
  obtain s r where h: "head_status (ms_item k (head_sequence m) st) (head_sequence m) m now = (s, r)" by fastforce
  obtain m' where "ms_get k (snd (reconcile k now st)) = Some m'" "mb_status m' = s" "s = RETRY_WAIT \<longrightarrow> mb_retry_at m' = r"
    using reconcile_row [OF assms(1) m(1) x h] by metis
  moreover have "later_than r now" if "s = RETRY_WAIT" using head_status_RETRY_WAIT h that by blast
  ultimately show ?thesis by (auto simp: retry_due_def later_than_iff not_later_than_iff)
qed

interpretation sweep: clearing_batch store_inv ms_get "lease_expired now" "\<lambda>k st. snd (recover k now st)" for now
proof unfold_locales
  fix st k assume "store_inv st" and e: "lease_expired now (ms_get k st)"
  from e obtain m where "ms_get k st = Some m" "not_later_than (mb_lease_expires_at m) now"
    by (auto simp: lease_expired_def split: option.splits)
  then show "\<not> lease_expired now (ms_get k (snd (recover k now st)))"
    by (rule recover_row) (simp add: lease_expired_def unleased_def)
qed (simp_all add: recover_inv recover_other)

interpretation schedule: clearing_batch store_inv ms_get "retry_due now" "\<lambda>k st. snd (reconcile k now st)" for now
  by unfold_locales (simp_all add: reconcile_inv reconcile_other reconcile_clears_retry)

interpretation reconciliation: batch store_inv ms_get not_running "\<lambda>k st. snd (reconcile k now st)" for now
  by unfold_locales (simp_all add: reconcile_inv reconcile_other)

subsection \<open>A session with its items\<close>

text \<open>
  What recovery does to a session depends on its row and on its items, and no loop changes an item. The loops are therefore
  also batches over pairs of a row and its items.
\<close>

definition session_view :: "session_key \<Rightarrow> mailbox_store \<Rightarrow> session_mailbox option \<times> (nat \<times> mailbox_item) list" where
  "session_view k st = (ms_get k st, ms_items st k)"

lemma session_view_eq:
  "session_view k s = session_view k t \<longleftrightarrow> ms_get k s = ms_get k t \<and> ms_items s k = ms_items t k"
  by (simp add: session_view_def)

lemma recover_items: "ms_items (snd (recover k now st)) = ms_items st"
  by (simp add: recover_def Let_def split_beta fields_simps emit_ready_eq split: option.splits)

lemma requeue_items: "ms_items (snd (requeue_ready m it now st)) = ms_items st"
  by (simp add: requeue_ready_def Let_def fields_simps)

lemma reconcile_items: "ms_items (snd (reconcile k now st)) = ms_items st"
  by (simp add: reconcile_def Let_def split_beta fields_simps emit_ready_eq requeue_items split: option.splits)

interpretation sweep_rows: batch store_inv session_view "\<lambda>v. lease_expired now (fst v)" "\<lambda>k st. snd (recover k now st)" for now
  by unfold_locales (simp_all add: session_view_eq recover_inv recover_other recover_items)

interpretation reconciled_rows: batch store_inv session_view "\<lambda>v. not_running (fst v)" "\<lambda>k st. snd (reconcile k now st)" for now
  by unfold_locales (simp_all add: session_view_eq reconcile_inv reconcile_other reconcile_items)

lemma sweep_loop_rows:
  "sweep_loop ks h l now st = batch_loop session_view (\<lambda>v. lease_expired now (fst v)) (\<lambda>k st. snd (recover k now st)) ks h l st"
  unfolding sweep_loop_batch by (rule batch_loop_view) (simp add: session_view_def)

lemma reconcile_loop_rows:
  "reconcile_loop ks h l now st = batch_loop session_view (\<lambda>v. not_running (fst v)) (\<lambda>k st. snd (reconcile k now st)) ks h l st"
  unfolding reconcile_loop_batch by (rule batch_loop_view) (simp add: session_view_def)

end
