(* ===== verification/Mailbox_Props.thy ===== *)
theory Mailbox_Props
  imports Mailbox_Loops
begin

text \<open>
  The properties of the in-memory mailbox store: invariant, fencing, mutual exclusion, in-order
  resolution, monotone histories, wake-ups, idempotent admission, progress, and the outcome of the
  recovery operations. The witnesses follow one concrete session through accept, claim, commit and
  recovery.
\<close>

subsection \<open>A concrete history\<close>

definition demo_key :: session_key where "demo_key = (''tenant'', ''session'')"

definition demo_empty :: mailbox_store where "demo_empty = init_mailbox_store (\<lambda>_. ''uuid'')"

definition demo_accepted :: mailbox_store where
  "demo_accepted =
     snd (accept demo_key ''m2'' 0 None None 20
       (snd (accept demo_key ''m1'' 5 None None 10 demo_empty)))"

definition demo_running :: mailbox_store where
  "demo_running = snd (claim demo_key ''w1'' 100 30 demo_accepted)"

definition demo_lease :: mailbox_lease where
  "demo_lease =
     \<lparr>ml_tenant_id = ''tenant'', ml_session_id = ''session'', ml_inbound_id = ''m1'', ml_sequence = 1,
      ml_owner_id = ''w1'', ml_epoch = 1, ml_expires_at = 130, ml_attempt = 1, ml_retry_count = 0,
      ml_priority = 5\<rparr>"

definition demo_reclaimed :: mailbox_store where
  "demo_reclaimed = snd (claim demo_key ''w2'' 100 200 demo_running)"

lemma demo_reachable:
  "reachable_from mailbox_step demo_empty demo_accepted"
  "reachable_from mailbox_step demo_empty demo_running"
  "reachable_from mailbox_step demo_running demo_reclaimed"
  unfolding demo_reclaimed_def demo_running_def demo_accepted_def
  by (meson mailbox_step.intros reachable_from.intros)+

lemma demo_inv: "store_inv demo_empty" "store_inv demo_accepted" "store_inv demo_running" "store_inv demo_reclaimed"
  using init_mailbox_store_inv by (simp_all add: demo_empty_def demo_accepted_def demo_running_def demo_reclaimed_def inv_intros)

lemma demo_eval:
  "fst (claim demo_key ''w1'' 100 30 demo_accepted) = Inr (Some demo_lease)"
  "lease_held demo_running demo_lease 100"
  "mailbox_epoch demo_reclaimed demo_key = 2"
  by code_simp+

subsection \<open>Which operations resolve messages\<close>

definition resolved_count :: "mailbox_store \<Rightarrow> session_key \<Rightarrow> nat" where
  "resolved_count st k = (case ms_get k st of None \<Rightarrow> 0 | Some m \<Rightarrow> mb_resolved_sequence m)"

lemma resolved_count_simps [fields_simps]:
  "resolved_count (ms_put k m st) k' = (if k' = k then mb_resolved_sequence m else resolved_count st k')"
  "resolved_count (ms_put_item k n it st) k' = resolved_count st k'"
  "resolved_count (snd (append_ready m it now g st)) k' = resolved_count st k'"
  by (simp_all add: resolved_count_def fields_simps)

lemma resolved_count_get: "ms_get k st = Some m \<Longrightarrow> resolved_count st k = mb_resolved_sequence m"
  "ms_get k st = None \<Longrightarrow> resolved_count st k = 0"
  by (simp_all add: resolved_count_def)

lemma accept_new_resolved:
  "resolved_count st k = mb_resolved_sequence m \<Longrightarrow>
   resolved_count (snd (accept_new k inbound p r tr now m st)) k' = resolved_count st k'"
  by (auto simp: accept_new_def Let_def emit_ready_eq fields_simps split: prod.splits if_splits)

lemma accept_resolved: "resolved_count (snd (accept k inbound p r tr now st)) k' = resolved_count st k'"
  by (auto simp: accept_def ensure_mailbox_def Let_def accept_new_resolved fields_simps resolved_count_get
      new_session_mailbox_def split: option.splits prod.splits)

lemma claim_resolved: "resolved_count (snd (claim k owner lf now st)) k' = resolved_count st k'"
  by (auto simp: claim_def grant_claim_def Let_def fields_simps resolved_count_get split: option.splits)

lemma claim_session_resolved:
  "resolved_count (snd (claim_session k owner lf eg ee acc now st)) k' = resolved_count st k'"
  using snd_claim_session [of k owner lf eg ee acc now st] claim_resolved by metis

lemma renew_resolved: "resolved_count (snd (renew l lf now st)) k' = resolved_count st k'"
  by (auto simp: renew_def Let_def fields_simps require_owned_Inr resolved_count_get split: option.splits sum.splits)

lemma renew_many_resolved: "resolved_count (snd (renew_many ls lf now st)) k' = resolved_count st k'"
proof (induction ls arbitrary: st)
  case (Cons l ls)
  then show ?case using renew_resolved [of l lf now st k']
    by (cases "renew l lf now st") (auto split: sum.splits prod.splits, (metis snd_conv)+)
qed simp

lemma release_resolved: "resolved_count (snd (release l r p inc emit now st)) k' = resolved_count st k'"
  by (auto simp: release_def Let_def fields_simps require_owned_Inr resolved_count_get emit_ready_eq
      split: option.splits sum.splits if_splits prod.splits)

lemma recover_resolved: "resolved_count (snd (recover k now st)) k' = resolved_count st k'"
  by (auto simp: recover_def Let_def fields_simps resolved_count_get emit_ready_eq
      split: option.splits if_splits prod.splits)

lemma reconcile_resolved: "resolved_count (snd (reconcile k now st)) k' = resolved_count st k'"
proof (cases "ms_get k st")
  case (Some m)
  have *: "resolved_count (snd (requeue_ready m' it now st)) k' = resolved_count st k'"
       "mb_resolved_sequence (fst (requeue_ready m' it now st)) = mb_resolved_sequence m'" for m' it
    by (auto simp: requeue_ready_def Let_def fields_simps)
  show ?thesis using Some resolved_count_get(1) [OF Some]
    by (simp add: reconcile_def Let_def split_beta fields_simps emit_ready_eq * split: option.splits)
qed (simp add: reconcile_def)

lemma sweep_loop_resolved: "resolved_count (snd (sweep_loop ks h l now st)) k' = resolved_count st k'"
proof (induction ks h l now st rule: sweep_loop.induct)
  case (2 k ks h l now st)
  then show ?case using recover_resolved [of k now st k'] by (auto split: option.splits prod.splits)
qed simp

lemma schedule_loop_resolved: "resolved_count (snd (schedule_loop ks h l now st)) k' = resolved_count st k'"
proof (induction ks h l now st rule: schedule_loop.induct)
  case (2 k ks h l now st)
  then show ?case using reconcile_resolved [of k now st k'] by (auto split: option.splits prod.splits)
qed simp

lemma reconcile_loop_resolved: "resolved_count (snd (reconcile_loop ks h l now st)) k' = resolved_count st k'"
proof (induction ks h l now st rule: reconcile_loop.induct)
  case (2 k ks h l now st)
  then show ?case using reconcile_resolved [of k now st k'] by (auto split: option.splits prod.splits)
qed simp

lemma loops_resolved:
  "resolved_count (snd (sweep_expired_leases limit now st)) k' = resolved_count st k'"
  "resolved_count (snd (schedule_retries limit now st)) k' = resolved_count st k'"
  "resolved_count (snd (reconcile_sessions limit now st)) k' = resolved_count st k'"
  using sweep_loop_resolved [of "map fst (ms_mailboxes st)" 0 "nat limit" now st k']
    schedule_loop_resolved [of "map fst (ms_mailboxes st)" 0 "nat limit" now st k']
    reconcile_loop_resolved [of "map fst (ms_mailboxes st)" 0 "nat limit" now st k']
  by (auto simp: sweep_expired_leases_def schedule_retries_def reconcile_sessions_def split: prod.splits)

lemmas resolved_unchanged = accept_resolved claim_resolved claim_session_resolved renew_resolved
  renew_many_resolved release_resolved recover_resolved reconcile_resolved loops_resolved

lemma commit_granted:
  assumes "store_inv st" and "commit l now st = (Inr m', st')"
  obtains m where "ms_get (ml_key l) st = Some m" and "owns (Some m) l now"
    and "ms_get (ml_key l) st' = Some m'" and "unleased m'"
    and "mb_resolved_sequence m' = mb_resolved_sequence m + 1"
    and "mb_accepted_sequence m' = mb_accepted_sequence m"
    and "mb_lease_epoch m' = mb_lease_epoch m"
    and "\<And>k. k \<noteq> ml_key l \<Longrightarrow> ms_get k st' = ms_get k st"
    and "ms_items st' = ms_items st"
    and "mb_queue_generation m' = mb_queue_generation m + (if mb_status m' = QUEUED then 1 else 0)"
proof -
  from assms(2) obtain m where m: "ms_get (ml_key l) st = Some m" "owns (Some m) l now"
    by (auto simp: commit_def require_owned_Inr split: sum.splits)
  note w = owns_wf [OF assms(1) m]
  note x = store_invD(3) [OF assms(1) m(1)]
  show thesis
    by (rule that [OF m])
      (use assms(2) m w next_item_iff [OF assms(1) m(1), of "ml_sequence l + 1"] in
        \<open>auto simp: commit_def require_owned_def Let_def fields_simps emit_ready_eq unleased_def ready_status_def
          split: sum.splits option.splits if_splits\<close>)
qed

lemma commit_next:
  assumes "store_inv st" and "commit l now st = (Inr m', st')"
  shows "case ms_item (ml_key l) (mb_resolved_sequence m' + 1) st of
      None \<Rightarrow> mb_status m' = IDLE
    | Some it \<Rightarrow> if later_than (it_retry_at it) now then mb_status m' = RETRY_WAIT \<and> mb_retry_at m' = it_retry_at it
        else mb_status m' = QUEUED"
proof -
  obtain m where m: "ms_get (ml_key l) st = Some m" "owns (Some m) l now"
    "mb_resolved_sequence m' = mb_resolved_sequence m + 1" "mb_accepted_sequence m' = mb_accepted_sequence m"
    "ms_get (ml_key l) st' = Some m'"
    using commit_granted [OF assms] by metis
  have s: "ml_sequence l = mb_resolved_sequence m'"
    using assms(2) owns_wf [OF assms(1) m(1,2)] m by (auto simp: commit_def require_owned_def split: if_splits)
  have i: "mailbox_wf m'" using store_invD(3) [OF commit_inv [OF assms(1), of l now]] assms(2) m(5) by simp
  show ?thesis
  proof (cases "ms_item (ml_key l) (mb_resolved_sequence m' + 1) st")
    case None
    then have "mb_accepted_sequence m' < mb_resolved_sequence m' + 1"
      using next_item_iff [OF assms(1) m(1), of "mb_resolved_sequence m' + 1"] m(4) by auto
    then show ?thesis using None i by (simp add: mailbox_wf_def)
  next
    case (Some it)
    then have "ms_item (ml_key l) (ml_sequence l + 1) st = Some it" by (simp add: s)
    then show ?thesis using assms(2) m(1,2) unfolding Some
      by (auto simp: commit_def require_owned_def Let_def fields_simps emit_ready_eq split: if_splits)
  qed
qed

subsection \<open>Properties\<close>

text \<open>
  C1. In every state the in-memory mailbox store can reach from its constructor by any sequence of
  its operations, at any times and with any arguments, the store is well formed: sequences of a
  session are contiguous and none is resolved before it is accepted, a mailbox is idle exactly when
  it has no backlog, the processing and lease columns are set together and exactly while the mailbox
  is running, the running item is the first unresolved one, no inbound id is stored twice, and the
  outbox holds exactly one wake-up for each generation.
\<close>

theorem mailbox_invariant:
  assumes "reachable_from mailbox_step (init_mailbox_store uuids) st"
  shows "store_inv st"
  using mailbox.reachable_inv [OF assms init_mailbox_store_inv] .

theorem mailbox_invariant_witness:
  "reachable_from mailbox_step (init_mailbox_store (\<lambda>_. ''uuid'')) demo_running \<and> store_inv demo_running"
  using demo_reachable(2) mailbox_invariant [of "\<lambda>_. ''uuid''" demo_running] unfolding demo_empty_def by blast

text \<open>
  C2. Once the epoch of a session has moved past the epoch of a lease, no later state accepts that
  lease: commit, renew and every form of release raise \<^verbatim>\<open>FencingConflict\<close> and change nothing,
  whatever operations ran in between and whatever the clock says.
\<close>

theorem mailbox_stale_lease_is_fenced:
  assumes "store_inv st" and "ml_epoch l < mailbox_epoch st (ml_key l)"
    and "reachable_from mailbox_step st st'" and "0 < lf" and "\<forall>q. p = Some q \<longrightarrow> 0 \<le> q"
  shows "commit l now st' = (Inl (FencingConflict ''mailbox lease is no longer current''), st')
       \<and> renew l lf now st' = (Inl (FencingConflict ''mailbox lease is no longer current''), st')
       \<and> release l r p inc emit now st' =
           (Inl (FencingConflict ''mailbox lease is no longer current''), st')"
  using not_held_fenced [OF mailbox.stale_token_never_holds [OF assms(3,1,2)]] assms(4,5) by auto

theorem mailbox_stale_lease_is_fenced_witness:
  "lease_held demo_running demo_lease 100 \<and> ml_epoch demo_lease < mailbox_epoch demo_reclaimed (ml_key demo_lease)
   \<and> commit demo_lease 201 demo_reclaimed =
       (Inl (FencingConflict ''mailbox lease is no longer current''), demo_reclaimed)"
proof -
  have e: "ml_epoch demo_lease < mailbox_epoch demo_reclaimed (ml_key demo_lease)"
    using demo_eval(3) by (simp add: demo_lease_def demo_key_def)
  show ?thesis
    using mailbox_stale_lease_is_fenced [OF demo_inv(4) e reachable_from.here, of 1 None 201 None False False] e demo_eval(2)
    by simp
qed

text \<open>
  C3. A claim is granted only if no lease of the session is live at that or any later time in the old
  state; the granted lease carries the next epoch, is live until it expires, and is the only lease
  (up to its expiry column) the new state recognises.
\<close>

theorem claim_excludes_live_lease:
  assumes "store_inv st" and "claim k owner lf now st = (Inr (Some l), st')"
  shows "ml_key l = k \<and> ml_owner_id l = owner \<and> ml_epoch l = mailbox_epoch st k + 1
       \<and> (\<forall>l' t. ml_key l' = k \<longrightarrow> now \<le> t \<longrightarrow> \<not> lease_held st l' t)
       \<and> (\<forall>t < now + lf. lease_held st' l t)
       \<and> (\<forall>l' t. ml_key l' = k \<longrightarrow> lease_held st' l' t \<longrightarrow>
            ml_owner_id l' = owner \<and> ml_epoch l' = ml_epoch l \<and> ml_inbound_id l' = ml_inbound_id l
            \<and> ml_sequence l' = ml_sequence l)"
proof -
  obtain m it where m: "ms_get k st = Some m" "\<not> later_than (mb_lease_expires_at m) now"
    and g: "grant_claim k owner lf now m (mb_resolved_sequence m + 1) it st = (Inr (Some l), st')"
    using claim_granted [OF assms] by metis
  note r = grant_claim_result [OF g]
  have "\<not> lease_held st l' t" if "ml_key l' = k" "now \<le> t" for l' t
    using that m by (auto simp: lease_held_def owns_def later_than_iff)
  moreover have "ml_owner_id l' = owner \<and> ml_epoch l' = ml_epoch l \<and> ml_inbound_id l' = ml_inbound_id l
            \<and> ml_sequence l' = ml_sequence l" if "ml_key l' = k" "lease_held st' l' t" for l' t
    using that g r by (auto simp: grant_claim_def Let_def lease_held_def owns_def fields_simps)
  ultimately show ?thesis using r m by (auto simp: mailbox_epoch_def)
qed

theorem claim_excludes_live_lease_witness:
  "store_inv demo_accepted \<and> claim demo_key ''w1'' 100 30 demo_accepted = (Inr (Some demo_lease), demo_running)
   \<and> lease_held demo_running demo_lease 100
   \<and> \<not> lease_held demo_accepted demo_lease 30"
proof -
  have c: "claim demo_key ''w1'' 100 30 demo_accepted = (Inr (Some demo_lease), demo_running)"
    using demo_eval(1) by (simp add: demo_running_def prod_eq_iff)
  show ?thesis using claim_excludes_live_lease [OF demo_inv(2) c] c demo_inv(2) by simp
qed

text \<open>
  C4. A successful commit was made by the lease holder, resolves exactly the next sequence number of
  the session, and that number is the one of the leased inbound message; afterwards no lease of the
  session is live and no other session changes. What comes next is decided by the next item: without one the mailbox is
  idle and no wake-up is emitted; if the retry time of the next item lies ahead, the mailbox waits for exactly that time
  and no wake-up is emitted; otherwise the mailbox is queued in a new generation and exactly the wake-up of that
  generation is appended.
\<close>

theorem commit_resolves_head:
  assumes "store_inv st" and "commit l now st = (Inr m', st')"
  shows "lease_held st l now
       \<and> resolved_count st' (ml_key l) = resolved_count st (ml_key l) + 1
       \<and> (\<exists>it. ms_item (ml_key l) (resolved_count st' (ml_key l)) st = Some it \<and> it_inbound_id it = ml_inbound_id l)
       \<and> (\<forall>l' t. ml_key l' = ml_key l \<longrightarrow> \<not> lease_held st' l' t)
       \<and> (mb_status m' = IDLE \<longleftrightarrow> mb_resolved_sequence m' = mb_accepted_sequence m')
       \<and> (case ms_item (ml_key l) (resolved_count st' (ml_key l) + 1) st of
            None \<Rightarrow> mb_status m' = IDLE \<and> ready_generations (ml_key l) st' = ready_generations (ml_key l) st
          | Some it \<Rightarrow>
              if later_than (it_retry_at it) now
              then mb_status m' = RETRY_WAIT \<and> mb_retry_at m' = it_retry_at it
                 \<and> ready_generations (ml_key l) st' = ready_generations (ml_key l) st
              else mb_status m' = QUEUED
                 \<and> ready_generations (ml_key l) st' = ready_generations (ml_key l) st @ [Some (JInt (int (mb_queue_generation m')))])
       \<and> (\<forall>k. k \<noteq> ml_key l \<longrightarrow> ms_get k st' = ms_get k st) \<and> ms_items st' = ms_items st"
proof -
  obtain m where m: "ms_get (ml_key l) st = Some m" "owns (Some m) l now"
    "ms_get (ml_key l) st' = Some m'" "unleased m'"
    "mb_resolved_sequence m' = mb_resolved_sequence m + 1" "\<And>k. k \<noteq> ml_key l \<Longrightarrow> ms_get k st' = ms_get k st"
    "ms_items st' = ms_items st"
    "mb_queue_generation m' = mb_queue_generation m + (if mb_status m' = QUEUED then 1 else 0)"
    using commit_granted [OF assms] by metis
  have i: "store_inv st'" using commit_inv [OF assms(1), of l now] assms(2) by simp
  note w = store_invD [OF assms(1) m(1)] and w' = store_invD [OF i m(3)]
  have "\<exists>it. ms_item (ml_key l) (mb_resolved_sequence m + 1) st = Some it \<and> it_inbound_id it = ml_inbound_id l"
    using w(6) m(2) owns_wf(1) [OF assms(1) m(1,2)] by (auto simp: owns_def ms_item_def)
  moreover have "\<not> lease_held st' l' t" if "ml_key l' = ml_key l" for l' t
    using m(3,4) that by (auto simp: lease_held_def owns_def unleased_def)
  moreover have "ready_generations (ml_key l) st' = ready_generations (ml_key l) st @
      (if mb_status m' = QUEUED then [Some (JInt (int (mb_queue_generation m')))] else [])"
    using m(8) w(5) w'(5) by (simp add: generations_upto_Suc)
  moreover note commit_next [OF assms]
  moreover have "mb_status m' = IDLE \<longleftrightarrow> mb_resolved_sequence m' = mb_accepted_sequence m'"
    using w'(3) by (simp add: mailbox_wf_def)
  ultimately show ?thesis
    using m(1-3,5-7) by (simp add: lease_held_def resolved_count_get split: option.splits if_splits)
qed

text \<open>
  No operation but a commit by the current lease holder changes which messages of a session count
  as resolved: claims, renewals, retries, recovery and the periodic jobs never skip a message.
\<close>

theorem only_commit_resolves:
  assumes "mailbox_step st st'" and "resolved_count st' k \<noteq> resolved_count st k"
  shows "\<exists>l now. ml_key l = k \<and> lease_held st l now \<and> st' = snd (commit l now st)
            \<and> resolved_count st' k = ml_sequence l"
  using assms
proof (cases rule: mailbox_step.cases)
  case (step_commit l now)
  with assms(2) have "ml_key l = k \<and> lease_held st l now \<and> resolved_count st' k = ml_sequence l"
    by (auto simp: commit_def Let_def lease_held_def require_owned_def fields_simps emit_ready_eq resolved_count_get
        split: sum.splits if_splits option.splits)
  with step_commit show ?thesis by blast
qed (simp_all add: resolved_unchanged reschedule_def retry_def retry_without_wakeup_def)

text \<open>
  Along every history of the store no session disappears, its accepted and resolved sequence, its
  generation and its lease epoch never decrease, no accepted item is lost or replaced by another
  inbound message, attempts never decrease, and the outbox of wake-ups is only appended to.
\<close>

theorem mailbox_history_is_monotone:
  assumes "reachable_from mailbox_step (init_mailbox_store uuids) st" and "reachable_from mailbox_step st st'"
  shows "store_le st st'"
  using reachable_store_le [OF assms(2) mailbox.reachable_inv [OF assms(1) init_mailbox_store_inv]] .

definition demo_committed :: mailbox_store where
  "demo_committed = snd (commit demo_lease 60 demo_running)"

lemma demo_commit:
  "commit demo_lease 60 demo_running = (Inr (the (ms_get demo_key demo_committed)), demo_committed)"
  "resolved_count demo_running demo_key = 0" "resolved_count demo_committed demo_key = 1"
proof -
  have "fst (commit demo_lease 60 demo_running) = Inr (the (ms_get demo_key demo_committed))" by code_simp
  then show "commit demo_lease 60 demo_running = (Inr (the (ms_get demo_key demo_committed)), demo_committed)"
    by (simp add: demo_committed_def prod_eq_iff)
  show "resolved_count demo_running demo_key = 0" "resolved_count demo_committed demo_key = 1" by code_simp+
qed

lemma demo_lease_key: "ml_key demo_lease = demo_key"
  by (simp add: demo_lease_def demo_key_def)

theorem commit_resolves_head_witness:
  "\<exists>m'. store_inv demo_running \<and> commit demo_lease 60 demo_running = (Inr m', demo_committed)
     \<and> resolved_count demo_committed demo_key = resolved_count demo_running demo_key + 1
     \<and> (\<forall>t. \<not> lease_held demo_committed demo_lease t) \<and> mb_status m' = QUEUED
     \<and> ready_generations demo_key demo_committed = ready_generations demo_key demo_running @ [Some (JInt (int (mb_queue_generation m')))]"
proof -
  have n: "case ms_item demo_key 2 demo_running of None \<Rightarrow> False | Some it \<Rightarrow> \<not> later_than (it_retry_at it) 60" by code_simp
  then obtain it where "ms_item demo_key (Suc 1) demo_running = Some it" "\<not> later_than (it_retry_at it) 60"
    by (auto simp: numeral_2_eq_2 split: option.splits)
  then show ?thesis
    using commit_resolves_head [OF demo_inv(3) demo_commit(1)] demo_commit demo_inv(3) by (simp add: demo_lease_key)
qed

theorem only_commit_resolves_witness:
  "mailbox_step demo_running demo_committed \<and> resolved_count demo_committed demo_key \<noteq> resolved_count demo_running demo_key
   \<and> (\<exists>l now. ml_key l = demo_key \<and> lease_held demo_running l now)"
proof -
  have s: "mailbox_step demo_running demo_committed" unfolding demo_committed_def by (rule step_commit)
  have n: "resolved_count demo_committed demo_key \<noteq> resolved_count demo_running demo_key" by (simp add: demo_commit)
  from s n only_commit_resolves [OF s n] show ?thesis by blast
qed

theorem mailbox_history_is_monotone_witness:
  "reachable_from mailbox_step (init_mailbox_store (\<lambda>_. ''uuid'')) demo_accepted
   \<and> reachable_from mailbox_step demo_accepted demo_running \<and> store_le demo_accepted demo_running"
proof -
  have a: "reachable_from mailbox_step (init_mailbox_store (\<lambda>_. ''uuid'')) demo_accepted"
    using demo_reachable(1) by (simp add: demo_empty_def)
  have b: "reachable_from mailbox_step demo_accepted demo_running"
    unfolding demo_running_def by (meson step_claim reachable_from.intros)
  from a b mailbox_history_is_monotone [OF a b] show ?thesis by blast
qed

lemma batch_loop_keeps: "(\<And>k s. f (act k s) = f s) \<Longrightarrow> f (snd (batch_loop view due act ks h l s)) = f s"
  by (induction ks arbitrary: h s) simp_all

lemma loops_items:
  "ms_items (snd (sweep_expired_leases limit now st)) = ms_items st"
  "ms_items (snd (reconcile_sessions limit now st)) = ms_items st"
  by (simp_all add: sweep_expired_leases_def reconcile_sessions_def sweep_loop_batch reconcile_loop_batch split_beta
      batch_loop_keeps [where f = ms_items] recover_items reconcile_items)

lemma filter_limit: "length xs \<le> n \<Longrightarrow> 0 + length (filter P (map f xs)) \<le> n"
  using order_trans [OF length_filter_le] by (metis add_0 length_map)

lemma sweep_row:
  assumes "store_inv st" and "sweep_expired_leases limit now st = (Inr n, st')"
    and "length (ms_mailboxes st) \<le> nat limit" and "ms_get k st = Some m"
  obtains "\<not> lease_expired now (Some m)" and "ms_get k st' = Some m"
  | s0 where "lease_expired now (Some m)" and "store_inv s0" and "session_view k s0 = session_view k st"
      and "ms_get k st' = ms_get k (snd (recover k now s0))"
proof -
  let ?ks = "map fst (ms_mailboxes st)"
  let ?loop = "batch_loop session_view (\<lambda>v. lease_expired now (fst v)) (\<lambda>k st. snd (recover k now st)) ?ks 0 (nat limit) st"
  have d: "distinct ?ks" using assms(1) by (simp add: store_inv_def)
  have st': "st' = snd ?loop"
    using assms(2) by (auto simp: sweep_expired_leases_def sweep_loop_rows split: if_splits prod.splits)
  have k: "k \<in> set ?ks" using assms(4) by (auto simp: ms_get_def dest: map_of_SomeD intro: rev_image_eqI)
  have c: "0 + length (filter (\<lambda>k. lease_expired now (fst (session_view k st))) ?ks) \<le> nat limit"
    using assms(3) by (rule filter_limit)
  show thesis
  proof (cases "lease_expired now (Some m)")
    case True
    then have "lease_expired now (fst (session_view k st))" using assms(4) by (simp add: session_view_def)
    from sweep_rows.batch_acts [OF assms(1) d c k this] that(2) [OF True] show thesis
      unfolding st' by (auto simp: session_view_eq)
  next
    case False
    then have "session_view k (snd ?loop) = session_view k st"
      using assms(1,4) d by (intro sweep_rows.batch_untouched) (simp_all add: session_view_def)
    then show thesis using that(1) False assms(4) unfolding st' by (simp add: session_view_eq)
  qed
qed

lemma reconcile_sessions_row:
  assumes "store_inv st" and "reconcile_sessions limit now st = (Inr n, st')"
    and "length (ms_mailboxes st) \<le> nat limit" and "ms_get k st = Some m" and "mb_status m \<noteq> RUNNING"
  obtains s0 where "store_inv s0" and "session_view k s0 = session_view k st"
      and "ms_get k st' = ms_get k (snd (reconcile k now s0))"
proof -
  let ?ks = "map fst (ms_mailboxes st)"
  have d: "distinct ?ks" using assms(1) by (simp add: store_inv_def)
  have st': "st' = snd (batch_loop session_view (\<lambda>v. not_running (fst v)) (\<lambda>k st. snd (reconcile k now st)) ?ks 0 (nat limit) st)"
    using assms(2) by (auto simp: reconcile_sessions_def reconcile_loop_rows split: if_splits prod.splits)
  have k: "k \<in> set ?ks" using assms(4) by (auto simp: ms_get_def dest: map_of_SomeD intro: rev_image_eqI)
  have c: "0 + length (filter (\<lambda>k. not_running (fst (session_view k st))) ?ks) \<le> nat limit"
    using assms(3) by (rule filter_limit)
  have "not_running (fst (session_view k st))" using assms(4,5) by (simp add: session_view_def not_running_def)
  from reconciled_rows.batch_acts [OF assms(1) d c k this] that show thesis
    unfolding st' by (auto simp: session_view_eq)
qed

lemma due_head_status:
  assumes "store_inv st" and "ms_get k st = Some m" and "session_view k s0 = session_view k st"
    and "ms_item k (mb_resolved_sequence m + 1) st = Some it" and "\<not> later_than (it_retry_at it) now"
  shows "head_status (ms_item k (head_sequence m) s0) (head_sequence m) m now = (QUEUED, None)"
proof -
  note w = store_invD [OF assms(1,2)]
  have h: "head_sequence m = mb_resolved_sequence m + 1"
    using w(3) by (auto simp: head_sequence_def mailbox_wf_def split: option.splits if_splits)
  have "mb_resolved_sequence m + 1 \<le> mb_accepted_sequence m"
    using next_item_iff [OF assms(1,2), of "mb_resolved_sequence m + 1"] assms(4) by auto
  then show ?thesis using assms(3-5) h by (simp add: head_status_def session_view_def ms_item_def)
qed

text \<open>
  After a sweep of expired leases a session with a due head is queued or was not leased at all, and its head is the same.
\<close>

lemma sweep_due_head:
  assumes "store_inv st" and "ms_get k st = Some m" and "\<not> later_than (mb_lease_expires_at m) now"
    and "ms_item k (mb_resolved_sequence m + 1) st = Some it" and "\<not> later_than (it_retry_at it) now"
    and "length (ms_mailboxes st) \<le> nat limit" and "sweep_expired_leases limit now st = (Inr n, st')"
  obtains m' where "ms_get k st' = Some m'" and "mb_status m' \<noteq> RUNNING" and "\<not> later_than (mb_lease_expires_at m') now"
    and "mb_resolved_sequence m' = mb_resolved_sequence m"
  using assms(1,7,6,2)
proof (cases rule: sweep_row)
  case 1
  have "mb_status m \<noteq> RUNNING"
    using 1(1) assms(3) store_invD(3) [OF assms(1,2)]
    by (auto simp: lease_expired_def mailbox_wf_def later_than_iff not_later_than_iff)
  with 1 assms(3) that show thesis by blast
next
  case (2 s0)
  have g: "ms_get k s0 = Some m" using 2(3) assms(2) by (simp add: session_view_eq)
  have x: "not_later_than (mb_lease_expires_at m) now" using 2(1) by (simp add: lease_expired_def)
  obtain m' where "ms_get k (snd (recover k now s0)) = Some m'" "unleased m'" "mb_resolved_sequence m' = mb_resolved_sequence m"
      "(mb_status m', mb_retry_at m') = head_status (ms_item k (head_sequence m) s0) (head_sequence m) m now"
    by (rule recover_row [OF g x])
  with that 2(4) due_head_status [OF assms(1,2) 2(3) assms(4,5)] show thesis by (simp add: unleased_def)
qed

lemma queued_wakeup:
  assumes "store_inv st" and "ms_get k st = Some m" and "mb_status m = QUEUED"
  shows "Some (JInt (int (mb_queue_generation m))) \<in> set (ready_generations k st)"
  using store_invD(3,5) [OF assms(1,2)] assms(3) by (auto simp: mailbox_wf_def generations_upto_def)

text \<open>
  C31. No backlog is forgotten. In every reachable state, take a session that has a message to process now: its first
  unresolved item is due and no lease of it is in force. Whatever its status and its stored retry time say, one round of
  maintenance, the sweep of expired leases and then the reconciliation with limits that cover the sessions, leaves it queued,
  without a lease, with that item still the first unresolved one, and with the wake-up of its current generation in the outbox.
\<close>

theorem maintenance_wakes_due_backlog:
  assumes "reachable_from mailbox_step (init_mailbox_store uuids) st" and "ms_get k st = Some m"
    and "ms_item k (mb_resolved_sequence m + 1) st = Some it" and "\<not> later_than (it_retry_at it) now"
    and "\<not> later_than (mb_lease_expires_at m) now"
    and "sweep_expired_leases limit now st = (Inr n1, st1)" and "length (ms_mailboxes st) \<le> nat limit"
    and "reconcile_sessions limit' now' st1 = (Inr n2, st2)" and "length (ms_mailboxes st1) \<le> nat limit'"
    and "now \<le> now'"
  shows "\<exists>m'. ms_get k st2 = Some m' \<and> mb_status m' = QUEUED \<and> unleased m'
       \<and> mb_resolved_sequence m' = mb_resolved_sequence m \<and> ms_item k (mb_resolved_sequence m + 1) st2 = Some it
       \<and> Some (JInt (int (mb_queue_generation m'))) \<in> set (ready_generations k st2)"
proof -
  have i: "store_inv st" using mailbox.reachable_inv [OF assms(1) init_mailbox_store_inv] .
  have i1: "store_inv st1" using sweep_expired_leases_inv [OF i, of limit now] assms(6) by simp
  have i2: "store_inv st2" using reconcile_sessions_inv [OF i1, of limit' now'] assms(8) by simp
  have it: "ms_items st1 = ms_items st" "ms_items st2 = ms_items st1"
    using loops_items(1) [of limit now st] loops_items(2) [of limit' now' st1] assms(6,8) by simp_all
  obtain m1 where m1: "ms_get k st1 = Some m1" "mb_status m1 \<noteq> RUNNING" "\<not> later_than (mb_lease_expires_at m1) now"
      "mb_resolved_sequence m1 = mb_resolved_sequence m"
    by (rule sweep_due_head [OF i assms(2,5,3,4,7,6)])
  obtain s0 where s0: "store_inv s0" "session_view k s0 = session_view k st1" "ms_get k st2 = ms_get k (snd (reconcile k now' s0))"
    by (rule reconcile_sessions_row [OF i1 assms(8,9) m1(1,2)])
  have "ms_item k (mb_resolved_sequence m1 + 1) st1 = Some it" using assms(3) it(1) m1(4) by (simp add: ms_item_def)
  moreover have t: "\<not> later_than (it_retry_at it) now'" "\<not> later_than (mb_lease_expires_at m1) now'"
    using assms(4,10) m1(3) by (auto simp: later_than_iff)
  ultimately have h: "head_status (ms_item k (head_sequence m1) s0) (head_sequence m1) m1 now' = (QUEUED, None)"
    using due_head_status [OF i1 m1(1) s0(2)] by blast
  have "ms_get k s0 = Some m1" using s0(2) m1(1) by (simp add: session_view_eq)
  from reconcile_row [OF s0(1) this t(2) h]
  obtain m' where "ms_get k (snd (reconcile k now' s0)) = Some m'" "unleased m'" "mb_status m' = QUEUED"
      "mb_resolved_sequence m' = mb_resolved_sequence m1" by metis
  then show ?thesis using s0(3) m1(4) queued_wakeup [OF i2] assms(3) it by (auto simp: ms_item_def)
qed

theorem maintenance_wakes_due_backlog_witness:
  "\<exists>m'. mb_status (the (ms_get demo_key demo_running)) = RUNNING
     \<and> ms_get demo_key (snd (reconcile_sessions 10 201 (snd (sweep_expired_leases 10 200 demo_running)))) = Some m'
     \<and> mb_status m' = QUEUED"
proof -
  let ?s = "sweep_expired_leases 10 200 demo_running"
  let ?r = "reconcile_sessions 10 201 (snd ?s)"
  have e: "ms_get demo_key demo_running = Some (the (ms_get demo_key demo_running))"
    "ms_item demo_key (mb_resolved_sequence (the (ms_get demo_key demo_running)) + 1) demo_running
       = Some (the (ms_item demo_key (mb_resolved_sequence (the (ms_get demo_key demo_running)) + 1) demo_running))"
    "\<not> later_than (it_retry_at (the (ms_item demo_key (mb_resolved_sequence (the (ms_get demo_key demo_running)) + 1) demo_running))) 200"
    "\<not> later_than (mb_lease_expires_at (the (ms_get demo_key demo_running))) 200"
    "fst ?s = Inr 1" "length (ms_mailboxes demo_running) \<le> nat 10"
    "fst ?r = Inr 1" "length (ms_mailboxes (snd ?s)) \<le> nat 10"
    "mb_status (the (ms_get demo_key demo_running)) = RUNNING"
    by code_simp+
  have s: "?s = (Inr 1, snd ?s)" "?r = (Inr 1, snd ?r)" using e(5,7) by (simp_all add: prod_eq_iff)
  show ?thesis
    using maintenance_wakes_due_backlog [OF demo_reachable(2) [unfolded demo_empty_def] e(1-4) s(1) e(6) s(2) e(8)] e(9) by auto
qed

lemma find_inbound_Some:
  assumes "map_of items n = Some it" and "it_inbound_id it = x"
  shows "find (\<lambda>it. it_inbound_id it = x) (map snd items) \<noteq> None"
  using map_of_SomeD [OF assms(1)] assms(2) by (auto simp: find_None_iff image_iff)

lemma accept_success:
  assumes "store_inv st" and "accept k inbound p r tr now st = (Inr m', st')"
  obtains (known) it where "ms_get k st = Some m'" and "st' = st"
      and "find (\<lambda>it. it_inbound_id it = inbound) (map snd (ms_items st k)) = Some it"
  | (fresh) m st0 where "find (\<lambda>it. it_inbound_id it = inbound) (map snd (ms_items st k)) = None"
      and "st0 = (case ms_get k st of None \<Rightarrow> ms_put k m st | Some _ \<Rightarrow> st)"
      and "m = (case ms_get k st of None \<Rightarrow> new_session_mailbox (fst k) (snd k) now | Some m \<Rightarrow> m)"
      and "accept_new k inbound p r tr now m st0 = (Inr m', st')"
proof (cases "ms_get k st")
  case None
  then show thesis
    using assms store_inv_absent [OF assms(1) None] fresh
    by (auto simp: accept_def ensure_mailbox_def Let_def split: option.splits)
next
  case (Some m)
  then show thesis
    using assms fresh known by (auto simp: accept_def Let_def split: option.splits)
qed

lemma accept_new_row:
  assumes "accept_new k inbound p r tr now m st = (Inr m', st')"
  obtains it s g base t where "it_inbound_id it = inbound" and "it_priority it = p" and "it_retry_at it = r"
    and "it_trace_id it = str_or tr inbound" and "it_attempt it = 0"
    and "m' = m\<lparr>mb_status := s, mb_accepted_sequence := mb_accepted_sequence m + 1,
               mb_priority := max (mb_priority m) p, mb_retry_at := t, mb_updated_at := now, mb_queue_generation := g\<rparr>"
    and "ms_mailboxes base = ms_mailboxes st"
    and "ms_items base = (ms_items st)(k := AList.update (mb_accepted_sequence m + 1) it (ms_items st k))"
    and "st' = ms_put k m' base"
proof -
  obtain s t where s: "accept_status m r now = (s, t)" by fastforce
  let ?n = "mb_accepted_sequence m + 1"
  let ?it = "\<lparr>it_tenant_id = fst k, it_session_id = snd k, it_inbound_id = inbound, it_sequence = ?n,
     it_trace_id = str_or tr inbound, it_priority = p, it_retry_count = 0, it_attempt = 0, it_retry_at = r,
     it_accepted_at = now\<rparr>"
  let ?m = "m\<lparr>mb_status := s, mb_accepted_sequence := ?n, mb_priority := max (mb_priority m) p, mb_retry_at := t,
     mb_updated_at := now\<rparr>"
  let ?g = "mb_queue_generation m + 1"
  show thesis
  proof (cases "mb_status m \<in> {IDLE, RETRY_WAIT} \<and> s = QUEUED")
    case True
    with assms s show thesis
      by (intro that [where it = ?it and s = s and t = t and g = ?g
            and base = "snd (append_ready (?m\<lparr>mb_queue_generation := ?g\<rparr>) ?it now ?g (ms_put_item k ?n ?it st))"])
        (auto simp: accept_new_def Let_def emit_ready_eq fields_simps ms_put_item_def split: if_splits)
  next
    case False
    with assms s show thesis
      by (intro that [where it = ?it and s = s and t = t and g = "mb_queue_generation m" and base = "ms_put_item k ?n ?it st"])
        (auto simp: accept_new_def Let_def ms_put_item_def split: if_splits)
  qed
qed

lemma accept_new_success:
  assumes "accept_new k inbound p r tr now m st = (Inr m', st')"
  shows "ms_get k st' = Some m'" and "mb_accepted_sequence m' = mb_accepted_sequence m + 1"
    and "mb_resolved_sequence m' = mb_resolved_sequence m"
    and "mb_lease_epoch m' = mb_lease_epoch m" and "mb_processing_sequence m' = mb_processing_sequence m"
    and "mb_lease_owner m' = mb_lease_owner m" and "mb_lease_expires_at m' = mb_lease_expires_at m"
    and "\<exists>it. ms_item k (mb_accepted_sequence m + 1) st' = Some it \<and> it_inbound_id it = inbound
            \<and> it_priority it = p \<and> it_retry_at it = r \<and> it_trace_id it = str_or tr inbound \<and> it_attempt it = 0"
    and "n \<noteq> mb_accepted_sequence m + 1 \<Longrightarrow> ms_item k n st' = ms_item k n st"
    and "k' \<noteq> k \<Longrightarrow> ms_get k' st' = ms_get k' st"
    and "k' \<noteq> k \<Longrightarrow> ms_item k' n st' = ms_item k' n st"
  by (rule accept_new_row [OF assms], simp add: ms_item_def ms_get_def ms_put_def)+

lemma accept_validated:
  assumes "accept k inbound p r tr now st = (Inr m', st')"
  shows "validate_ids [fst k, snd k, inbound] = None" and "0 \<le> p"
  using assms by (auto simp: accept_def validate_priority_def split: option.splits if_splits)

text \<open>
  Accepting an inbound message again, with whatever priority, retry time, trace id and clock,
  returns the same mailbox and changes nothing.
\<close>

theorem accept_is_idempotent:
  assumes "store_inv st" and "accept k inbound p r tr now st = (Inr m', st')" and "0 \<le> p'"
  shows "accept k inbound p' r' tr' now' st' = (Inr m', st')"
  using assms(1,2)
proof (cases rule: accept_success)
  case (known it)
  then show ?thesis using accept_validated [OF assms(2)] assms(3)
    by (simp add: accept_def validate_priority_def)
next
  case (fresh m st0)
  note a = accept_new_success [OF fresh(4)]
  from a(8) obtain it where "map_of (ms_items st' k) (mb_accepted_sequence m + 1) = Some it" "it_inbound_id it = inbound"
    unfolding ms_item_def by blast
  from find_inbound_Some [OF this]
  obtain x where "find (\<lambda>it. it_inbound_id it = inbound) (map snd (ms_items st' k)) = Some x" by blast
  then show ?thesis using accept_validated [OF assms(2)] assms(3) a(1)
    by (simp add: accept_def validate_priority_def)
qed

text \<open>
  C32. A worker always gets the head of the backlog: with no live lease and the first unresolved item
  due, a claim with valid arguments succeeds, for exactly that item, and the lease is live.
\<close>

theorem claim_progress:
  assumes "store_inv st" and "ms_get k st = Some m" and "\<not> later_than (mb_lease_expires_at m) now"
    and "ms_item k (mb_resolved_sequence m + 1) st = Some it" and "\<not> later_than (it_retry_at it) now"
    and "fst k \<noteq> []" and "snd k \<noteq> []" and "owner \<noteq> []" and "0 < lf"
  shows "\<exists>l st'. claim k owner lf now st = (Inr (Some l), st') \<and> ml_sequence l = mb_resolved_sequence m + 1
           \<and> ml_inbound_id l = it_inbound_id it \<and> lease_held st' l now"
proof -
  note w = store_invD [OF assms(1,2)]
  have b: "mb_resolved_sequence m < mb_accepted_sequence m"
    using next_item_iff [OF assms(1,2), of "mb_resolved_sequence m + 1"] assms(4) by simp
  have "claim k owner lf now st = grant_claim k owner lf now m (mb_resolved_sequence m + 1) it st"
    using assms b w(3) by (auto simp: claim_def validate_ids_def validate_lease_for_def mailbox_wf_def split: option.splits if_splits)
  moreover obtain l st' where g: "grant_claim k owner lf now m (mb_resolved_sequence m + 1) it st = (Inr (Some l), st')"
    by (auto simp: grant_claim_def Let_def)
  ultimately show ?thesis using grant_claim_result [OF g] assms(9) by auto
qed

text \<open>
  The lease sweeper handles the expired leases up to its limit and reports their number; mailboxes
  without an expired lease are untouched, and if it stayed below the limit no expired lease is left.
\<close>

theorem sweep_recovers_expired:
  assumes "store_inv st" and "sweep_expired_leases limit now st = (Inr n, st')"
  shows "n = min (nat limit) (length (filter (\<lambda>k. lease_expired now (ms_get k st)) (map fst (ms_mailboxes st))))
       \<and> (\<forall>k. \<not> lease_expired now (ms_get k st) \<longrightarrow> ms_get k st' = ms_get k st)
       \<and> (n < nat limit \<longrightarrow> (\<forall>k. \<not> lease_expired now (ms_get k st')))"
proof -
  let ?ks = "map fst (ms_mailboxes st)"
  let ?loop = "batch_loop ms_get (lease_expired now) (\<lambda>k st. snd (recover k now st)) ?ks 0 (nat limit) st"
  have d: "distinct ?ks" using assms(1) by (rule store_inv_distinct)
  have l: "fst ?loop = n" "snd ?loop = st'"
    using assms(2) by (auto simp: sweep_expired_leases_def sweep_loop_batch split: if_splits prod.splits)
  have c: "n = min (nat limit) (length (filter (\<lambda>k. lease_expired now (ms_get k st)) ?ks))"
    using sweep.batch_count [OF assms(1) d, of 0 "nat limit" now] l(1) by simp
  have u: "ms_get k st' = ms_get k st" if "\<not> lease_expired now (ms_get k st)" for k
    using sweep.batch_untouched [OF assms(1) d, of k now 0 "nat limit"] that l(2) by simp
  have "\<not> lease_expired now (ms_get k st')" if "n < nat limit" for k
  proof (cases "k \<in> set ?ks")
    case True
    then show ?thesis using sweep.batch_clears [OF assms(1) d, of 0 now "nat limit" k] c that l(2) by simp
  next
    case False
    then have "ms_get k st = None" by (simp add: ms_get_def map_of_eq_None_iff)
    then show ?thesis using u [of k] by (simp add: lease_expired_def)
  qed
  with c u show ?thesis by blast
qed


theorem sweep_recovers_expired_witness:
  "fst (sweep_expired_leases 10 500 demo_running) = Inr 1
   \<and> lease_expired 500 (ms_get demo_key demo_running)
   \<and> \<not> lease_expired 500 (ms_get demo_key (snd (sweep_expired_leases 10 500 demo_running)))"
proof -
  have f: "fst (sweep_expired_leases 10 500 demo_running) = Inr 1" by code_simp
  then have s: "sweep_expired_leases 10 500 demo_running = (Inr 1, snd (sweep_expired_leases 10 500 demo_running))"
    by (simp add: prod_eq_iff)
  have e: "lease_expired 500 (ms_get demo_key demo_running)" by code_simp
  show ?thesis using sweep_recovers_expired [OF demo_inv(3) s] f e by (simp del: split_paired_All)
qed

theorem claim_progress_witness:
  "\<exists>l st'. claim demo_key ''w1'' 100 30 demo_accepted = (Inr (Some l), st') \<and> ml_inbound_id l = ''m1'' \<and> lease_held st' l 30"
proof -
  have e: "ms_get demo_key demo_accepted = Some (the (ms_get demo_key demo_accepted))"
    "\<not> later_than (mb_lease_expires_at (the (ms_get demo_key demo_accepted))) 30"
    "mb_resolved_sequence (the (ms_get demo_key demo_accepted)) + 1 = 1"
    "ms_item demo_key 1 demo_accepted = Some (the (ms_item demo_key 1 demo_accepted))"
    "\<not> later_than (it_retry_at (the (ms_item demo_key 1 demo_accepted))) 30"
    "it_inbound_id (the (ms_item demo_key 1 demo_accepted)) = ''m1''"
    "fst demo_key \<noteq> []" "snd demo_key \<noteq> []"
    by code_simp+
  then show ?thesis
    using claim_progress [OF demo_inv(2) e(1,2), unfolded e(3), OF e(4,5,7,8), of "''w1''" 100] by auto
qed

theorem accept_is_idempotent_witness:
  "\<exists>m'. accept demo_key ''m1'' 5 None None 10 demo_empty = (Inr m', snd (accept demo_key ''m1'' 5 None None 10 demo_empty))
     \<and> accept demo_key ''m1'' 9 (Some 99) (Some ''other'') 77 (snd (accept demo_key ''m1'' 5 None None 10 demo_empty))
       = (Inr m', snd (accept demo_key ''m1'' 5 None None 10 demo_empty))"
proof -
  let ?a = "accept demo_key ''m1'' 5 None None 10 demo_empty"
  have "fst ?a = Inr (the (ms_get demo_key (snd ?a)))" by code_simp
  then have a: "?a = (Inr (the (ms_get demo_key (snd ?a))), snd ?a)" by (simp add: prod_eq_iff)
  show ?thesis using accept_is_idempotent [OF demo_inv(1) a, of 9 "Some 99" "Some ''other''" 77] a by auto
qed

lemma claim_none:
  assumes "claim k owner lf now st = (Inr None, st')"
  shows "st' = st \<or> (\<exists>m m'. ms_get k st = Some m \<and> ms_get k st' = Some m'
          \<and> mb_queue_generation m' = mb_queue_generation m \<and> mb_lease_expires_at m' = mb_lease_expires_at m
          \<and> \<not> later_than (mb_lease_expires_at m) now)"
  using assms by (auto simp: claim_def grant_claim_def Let_def fields_simps split: option.splits if_splits)

lemma claim_some_exists: "claim k owner lf now st = (Inr (Some l), st') \<Longrightarrow> \<exists>m. ms_get k st = Some m"
  by (auto simp: claim_def split: option.splits)

text \<open>
  What each claim result means when a wake-up of generation g is handled: CLAIMED carries the
  lease the claim granted and g was current; STALE and RUNNING change nothing, and RUNNING is only
  reported while a lease is live; EMPTY means that nothing could be claimed and no lease is live.
\<close>

theorem claim_session_outcome:
  assumes "claim_session k owner lf (Some g) ee acc now st = (Inr c, st')"
  shows "case sc_status c of
      CLAIMED \<Rightarrow> \<exists>l m. sc_lease c = Some l \<and> claim k owner lf now st = (Inr (Some l), st')
                   \<and> ms_get k st = Some m \<and> g = int (mb_queue_generation m)
    | STALE \<Rightarrow> sc_lease c = None \<and> st' = st \<and> g \<noteq> int (mb_queue_generation (sc_mailbox c))
    | CLAIM_RUNNING \<Rightarrow> sc_lease c = None \<and> st' = st
                   \<and> (\<exists>m. ms_get k st = Some m \<and> later_than (mb_lease_expires_at m) now)
    | EMPTY \<Rightarrow> sc_lease c = None \<and> claim k owner lf now st = (Inr None, st')
                   \<and> (\<forall>m. ms_get k st' = Some m \<longrightarrow> \<not> later_than (mb_lease_expires_at m) now)"
proof -
  define before where "before = (case ms_get k st of None \<Rightarrow> new_session_mailbox (fst k) (snd k) now | Some m \<Rightarrow> m)"
  obtain res st1 where cl: "claim k owner lf now st = (res, st1)" by fastforce
  show ?thesis
  proof (cases "g = int (mb_queue_generation before)")
    case False
    with assms show ?thesis
      by (auto simp: claim_session_def before_def Let_def)
  next
    case True
    with assms obtain lease where r: "res = Inr lease" "st1 = st'"
      by (auto simp: claim_session_def cl Let_def before_def [symmetric] split: sum.splits if_splits)
    show ?thesis
    proof (cases lease)
      case None
      from claim_none [of k owner lf now st st'] cl r None show ?thesis using assms True
        by (auto simp: claim_session_def cl Let_def before_def new_session_mailbox_def split: option.splits if_splits)
    next
      case (Some l)
      with claim_some_exists [of k owner lf now st l st'] cl r assms True show ?thesis
        by (auto simp: claim_session_def Let_def before_def)
    qed
  qed
qed

theorem claim_session_outcome_witness:
  "\<exists>c st'. claim_session demo_key ''w1'' 100 (Some 1) None None 30 demo_accepted = (Inr c, st') \<and> sc_status c = CLAIMED
     \<and> sc_lease c = Some demo_lease"
proof -
  let ?c = "claim_session demo_key ''w1'' 100 (Some 1) None None 30 demo_accepted"
  have f: "isl (fst ?c) = False" "sc_status (projr (fst ?c)) = CLAIMED" by code_simp+
  then have c: "?c = (Inr (projr (fst ?c)), snd ?c)" by (simp add: prod_eq_iff)
  have "sc_lease (projr (fst ?c)) = Some demo_lease"
    using claim_session_outcome [OF c] f(2) demo_eval(1) by auto
  with c f(2) show ?thesis by blast
qed

text \<open>
  A successful renewal was made by the lease holder; the lease is live up to its new expiry, which
  lies at least the requested time ahead and strictly after the old one; nothing else changes.
\<close>

theorem renew_extends_lease:
  assumes "renew l lf now st = (Inr l', st')"
  shows "lease_held st l now \<and> now + lf \<le> ml_expires_at l'
       \<and> (\<forall>t < ml_expires_at l'. lease_held st' l' t) \<and> (\<forall>t. lease_held st l t \<longrightarrow> t + 1 < ml_expires_at l')
       \<and> l' = l\<lparr>ml_expires_at := ml_expires_at l'\<rparr>
       \<and> ms_items st' = ms_items st \<and> ms_outbox st' = ms_outbox st
       \<and> (\<forall>k. k \<noteq> ml_key l \<longrightarrow> ms_get k st' = ms_get k st)"
  using assms
  by (auto simp: renew_def Let_def lease_held_def require_owned_def owns_def fields_simps later_than_iff
      split: option.splits sum.splits if_splits)

theorem renew_extends_lease_witness:
  "\<exists>l'. fst (renew demo_lease 50 100 demo_running) = Inr l' \<and> ml_expires_at l' = 150
     \<and> lease_held (snd (renew demo_lease 50 100 demo_running)) l' 149"
proof -
  let ?r = "renew demo_lease 50 100 demo_running"
  have f: "isl (fst ?r) = False" "ml_expires_at (projr (fst ?r)) = 150" by code_simp+
  then have c: "?r = (Inr (projr (fst ?r)), snd ?r)" by (simp add: prod_eq_iff)
  then have "lease_held (snd ?r) (projr (fst ?r)) 149"
    using renew_extends_lease [OF c] unfolding f(2) by (auto simp del: split_paired_All)
  with c f(2) show ?thesis by (metis fst_conv)
qed

text \<open>
  Reconciliation brings the status of a mailbox in line with its lease and backlog without touching
  the epoch: running exactly if a lease is live, idle exactly if no backlog is left. A mailbox that is
  queued already keeps its generation and emits no second wake-up; one that becomes queued gets the
  next generation and its wake-up.
\<close>

theorem reconcile_repairs_status:
  assumes "store_inv st" and "ms_get k st = Some m"
  shows "\<exists>m'. fst (reconcile k now st) = Some m' \<and> ms_get k (snd (reconcile k now st)) = Some m'
       \<and> (mb_status m' = RUNNING \<longleftrightarrow> later_than (mb_lease_expires_at m) now)
       \<and> (mb_status m' = IDLE \<longleftrightarrow> mb_resolved_sequence m = mb_accepted_sequence m)
       \<and> mb_lease_epoch m' = mb_lease_epoch m
       \<and> (mb_status m = QUEUED \<longrightarrow> mb_queue_generation m' = mb_queue_generation m
            \<and> ms_outbox (snd (reconcile k now st)) = ms_outbox st)
       \<and> (mb_status m \<noteq> QUEUED \<longrightarrow> mb_status m' = QUEUED \<longrightarrow>
            mb_queue_generation m' = mb_queue_generation m + 1
            \<and> Some (JInt (int (mb_queue_generation m'))) \<in> set (ready_generations k (snd (reconcile k now st))))"
proof (cases "later_than (mb_lease_expires_at m) now")
  case True
  note w = store_invD [OF assms]
  have a: "lease_active m now" using lease_active_iff [OF w(3)] True by simp
  have "mb_status m = RUNNING" using lease_active_running [OF w(3) a] by simp
  then show ?thesis using reconcile_active [OF assms a] w(3) True by (simp add: fields_simps mailbox_wf_def)
next
  case False
  obtain s r where h: "head_status (ms_item k (head_sequence m) st) (head_sequence m) m now = (s, r)" by fastforce
  obtain m' where m': "fst (reconcile k now st) = Some m'" "ms_get k (snd (reconcile k now st)) = Some m'"
    "mb_status m' = s" "mb_lease_epoch m' = mb_lease_epoch m"
    "mb_queue_generation m' = mb_queue_generation m + (if s = QUEUED \<and> mb_status m \<noteq> QUEUED then 1 else 0)"
    "mb_status m = QUEUED \<or> s \<noteq> QUEUED \<longrightarrow> ms_outbox (snd (reconcile k now st)) = ms_outbox st"
    using reconcile_row [OF assms False h] by metis
  have i: "store_inv (snd (reconcile k now st))" using assms(1) by (rule reconcile_inv)
  have g: "Some (JInt (int (mb_queue_generation m'))) \<in> set (ready_generations k (snd (reconcile k now st)))"
    if "1 \<le> mb_queue_generation m'"
    using that store_invD(5) [OF i m'(2)] by (simp add: generations_upto_def)
  show ?thesis using m' head_status_wf(1,2) [OF assms h] g False by (auto simp: add.commute)
qed

theorem reconcile_repairs_status_witness:
  "\<exists>m m'. ms_get demo_key demo_running = Some m \<and> mb_status m = RUNNING
     \<and> fst (reconcile demo_key 500 demo_running) = Some m' \<and> mb_status m' \<noteq> RUNNING \<and> mb_lease_epoch m' = mb_lease_epoch m"
proof -
  have e: "ms_get demo_key demo_running = Some (the (ms_get demo_key demo_running))"
    "mb_status (the (ms_get demo_key demo_running)) = RUNNING"
    "\<not> later_than (mb_lease_expires_at (the (ms_get demo_key demo_running))) 500"
    by code_simp+
  show ?thesis using reconcile_repairs_status [OF demo_inv(3) e(1), of 500] e by blast
qed

end
