(* ===== verification/Repository.thy ===== *)
theory Repository
  imports Mailbox_Props
begin

text \<open>
  The runtime repository of \<^verbatim>\<open>src/trpc_service/storage/memory.py\<close>
  (\<^verbatim>\<open>InMemoryRuntimeRepository\<close>): binding routes, the inbox of accepted messages, session snapshots
  with their leases, the outbox with its claims, and provider delivery attempts, on top of the
  session mailbox.

  Dictionaries that the code iterates over are association lists, the others are maps. All
  \<^verbatim>\<open>uuid4\<close> calls of the process read one supply, the one the mailbox store carries. A method that
  reads the clock more than once takes \<open>clk\<close>, whose value at \<open>i\<close> is the \<open>i\<close>-th reading.
\<close>

subsection \<open>State\<close>

record runtime_repository =
  rp_routes :: "(string \<times> binding_route) list"
  rp_configs :: "string \<times> string \<times> nat \<rightharpoonup> tenant_config"
  rp_acceptances :: "string \<times> string \<times> string \<times> string \<rightharpoonup> acceptance"
  rp_acceptances_by_id :: "(string \<times> acceptance) list"
  rp_acceptance_sequence :: "string \<rightharpoonup> nat"
  rp_next_acceptance_sequence :: nat
  rp_sessions :: "session_key \<rightharpoonup> session_snapshot"
  rp_leases :: "session_key \<rightharpoonup> session_lease"
  rp_committed_inbound :: "(string \<times> string) set"
  rp_inbound_status :: "string \<times> string \<rightharpoonup> string"
  rp_v2_turn_status :: "string \<times> string \<rightharpoonup> string"
  rp_outbox :: "(string \<times> outbox_record) list"
  rp_outbox_claims :: "string \<rightharpoonup> string \<times> time"
  rp_dead_letters :: "(outbox_record \<times> string) list"
  rp_delivery_receipts :: "delivery_receipt list"
  rp_delivery_attempts :: "string \<times> string \<rightharpoonup> string \<times> nat \<times> string"
  rp_mailbox :: mailbox_store

definition init_repository :: "(nat \<Rightarrow> string) \<Rightarrow> runtime_repository" where
  "init_repository uuids =
     \<lparr>rp_routes = [], rp_configs = Map.empty, rp_acceptances = Map.empty, rp_acceptances_by_id = [],
      rp_acceptance_sequence = Map.empty, rp_next_acceptance_sequence = 1, rp_sessions = Map.empty,
      rp_leases = Map.empty, rp_committed_inbound = {}, rp_inbound_status = Map.empty,
      rp_v2_turn_status = Map.empty, rp_outbox = [], rp_outbox_claims = Map.empty,
      rp_dead_letters = [], rp_delivery_receipts = [], rp_delivery_attempts = Map.empty,
      rp_mailbox = init_mailbox_store uuids\<rparr>"

definition draw_uuid :: "runtime_repository \<Rightarrow> string \<times> runtime_repository" where
  "draw_uuid rp =
     (let ms = rp_mailbox rp
      in (ms_uuid ms (ms_uuids_drawn ms),
          rp\<lparr>rp_mailbox := ms\<lparr>ms_uuids_drawn := Suc (ms_uuids_drawn ms)\<rparr>\<rparr>))"

definition on_mailbox :: "(mailbox_store \<Rightarrow> 'a \<times> mailbox_store) \<Rightarrow> runtime_repository \<Rightarrow> 'a \<times> runtime_repository" where
  "on_mailbox f rp = (let (r, ms) = f (rp_mailbox rp) in (r, rp\<lparr>rp_mailbox := ms\<rparr>))"

subsection \<open>Routes, configuration and lookups\<close>

definition add_route :: "binding_route \<Rightarrow> runtime_repository \<Rightarrow> runtime_repository" where
  "add_route route rp =
     rp\<lparr>rp_routes := AList.update (cb_binding_id (br_binding route)) route (rp_routes rp)\<rparr>"

definition add_config :: "tenant_config \<Rightarrow> runtime_repository \<Rightarrow> runtime_repository" where
  "add_config c rp =
     rp\<lparr>rp_configs := (rp_configs rp)((cf_tenant_id c, cf_app_id c, cf_version c) \<mapsto> c)\<rparr>"

definition resolve_binding :: "string \<Rightarrow> runtime_repository \<Rightarrow> binding_route option" where
  "resolve_binding binding_id rp = map_of (rp_routes rp) binding_id"

definition list_bindings :: "channel \<Rightarrow> runtime_repository \<Rightarrow> channel_binding list" where
  "list_bindings c rp =
     map br_binding
       (filter (\<lambda>r. cb_channel (br_binding r) = c \<and> cb_enabled (br_binding r) \<and> br_tenant_active r)
          (map snd (rp_routes rp)))"

definition get_config :: "string \<Rightarrow> string \<Rightarrow> nat \<Rightarrow> runtime_repository \<Rightarrow> error + tenant_config" where
  "get_config tenant_id app_id version rp =
     (case rp_configs rp (tenant_id, app_id, version) of
        None \<Rightarrow> Inl (LookupError ''pinned tenant configuration does not exist'')
      | Some c \<Rightarrow> Inr c)"

definition get_acceptance :: "string \<Rightarrow> string \<Rightarrow> runtime_repository \<Rightarrow> acceptance option" where
  "get_acceptance tenant_id inbound_id rp =
     (case map_of (rp_acceptances_by_id rp) inbound_id of
        None \<Rightarrow> None
      | Some a \<Rightarrow>
          if tc_tenant_id (ac_context a) \<noteq> tenant_id then None
          else if (tenant_id, inbound_id) \<in> rp_committed_inbound rp
          then Some (a\<lparr>ac_duplicate := True\<rparr>)
          else Some a)"

definition get_session_snapshot :: "string \<Rightarrow> string \<Rightarrow> runtime_repository \<Rightarrow> session_snapshot option" where
  "get_session_snapshot tenant_id session_id rp = rp_sessions rp (tenant_id, session_id)"

subsection \<open>Mailbox operations and the runtime outbox\<close>

definition setdefault :: "'k \<Rightarrow> 'v \<Rightarrow> ('k \<times> 'v) list \<Rightarrow> ('k \<times> 'v) list" where
  "setdefault k v al = (case map_of al k of None \<Rightarrow> AList.update k v al | Some _ \<Rightarrow> al)"

definition sync_new_mailbox_outbox :: "nat \<Rightarrow> runtime_repository \<Rightarrow> runtime_repository" where
  "sync_new_mailbox_outbox start rp =
     rp\<lparr>rp_outbox := fold (\<lambda>r al. setdefault (ob_outbox_id r) r al)
                       (drop start (ms_outbox (rp_mailbox rp))) (rp_outbox rp)\<rparr>"

text \<open>Remember the length of the wake-up history, run a mailbox operation, expose the new records.\<close>

definition synced ::
    "(mailbox_store \<Rightarrow> ('a, mailbox_store) outcome) \<Rightarrow> runtime_repository \<Rightarrow> ('a, runtime_repository) outcome"
where
  "synced f rp =
     (let outbox_start = length (ms_outbox (rp_mailbox rp))
      in case on_mailbox f rp of
           (Inl e, rp1) \<Rightarrow> raise_in rp1 e
         | (Inr a, rp1) \<Rightarrow> return_in (sync_new_mailbox_outbox outbox_start rp1) a)"

definition accept_mailbox ::
    "session_key \<Rightarrow> string \<Rightarrow> int \<Rightarrow> time option \<Rightarrow> string option \<Rightarrow> time
     \<Rightarrow> runtime_repository \<Rightarrow> (session_mailbox, runtime_repository) outcome"
where
  "accept_mailbox k inbound_id priority retry_at trace_id now =
     synced (accept k inbound_id priority retry_at trace_id now)"

definition claim_mailbox ::
    "session_key \<Rightarrow> string \<Rightarrow> duration \<Rightarrow> int option \<Rightarrow> int option \<Rightarrow> acceptance option \<Rightarrow> time
     \<Rightarrow> runtime_repository \<Rightarrow> (session_claim, runtime_repository) outcome"
where
  "claim_mailbox k owner_id lease_for expected_generation expected_epoch acc now =
     on_mailbox (claim_session k owner_id lease_for expected_generation expected_epoch acc now)"

definition renew_mailbox ::
    "mailbox_lease \<Rightarrow> duration \<Rightarrow> time \<Rightarrow> runtime_repository \<Rightarrow> (mailbox_lease, runtime_repository) outcome"
where
  "renew_mailbox lease lease_for now = on_mailbox (renew lease lease_for now)"

definition renew_mailboxes ::
    "mailbox_lease list \<Rightarrow> duration \<Rightarrow> time \<Rightarrow> runtime_repository
     \<Rightarrow> (mailbox_lease list, runtime_repository) outcome"
where
  "renew_mailboxes leases lease_for now = on_mailbox (renew_many leases lease_for now)"

definition commit_mailbox ::
    "mailbox_lease \<Rightarrow> time \<Rightarrow> runtime_repository \<Rightarrow> (session_mailbox, runtime_repository) outcome"
where
  "commit_mailbox lease now = synced (commit lease now)"

definition reschedule_mailbox ::
    "mailbox_lease \<Rightarrow> time option \<Rightarrow> int option \<Rightarrow> time
     \<Rightarrow> runtime_repository \<Rightarrow> (session_mailbox, runtime_repository) outcome"
where
  "reschedule_mailbox lease retry_at priority now = synced (reschedule lease retry_at priority now)"

definition retry_mailbox ::
    "mailbox_lease \<Rightarrow> time option \<Rightarrow> int option \<Rightarrow> time
     \<Rightarrow> runtime_repository \<Rightarrow> (session_mailbox, runtime_repository) outcome"
where
  "retry_mailbox lease retry_at priority now = synced (retry lease retry_at priority now)"

definition recover_mailbox ::
    "session_key \<Rightarrow> time \<Rightarrow> runtime_repository \<Rightarrow> session_mailbox option \<times> runtime_repository"
where
  "recover_mailbox k now rp =
     (let outbox_start = length (ms_outbox (rp_mailbox rp));
          (m, rp1) = on_mailbox (recover k now) rp
      in (m, sync_new_mailbox_outbox outbox_start rp1))"

definition mailbox_was_rescheduled :: "session_mailbox option \<Rightarrow> session_mailbox \<Rightarrow> bool" where
  "mailbox_was_rescheduled before after \<longleftrightarrow>
     mb_status after = QUEUED
     \<and> (case before of
          None \<Rightarrow> True
        | Some b \<Rightarrow> mb_status b \<noteq> mb_status after
            \<or> mb_queue_generation b \<noteq> mb_queue_generation after
            \<or> mb_updated_at b \<noteq> mb_updated_at after)"

definition rearm_mailbox_outbox :: "session_mailbox \<Rightarrow> runtime_repository \<Rightarrow> runtime_repository" where
  "rearm_mailbox_outbox m rp =
     (case find (\<lambda>r. ready_record_for (mb_key m) r
                   \<and> map_of (ob_payload r) ''generation'' = Some (JInt (int (mb_queue_generation m))))
             (rev (ms_outbox (rp_mailbox rp))) of
        None \<Rightarrow> rp
      | Some r \<Rightarrow>
          if map_of (rp_outbox rp) (ob_outbox_id r) \<noteq> None then rp
          else rp\<lparr>rp_outbox_claims := (rp_outbox_claims rp)(ob_outbox_id r := None),
                  rp_outbox := AList.update (ob_outbox_id r) r (rp_outbox rp)\<rparr>)"

definition reconcile_mailbox ::
    "session_key \<Rightarrow> time \<Rightarrow> runtime_repository \<Rightarrow> session_mailbox option \<times> runtime_repository"
where
  "reconcile_mailbox k now rp =
     (let before = ms_get k (rp_mailbox rp);
          outbox_start = length (ms_outbox (rp_mailbox rp));
          (m, rp1) = on_mailbox (reconcile k now) rp;
          rp2 = sync_new_mailbox_outbox outbox_start rp1
      in case m of
           None \<Rightarrow> (m, rp2)
         | Some m' \<Rightarrow>
             if mailbox_was_rescheduled before m' then (m, rearm_mailbox_outbox m' rp2) else (m, rp2))"

definition sweep_expired_leases_rp ::
    "int \<Rightarrow> time \<Rightarrow> runtime_repository \<Rightarrow> (nat, runtime_repository) outcome"
where
  "sweep_expired_leases_rp limit now = synced (sweep_expired_leases limit now)"

definition schedule_retries_rp ::
    "int \<Rightarrow> time \<Rightarrow> runtime_repository \<Rightarrow> (nat, runtime_repository) outcome"
where
  "schedule_retries_rp limit now = synced (schedule_retries limit now)"

definition reconcile_sessions_rp ::
    "int \<Rightarrow> time \<Rightarrow> runtime_repository \<Rightarrow> (nat, runtime_repository) outcome"
where
  "reconcile_sessions_rp limit now rp =
     (let before = rp_mailbox rp
      in case synced (reconcile_sessions limit now) rp of
           (Inl e, rp1) \<Rightarrow> raise_in rp1 e
         | (Inr count, rp1) \<Rightarrow>
             return_in
               (fold (\<lambda>(k, m) rp. if mailbox_was_rescheduled (ms_get k before) m
                                   then rearm_mailbox_outbox m rp else rp)
                  (ms_mailboxes (rp_mailbox rp1)) rp1) count)"

subsection \<open>Accepting inbound messages\<close>

definition inbound_key :: "tenant_context \<Rightarrow> inbound_envelope \<Rightarrow> string \<times> string \<times> string \<times> string" where
  "inbound_key c e =
     (tc_tenant_id c, channel_value (ie_channel e), ie_account_id e, ie_external_message_id e)"

text \<open>The part both admission paths share: draw the inbound id and register the acceptance.\<close>

definition register_acceptance ::
    "tenant_context \<Rightarrow> inbound_envelope \<Rightarrow> time \<Rightarrow> runtime_repository \<Rightarrow> acceptance \<times> runtime_repository"
where
  "register_acceptance c e now rp =
     (let (inbound_id, rp1) = draw_uuid rp;
          a = \<lparr>ac_inbound_id = inbound_id, ac_context = c, ac_envelope = e, ac_accepted_at = now,
               ac_duplicate = False\<rparr>
      in (a, rp1\<lparr>rp_acceptances := (rp_acceptances rp1)(inbound_key c e \<mapsto> a),
                 rp_acceptances_by_id := AList.update inbound_id a (rp_acceptances_by_id rp1),
                 rp_acceptance_sequence :=
                   (rp_acceptance_sequence rp1)(inbound_id \<mapsto> rp_next_acceptance_sequence rp1),
                 rp_next_acceptance_sequence := rp_next_acceptance_sequence rp1 + 1\<rparr>))"

definition accept_inbound ::
    "tenant_context \<Rightarrow> inbound_envelope \<Rightarrow> (string \<times> string) list \<Rightarrow> time
     \<Rightarrow> runtime_repository \<Rightarrow> acceptance \<times> runtime_repository"
where
  "accept_inbound c e trace_headers now rp =
     (case rp_acceptances rp (inbound_key c e) of
        Some existing \<Rightarrow> (existing\<lparr>ac_duplicate := True\<rparr>, rp)
      | None \<Rightarrow>
          (let (a, rp1) = register_acceptance c e now rp;
               (outbox_id, rp2) = draw_uuid rp1;
               r = \<lparr>ob_outbox_id = outbox_id, ob_tenant_id = tc_tenant_id c,
                    ob_event_type = ''inbound.accepted'', ob_aggregate_id = ac_inbound_id a,
                    ob_payload = [(''inbound_id'', JStr (ac_inbound_id a))],
                    ob_trace_headers = trace_headers, ob_attempts = 0\<rparr>
           in (a, rp2\<lparr>rp_outbox := AList.update outbox_id r (rp_outbox rp2)\<rparr>)))"

text \<open>A message for a session that waits for a retry is not due before that retry.\<close>

definition effective_retry_at :: "session_mailbox option \<Rightarrow> time option \<Rightarrow> time \<Rightarrow> time option" where
  "effective_retry_at mailbox retry_at now =
     (case mailbox of
        None \<Rightarrow> retry_at
      | Some m \<Rightarrow>
          if mb_status m = RETRY_WAIT \<and> later_than (mb_retry_at m) now
          then (case retry_at of
                  None \<Rightarrow> mb_retry_at m
                | Some t \<Rightarrow> Some (max (the (mb_retry_at m)) t))
          else retry_at)"

text \<open>Readings: 0 the acceptance, 1 the retry test, 2 the mailbox.\<close>

definition accept_inbound_v2 ::
    "tenant_context \<Rightarrow> inbound_envelope \<Rightarrow> int \<Rightarrow> time option \<Rightarrow> (nat \<Rightarrow> time)
     \<Rightarrow> runtime_repository \<Rightarrow> (acceptance, runtime_repository) outcome"
where
  "accept_inbound_v2 c e priority retry_at clk rp =
     (case rp_acceptances rp (inbound_key c e) of
        Some existing \<Rightarrow> return_in rp (existing\<lparr>ac_duplicate := True\<rparr>)
      | None \<Rightarrow>
          (let (a, rp1) = register_acceptance c e (clk 0) rp;
               mailbox_outbox_start = length (ms_outbox (rp_mailbox rp1));
               k = (tc_tenant_id c, tc_session_id c);
               retry = effective_retry_at (ms_get k (rp_mailbox rp1)) retry_at (clk 1)
           in case on_mailbox (accept k (ac_inbound_id a) priority retry
                                 (Some (tc_trace_id c)) (clk 2)) rp1 of
                (Inl err, rp2) \<Rightarrow> raise_in rp2 err
              | (Inr _, rp2) \<Rightarrow>
                  return_in
                    (rp2\<lparr>rp_outbox := fold (\<lambda>r al. AList.update (ob_outbox_id r) r al)
                           (drop mailbox_outbox_start (ms_outbox (rp_mailbox rp2))) (rp_outbox rp2)\<rparr>)
                    a))"

subsection \<open>Session leases\<close>

definition owns_session :: "session_lease option \<Rightarrow> session_lease \<Rightarrow> bool" where
  "owns_session current expected =
     (case current of
        None \<Rightarrow> False
      | Some c \<Rightarrow> sl_worker_id c = sl_worker_id expected
          \<and> sl_fencing_token c = sl_fencing_token expected
          \<and> sl_turn_id c = sl_turn_id expected)"

text \<open>
  The generator expression of \<^verbatim>\<open>acquire\<close>. Looking up the admission number of an item that has none
  is a \<^verbatim>\<open>KeyError\<close>; it is looked up only for items of the same session.
\<close>

fun earlier_pending :: "acceptance \<Rightarrow> nat \<Rightarrow> runtime_repository \<Rightarrow> acceptance list \<Rightarrow> error + bool" where
  "earlier_pending a current_order rp [] = Inr False"
| "earlier_pending a current_order rp (item # items) =
     (if tc_tenant_id (ac_context item) = tc_tenant_id (ac_context a)
         \<and> tc_session_id (ac_context item) = tc_session_id (ac_context a)
      then case rp_acceptance_sequence rp (ac_inbound_id item) of
             None \<Rightarrow> Inl (KeyError (ac_inbound_id item))
           | Some n \<Rightarrow>
               if n < current_order
                  \<and> (tc_tenant_id (ac_context item), ac_inbound_id item) \<notin> rp_committed_inbound rp
               then Inr True
               else earlier_pending a current_order rp items
      else earlier_pending a current_order rp items)"

definition acquire_lease ::
    "acceptance \<Rightarrow> string \<Rightarrow> duration \<Rightarrow> time \<Rightarrow> runtime_repository
     \<Rightarrow> (session_lease option, runtime_repository) outcome"
where
  "acquire_lease a worker_id lease_for now rp =
     (let k = (tc_tenant_id (ac_context a), tc_session_id (ac_context a));
          current = rp_leases rp k
      in if (case current of None \<Rightarrow> False | Some c \<Rightarrow> now < sl_expires_at c)
         then return_in rp None
         else
           let (snapshot, rp1) =
                 (case rp_sessions rp k of
                    Some s \<Rightarrow> (s, rp)
                  | None \<Rightarrow>
                      (let s = new_session_snapshot (fst k) (tc_app_id (ac_context a)) (snd k)
                                 (tc_principal_id (ac_context a))
                       in (s, rp\<lparr>rp_sessions := (rp_sessions rp)(k \<mapsto> s)\<rparr>)));
               epoch = (case current of None \<Rightarrow> 1 | Some c \<Rightarrow> sl_fencing_token c + 1);
               same = (case current of None \<Rightarrow> False | Some c \<Rightarrow> sl_inbound_id c = ac_inbound_id a);
               attempt = (if same then sl_attempt (the current) + 1 else 1);
               (turn_id, rp2) = (if same then (sl_turn_id (the current), rp1) else draw_uuid rp1);
               lease = \<lparr>sl_tenant_id = fst k, sl_session_id = snd k, sl_turn_id = turn_id,
                        sl_inbound_id = ac_inbound_id a, sl_worker_id = worker_id,
                        sl_fencing_token = epoch, sl_expires_at = now + lease_for,
                        sl_attempt = attempt, sl_snapshot = snapshot, sl_snapshot_hydrated = True\<rparr>
           in return_in (rp2\<lparr>rp_leases := (rp_leases rp2)(k \<mapsto> lease)\<rparr>) (Some lease))"

text \<open>Readings: 0 the mailbox lease, 1 the session lease.\<close>

definition acquire ::
    "acceptance \<Rightarrow> string \<Rightarrow> duration \<Rightarrow> (nat \<Rightarrow> time) \<Rightarrow> runtime_repository
     \<Rightarrow> (session_lease option, runtime_repository) outcome"
where
  "acquire a worker_id lease_for clk rp =
     (let k = (tc_tenant_id (ac_context a), tc_session_id (ac_context a))
      in if (fst k, ac_inbound_id a) \<in> rp_committed_inbound rp then return_in rp None
         else if (case ms_get k (rp_mailbox rp) of
                    None \<Rightarrow> False
                  | Some m \<Rightarrow> mb_resolved_sequence m < mb_accepted_sequence m
                      \<or> mb_status m = RUNNING \<and> later_than (mb_lease_expires_at m) (clk 0))
         then return_in rp None
         else case rp_acceptance_sequence rp (ac_inbound_id a) of
                None \<Rightarrow> raise_in rp (KeyError (ac_inbound_id a))
              | Some current_order \<Rightarrow>
                  (case earlier_pending a current_order rp (map snd (rp_acceptances_by_id rp)) of
                     Inl e \<Rightarrow> raise_in rp e
                   | Inr True \<Rightarrow> return_in rp None
                   | Inr False \<Rightarrow> acquire_lease a worker_id lease_for (clk 1) rp))"

definition renew_v1 ::
    "session_lease \<Rightarrow> duration \<Rightarrow> time \<Rightarrow> runtime_repository \<Rightarrow> (session_lease, runtime_repository) outcome"
where
  "renew_v1 lease lease_for now rp =
     (let k = sl_key lease; current = rp_leases rp k
      in if \<not> owns_session current lease \<or> sl_expires_at (the current) \<le> now
         then raise_in rp (FencingConflict ''session lease is no longer current'')
         else
           (let expires_at = max (now + lease_for) (sl_expires_at (the current) + 1);
                renewed = (the current)\<lparr>sl_expires_at := expires_at\<rparr>
            in return_in (rp\<lparr>rp_leases := (rp_leases rp)(k \<mapsto> renewed)\<rparr>) renewed))"

fun enumerate_events :: "nat \<Rightarrow> stored_event list \<Rightarrow> sequenced_event list" where
  "enumerate_events n [] = []"
| "enumerate_events n (e # es) =
     \<lparr>se_event_id = se_event_id e, se_author = se_author e, se_timestamp = se_timestamp e,
      se_event = se_event e, se_state_delta = se_state_delta e, se_sequence = n\<rparr>
     # enumerate_events (Suc n) es"

text \<open>The snapshot after a turn: the version goes up by one, the events get the next sequences.\<close>

definition apply_turn :: "turn_commit \<Rightarrow> session_snapshot \<Rightarrow> session_snapshot" where
  "apply_turn c s =
     (let sequenced = enumerate_events (ss_next_sequence s) (tu_events c)
      in s\<lparr>ss_version := ss_version s + 1,
           ss_next_sequence := ss_next_sequence s + length sequenced,
           ss_state := tu_state c,
           ss_events := ss_events s @ sequenced\<rparr>)"

definition turn_result :: "turn_commit \<Rightarrow> session_snapshot \<Rightarrow> commit_result" where
  "turn_result c s =
     \<lparr>cr_turn_id = sl_turn_id (tu_lease c),
      cr_first_sequence = (if tu_events c = [] then None else Some (ss_next_sequence s)),
      cr_last_sequence = (if tu_events c = [] then None
                          else Some (ss_next_sequence s + length (tu_events c) - 1)),
      cr_outbound_id = map_option oe_outbound_id (tu_outbound c)\<rparr>"

definition outbound_ready_type :: "channel \<Rightarrow> string" where
  "outbound_ready_type c = ''outbound.'' @ channel_value c @ ''.ready''"

definition outbound_ready_record :: "string \<Rightarrow> string \<Rightarrow> outbound_envelope \<Rightarrow> outbox_record" where
  "outbound_ready_record outbox_id tenant_id o_env =
     \<lparr>ob_outbox_id = outbox_id, ob_tenant_id = tenant_id,
      ob_event_type = outbound_ready_type (oe_channel o_env),
      ob_aggregate_id = oe_outbound_id o_env, ob_payload = outbound_json o_env,
      ob_trace_headers = oe_trace_headers o_env, ob_attempts = 0\<rparr>"

definition commit_v1 ::
    "turn_commit \<Rightarrow> time \<Rightarrow> runtime_repository \<Rightarrow> (commit_result, runtime_repository) outcome"
where
  "commit_v1 c now rp =
     (let lease = tu_lease c; k = sl_key lease; current = rp_leases rp k
      in if \<not> owns_session current lease \<or> sl_expires_at (the current) \<le> now
         then raise_in rp (FencingConflict ''stale worker cannot commit this session'')
         else case rp_sessions rp k of
                None \<Rightarrow> raise_in rp (KeyError (snd k))
              | Some snapshot \<Rightarrow>
                  (let rp1 = rp\<lparr>rp_sessions := (rp_sessions rp)(k \<mapsto> apply_turn c snapshot)\<rparr>;
                       rp2 = (case tu_outbound c of
                                None \<Rightarrow> rp1
                              | Some o_env \<Rightarrow>
                                  (let (outbox_id, rp') = draw_uuid rp1
                                   in rp'\<lparr>rp_outbox := AList.update outbox_id
                                            (outbound_ready_record outbox_id (sl_tenant_id lease) o_env)
                                            (rp_outbox rp')\<rparr>))
                   in return_in
                        (rp2\<lparr>rp_committed_inbound :=
                               insert (sl_tenant_id lease, sl_inbound_id lease) (rp_committed_inbound rp2),
                             rp_leases := (rp_leases rp2)(k := None)\<rparr>)
                        (turn_result c snapshot)))"

definition fail_v1 :: "session_lease \<Rightarrow> runtime_repository \<Rightarrow> runtime_repository" where
  "fail_v1 lease rp =
     (if owns_session (rp_leases rp (sl_key lease)) lease
      then rp\<lparr>rp_leases := (rp_leases rp)(sl_key lease := None)\<rparr> else rp)"

subsection \<open>Session-ready turns\<close>

definition session_mailbox_lost :: error where
  "session_mailbox_lost = FencingConflict ''session mailbox lease is no longer current''"

definition mailbox_lease_of :: "session_mailbox \<Rightarrow> session_lease \<Rightarrow> nat \<Rightarrow> mailbox_lease" where
  "mailbox_lease_of m lease sequence =
     \<lparr>ml_tenant_id = sl_tenant_id lease, ml_session_id = sl_session_id lease,
      ml_inbound_id = sl_inbound_id lease, ml_sequence = sequence, ml_owner_id = sl_worker_id lease,
      ml_epoch = sl_fencing_token lease,
      ml_expires_at = (case mb_lease_expires_at m of None \<Rightarrow> sl_expires_at lease | Some t \<Rightarrow> t),
      ml_attempt = sl_attempt lease, ml_retry_count = mb_retry_count m, ml_priority = mb_priority m\<rparr>"

definition mailbox_lease_for :: "session_mailbox \<Rightarrow> session_lease \<Rightarrow> error + mailbox_lease" where
  "mailbox_lease_for m lease =
     (case mb_processing_sequence m of
        None \<Rightarrow> Inl session_mailbox_lost
      | Some sequence \<Rightarrow>
          if mb_status m \<noteq> RUNNING
             \<or> mb_processing_inbound_id m \<noteq> Some (sl_inbound_id lease)
             \<or> mb_lease_owner m \<noteq> Some (sl_worker_id lease)
             \<or> mb_lease_epoch m \<noteq> sl_fencing_token lease
          then Inl session_mailbox_lost
          else Inr (mailbox_lease_of m lease sequence))"

text \<open>
  The durable event a wake-up names: \<open>None\<close> if the record does not authenticate the wake-up,
  otherwise the generation it was emitted for.
\<close>

definition ready_event_generation ::
    "session_key \<Rightarrow> string \<Rightarrow> int option \<Rightarrow> mailbox_store \<Rightarrow> int option"
where
  "ready_event_generation k event_id expected_generation ms =
     (case find (\<lambda>r. ob_outbox_id r = event_id) (ms_outbox ms) of
        None \<Rightarrow> None
      | Some r \<Rightarrow>
          if ob_tenant_id r \<noteq> fst k \<or> ob_event_type r \<noteq> ''session.ready.v2''
             \<or> ob_aggregate_id r \<noteq> snd k
          then None
          else case map_of (ob_payload r) ''generation'' of
                 Some (JInt g) \<Rightarrow>
                   if g < 1 \<or> expected_generation \<noteq> None \<and> expected_generation \<noteq> Some g
                   then None else Some g
               | _ \<Rightarrow> None)"

text \<open>
  The generation the mailbox claim has to expect, after authentication: \<open>None\<close> rejects the wake-up,
  \<open>Some None\<close> expects nothing in particular.
\<close>

definition wakeup_generation ::
    "session_key \<Rightarrow> string option \<Rightarrow> int option \<Rightarrow> mailbox_store \<Rightarrow> int option option"
where
  "wakeup_generation k expected_event_id expected_generation ms =
     (case expected_event_id of
        None \<Rightarrow> Some expected_generation
      | Some event_id \<Rightarrow> map_option Some (ready_event_generation k event_id expected_generation ms))"

definition session_lease_live :: "session_key \<Rightarrow> time \<Rightarrow> runtime_repository \<Rightarrow> bool" where
  "session_lease_live k now rp =
     (case rp_leases rp k of None \<Rightarrow> False | Some c \<Rightarrow> now < sl_expires_at c)"

text \<open>What happens once the mailbox granted a lease; \<open>now\<close> is the reading of the mailbox commit.\<close>

definition materialize_claim ::
    "session_key \<Rightarrow> string \<Rightarrow> session_claim \<Rightarrow> mailbox_lease \<Rightarrow> time \<Rightarrow> runtime_repository
     \<Rightarrow> (session_claim, runtime_repository) outcome"
where
  "materialize_claim k owner_id c l now rp =
     (let inbound = (fst k, ml_inbound_id l)
      in case map_of (rp_acceptances_by_id rp) (ml_inbound_id l) of
           None \<Rightarrow> return_in rp (c\<lparr>sc_status := EMPTY, sc_lease := None\<rparr>)
         | Some accepted \<Rightarrow>
             if inbound \<in> rp_committed_inbound rp \<or> rp_inbound_status rp inbound = Some ''committed''
             then (case on_mailbox (commit l now) rp of
                     (Inl e, rp1) \<Rightarrow> raise_in rp1 e
                   | (Inr m, rp1) \<Rightarrow>
                       return_in (rp1\<lparr>rp_leases := (rp_leases rp1)(k := None)\<rparr>)
                         \<lparr>sc_status = EMPTY, sc_mailbox = m, sc_lease = None,
                          sc_acceptance = Some (accepted\<lparr>ac_duplicate := True\<rparr>),
                          sc_execution_lease = None\<rparr>)
             else
               let (snapshot, rp1) =
                     (case rp_sessions rp k of
                        Some s \<Rightarrow> (s, rp)
                      | None \<Rightarrow>
                          (let s = new_session_snapshot (fst k) (tc_app_id (ac_context accepted)) (snd k)
                                     (tc_principal_id (ac_context accepted))
                           in (s, rp\<lparr>rp_sessions := (rp_sessions rp)(k \<mapsto> s)\<rparr>)));
                   (turn_id, rp2) =
                     (case rp_leases rp1 k of
                        None \<Rightarrow> draw_uuid rp1
                      | Some previous \<Rightarrow>
                          if sl_inbound_id previous = ml_inbound_id l then (sl_turn_id previous, rp1)
                          else draw_uuid rp1);
                   lease = \<lparr>sl_tenant_id = fst k, sl_session_id = snd k, sl_turn_id = turn_id,
                            sl_inbound_id = ml_inbound_id l, sl_worker_id = owner_id,
                            sl_fencing_token = ml_epoch l, sl_expires_at = ml_expires_at l,
                            sl_attempt = ml_attempt l, sl_snapshot = snapshot,
                            sl_snapshot_hydrated = True\<rparr>
               in return_in
                    (rp2\<lparr>rp_leases := (rp_leases rp2)(k \<mapsto> lease),
                         rp_v2_turn_status := (rp_v2_turn_status rp2)((fst k, turn_id) \<mapsto> ''processing''),
                         rp_inbound_status := (rp_inbound_status rp2)(inbound \<mapsto> ''processing'')\<rparr>)
                    (c\<lparr>sc_acceptance := Some accepted, sc_execution_lease := Some lease\<rparr>))"

text \<open>Readings: 0 the default mailbox, 1 the session lease, 2 the mailbox claim, 3 the mailbox commit.\<close>

definition claim_session_ready ::
    "session_key \<Rightarrow> string \<Rightarrow> duration \<Rightarrow> int option \<Rightarrow> string option \<Rightarrow> acceptance option \<Rightarrow> (nat \<Rightarrow> time)
     \<Rightarrow> runtime_repository \<Rightarrow> (session_claim, runtime_repository) outcome"
where
  "claim_session_ready k owner_id lease_for expected_generation expected_event_id acc clk rp =
     (let mailbox_before = (case ms_get k (rp_mailbox rp) of
                              None \<Rightarrow> new_session_mailbox (fst k) (snd k) (clk 0) | Some m \<Rightarrow> m);
          result = (\<lambda>s. \<lparr>sc_status = s, sc_mailbox = mailbox_before, sc_lease = None,
                         sc_acceptance = acc, sc_execution_lease = None\<rparr>)
      in case wakeup_generation k expected_event_id expected_generation (rp_mailbox rp) of
           None \<Rightarrow> return_in rp (result STALE)
         | Some generation \<Rightarrow>
             if session_lease_live k (clk 1) rp
             then return_in rp (result CLAIM_RUNNING)
             else case claim_mailbox k owner_id lease_for generation None acc (clk 2) rp of
                    (Inl e, rp1) \<Rightarrow> raise_in rp1 e
                  | (Inr c, rp1) \<Rightarrow>
                      (if sc_claimed c
                       then case sc_lease c of
                              None \<Rightarrow> return_in rp1 c
                            | Some l \<Rightarrow> materialize_claim k owner_id c l (clk 3) rp1
                       else return_in rp1 c))"

definition renew_session_ready ::
    "session_lease \<Rightarrow> duration \<Rightarrow> time \<Rightarrow> runtime_repository \<Rightarrow> (session_lease, runtime_repository) outcome"
where
  "renew_session_ready lease lease_for now rp =
     (let k = sl_key lease; current = rp_leases rp k
      in if \<not> owns_session current lease then raise_in rp session_mailbox_lost
         else case ms_get k (rp_mailbox rp) of
                None \<Rightarrow> raise_in rp session_mailbox_lost
              | Some m \<Rightarrow>
                  (case mb_processing_sequence m of
                     None \<Rightarrow> raise_in rp session_mailbox_lost
                   | Some sequence \<Rightarrow>
                       (case on_mailbox (renew (mailbox_lease_of m lease sequence) lease_for now) rp of
                          (Inl e, rp1) \<Rightarrow> raise_in rp1 e
                        | (Inr renewed, rp1) \<Rightarrow>
                            (let updated = (the current)\<lparr>sl_expires_at := ml_expires_at renewed\<rparr>
                             in return_in (rp1\<lparr>rp_leases := (rp_leases rp1)(k \<mapsto> updated)\<rparr>) updated))))"

definition stale_commit :: error where
  "stale_commit = FencingConflict ''stale worker cannot commit this session''"

definition commit_session_ready ::
    "turn_commit \<Rightarrow> time \<Rightarrow> runtime_repository \<Rightarrow> (commit_result, runtime_repository) outcome"
where
  "commit_session_ready c now rp =
     (let lease = tu_lease c; k = sl_key lease
      in if \<not> owns_session (rp_leases rp k) lease then raise_in rp stale_commit
         else case ms_get k (rp_mailbox rp) of
           None \<Rightarrow> raise_in rp stale_commit
         | Some m \<Rightarrow>
           if mb_processing_inbound_id m \<noteq> Some (sl_inbound_id lease) then raise_in rp stale_commit
           else case mailbox_lease_for m lease of
             Inl e \<Rightarrow> raise_in rp e
           | Inr l \<Rightarrow>
             (case rp_sessions rp k of
                None \<Rightarrow> raise_in rp (KeyError (snd k))
              | Some snapshot \<Rightarrow>
                (let (outbound, rp1) =
                       (case tu_outbound c of
                          None \<Rightarrow> (None, rp)
                        | Some o_env \<Rightarrow>
                            (let (outbox_id, rp') = draw_uuid rp
                             in (Some (outbound_ready_record outbox_id (sl_tenant_id lease) o_env), rp')));
                     size0 = length (ms_outbox (rp_mailbox rp1))
                 in case on_mailbox (commit l now) rp1 of
                      (Inl e, rp2) \<Rightarrow>
                        (let ms = ms_put k m (rp_mailbox rp2)
                         in raise_in (rp2\<lparr>rp_mailbox := ms\<lparr>ms_outbox := take size0 (ms_outbox ms)\<rparr>\<rparr>) e)
                    | (Inr _, rp2) \<Rightarrow>
                        (let rp3 = sync_new_mailbox_outbox size0 rp2;
                             rp4 = (case outbound of
                                      None \<Rightarrow> rp3
                                    | Some r \<Rightarrow> rp3\<lparr>rp_outbox := AList.update (ob_outbox_id r) r (rp_outbox rp3)\<rparr>);
                             inbound = (sl_tenant_id lease, sl_inbound_id lease)
                         in return_in
                              (rp4\<lparr>rp_sessions := (rp_sessions rp4)(k \<mapsto> apply_turn c snapshot),
                                   rp_committed_inbound := insert inbound (rp_committed_inbound rp4),
                                   rp_inbound_status := (rp_inbound_status rp4)(inbound \<mapsto> ''committed''),
                                   rp_v2_turn_status :=
                                     (rp_v2_turn_status rp4)((sl_tenant_id lease, sl_turn_id lease) \<mapsto> ''committed''),
                                   rp_leases := (rp_leases rp4)(k := None)\<rparr>)
                              (turn_result c snapshot)))))"

text \<open>The two ways a turn ends without a result: both close the turn and drop the session lease.\<close>

definition close_turn :: "session_lease \<Rightarrow> string \<Rightarrow> runtime_repository \<Rightarrow> runtime_repository" where
  "close_turn lease inbound_status rp =
     rp\<lparr>rp_v2_turn_status :=
          (rp_v2_turn_status rp)((sl_tenant_id lease, sl_turn_id lease) \<mapsto> ''failed''),
        rp_inbound_status :=
          (rp_inbound_status rp)((sl_tenant_id lease, sl_inbound_id lease) \<mapsto> inbound_status),
        rp_leases := (rp_leases rp)(sl_key lease := None)\<rparr>"

text \<open>Readings: 0 the retry time, 1 the mailbox.\<close>

definition retry_session_ready ::
    "session_lease \<Rightarrow> duration \<Rightarrow> (nat \<Rightarrow> time) \<Rightarrow> runtime_repository \<Rightarrow> (unit, runtime_repository) outcome"
where
  "retry_session_ready lease delay clk rp =
     (let k = sl_key lease
      in if delay < 0 then raise_in rp (ValueError ''retry delay must be non-negative'')
         else if \<not> owns_session (rp_leases rp k) lease
         then raise_in rp (FencingConflict ''stale worker cannot retry this session'')
         else case ms_get k (rp_mailbox rp) of
           None \<Rightarrow> raise_in rp session_mailbox_lost
         | Some m \<Rightarrow>
           (case mailbox_lease_for m lease of
              Inl e \<Rightarrow> raise_in rp e
            | Inr l \<Rightarrow>
              (case on_mailbox (retry_without_wakeup l (Some (clk 0 + delay)) (clk 1)) rp of
                 (Inl e, rp1) \<Rightarrow> raise_in rp1 e
               | (Inr _, rp1) \<Rightarrow> return_in (close_turn lease ''accepted'' rp1) ())))"

definition fail_session_ready ::
    "session_lease \<Rightarrow> time \<Rightarrow> runtime_repository \<Rightarrow> (unit, runtime_repository) outcome"
where
  "fail_session_ready lease now rp =
     (let k = sl_key lease
      in if \<not> owns_session (rp_leases rp k) lease
         then raise_in rp (FencingConflict ''stale worker cannot fail this session'')
         else case ms_get k (rp_mailbox rp) of
           None \<Rightarrow> raise_in rp session_mailbox_lost
         | Some m \<Rightarrow>
           (case mailbox_lease_for m lease of
              Inl e \<Rightarrow> raise_in rp e
            | Inr l \<Rightarrow>
              (case synced (commit l now) rp of
                 (Inl e, rp1) \<Rightarrow> raise_in rp1 e
               | (Inr _, rp1) \<Rightarrow> return_in (close_turn lease ''failed'' rp1) ())))"

subsection \<open>Outbox claims\<close>

text \<open>
  The loop over \<^verbatim>\<open>self._outbox.values()\<close>; it only overwrites entries, so iterating while updating is
  iterating over the records found at the start. A limit below one still claims one record.
\<close>

fun claim_outbox_loop ::
    "outbox_record list \<Rightarrow> string \<Rightarrow> string \<Rightarrow> int \<Rightarrow> duration \<Rightarrow> time \<Rightarrow> outbox_record list
     \<Rightarrow> runtime_repository \<Rightarrow> outbox_record list \<times> runtime_repository"
where
  "claim_outbox_loop [] event_type owner_id limit lease_for now claimed rp = (claimed, rp)"
| "claim_outbox_loop (r # rs) event_type owner_id limit lease_for now claimed rp =
     (if ob_event_type r \<noteq> event_type
         \<or> (case rp_outbox_claims rp (ob_outbox_id r) of None \<Rightarrow> False | Some (_, t) \<Rightarrow> now < t)
      then claim_outbox_loop rs event_type owner_id limit lease_for now claimed rp
      else
        (let r' = r\<lparr>ob_attempts := ob_attempts r + 1\<rparr>;
             rp' = rp\<lparr>rp_outbox_claims := (rp_outbox_claims rp)(ob_outbox_id r \<mapsto> (owner_id, now + lease_for)),
                      rp_outbox := AList.update (ob_outbox_id r) r' (rp_outbox rp)\<rparr>;
             claimed' = claimed @ [r']
         in if limit \<le> int (length claimed') then (claimed', rp')
            else claim_outbox_loop rs event_type owner_id limit lease_for now claimed' rp'))"

definition claim_outbox ::
    "string \<Rightarrow> string \<Rightarrow> int \<Rightarrow> duration \<Rightarrow> time \<Rightarrow> runtime_repository \<Rightarrow> outbox_record list \<times> runtime_repository"
where
  "claim_outbox event_type owner_id limit lease_for now rp =
     claim_outbox_loop (map snd (rp_outbox rp)) event_type owner_id limit lease_for now [] rp"

definition outbox_claim_lost :: error where
  "outbox_claim_lost = FencingConflict ''outbox claim is no longer current''"

definition outbox_claimed_by :: "string \<Rightarrow> string \<Rightarrow> runtime_repository \<Rightarrow> bool" where
  "outbox_claimed_by outbox_id owner_id rp =
     (case rp_outbox_claims rp outbox_id of None \<Rightarrow> False | Some (owner, _) \<Rightarrow> owner = owner_id)"

definition drop_outbox :: "string \<Rightarrow> runtime_repository \<Rightarrow> runtime_repository" where
  "drop_outbox outbox_id rp =
     rp\<lparr>rp_outbox := AList.delete outbox_id (rp_outbox rp),
        rp_outbox_claims := (rp_outbox_claims rp)(outbox_id := None)\<rparr>"

definition mark_outbox_published ::
    "string \<Rightarrow> string \<Rightarrow> runtime_repository \<Rightarrow> (unit, runtime_repository) outcome"
where
  "mark_outbox_published outbox_id owner_id rp =
     (if \<not> outbox_claimed_by outbox_id owner_id rp then raise_in rp outbox_claim_lost
      else return_in (drop_outbox outbox_id rp) ())"

definition release_outbox ::
    "string \<Rightarrow> string \<Rightarrow> duration \<Rightarrow> time \<Rightarrow> runtime_repository \<Rightarrow> (unit, runtime_repository) outcome"
where
  "release_outbox outbox_id owner_id delay now rp =
     (if \<not> outbox_claimed_by outbox_id owner_id rp then raise_in rp outbox_claim_lost
      else return_in
             (rp\<lparr>rp_outbox_claims := (rp_outbox_claims rp)(outbox_id \<mapsto> ([], now + delay))\<rparr>) ())"

definition dead_letter_outbox ::
    "outbox_record \<Rightarrow> string \<Rightarrow> string \<Rightarrow> runtime_repository \<Rightarrow> (unit, runtime_repository) outcome"
where
  "dead_letter_outbox r owner_id reason rp =
     (if \<not> outbox_claimed_by (ob_outbox_id r) owner_id rp then raise_in rp outbox_claim_lost
      else return_in
             (drop_outbox (ob_outbox_id r)
                (rp\<lparr>rp_dead_letters := rp_dead_letters rp @ [(r, reason)]\<rparr>)) ())"

subsection \<open>Delivery attempts\<close>

definition record_delivery :: "delivery_receipt \<Rightarrow> runtime_repository \<Rightarrow> runtime_repository" where
  "record_delivery receipt rp = rp\<lparr>rp_delivery_receipts := rp_delivery_receipts rp @ [receipt]\<rparr>"

definition begin_delivery ::
    "outbox_record \<Rightarrow> string \<Rightarrow> runtime_repository \<Rightarrow> (delivery_attempt, runtime_repository) outcome"
where
  "begin_delivery r owner_id rp =
     (if \<not> outbox_claimed_by (ob_outbox_id r) owner_id rp then raise_in rp outbox_claim_lost
      else
        (let attempt_key = (ob_tenant_id r, ob_aggregate_id r);
             start = (\<lambda>n. return_in
                       (rp\<lparr>rp_delivery_attempts :=
                             (rp_delivery_attempts rp)(attempt_key \<mapsto> (owner_id, n, ''sending''))\<rparr>)
                       \<lparr>da_tenant_id = ob_tenant_id r, da_outbound_id = ob_aggregate_id r,
                        da_attempt_number = n, da_owner_id = owner_id\<rparr>)
         in case rp_delivery_attempts rp attempt_key of
              None \<Rightarrow> start 1
            | Some (_, n, status) \<Rightarrow>
                if status = ''sending'' then raise_in rp (DeliveryInProgress n)
                else if status = ''delivered''
                then raise_in rp (FencingConflict ''outbound message is already delivered'')
                else if status = ''ambiguous''
                then raise_in rp (FencingConflict ''ambiguous delivery requires manual replay'')
                else start (n + 1)))"

definition finish_delivery ::
    "outbox_record \<Rightarrow> string \<Rightarrow> nat \<Rightarrow> delivery_receipt \<Rightarrow> duration \<Rightarrow> time
     \<Rightarrow> runtime_repository \<Rightarrow> (unit, runtime_repository) outcome"
where
  "finish_delivery r owner_id attempt_number receipt retry_delay now rp =
     (let attempt_key = (ob_tenant_id r, ob_aggregate_id r);
          status = delivery_status_value (dr_status receipt);
          current = (case rp_delivery_attempts rp attempt_key of
                       None \<Rightarrow> False
                     | Some (_, n, s) \<Rightarrow> n = attempt_number \<and> s = ''sending'')
      in if dr_outbound_id receipt \<noteq> ob_aggregate_id r
         then raise_in rp (ValueError ''delivery receipt does not match outbox record'')
         else if \<not> outbox_claimed_by (ob_outbox_id r) owner_id rp \<or> \<not> current
         then raise_in rp (FencingConflict ''delivery attempt is no longer current'')
         else
           (let rp1 = (record_delivery receipt rp)\<lparr>rp_delivery_attempts :=
                        (rp_delivery_attempts rp)(attempt_key \<mapsto> (owner_id, attempt_number, status))\<rparr>
            in return_in
                 (if status = ''delivered'' then drop_outbox (ob_outbox_id r) rp1
                  else if status = ''failed'' \<and> dr_retryable receipt
                  then rp1\<lparr>rp_outbox_claims :=
                             (rp_outbox_claims rp1)(ob_outbox_id r \<mapsto> ([], now + retry_delay))\<rparr>
                  else drop_outbox (ob_outbox_id r)
                         (rp1\<lparr>rp_dead_letters := rp_dead_letters rp1 @ [(r, status)]\<rparr>)) ()))"

end
