(* ===== verification/Repository_Inv.thy ===== *)
theory Repository_Inv
  imports Repository "HOL-Library.Sublist"
begin

text \<open>
  The invariant of the runtime repository (\<open>repo_inv\<close>), the order its histories follow
  (\<open>repo_le\<close>), their preservation by every operation, and the repository as a state machine. The
  invariant includes that identifiers drawn from the supply are distinct, which is what
  \<^verbatim>\<open>uuid4\<close> promises.
\<close>

declare split_paired_All [simp del] split_paired_Ex [simp del]

subsection \<open>The invariant\<close>

definition drawn_ids :: "mailbox_store \<Rightarrow> string set" where
  "drawn_ids ms = ms_uuid ms ` {..<ms_uuids_drawn ms}"

definition ids_wf :: "mailbox_store \<Rightarrow> bool" where
  "ids_wf ms \<longleftrightarrow> inj (ms_uuid ms) \<and> distinct (map ob_outbox_id (ms_outbox ms))
     \<and> ob_outbox_id ` set (ms_outbox ms) \<subseteq> drawn_ids ms"

definition snapshot_wf :: "session_key \<Rightarrow> session_snapshot \<Rightarrow> bool" where
  "snapshot_wf k s \<longleftrightarrow> (ss_tenant_id s, ss_session_id s) = k \<and> 1 \<le> ss_next_sequence s
     \<and> map se_sequence (ss_events s) = [1..<ss_next_sequence s]"

definition registry_wf :: "runtime_repository \<Rightarrow> bool" where
  "registry_wf rp \<longleftrightarrow>
     (\<forall>key a. rp_acceptances rp key = Some a \<longrightarrow>
        inbound_key (ac_context a) (ac_envelope a) = key
        \<and> map_of (rp_acceptances_by_id rp) (ac_inbound_id a) = Some a)
   \<and> (\<forall>i a. map_of (rp_acceptances_by_id rp) i = Some a \<longrightarrow>
        ac_inbound_id a = i \<and> \<not> ac_duplicate a \<and> i \<in> drawn_ids (rp_mailbox rp)
        \<and> rp_acceptances rp (inbound_key (ac_context a) (ac_envelope a)) = Some a
        \<and> rp_acceptance_sequence rp i \<noteq> None)
   \<and> (\<forall>i n. rp_acceptance_sequence rp i = Some n \<longrightarrow>
        n < rp_next_acceptance_sequence rp \<and> i \<in> drawn_ids (rp_mailbox rp))
   \<and> (\<forall>i j n. rp_acceptance_sequence rp i = Some n \<longrightarrow> rp_acceptance_sequence rp j = Some n \<longrightarrow> i = j)"

definition outbox_wf :: "(string \<times> outbox_record) list \<Rightarrow> bool" where
  "outbox_wf al \<longleftrightarrow> distinct (map fst al) \<and> (\<forall>i r. map_of al i = Some r \<longrightarrow> ob_outbox_id r = i)"

definition sessions_wf :: "(session_key \<rightharpoonup> session_snapshot) \<Rightarrow> bool" where
  "sessions_wf m \<longleftrightarrow> (\<forall>k s. m k = Some s \<longrightarrow> snapshot_wf k s)"

definition repo_inv :: "runtime_repository \<Rightarrow> bool" where
  "repo_inv rp \<longleftrightarrow> store_inv (rp_mailbox rp) \<and> ids_wf (rp_mailbox rp) \<and> sessions_wf (rp_sessions rp)
     \<and> registry_wf rp \<and> outbox_wf (rp_outbox rp)"

subsection \<open>What no operation undoes\<close>

definition attempts_le ::
    "(string \<times> string \<rightharpoonup> string \<times> nat \<times> string) \<Rightarrow> (string \<times> string \<rightharpoonup> string \<times> nat \<times> string) \<Rightarrow> bool"
where
  "attempts_le a b \<longleftrightarrow>
     (\<forall>k w n s. a k = Some (w, n, s) \<longrightarrow>
        (\<exists>w' n' s'. b k = Some (w', n', s') \<and> n \<le> n'
           \<and> (s \<in> {''delivered'', ''ambiguous''} \<longrightarrow> n' = n \<and> s' = s)))"

definition sessions_le ::
    "(session_key \<rightharpoonup> session_snapshot) \<Rightarrow> (session_key \<rightharpoonup> session_snapshot) \<Rightarrow> bool"
where
  "sessions_le a b \<longleftrightarrow>
     (\<forall>k s. a k = Some s \<longrightarrow> (\<exists>s'. b k = Some s' \<and> prefix (ss_events s) (ss_events s') \<and> ss_version s \<le> ss_version s'))"

definition repo_le :: "runtime_repository \<Rightarrow> runtime_repository \<Rightarrow> bool" where
  "repo_le a b \<longleftrightarrow>
     store_le (rp_mailbox a) (rp_mailbox b)
   \<and> sessions_le (rp_sessions a) (rp_sessions b)
   \<and> rp_committed_inbound a \<subseteq> rp_committed_inbound b
   \<and> rp_acceptances a \<subseteq>\<^sub>m rp_acceptances b
   \<and> attempts_le (rp_delivery_attempts a) (rp_delivery_attempts b)
   \<and> prefix (rp_dead_letters a) (rp_dead_letters b)
   \<and> prefix (rp_delivery_receipts a) (rp_delivery_receipts b)"

lemma attempts_le_refl [simp]: "attempts_le a a"
  by (auto simp: attempts_le_def)

lemma attempts_le_trans: 
  assumes "attempts_le a b" and "attempts_le b c"
  shows "attempts_le a c"
  unfolding attempts_le_def
proof (intro allI impI)
  fix k w n s assume "a k = Some (w, n, s)"
  with assms(1) obtain w1 n1 s1 where 1: "b k = Some (w1, n1, s1)" "n \<le> n1"
    "s \<in> {''delivered'', ''ambiguous''} \<longrightarrow> n1 = n \<and> s1 = s" unfolding attempts_le_def by blast
  with assms(2) obtain w2 n2 s2 where "c k = Some (w2, n2, s2)" "n1 \<le> n2"
    "s1 \<in> {''delivered'', ''ambiguous''} \<longrightarrow> n2 = n1 \<and> s2 = s1" unfolding attempts_le_def by blast
  with 1 show "\<exists>w' n' s'. c k = Some (w', n', s') \<and> n \<le> n'
      \<and> (s \<in> {''delivered'', ''ambiguous''} \<longrightarrow> n' = n \<and> s' = s)" by auto
qed

lemma sessions_le_refl [simp]: "sessions_le a a"
  by (auto simp: sessions_le_def)

lemma sessions_le_trans:
  assumes "sessions_le a b" and "sessions_le b c"
  shows "sessions_le a c"
  unfolding sessions_le_def
proof (intro allI impI)
  fix k s assume "a k = Some s"
  with assms(1) obtain s1 where 1: "b k = Some s1" "prefix (ss_events s) (ss_events s1)" "ss_version s \<le> ss_version s1"
    unfolding sessions_le_def by blast
  with assms(2) obtain s2 where "c k = Some s2" "prefix (ss_events s1) (ss_events s2)" "ss_version s1 \<le> ss_version s2"
    unfolding sessions_le_def by blast
  with 1 show "\<exists>s'. c k = Some s' \<and> prefix (ss_events s) (ss_events s') \<and> ss_version s \<le> ss_version s'"
    using prefix_order.trans by fastforce
qed

lemma repo_le_refl [simp]: "repo_le a a"
  by (simp add: repo_le_def)

lemma repo_le_trans:
  assumes "repo_le a b" and "repo_le b c"
  shows "repo_le a c"
  using assms unfolding repo_le_def
  by (elim conjE, intro conjI)
    (rule store_le_trans sessions_le_trans subset_trans map_le_trans attempts_le_trans prefix_order.trans, assumption+)+

subsection \<open>Identifiers and the mailbox\<close>

lemma drawn_ids_mono: "outbox_ext a b \<Longrightarrow> drawn_ids a \<subseteq> drawn_ids b"
  by (auto simp: outbox_ext_def drawn_ids_def)

lemma ids_wf_ext:
  assumes "ids_wf a" and "outbox_ext a b"
  shows "ids_wf b"
proof -
  from assms(2) obtain new d where n: "ms_outbox b = ms_outbox a @ new" "map ob_outbox_id new = map (ms_uuid a) d"
    "sorted_wrt (<) d" "set d \<subseteq> {ms_uuids_drawn a ..< ms_uuids_drawn b}"
    and u: "ms_uuid b = ms_uuid a" "ms_uuids_drawn a \<le> ms_uuids_drawn b" unfolding outbox_ext_def by blast
  have i: "inj (ms_uuid a)" using assms(1) by (simp add: ids_wf_def)
  have o: "ob_outbox_id ` set (ms_outbox a) \<subseteq> drawn_ids a" "distinct (map ob_outbox_id (ms_outbox a))"
    using assms(1) by (simp_all add: ids_wf_def)
  have s: "ob_outbox_id ` set new = ms_uuid a ` set d" using arg_cong [OF n(2), of set] by simp
  have "distinct (map ob_outbox_id new)"
    unfolding n(2) using n(3) inj_on_subset [OF i subset_UNIV] by (simp add: distinct_map strict_sorted_iff)
  moreover have "drawn_ids a \<inter> ms_uuid a ` set d = {}"
    using n(4) by (auto simp: drawn_ids_def subset_iff dest!: injD [OF i])
  then have "ob_outbox_id ` set (ms_outbox a) \<inter> ob_outbox_id ` set new = {}"
    unfolding s using o(1) by blast
  ultimately have "distinct (map ob_outbox_id (ms_outbox b))" using o(2) by (simp add: n(1))
  moreover have "ms_uuid a ` set d \<subseteq> drawn_ids b" using n(4) u by (auto simp: drawn_ids_def)
  then have "ob_outbox_id ` set (ms_outbox b) \<subseteq> drawn_ids b"
    using o(1) drawn_ids_mono [OF assms(2)] s by (simp add: n(1) image_Un subset_trans [of _ "drawn_ids a"])
  ultimately show ?thesis using i u(1) by (simp add: ids_wf_def)
qed

lemma on_mailbox_eq: "on_mailbox f rp = (fst (f (rp_mailbox rp)), rp\<lparr>rp_mailbox := snd (f (rp_mailbox rp))\<rparr>)"
  by (simp add: on_mailbox_def split_beta)

definition draw :: "mailbox_store \<Rightarrow> mailbox_store" where
  "draw ms = ms\<lparr>ms_uuids_drawn := Suc (ms_uuids_drawn ms)\<rparr>"

lemma draw_uuid_eq: "draw_uuid rp = (ms_uuid (rp_mailbox rp) (ms_uuids_drawn (rp_mailbox rp)), rp\<lparr>rp_mailbox := draw (rp_mailbox rp)\<rparr>)"
  by (simp add: draw_uuid_def draw_def Let_def)

lemma draw_simps [simp]:
  "ms_get k (draw ms) = ms_get k ms" "ms_items (draw ms) = ms_items ms" "ms_item k n (draw ms) = ms_item k n ms"
  "ms_outbox (draw ms) = ms_outbox ms" "ms_mailboxes (draw ms) = ms_mailboxes ms" "ms_uuid (draw ms) = ms_uuid ms"
  "ms_uuids_drawn (draw ms) = Suc (ms_uuids_drawn ms)"
  "ready_generations k (draw ms) = ready_generations k ms"
  by (simp_all add: draw_def ms_get_def ms_item_def ready_generations_def)

lemma store_inv_draw [simp]: "store_inv (draw ms) = store_inv ms"
  by (simp add: store_inv_def)

lemma store_le_draw [simp]: "store_le ms (draw ms)"
  by (simp add: store_le_def outbox_ext_same)

lemma store_le_ext: "store_le a b \<Longrightarrow> outbox_ext a b"
  by (simp add: store_le_def)

subsection \<open>Preservation by the building blocks\<close>

lemma repo_inv_mailbox:
  assumes "repo_inv rp" and "store_inv ms" and "store_le (rp_mailbox rp) ms"
  shows "repo_inv (rp\<lparr>rp_mailbox := ms\<rparr>)"
proof -
  note e = store_le_ext [OF assms(3)]
  have "ids_wf ms" using assms(1) e by (auto simp: repo_inv_def intro: ids_wf_ext)
  moreover have "registry_wf (rp\<lparr>rp_mailbox := ms\<rparr>)"
    using assms(1) drawn_ids_mono [OF e] unfolding repo_inv_def registry_wf_def by (simp add: subset_iff)
  ultimately show ?thesis using assms by (simp add: repo_inv_def)
qed

lemma repo_le_mailbox: "store_le (rp_mailbox rp) ms \<Longrightarrow> repo_le rp (rp\<lparr>rp_mailbox := ms\<rparr>)"
  by (simp add: repo_le_def)

lemma repo_inv_draw: "repo_inv rp \<Longrightarrow> repo_inv (rp\<lparr>rp_mailbox := draw (rp_mailbox rp)\<rparr>)"
  by (rule repo_inv_mailbox) (auto simp: repo_inv_def)

lemma outbox_wf_update: "outbox_wf al \<Longrightarrow> outbox_wf (AList.update (ob_outbox_id r) r al)"
  by (auto simp: outbox_wf_def distinct_update)

lemma outbox_wf_update': "outbox_wf al \<Longrightarrow> ob_outbox_id r = i \<Longrightarrow> outbox_wf (AList.update i r al)"
  using outbox_wf_update by blast

lemma outbox_wf_delete: "outbox_wf al \<Longrightarrow> outbox_wf (AList.delete i al)"
  by (auto simp: outbox_wf_def distinct_delete)

lemma outbox_wf_setdefault: "outbox_wf al \<Longrightarrow> outbox_wf (setdefault (ob_outbox_id r) r al)"
  by (auto simp: setdefault_def outbox_wf_update split: option.splits)

lemma outbox_wf_fold:
  assumes "\<And>r al. outbox_wf al \<Longrightarrow> outbox_wf (f r al)" and "outbox_wf al"
  shows "outbox_wf (fold f rs al)"
  using assms(2) by (induction rs arbitrary: al) (auto intro: assms(1))

lemma repo_inv_outbox: "repo_inv rp \<Longrightarrow> outbox_wf al \<Longrightarrow> repo_inv (rp\<lparr>rp_outbox := al\<rparr>)"
  by (simp add: repo_inv_def registry_wf_def)

lemma repo_inv_outboxD: "repo_inv rp \<Longrightarrow> outbox_wf (rp_outbox rp)"
  by (simp add: repo_inv_def)

lemma sync_inv: "repo_inv rp \<Longrightarrow> repo_inv (sync_new_mailbox_outbox n rp)"
  unfolding sync_new_mailbox_outbox_def
  by (intro repo_inv_outbox outbox_wf_fold) (auto intro: outbox_wf_setdefault repo_inv_outboxD)

lemma sync_fields [simp]:
  "rp_mailbox (sync_new_mailbox_outbox n rp) = rp_mailbox rp"
  "rp_sessions (sync_new_mailbox_outbox n rp) = rp_sessions rp"
  "rp_leases (sync_new_mailbox_outbox n rp) = rp_leases rp"
  "rp_committed_inbound (sync_new_mailbox_outbox n rp) = rp_committed_inbound rp"
  "rp_acceptances (sync_new_mailbox_outbox n rp) = rp_acceptances rp"
  "rp_acceptances_by_id (sync_new_mailbox_outbox n rp) = rp_acceptances_by_id rp"
  "rp_inbound_status (sync_new_mailbox_outbox n rp) = rp_inbound_status rp"
  "rp_v2_turn_status (sync_new_mailbox_outbox n rp) = rp_v2_turn_status rp"
  "rp_outbox_claims (sync_new_mailbox_outbox n rp) = rp_outbox_claims rp"
  "rp_delivery_attempts (sync_new_mailbox_outbox n rp) = rp_delivery_attempts rp"
  "rp_dead_letters (sync_new_mailbox_outbox n rp) = rp_dead_letters rp"
  "rp_delivery_receipts (sync_new_mailbox_outbox n rp) = rp_delivery_receipts rp"
  by (simp_all add: sync_new_mailbox_outbox_def)

lemma sync_le [simp]: "repo_le rp (sync_new_mailbox_outbox n rp') = repo_le rp rp'"
  by (simp add: repo_le_def)

text \<open>A mailbox operation that keeps the mailbox invariant and order.\<close>

definition mailbox_op :: "(mailbox_store \<Rightarrow> 'a \<times> mailbox_store) \<Rightarrow> bool" where
  "mailbox_op f \<longleftrightarrow> (\<forall>ms. store_inv ms \<longrightarrow> store_inv (snd (f ms)) \<and> store_le ms (snd (f ms)))"

lemma mailbox_op_step: "(\<And>ms. mailbox_step ms (snd (f ms))) \<Longrightarrow> mailbox_op f"
  unfolding mailbox_op_def by (blast intro: mailbox_step_inv mailbox_step_le)

lemma mailbox_ops [intro!]:
  "mailbox_op (accept k inbound p r tr now)"
  "mailbox_op (claim_session k owner lf eg ee acc now)"
  "mailbox_op (renew l lf now)"
  "mailbox_op (renew_many ls lf now)"
  "mailbox_op (commit l now)"
  "mailbox_op (reschedule l r p' now)"
  "mailbox_op (retry l r p' now)"
  "mailbox_op (retry_without_wakeup l r now)"
  "mailbox_op (recover k now)"
  "mailbox_op (reconcile k now)"
  "mailbox_op (sweep_expired_leases limit now)"
  "mailbox_op (schedule_retries limit now)"
  "mailbox_op (reconcile_sessions limit now)"
  by (rule mailbox_op_step, rule mailbox_step.intros)+

lemma repo_inv_store: "repo_inv rp \<Longrightarrow> store_inv (rp_mailbox rp)"
  by (simp add: repo_inv_def)

lemma on_mailbox_inv:
  assumes "mailbox_op f" and "repo_inv rp"
  shows "repo_inv (snd (on_mailbox f rp))"
  using repo_inv_mailbox [OF assms(2), of "snd (f (rp_mailbox rp))"] assms(1) repo_inv_store [OF assms(2)]
  by (simp add: on_mailbox_eq mailbox_op_def)

lemma on_mailbox_le: "mailbox_op f \<Longrightarrow> repo_inv rp \<Longrightarrow> repo_le rp (snd (on_mailbox f rp))"
  using repo_le_mailbox [of rp "snd (f (rp_mailbox rp))"] repo_inv_store [of rp]
  by (simp add: on_mailbox_eq mailbox_op_def)

lemma snd_synced:
  "snd (synced f rp) = snd (on_mailbox f rp)
   \<or> snd (synced f rp) = sync_new_mailbox_outbox (length (ms_outbox (rp_mailbox rp))) (snd (on_mailbox f rp))"
  by (auto simp: synced_def Let_def split: prod.splits sum.splits)

lemma synced_inv: "mailbox_op f \<Longrightarrow> repo_inv rp \<Longrightarrow> repo_inv (snd (synced f rp))"
  using snd_synced [of f rp] on_mailbox_inv [of f rp] sync_inv by metis

lemma synced_le: "mailbox_op f \<Longrightarrow> repo_inv rp \<Longrightarrow> repo_le rp (snd (synced f rp))"
  using snd_synced [of f rp] on_mailbox_le [of f rp] by (metis sync_le)

lemma rearm_inv: "repo_inv rp \<Longrightarrow> repo_inv (rearm_mailbox_outbox m rp)"
proof -
  assume r: "repo_inv rp"
  have "repo_inv (rp\<lparr>rp_outbox_claims := c, rp_outbox := al\<rparr>)" if "outbox_wf al" for c al
    using r that by (simp add: repo_inv_def registry_wf_def)
  with r show ?thesis
    by (auto simp: rearm_mailbox_outbox_def split: option.splits intro: outbox_wf_update repo_inv_outboxD)
qed

lemma rearm_le [simp]: "repo_le rp (rearm_mailbox_outbox m rp') = repo_le rp rp'"
  by (simp add: rearm_mailbox_outbox_def repo_le_def split: option.splits)

subsection \<open>Preservation by the operations\<close>

lemma repo_inv_irrelevant:
  assumes "repo_inv rp" and "rp_mailbox rp' = rp_mailbox rp" and "rp_sessions rp' = rp_sessions rp"
    and "rp_acceptances rp' = rp_acceptances rp" and "rp_acceptances_by_id rp' = rp_acceptances_by_id rp"
    and "rp_acceptance_sequence rp' = rp_acceptance_sequence rp"
    and "rp_next_acceptance_sequence rp' = rp_next_acceptance_sequence rp" and "outbox_wf (rp_outbox rp')"
  shows "repo_inv rp'"
  using assms by (simp add: repo_inv_def registry_wf_def)

lemma recover_mailbox_inv: "repo_inv rp \<Longrightarrow> repo_inv (snd (recover_mailbox k now rp))"
  using on_mailbox_inv [OF mailbox_ops(9), of rp k now] by (simp add: recover_mailbox_def Let_def split_beta sync_inv)

lemma recover_mailbox_le: "repo_inv rp \<Longrightarrow> repo_le rp (snd (recover_mailbox k now rp))"
  using on_mailbox_le [OF mailbox_ops(9), of rp k now] by (simp add: recover_mailbox_def Let_def split_beta)

lemma reconcile_mailbox_inv: "repo_inv rp \<Longrightarrow> repo_inv (snd (reconcile_mailbox k now rp))"
  using on_mailbox_inv [OF mailbox_ops(10), of rp k now]
  by (simp add: reconcile_mailbox_def Let_def split_beta sync_inv rearm_inv split: option.splits)

lemma reconcile_mailbox_le: "repo_inv rp \<Longrightarrow> repo_le rp (snd (reconcile_mailbox k now rp))"
  using on_mailbox_le [OF mailbox_ops(10), of rp k now]
  by (simp add: reconcile_mailbox_def Let_def split_beta split: option.splits)

lemma fold_invariant:
  assumes "P s" and "\<And>x s. P s \<Longrightarrow> P (f x s)"
  shows "P (fold f xs s)"
  using assms(1) by (induction xs arbitrary: s) (simp_all add: assms(2))

lemma fold_rearm_inv:
  "repo_inv rp \<Longrightarrow> repo_inv (fold (\<lambda>(k, m) rp. if P k m then rearm_mailbox_outbox m rp else rp) al rp)"
  by (erule fold_invariant) (simp add: rearm_inv split_beta)

lemma fold_rearm_le:
  "repo_le rp0 rp \<Longrightarrow> repo_le rp0 (fold (\<lambda>(k, m) rp. if P k m then rearm_mailbox_outbox m rp else rp) al rp)"
  by (erule fold_invariant) (simp add: split_beta)

lemma reconcile_sessions_rp_inv: "repo_inv rp \<Longrightarrow> repo_inv (snd (reconcile_sessions_rp limit now rp))"
  using synced_inv [OF mailbox_ops(13), of rp limit now]
  by (cases "synced (reconcile_sessions limit now) rp")
    (auto simp: reconcile_sessions_rp_def fold_rearm_inv split: sum.splits)

lemma reconcile_sessions_rp_le: "repo_inv rp \<Longrightarrow> repo_le rp (snd (reconcile_sessions_rp limit now rp))"
  using synced_le [OF mailbox_ops(13), of rp limit now]
  by (cases "synced (reconcile_sessions limit now) rp")
    (auto simp: reconcile_sessions_rp_def fold_rearm_le split: sum.splits)

lemma drawn_fresh: "ids_wf ms \<Longrightarrow> ms_uuid ms (ms_uuids_drawn ms) \<notin> drawn_ids ms"
  by (auto simp: ids_wf_def drawn_ids_def dest!: injD)

lemma drawn_ids_draw: "drawn_ids (draw ms) = insert (ms_uuid ms (ms_uuids_drawn ms)) (drawn_ids ms)"
  by (simp add: drawn_ids_def lessThan_Suc)

definition fresh_acceptance :: "tenant_context \<Rightarrow> inbound_envelope \<Rightarrow> time \<Rightarrow> runtime_repository \<Rightarrow> acceptance" where
  "fresh_acceptance c e now rp =
     \<lparr>ac_inbound_id = ms_uuid (rp_mailbox rp) (ms_uuids_drawn (rp_mailbox rp)), ac_context = c, ac_envelope = e,
      ac_accepted_at = now, ac_duplicate = False\<rparr>"

lemma register_acceptance_eq:
  "register_acceptance c e now rp =
     (let a = fresh_acceptance c e now rp; i = ac_inbound_id a
      in (a, rp\<lparr>rp_mailbox := draw (rp_mailbox rp),
                rp_acceptances := (rp_acceptances rp)(inbound_key c e \<mapsto> a),
                rp_acceptances_by_id := AList.update i a (rp_acceptances_by_id rp),
                rp_acceptance_sequence := (rp_acceptance_sequence rp)(i \<mapsto> rp_next_acceptance_sequence rp),
                rp_next_acceptance_sequence := rp_next_acceptance_sequence rp + 1\<rparr>))"
  by (simp add: register_acceptance_def draw_uuid_eq fresh_acceptance_def Let_def)

lemma registry_wfD:
  assumes "registry_wf rp"
  shows "rp_acceptances rp key = Some a \<Longrightarrow> inbound_key (ac_context a) (ac_envelope a) = key"
    and "rp_acceptances rp key = Some a \<Longrightarrow> map_of (rp_acceptances_by_id rp) (ac_inbound_id a) = Some a"
    and "map_of (rp_acceptances_by_id rp) i = Some a \<Longrightarrow> ac_inbound_id a = i \<and> \<not> ac_duplicate a
        \<and> i \<in> drawn_ids (rp_mailbox rp) \<and> rp_acceptances rp (inbound_key (ac_context a) (ac_envelope a)) = Some a
        \<and> rp_acceptance_sequence rp i \<noteq> None"
    and "rp_acceptance_sequence rp i = Some n \<Longrightarrow> n < rp_next_acceptance_sequence rp \<and> i \<in> drawn_ids (rp_mailbox rp)"
    and "rp_acceptance_sequence rp i = Some n \<Longrightarrow> rp_acceptance_sequence rp j = Some n \<Longrightarrow> i = j"
  using assms unfolding registry_wf_def by blast+

lemma registry_wfI:
  assumes "\<And>key a. rp_acceptances rp key = Some a \<Longrightarrow> inbound_key (ac_context a) (ac_envelope a) = key
        \<and> map_of (rp_acceptances_by_id rp) (ac_inbound_id a) = Some a"
    and "\<And>i a. map_of (rp_acceptances_by_id rp) i = Some a \<Longrightarrow> ac_inbound_id a = i \<and> \<not> ac_duplicate a
        \<and> i \<in> drawn_ids (rp_mailbox rp) \<and> rp_acceptances rp (inbound_key (ac_context a) (ac_envelope a)) = Some a
        \<and> rp_acceptance_sequence rp i \<noteq> None"
    and "\<And>i n. rp_acceptance_sequence rp i = Some n \<Longrightarrow> n < rp_next_acceptance_sequence rp \<and> i \<in> drawn_ids (rp_mailbox rp)"
    and "\<And>i j n. rp_acceptance_sequence rp i = Some n \<Longrightarrow> rp_acceptance_sequence rp j = Some n \<Longrightarrow> i = j"
  shows "registry_wf rp"
  using assms unfolding registry_wf_def by blast

lemma register_registry:
  assumes r: "registry_wf rp" and w: "ids_wf (rp_mailbox rp)" and n: "rp_acceptances rp (inbound_key c e) = None"
  shows "registry_wf (snd (register_acceptance c e now rp))"
proof -
  let ?i = "ms_uuid (rp_mailbox rp) (ms_uuids_drawn (rp_mailbox rp))"
  let ?a = "fresh_acceptance c e now rp"
  have f: "?i \<notin> drawn_ids (rp_mailbox rp)" using w by (rule drawn_fresh)
  have a: "ac_inbound_id ?a = ?i" "ac_context ?a = c" "ac_envelope ?a = e" "\<not> ac_duplicate ?a"
    by (simp_all add: fresh_acceptance_def)
  have s: "rp_acceptance_sequence rp ?i = None"
    using registry_wfD(4) [OF r, of ?i] f by (cases "rp_acceptance_sequence rp ?i") auto
  have b: "ac_inbound_id x \<noteq> ?i" if "rp_acceptances rp key = Some x" for key x
    using registry_wfD(2) [OF r that] registry_wfD(3) [OF r] f by metis
  have one: "inbound_key (ac_context x) (ac_envelope x) = key
        \<and> ((map_of (rp_acceptances_by_id rp))(?i \<mapsto> ?a)) (ac_inbound_id x) = Some x"
    if "((rp_acceptances rp)(inbound_key c e \<mapsto> ?a)) key = Some x" for key x
    using that registry_wfD(1,2) [OF r, of key x] b [of key x] a by (auto split: if_splits)
  have two: "ac_inbound_id x = i \<and> \<not> ac_duplicate x \<and> i \<in> insert ?i (drawn_ids (rp_mailbox rp))
        \<and> ((rp_acceptances rp)(inbound_key c e \<mapsto> ?a)) (inbound_key (ac_context x) (ac_envelope x)) = Some x
        \<and> ((rp_acceptance_sequence rp)(?i \<mapsto> rp_next_acceptance_sequence rp)) i \<noteq> None"
    if "((map_of (rp_acceptances_by_id rp))(?i \<mapsto> ?a)) i = Some x" for i x
    using that registry_wfD(3) [OF r, of i x] a n by (auto split: if_splits)
  have three: "m < rp_next_acceptance_sequence rp + 1 \<and> i \<in> insert ?i (drawn_ids (rp_mailbox rp))"
    if "((rp_acceptance_sequence rp)(?i \<mapsto> rp_next_acceptance_sequence rp)) i = Some m" for i m
    using that registry_wfD(4) [OF r, of i m] by (auto split: if_splits)
  have four: "i = j" if "((rp_acceptance_sequence rp)(?i \<mapsto> rp_next_acceptance_sequence rp)) i = Some m"
    "((rp_acceptance_sequence rp)(?i \<mapsto> rp_next_acceptance_sequence rp)) j = Some m" for i j m
    using that registry_wfD(4) [OF r, of _ m] registry_wfD(5) [OF r, of i m j] by (auto split: if_splits)
  have e: "snd (register_acceptance c e now rp) = rp\<lparr>rp_mailbox := draw (rp_mailbox rp),
       rp_acceptances := (rp_acceptances rp)(inbound_key c e \<mapsto> ?a),
       rp_acceptances_by_id := AList.update ?i ?a (rp_acceptances_by_id rp),
       rp_acceptance_sequence := (rp_acceptance_sequence rp)(?i \<mapsto> rp_next_acceptance_sequence rp),
       rp_next_acceptance_sequence := rp_next_acceptance_sequence rp + 1\<rparr>"
    by (simp add: register_acceptance_eq Let_def a(1))
  show ?thesis
    unfolding e
  proof (rule registry_wfI, goal_cases)
    case (1 key x) then show ?case using one [of key x] by (simp add: drawn_ids_draw)
  next
    case (2 i x) then show ?case using two [of i x] by (simp add: drawn_ids_draw)
  next
    case (3 i m) then show ?case using three [of i m] by (simp add: drawn_ids_draw)
  next
    case (4 i j m) then show ?case using four [of i m j] by simp
  qed
qed

lemma repo_inv_update:
  assumes "repo_inv rp" and "rp_mailbox rp' = rp_mailbox rp"
    and "rp_acceptances rp' = rp_acceptances rp" and "rp_acceptances_by_id rp' = rp_acceptances_by_id rp"
    and "rp_acceptance_sequence rp' = rp_acceptance_sequence rp"
    and "rp_next_acceptance_sequence rp' = rp_next_acceptance_sequence rp"
    and "sessions_wf (rp_sessions rp) \<Longrightarrow> sessions_wf (rp_sessions rp')"
    and "outbox_wf (rp_outbox rp) \<Longrightarrow> outbox_wf (rp_outbox rp')"
  shows "repo_inv rp'"
  using assms by (simp add: repo_inv_def registry_wf_def)

lemma register_inv:
  assumes "repo_inv rp" and "rp_acceptances rp (inbound_key c e) = None"
  shows "repo_inv (snd (register_acceptance c e now rp))"
proof -
  have w: "ids_wf (rp_mailbox rp)" "registry_wf rp" using assms(1) by (simp_all add: repo_inv_def)
  have i: "ids_wf (draw (rp_mailbox rp))" using ids_wf_ext [OF w(1) store_le_ext [OF store_le_draw]] .
  show ?thesis
    using assms(1) register_registry [OF w(2,1) assms(2), of now] i
    by (simp add: repo_inv_def register_acceptance_eq Let_def)
qed

lemma register_le:
  assumes "rp_acceptances rp (inbound_key c e) = None"
  shows "repo_le rp (snd (register_acceptance c e now rp))"
  using assms by (auto simp: repo_le_def register_acceptance_eq Let_def map_le_def)

lemma accept_inbound_inv: "repo_inv rp \<Longrightarrow> repo_inv (snd (accept_inbound c e th now rp))"
proof (cases "rp_acceptances rp (inbound_key c e)")
  case None
  assume r: "repo_inv rp"
  obtain a rp1 where ra: "register_acceptance c e now rp = (a, rp1)" by fastforce
  have "repo_inv rp1" using register_inv [OF r None, of now] ra by simp
  from repo_inv_draw [OF this] show ?thesis using None ra
    by (auto simp: accept_inbound_def draw_uuid_eq Let_def elim!: repo_inv_update intro!: outbox_wf_update')
qed (simp add: accept_inbound_def)

lemma accept_inbound_le: "repo_le rp (snd (accept_inbound c e th now rp))"
proof (cases "rp_acceptances rp (inbound_key c e)")
  case None
  obtain a rp1 where ra: "register_acceptance c e now rp = (a, rp1)" by fastforce
  have "repo_le rp rp1" using register_le [OF None, of now] ra by simp
  moreover have "repo_le rp1 (snd (accept_inbound c e th now rp))"
    using None ra by (simp add: accept_inbound_def draw_uuid_eq Let_def repo_le_def)
  ultimately show ?thesis by (rule repo_le_trans)
qed (simp add: accept_inbound_def)

lemma accept_inbound_v2_shape:
  assumes "rp_acceptances rp (inbound_key c e) = None" and "register_acceptance c e (clk 0) rp = (a, rp1)"
  obtains f :: "mailbox_store \<Rightarrow> (session_mailbox, mailbox_store) outcome" where "mailbox_op f"
    and "snd (accept_inbound_v2 c e p r clk rp) = snd (on_mailbox f rp1)
       \<or> (\<exists>rs. snd (accept_inbound_v2 c e p r clk rp) =
            (snd (on_mailbox f rp1))\<lparr>rp_outbox := fold (\<lambda>r al. AList.update (ob_outbox_id r) r al) rs (rp_outbox rp1)\<rparr>)"
proof -
  let ?k = "(tc_tenant_id c, tc_session_id c)"
  show thesis
    by (rule that [OF mailbox_ops(1), of ?k "ac_inbound_id a" p "effective_retry_at (ms_get ?k (rp_mailbox rp1)) r (clk 1)"
          "Some (tc_trace_id c)" "clk 2"])
      (use assms in \<open>auto simp: accept_inbound_v2_def Let_def on_mailbox_eq split: sum.splits\<close>)
qed

lemma accept_inbound_v2_inv:
  assumes r: "repo_inv rp"
  shows "repo_inv (snd (accept_inbound_v2 c e p ra clk rp))"
proof (cases "rp_acceptances rp (inbound_key c e)")
  case None
  obtain a rp1 where reg: "register_acceptance c e (clk 0) rp = (a, rp1)" by fastforce
  have i: "repo_inv rp1" using register_inv [OF r None, of "clk 0"] reg by simp
  obtain f :: "mailbox_store \<Rightarrow> (session_mailbox, mailbox_store) outcome" where f: "mailbox_op f" and s: "snd (accept_inbound_v2 c e p ra clk rp) = snd (on_mailbox f rp1)
       \<or> (\<exists>rs. snd (accept_inbound_v2 c e p ra clk rp) =
            (snd (on_mailbox f rp1))\<lparr>rp_outbox := fold (\<lambda>r al. AList.update (ob_outbox_id r) r al) rs (rp_outbox rp1)\<rparr>)"
    using accept_inbound_v2_shape [where p = p and r = ra and clk = clk, OF None reg] .
  note m = on_mailbox_inv [OF f i]
  have "outbox_wf (fold (\<lambda>r al. AList.update (ob_outbox_id r) r al) rs (rp_outbox rp1))" for rs
    by (intro outbox_wf_fold outbox_wf_update) (auto intro: repo_inv_outboxD i)
  with s m repo_inv_outbox [OF m] show ?thesis by auto
qed (use r in \<open>simp add: accept_inbound_v2_def\<close>)

lemma accept_inbound_v2_le:
  assumes r: "repo_inv rp"
  shows "repo_le rp (snd (accept_inbound_v2 c e p ra clk rp))"
proof (cases "rp_acceptances rp (inbound_key c e)")
  case None
  obtain a rp1 where reg: "register_acceptance c e (clk 0) rp = (a, rp1)" by fastforce
  have i: "repo_inv rp1" "repo_le rp rp1"
    using register_inv [OF r None, of "clk 0"] register_le [OF None, of "clk 0"] reg by simp_all
  obtain f :: "mailbox_store \<Rightarrow> (session_mailbox, mailbox_store) outcome" where f: "mailbox_op f" and s: "snd (accept_inbound_v2 c e p ra clk rp) = snd (on_mailbox f rp1)
       \<or> (\<exists>rs. snd (accept_inbound_v2 c e p ra clk rp) =
            (snd (on_mailbox f rp1))\<lparr>rp_outbox := fold (\<lambda>r al. AList.update (ob_outbox_id r) r al) rs (rp_outbox rp1)\<rparr>)"
    using accept_inbound_v2_shape [where p = p and r = ra and clk = clk, OF None reg] .
  have "repo_le rp1 (snd (accept_inbound_v2 c e p ra clk rp))"
    using s on_mailbox_le [OF f i(1)] by (auto simp: repo_le_def)
  with i(2) show ?thesis by (rule repo_le_trans)
qed (simp add: accept_inbound_v2_def)

subsection \<open>Sessions and turns\<close>

lemma enumerate_sequences: "map se_sequence (enumerate_events n es) = [n..<n + length es]"
  by (induction es arbitrary: n) (simp_all add: upt_conv_Cons del: upt_Suc)

lemma length_enumerate [simp]: "length (enumerate_events n es) = length es"
  by (induction es arbitrary: n) auto

lemma snapshot_wf_new: "snapshot_wf k (new_session_snapshot (fst k) app (snd k) p)"
  by (simp add: snapshot_wf_def new_session_snapshot_def)

lemma apply_turn_fields:
  "ss_events (apply_turn c s) = ss_events s @ enumerate_events (ss_next_sequence s) (tu_events c)"
  "ss_version (apply_turn c s) = ss_version s + 1"
  "ss_next_sequence (apply_turn c s) = ss_next_sequence s + length (tu_events c)"
  "ss_state (apply_turn c s) = tu_state c"
  by (simp_all add: apply_turn_def Let_def)

lemma snapshot_wf_apply_turn: "snapshot_wf k s \<Longrightarrow> snapshot_wf k (apply_turn c s)"
  using upt_add_eq_append [of 1 "ss_next_sequence s" "length (tu_events c)"]
  by (simp add: snapshot_wf_def apply_turn_def Let_def enumerate_sequences)

lemma sessions_wf_update: "sessions_wf m \<Longrightarrow> snapshot_wf k s \<Longrightarrow> sessions_wf (m(k \<mapsto> s))"
  by (auto simp: sessions_wf_def)

lemma sessions_wfD: "sessions_wf m \<Longrightarrow> m k = Some s \<Longrightarrow> snapshot_wf k s"
  by (simp add: sessions_wf_def)

lemma sessions_le_new: "m k = None \<Longrightarrow> sessions_le m (m(k \<mapsto> s))"
  by (auto simp: sessions_le_def)

lemma sessions_le_apply_turn: "m k = Some s \<Longrightarrow> sessions_le m (m(k \<mapsto> apply_turn c s))"
  by (auto simp: sessions_le_def apply_turn_fields)

lemma repo_inv_sessions: "repo_inv rp \<Longrightarrow> sessions_wf (rp_sessions rp)"
  by (simp add: repo_inv_def)

lemma acquire_lease_shape:
  obtains ses ms le where "snd (acquire_lease a w lf now rp) = rp\<lparr>rp_sessions := ses, rp_mailbox := ms, rp_leases := le\<rparr>"
    and "ms = rp_mailbox rp \<or> ms = draw (rp_mailbox rp)"
    and "ses = rp_sessions rp \<or> (\<exists>k app p. rp_sessions rp k = None
           \<and> ses = (rp_sessions rp)(k \<mapsto> new_session_snapshot (fst k) app (snd k) p))"
proof -
  let ?k = "(tc_tenant_id (ac_context a), tc_session_id (ac_context a))"
  let ?rp = "snd (acquire_lease a w lf now rp)"
  have "?rp = rp\<lparr>rp_sessions := rp_sessions ?rp, rp_mailbox := rp_mailbox ?rp, rp_leases := rp_leases ?rp\<rparr>"
    by (auto simp: acquire_lease_def Let_def draw_uuid_eq split: option.splits)
  moreover have "rp_mailbox ?rp = rp_mailbox rp \<or> rp_mailbox ?rp = draw (rp_mailbox rp)"
    by (auto simp: acquire_lease_def Let_def draw_uuid_eq split: option.splits)
  moreover have "rp_sessions ?rp = rp_sessions rp \<or> (rp_sessions rp ?k = None
           \<and> rp_sessions ?rp = (rp_sessions rp)(?k \<mapsto> new_session_snapshot (fst ?k) (tc_app_id (ac_context a)) (snd ?k)
               (tc_principal_id (ac_context a))))"
    by (auto simp: acquire_lease_def Let_def draw_uuid_eq split: option.splits)
  ultimately show thesis using that by blast
qed

lemma acquire_lease_inv:
  assumes "repo_inv rp"
  shows "repo_inv (snd (acquire_lease a w lf now rp))"
proof -
  obtain ses ms le where s: "snd (acquire_lease a w lf now rp) = rp\<lparr>rp_sessions := ses, rp_mailbox := ms, rp_leases := le\<rparr>"
    and m: "ms = rp_mailbox rp \<or> ms = draw (rp_mailbox rp)"
    and n: "ses = rp_sessions rp \<or> (\<exists>k app p. rp_sessions rp k = None
           \<and> ses = (rp_sessions rp)(k \<mapsto> new_session_snapshot (fst k) app (snd k) p))"
    by (rule acquire_lease_shape)
  have "repo_inv (rp\<lparr>rp_mailbox := ms\<rparr>)" using m assms repo_inv_draw [OF assms] by auto
  moreover have "sessions_wf ses" using n repo_inv_sessions [OF assms] by (auto intro: sessions_wf_update snapshot_wf_new)
  ultimately show ?thesis unfolding s by (elim repo_inv_update) auto
qed

lemma acquire_lease_le: "repo_le rp (snd (acquire_lease a w lf now rp))"
proof -
  obtain ses ms le where s: "snd (acquire_lease a w lf now rp) = rp\<lparr>rp_sessions := ses, rp_mailbox := ms, rp_leases := le\<rparr>"
    and m: "ms = rp_mailbox rp \<or> ms = draw (rp_mailbox rp)"
    and n: "ses = rp_sessions rp \<or> (\<exists>k app p. rp_sessions rp k = None
           \<and> ses = (rp_sessions rp)(k \<mapsto> new_session_snapshot (fst k) app (snd k) p))"
    by (rule acquire_lease_shape)
  have "store_le (rp_mailbox rp) ms" using m by auto
  moreover have "sessions_le (rp_sessions rp) ses" using n by (auto intro: sessions_le_new)
  ultimately show ?thesis unfolding s by (simp add: repo_le_def)
qed

lemma snd_acquire: "snd (acquire a w lf clk rp) = rp \<or> snd (acquire a w lf clk rp) = snd (acquire_lease a w lf (clk 1) rp)"
  by (auto simp: acquire_def Let_def split: option.splits sum.splits bool.splits)

lemma acquire_inv: "repo_inv rp \<Longrightarrow> repo_inv (snd (acquire a w lf clk rp))"
  using snd_acquire [of a w lf clk rp] acquire_lease_inv [of rp a w lf "clk 1"] by fastforce

lemma acquire_le: "repo_le rp (snd (acquire a w lf clk rp))"
  using snd_acquire [of a w lf clk rp] acquire_lease_le [of rp a w lf "clk 1"] by fastforce

lemma renew_v1_inv: "repo_inv rp \<Longrightarrow> repo_inv (snd (renew_v1 l lf now rp))"
  by (auto simp: renew_v1_def Let_def elim: repo_inv_update)

lemma renew_v1_le: "repo_le rp (snd (renew_v1 l lf now rp))"
  by (simp add: renew_v1_def Let_def repo_le_def)

lemma fail_v1_inv: "repo_inv rp \<Longrightarrow> repo_inv (fail_v1 l rp)"
  by (auto simp: fail_v1_def elim: repo_inv_update)

lemma fail_v1_le: "repo_le rp (fail_v1 l rp)"
  by (simp add: fail_v1_def repo_le_def)

lemma outbound_record_id [simp]: "ob_outbox_id (outbound_ready_record i t e) = i"
  by (simp add: outbound_ready_record_def)

lemma commit_v1_inv: assumes r: "repo_inv rp" shows "repo_inv (snd (commit_v1 c now rp))"
proof -
  have w: "sessions_wf ((rp_sessions rp)(k \<mapsto> apply_turn c s))" if "rp_sessions rp k = Some s" for k s
    using repo_inv_sessions [OF r] that by (auto intro: sessions_wf_update snapshot_wf_apply_turn dest: sessions_wfD)
  show ?thesis
  proof (cases "tu_outbound c")
    case None
    with r show ?thesis by (auto simp: commit_v1_def Let_def w split: option.splits elim: repo_inv_update)
  next
    case (Some x)
    have i: "repo_inv (rp\<lparr>rp_mailbox := draw (rp_mailbox rp)\<rparr>)" using repo_inv_draw [OF r] .
    show ?thesis using r Some
      by (auto simp: commit_v1_def Let_def draw_uuid_eq w split: option.splits
          intro!: repo_inv_update [OF i] outbox_wf_update')
  qed
qed

lemma commit_v1_le: "repo_le rp (snd (commit_v1 c now rp))"
  by (auto simp: commit_v1_def Let_def draw_uuid_eq repo_le_def sessions_le_apply_turn split: option.splits)

subsection \<open>Session-ready turns\<close>

definition materialize_new ::
    "session_key \<Rightarrow> string \<Rightarrow> mailbox_lease \<Rightarrow> acceptance \<Rightarrow> runtime_repository \<Rightarrow> session_lease \<times> runtime_repository"
where
  "materialize_new k owner_id l accepted rp =
     (let snapshot = (case rp_sessions rp k of Some s \<Rightarrow> s
             | None \<Rightarrow> new_session_snapshot (fst k) (tc_app_id (ac_context accepted)) (snd k) (tc_principal_id (ac_context accepted)));
          reuse = (case rp_leases rp k of None \<Rightarrow> False | Some p \<Rightarrow> sl_inbound_id p = ml_inbound_id l);
          ms = (if reuse then rp_mailbox rp else draw (rp_mailbox rp));
          turn_id = (if reuse then sl_turn_id (the (rp_leases rp k))
                     else ms_uuid (rp_mailbox rp) (ms_uuids_drawn (rp_mailbox rp)));
          lease = \<lparr>sl_tenant_id = fst k, sl_session_id = snd k, sl_turn_id = turn_id,
                   sl_inbound_id = ml_inbound_id l, sl_worker_id = owner_id,
                   sl_fencing_token = ml_epoch l, sl_expires_at = ml_expires_at l,
                   sl_attempt = ml_attempt l, sl_snapshot = snapshot, sl_snapshot_hydrated = True\<rparr>
      in (lease, rp\<lparr>rp_mailbox := ms, rp_sessions := (rp_sessions rp)(k \<mapsto> snapshot),
                    rp_leases := (rp_leases rp)(k \<mapsto> lease),
                    rp_v2_turn_status := (rp_v2_turn_status rp)((fst k, turn_id) \<mapsto> ''processing''),
                    rp_inbound_status := (rp_inbound_status rp)((fst k, ml_inbound_id l) \<mapsto> ''processing'')\<rparr>))"

definition already_committed :: "string \<times> string \<Rightarrow> runtime_repository \<Rightarrow> bool" where
  "already_committed i rp \<longleftrightarrow> i \<in> rp_committed_inbound rp \<or> rp_inbound_status rp i = Some ''committed''"

lemma materialize_claim_eq:
  "materialize_claim k owner_id c l now rp =
     (case map_of (rp_acceptances_by_id rp) (ml_inbound_id l) of
        None \<Rightarrow> return_in rp (c\<lparr>sc_status := EMPTY, sc_lease := None\<rparr>)
      | Some accepted \<Rightarrow>
          if already_committed (fst k, ml_inbound_id l) rp
          then (case commit l now (rp_mailbox rp) of
                  (Inl e, ms) \<Rightarrow> raise_in (rp\<lparr>rp_mailbox := ms\<rparr>) e
                | (Inr m, ms) \<Rightarrow>
                    return_in (rp\<lparr>rp_mailbox := ms, rp_leases := (rp_leases rp)(k := None)\<rparr>)
                      \<lparr>sc_status = EMPTY, sc_mailbox = m, sc_lease = None,
                       sc_acceptance = Some (accepted\<lparr>ac_duplicate := True\<rparr>), sc_execution_lease = None\<rparr>)
          else let (lease, rp') = materialize_new k owner_id l accepted rp
               in return_in rp' (c\<lparr>sc_acceptance := Some accepted, sc_execution_lease := Some lease\<rparr>))"
proof (cases "map_of (rp_acceptances_by_id rp) (ml_inbound_id l)")
  case (Some a)
  show ?thesis
  proof (cases "already_committed (fst k, ml_inbound_id l) rp")
    case True
    then show ?thesis using Some
      by (cases "commit l now (rp_mailbox rp)"; cases "fst (commit l now (rp_mailbox rp))")
        (simp_all add: materialize_claim_def already_committed_def Let_def on_mailbox_eq)
  next
    case False
    then show ?thesis using Some
      by (cases "rp_sessions rp k"; cases "rp_leases rp k")
        (simp_all add: materialize_claim_def materialize_new_def already_committed_def Let_def draw_uuid_eq fun_upd_idem)
  qed
qed (simp add: materialize_claim_def)

lemma materialize_new_inv:
  assumes "repo_inv rp"
  shows "repo_inv (snd (materialize_new k owner l a rp))"
proof -
  let ?ms = "rp_mailbox (snd (materialize_new k owner l a rp))"
  have "?ms = rp_mailbox rp \<or> ?ms = draw (rp_mailbox rp)" by (simp add: materialize_new_def Let_def)
  then have i: "repo_inv (rp\<lparr>rp_mailbox := ?ms\<rparr>)" using assms repo_inv_draw [OF assms] by auto
  have "sessions_wf (rp_sessions (snd (materialize_new k owner l a rp)))"
    using repo_inv_sessions [OF assms]
    by (auto simp: materialize_new_def Let_def split: option.splits intro: sessions_wf_update snapshot_wf_new dest: sessions_wfD)
  then show ?thesis using repo_inv_outboxD [OF assms]
    by (intro repo_inv_update [OF i]) (simp_all add: materialize_new_def Let_def)
qed

lemma materialize_new_le: "repo_le rp (snd (materialize_new k owner l a rp))"
proof -
  have "sessions_le (rp_sessions rp) (rp_sessions (snd (materialize_new k owner l a rp)))"
    by (auto simp: materialize_new_def Let_def sessions_le_def split: option.splits)
  moreover have "store_le (rp_mailbox rp) (rp_mailbox (snd (materialize_new k owner l a rp)))"
    by (simp add: materialize_new_def Let_def)
  ultimately show ?thesis by (simp add: repo_le_def materialize_new_def Let_def)
qed

lemma repo_inv_leases: "repo_inv rp \<Longrightarrow> repo_inv (rp\<lparr>rp_leases := x\<rparr>)"
  by (erule repo_inv_update) auto

lemma repo_le_leases [simp]: "repo_le rp (rp'\<lparr>rp_leases := x\<rparr>) = repo_le rp rp'"
  by (simp add: repo_le_def)

lemma materialize_claim_inv:
  assumes "repo_inv rp"
  shows "repo_inv (snd (materialize_claim k owner c l now rp))"
proof -
  have m: "repo_inv (rp\<lparr>rp_mailbox := snd (commit l now (rp_mailbox rp))\<rparr>)"
    using on_mailbox_inv [OF mailbox_ops(5) assms, of l now] by (simp add: on_mailbox_eq)
  show ?thesis using assms m repo_inv_leases [OF m] materialize_new_inv [OF assms, of k owner l]
    by (auto simp: materialize_claim_eq split_beta split: option.splits sum.splits)
qed

lemma materialize_claim_le:
  assumes "repo_inv rp"
  shows "repo_le rp (snd (materialize_claim k owner c l now rp))"
proof -
  have m: "repo_le rp (rp\<lparr>rp_mailbox := snd (commit l now (rp_mailbox rp))\<rparr>)"
    using on_mailbox_le [OF mailbox_ops(5) assms, of l now] by (simp add: on_mailbox_eq)
  show ?thesis using m materialize_new_le [of rp k owner l]
    by (auto simp: materialize_claim_eq split_beta split: option.splits sum.splits)
qed

lemma claim_mailbox_inv: "repo_inv rp \<Longrightarrow> repo_inv (snd (claim_mailbox k owner lf eg ee acc now rp))"
  unfolding claim_mailbox_def by (intro on_mailbox_inv) auto

lemma claim_mailbox_le: "repo_inv rp \<Longrightarrow> repo_le rp (snd (claim_mailbox k owner lf eg ee acc now rp))"
  unfolding claim_mailbox_def by (intro on_mailbox_le) auto

lemma claim_session_ready_shape:
  fixes k owner lf eg ev acc clk
  obtains "snd (claim_session_ready k owner lf eg ev acc clk rp) = rp"
  | g where "snd (claim_session_ready k owner lf eg ev acc clk rp) = snd (claim_mailbox k owner lf g None acc (clk 2) rp)"
  | g c l where "snd (claim_session_ready k owner lf eg ev acc clk rp) =
      snd (materialize_claim k owner c l (clk 3) (snd (claim_mailbox k owner lf g None acc (clk 2) rp)))"
proof (cases "wakeup_generation k ev eg (rp_mailbox rp)")
  case None
  then show thesis by (intro that(1)) (simp add: claim_session_ready_def Let_def)
next
  case (Some g)
  obtain res rp1 where c: "claim_mailbox k owner lf g None acc (clk 2) rp = (res, rp1)" by fastforce
  show thesis
  proof (cases "session_lease_live k (clk 1) rp")
    case True
    with Some show thesis by (intro that(1)) (simp add: claim_session_ready_def Let_def)
  next
    case False
    then have "snd (claim_session_ready k owner lf eg ev acc clk rp) = rp1
        \<or> (\<exists>c l. snd (claim_session_ready k owner lf eg ev acc clk rp) = snd (materialize_claim k owner c l (clk 3) rp1))"
      using Some c by (cases res) (auto simp: claim_session_ready_def Let_def split: option.splits)
    then show thesis using that(2) [of g] that(3) [of _ _ g] c by auto
  qed
qed

lemma claim_session_ready_inv:
  assumes "repo_inv rp"
  shows "repo_inv (snd (claim_session_ready k owner lf eg ev acc clk rp))"
  by (rule claim_session_ready_shape [of k owner lf eg ev acc clk rp])
    (simp_all add: assms claim_mailbox_inv materialize_claim_inv)

lemma claim_session_ready_le:
  assumes "repo_inv rp"
  shows "repo_le rp (snd (claim_session_ready k owner lf eg ev acc clk rp))"
proof (rule claim_session_ready_shape [of k owner lf eg ev acc clk rp])
  fix g c l assume "snd (claim_session_ready k owner lf eg ev acc clk rp) =
      snd (materialize_claim k owner c l (clk 3) (snd (claim_mailbox k owner lf g None acc (clk 2) rp)))"
  then show ?thesis using repo_le_trans [OF claim_mailbox_le [OF assms] materialize_claim_le [OF claim_mailbox_inv [OF assms]]] by simp
qed (simp_all add: assms claim_mailbox_le)

lemma renew_session_ready_shape:
  "snd (renew_session_ready l lf now rp) = rp
   \<or> (\<exists>l'. snd (renew_session_ready l lf now rp) = snd (on_mailbox (renew l' lf now) rp))
   \<or> (\<exists>l' x. snd (renew_session_ready l lf now rp) = (snd (on_mailbox (renew l' lf now) rp))\<lparr>rp_leases := x\<rparr>)"
  by (auto simp: renew_session_ready_def Let_def on_mailbox_eq split: option.splits sum.splits)

lemma renew_session_ready_inv:
  assumes "repo_inv rp"
  shows "repo_inv (snd (renew_session_ready l lf now rp))"
  using renew_session_ready_shape [of l lf now rp] assms on_mailbox_inv [OF mailbox_ops(3) assms]
  by (auto simp: repo_inv_leases)

lemma renew_session_ready_le:
  assumes "repo_inv rp"
  shows "repo_le rp (snd (renew_session_ready l lf now rp))"
  using renew_session_ready_shape [of l lf now rp] on_mailbox_le [OF mailbox_ops(3) assms] by auto

lemma close_turn_inv: "repo_inv rp \<Longrightarrow> repo_inv (close_turn l s rp)"
  by (erule repo_inv_update) (simp_all add: close_turn_def)

lemma close_turn_le [simp]: "repo_le rp (close_turn l s rp') = repo_le rp rp'"
  by (simp add: repo_le_def close_turn_def)

lemma retry_session_ready_shape:
  "snd (retry_session_ready l d clk rp) = rp
   \<or> (\<exists>l'. snd (retry_session_ready l d clk rp) = snd (on_mailbox (retry_without_wakeup l' (Some (clk 0 + d)) (clk 1)) rp))
   \<or> (\<exists>l'. snd (retry_session_ready l d clk rp) =
        close_turn l ''accepted'' (snd (on_mailbox (retry_without_wakeup l' (Some (clk 0 + d)) (clk 1)) rp)))"
  by (auto simp: retry_session_ready_def Let_def on_mailbox_eq split: option.splits sum.splits)

lemma retry_session_ready_inv:
  assumes "repo_inv rp"
  shows "repo_inv (snd (retry_session_ready l d clk rp))"
  using retry_session_ready_shape [of l d clk rp] assms on_mailbox_inv [OF mailbox_ops(8) assms]
  by (auto simp: close_turn_inv)

lemma retry_session_ready_le:
  assumes "repo_inv rp"
  shows "repo_le rp (snd (retry_session_ready l d clk rp))"
  using retry_session_ready_shape [of l d clk rp] on_mailbox_le [OF mailbox_ops(8) assms] by auto

lemma fail_session_ready_shape:
  "snd (fail_session_ready l now rp) = rp
   \<or> (\<exists>l'. snd (fail_session_ready l now rp) = snd (synced (commit l' now) rp))
   \<or> (\<exists>l'. snd (fail_session_ready l now rp) = close_turn l ''failed'' (snd (synced (commit l' now) rp)))"
proof -
  have *: "snd (case synced (commit l' now) rp of (Inl e, rp1) \<Rightarrow> raise_in rp1 e
             | (Inr _, rp1) \<Rightarrow> return_in (close_turn l ''failed'' rp1) ()) \<in>
       {snd (synced (commit l' now) rp), close_turn l ''failed'' (snd (synced (commit l' now) rp))}" for l'
    by (cases "synced (commit l' now) rp"; cases "fst (synced (commit l' now) rp)") auto
  show ?thesis using * by (auto simp: fail_session_ready_def Let_def split: option.splits sum.splits)
qed

lemma fail_session_ready_inv:
  assumes "repo_inv rp"
  shows "repo_inv (snd (fail_session_ready l now rp))"
  using fail_session_ready_shape [of l now rp] assms synced_inv [OF mailbox_ops(5) assms]
  by (auto simp: close_turn_inv)

lemma fail_session_ready_le:
  assumes "repo_inv rp"
  shows "repo_le rp (snd (fail_session_ready l now rp))"
  using fail_session_ready_shape [of l now rp] synced_le [OF mailbox_ops(5) assms] by auto


text \<open>
  The session-ready commit, with its two outcomes spelled out: the mailbox commit raises and the
  restored repository differs from the old one in the identifiers drawn at most, or it succeeds and
  every part is applied.
\<close>

definition commit_outbound :: "turn_commit \<Rightarrow> runtime_repository \<Rightarrow> outbox_record option" where
  "commit_outbound c rp =
     map_option (outbound_ready_record (ms_uuid (rp_mailbox rp) (ms_uuids_drawn (rp_mailbox rp)))
                   (sl_tenant_id (tu_lease c))) (tu_outbound c)"

definition commit_base :: "turn_commit \<Rightarrow> runtime_repository \<Rightarrow> runtime_repository" where
  "commit_base c rp =
     (if tu_outbound c = None then rp else rp\<lparr>rp_mailbox := draw (rp_mailbox rp)\<rparr>)"

definition commit_applied ::
    "turn_commit \<Rightarrow> session_snapshot \<Rightarrow> mailbox_store \<Rightarrow> runtime_repository \<Rightarrow> runtime_repository"
where
  "commit_applied c snapshot ms rp =
     (let lease = tu_lease c; k = sl_key lease; inbound = (sl_tenant_id lease, sl_inbound_id lease);
          rp3 = sync_new_mailbox_outbox (length (ms_outbox (rp_mailbox rp))) (rp\<lparr>rp_mailbox := ms\<rparr>)
      in rp3\<lparr>rp_outbox := (case commit_outbound c rp of
                           None \<Rightarrow> rp_outbox rp3
                         | Some r \<Rightarrow> AList.update (ob_outbox_id r) r (rp_outbox rp3)),
             rp_sessions := (rp_sessions rp)(k \<mapsto> apply_turn c snapshot),
             rp_committed_inbound := insert inbound (rp_committed_inbound rp),
             rp_inbound_status := (rp_inbound_status rp)(inbound \<mapsto> ''committed''),
             rp_v2_turn_status := (rp_v2_turn_status rp)((sl_tenant_id lease, sl_turn_id lease) \<mapsto> ''committed''),
             rp_leases := (rp_leases rp)(k := None)\<rparr>)"

lemma commit_raises_same: "commit l now ms = (Inl e, ms') \<Longrightarrow> ms' = ms"
  by (auto simp: commit_def Let_def split: sum.splits if_splits prod.splits)

lemma ms_put_same: "ms_get k ms = Some m \<Longrightarrow> ms_put k m ms = ms"
  by (simp add: ms_put_def ms_get_def update_triv)

lemma commit_session_ready_cases:
  assumes "commit_session_ready c now rp = (res, rp')"
  obtains (fenced) e where "res = Inl e" and "rp' = rp"
  | (raised) e where "res = Inl e" and "rp' = commit_base c rp"
  | (committed) m l m' ms snapshot where
      "owns_session (rp_leases rp (sl_key (tu_lease c))) (tu_lease c)"
      and "ms_get (sl_key (tu_lease c)) (rp_mailbox rp) = Some m"
      and "mailbox_lease_for m (tu_lease c) = Inr l"
      and "rp_sessions rp (sl_key (tu_lease c)) = Some snapshot"
      and "commit l now (rp_mailbox (commit_base c rp)) = (Inr m', ms)"
      and "res = Inr (turn_result c snapshot)"
      and "rp' = commit_applied c snapshot ms rp"
proof -
  let ?k = "sl_key (tu_lease c)"
  consider "fst (commit_session_ready c now rp) \<in> range Inl \<and> snd (commit_session_ready c now rp) = rp"
    | m l s where "owns_session (rp_leases rp ?k) (tu_lease c)" "ms_get ?k (rp_mailbox rp) = Some m"
      "mb_processing_inbound_id m = Some (sl_inbound_id (tu_lease c))"
      "mailbox_lease_for m (tu_lease c) = Inr l" "rp_sessions rp ?k = Some s"
    by (fastforce simp: commit_session_ready_def Let_def split: option.splits sum.splits)
  then show thesis
  proof cases
    case 1
    then show thesis using assms fenced by auto
  next
    case (2 m l s)
    obtain r ms where c: "commit l now (rp_mailbox (commit_base c rp)) = (r, ms)" by fastforce
    have g: "ms_get ?k (rp_mailbox (commit_base c rp)) = Some m" using 2(2) by (simp add: commit_base_def)
    show thesis
    proof (cases r)
      case (Inl e)
      have e: "ms = rp_mailbox (commit_base c rp)" using c Inl commit_raises_same by blast
      have "res = Inl e \<and> rp' = commit_base c rp" using assms 2 c Inl g
        by (cases "tu_outbound c")
          (auto simp: commit_session_ready_def commit_base_def Let_def draw_uuid_eq on_mailbox_eq e ms_put_same)
      then show thesis by (intro raised) auto
    next
      case (Inr m')
      have "res = Inr (turn_result c s) \<and> rp' = commit_applied c s ms rp" using assms 2 c Inr
        by (cases "tu_outbound c")
          (auto simp: commit_session_ready_def commit_base_def commit_applied_def commit_outbound_def
            sync_new_mailbox_outbox_def Let_def draw_uuid_eq on_mailbox_eq)
      then show thesis using 2 c Inr by (intro committed) auto
    qed
  qed
qed

lemma commit_base_inv: "repo_inv rp \<Longrightarrow> repo_inv (commit_base c rp)"
  by (simp add: commit_base_def repo_inv_draw)

lemma commit_base_le: "repo_le rp (commit_base c rp)"
  by (simp add: commit_base_def repo_le_mailbox)

lemma commit_base_fields [simp]:
  "rp_sessions (commit_base c rp) = rp_sessions rp" "rp_leases (commit_base c rp) = rp_leases rp"
  "rp_outbox (commit_base c rp) = rp_outbox rp" "rp_committed_inbound (commit_base c rp) = rp_committed_inbound rp"
  "rp_acceptances (commit_base c rp) = rp_acceptances rp"
  by (simp_all add: commit_base_def)

lemma commit_applied_fields [simp]:
  "rp_mailbox (commit_applied c s ms rp) = ms"
  "rp_sessions (commit_applied c s ms rp) = (rp_sessions rp)(sl_key (tu_lease c) \<mapsto> apply_turn c s)"
  "rp_committed_inbound (commit_applied c s ms rp) =
     insert (sl_tenant_id (tu_lease c), sl_inbound_id (tu_lease c)) (rp_committed_inbound rp)"
  "rp_leases (commit_applied c s ms rp) = (rp_leases rp)(sl_key (tu_lease c) := None)"
  "rp_acceptances (commit_applied c s ms rp) = rp_acceptances rp"
  "rp_acceptances_by_id (commit_applied c s ms rp) = rp_acceptances_by_id rp"
  "rp_acceptance_sequence (commit_applied c s ms rp) = rp_acceptance_sequence rp"
  "rp_next_acceptance_sequence (commit_applied c s ms rp) = rp_next_acceptance_sequence rp"
  "rp_delivery_attempts (commit_applied c s ms rp) = rp_delivery_attempts rp"
  "rp_dead_letters (commit_applied c s ms rp) = rp_dead_letters rp"
  "rp_delivery_receipts (commit_applied c s ms rp) = rp_delivery_receipts rp"
  "rp_outbox_claims (commit_applied c s ms rp) = rp_outbox_claims rp"
  by (simp_all add: commit_applied_def Let_def sync_new_mailbox_outbox_def)

lemma commit_applied_outbox_wf:
  assumes "outbox_wf (rp_outbox rp)"
  shows "outbox_wf (rp_outbox (commit_applied c s ms rp))"
proof -
  have "outbox_wf (rp_outbox (sync_new_mailbox_outbox n (rp\<lparr>rp_mailbox := ms\<rparr>)))" for n
    using assms unfolding sync_new_mailbox_outbox_def by (auto intro: outbox_wf_fold outbox_wf_setdefault)
  then show ?thesis by (auto simp: commit_applied_def Let_def intro: outbox_wf_update split: option.splits)
qed

lemma commit_session_ready_inv:
  assumes r: "repo_inv rp"
  shows "repo_inv (snd (commit_session_ready c now rp))"
proof -
  obtain res rp' where e: "commit_session_ready c now rp = (res, rp')" by fastforce
  then show ?thesis
  proof (cases rule: commit_session_ready_cases)
    case (committed m l m' ms s)
    have "repo_inv ((commit_base c rp)\<lparr>rp_mailbox := ms\<rparr>)"
      using on_mailbox_inv [OF mailbox_ops(5) commit_base_inv [OF r, of c], of l now] committed(5) by (simp add: on_mailbox_eq)
    moreover have "(commit_base c rp)\<lparr>rp_mailbox := ms\<rparr> = rp\<lparr>rp_mailbox := ms\<rparr>" by (simp add: commit_base_def)
    ultimately have i: "repo_inv (rp\<lparr>rp_mailbox := ms\<rparr>)" by simp
    have "sessions_wf ((rp_sessions rp)(sl_key (tu_lease c) \<mapsto> apply_turn c s))"
      using repo_inv_sessions [OF r] committed(4) by (auto intro: sessions_wf_update snapshot_wf_apply_turn dest: sessions_wfD)
    then have "repo_inv (commit_applied c s ms rp)"
      using repo_inv_outboxD [OF r] by (intro repo_inv_update [OF i]) (simp_all add: commit_applied_outbox_wf)
    then show ?thesis using e committed by simp
  qed (use r e in \<open>simp_all add: commit_base_inv\<close>)
qed

lemma commit_session_ready_le:
  assumes r: "repo_inv rp"
  shows "repo_le rp (snd (commit_session_ready c now rp))"
proof -
  obtain res rp' where e: "commit_session_ready c now rp = (res, rp')" by fastforce
  then show ?thesis
  proof (cases rule: commit_session_ready_cases)
    case (committed m l m' ms s)
    have "repo_le rp ((commit_base c rp)\<lparr>rp_mailbox := ms\<rparr>)"
      using repo_le_trans [OF commit_base_le on_mailbox_le [OF mailbox_ops(5) [of l now] commit_base_inv [OF r, of c]]] committed(5)
      by (simp add: on_mailbox_eq)
    then have "store_le (rp_mailbox rp) ms" by (simp add: repo_le_def)
    with e committed show ?thesis by (auto simp: repo_le_def sessions_le_apply_turn)
  qed (use e in \<open>simp_all add: commit_base_le\<close>)
qed

subsection \<open>Outbox and delivery\<close>

lemma claim_outbox_loop_inv: "repo_inv rp \<Longrightarrow> repo_inv (snd (claim_outbox_loop rs ty w mx lf now cl rp))"
proof (induction rs ty w mx lf now cl rp rule: claim_outbox_loop.induct)
  case (2 r rs ty w mx lf now cl rp)
  let ?rp = "rp\<lparr>rp_outbox_claims := (rp_outbox_claims rp)(ob_outbox_id r \<mapsto> (w, now + lf)),
        rp_outbox := AList.update (ob_outbox_id r) (r\<lparr>ob_attempts := ob_attempts r + 1\<rparr>) (rp_outbox rp)\<rparr>"
  have "repo_inv ?rp" using "2.prems" by (elim repo_inv_update) (auto intro: outbox_wf_update')
  then show ?case using "2.IH" "2.prems" by (simp add: Let_def)
qed simp

lemma claim_outbox_loop_le: "repo_le rp0 (snd (claim_outbox_loop rs ty w mx lf now cl rp)) = repo_le rp0 rp"
proof (induction rs ty w mx lf now cl rp rule: claim_outbox_loop.induct)
  case (2 r rs ty w mx lf now cl rp)
  have "repo_le rp0 (rp\<lparr>rp_outbox_claims := x, rp_outbox := y\<rparr>) = repo_le rp0 rp" for x y by (simp add: repo_le_def)
  with 2 show ?case by (simp add: Let_def)
qed simp

lemma drop_outbox_inv: "repo_inv rp \<Longrightarrow> repo_inv (drop_outbox i rp)"
  by (erule repo_inv_update) (simp_all add: drop_outbox_def outbox_wf_delete)

lemma drop_outbox_le [simp]: "repo_le rp0 (drop_outbox i rp) = repo_le rp0 rp"
  by (simp add: repo_le_def drop_outbox_def)

lemma mark_outbox_published_inv: "repo_inv rp \<Longrightarrow> repo_inv (snd (mark_outbox_published i w rp))"
  by (simp add: mark_outbox_published_def drop_outbox_inv)

lemma mark_outbox_published_le: "repo_le rp (snd (mark_outbox_published i w rp))"
  by (simp add: mark_outbox_published_def)

lemma release_outbox_inv: "repo_inv rp \<Longrightarrow> repo_inv (snd (release_outbox i w d now rp))"
  by (auto simp: release_outbox_def elim: repo_inv_update)

lemma release_outbox_le: "repo_le rp (snd (release_outbox i w d now rp))"
  by (simp add: release_outbox_def repo_le_def)

lemma dead_letter_outbox_inv: "repo_inv rp \<Longrightarrow> repo_inv (snd (dead_letter_outbox r w reason rp))"
  by (auto simp: dead_letter_outbox_def intro!: drop_outbox_inv elim: repo_inv_update)

lemma dead_letter_outbox_le: "repo_le rp (snd (dead_letter_outbox r w reason rp))"
  by (simp add: dead_letter_outbox_def drop_outbox_def repo_le_def)

lemma record_delivery_inv: "repo_inv rp \<Longrightarrow> repo_inv (record_delivery d rp)"
  by (auto simp: record_delivery_def elim: repo_inv_update)

lemma record_delivery_le: "repo_le rp (record_delivery d rp)"
  by (simp add: record_delivery_def repo_le_def)

lemma begin_delivery_inv: "repo_inv rp \<Longrightarrow> repo_inv (snd (begin_delivery r w rp))"
  by (auto simp: begin_delivery_def Let_def split: option.splits elim: repo_inv_update)

lemma begin_delivery_le: "repo_le rp (snd (begin_delivery r w rp))"
  by (auto simp: begin_delivery_def Let_def repo_le_def attempts_le_def split: option.splits)

lemma finish_delivery_inv: "repo_inv rp \<Longrightarrow> repo_inv (snd (finish_delivery r w n d rd now rp))"
  by (auto simp: finish_delivery_def Let_def record_delivery_def intro!: drop_outbox_inv elim: repo_inv_update)

lemma finish_delivery_le: "repo_le rp (snd (finish_delivery r w n d rd now rp))"
proof -
  have "attempts_le (rp_delivery_attempts rp) ((rp_delivery_attempts rp)(k \<mapsto> (w, n, s)))"
    if "rp_delivery_attempts rp k = Some (w0, n, ''sending'')" for k s w0
    using that by (auto simp: attempts_le_def)
  then show ?thesis
    by (auto simp: finish_delivery_def Let_def record_delivery_def drop_outbox_def repo_le_def split: option.splits)
qed

subsection \<open>The repository as a state machine\<close>

inductive repo_step :: "runtime_repository \<Rightarrow> runtime_repository \<Rightarrow> bool" where
  rs_add_route: "repo_step rp (add_route route rp)"
| rs_add_config: "repo_step rp (add_config config rp)"
| rs_accept_mailbox: "repo_step rp (snd (accept_mailbox k inbound priority retry_at trace_id now rp))"
| rs_claim_mailbox: "repo_step rp (snd (claim_mailbox k owner lf eg ee acc now rp))"
| rs_claim_session_ready: "repo_step rp (snd (claim_session_ready k owner lf eg ev acc clk rp))"
| rs_renew_mailbox: "repo_step rp (snd (renew_mailbox ml lf now rp))"
| rs_renew_mailboxes: "repo_step rp (snd (renew_mailboxes mls lf now rp))"
| rs_renew_session_ready: "repo_step rp (snd (renew_session_ready sl lf now rp))"
| rs_commit_session_ready: "repo_step rp (snd (commit_session_ready c now rp))"
| rs_retry_session_ready: "repo_step rp (snd (retry_session_ready sl delay clk rp))"
| rs_fail_session_ready: "repo_step rp (snd (fail_session_ready sl now rp))"
| rs_commit_mailbox: "repo_step rp (snd (commit_mailbox ml now rp))"
| rs_reschedule_mailbox: "repo_step rp (snd (reschedule_mailbox ml retry_at p now rp))"
| rs_retry_mailbox: "repo_step rp (snd (retry_mailbox ml retry_at p now rp))"
| rs_recover_mailbox: "repo_step rp (snd (recover_mailbox k now rp))"
| rs_reconcile_mailbox: "repo_step rp (snd (reconcile_mailbox k now rp))"
| rs_sweep: "repo_step rp (snd (sweep_expired_leases_rp limit now rp))"
| rs_schedule: "repo_step rp (snd (schedule_retries_rp limit now rp))"
| rs_reconcile_sessions: "repo_step rp (snd (reconcile_sessions_rp limit now rp))"
| rs_accept_inbound: "repo_step rp (snd (accept_inbound ctx env headers now rp))"
| rs_accept_inbound_v2: "repo_step rp (snd (accept_inbound_v2 ctx env priority retry_at clk rp))"
| rs_acquire: "repo_step rp (snd (acquire a worker lf clk rp))"
| rs_renew_v1: "repo_step rp (snd (renew_v1 sl lf now rp))"
| rs_commit_v1: "repo_step rp (snd (commit_v1 c now rp))"
| rs_fail_v1: "repo_step rp (fail_v1 sl rp)"
| rs_claim_outbox: "repo_step rp (snd (claim_outbox ty owner limit lf now rp))"
| rs_mark_outbox_published: "repo_step rp (snd (mark_outbox_published i owner rp))"
| rs_release_outbox: "repo_step rp (snd (release_outbox i owner delay now rp))"
| rs_record_delivery: "repo_step rp (record_delivery receipt rp)"
| rs_begin_delivery: "repo_step rp (snd (begin_delivery r owner rp))"
| rs_finish_delivery: "repo_step rp (snd (finish_delivery r owner n receipt delay now rp))"
| rs_dead_letter: "repo_step rp (snd (dead_letter_outbox r owner reason rp))"

lemma add_route_inv: "repo_inv rp \<Longrightarrow> repo_inv (add_route route rp)"
  by (erule repo_inv_update) (simp_all add: add_route_def)

lemma add_config_inv: "repo_inv rp \<Longrightarrow> repo_inv (add_config c rp)"
  by (erule repo_inv_update) (simp_all add: add_config_def)

lemma add_le: "repo_le rp (add_route route rp)" "repo_le rp (add_config c rp)"
  by (simp_all add: repo_le_def add_route_def add_config_def)

lemmas wrapper_defs = accept_mailbox_def renew_mailbox_def renew_mailboxes_def commit_mailbox_def
  reschedule_mailbox_def retry_mailbox_def sweep_expired_leases_rp_def schedule_retries_rp_def claim_outbox_def

lemma repo_step_inv: "repo_step rp rp' \<Longrightarrow> repo_inv rp \<Longrightarrow> repo_inv rp'"
  by (induction rule: repo_step.induct)
    (simp_all add: wrapper_defs add_route_inv add_config_inv synced_inv on_mailbox_inv mailbox_ops claim_mailbox_inv
      claim_session_ready_inv renew_session_ready_inv commit_session_ready_inv retry_session_ready_inv
      fail_session_ready_inv recover_mailbox_inv reconcile_mailbox_inv reconcile_sessions_rp_inv accept_inbound_inv
      accept_inbound_v2_inv acquire_inv renew_v1_inv commit_v1_inv fail_v1_inv claim_outbox_loop_inv
      mark_outbox_published_inv release_outbox_inv record_delivery_inv begin_delivery_inv finish_delivery_inv
      dead_letter_outbox_inv)

lemma repo_step_le: "repo_step rp rp' \<Longrightarrow> repo_inv rp \<Longrightarrow> repo_le rp rp'"
  by (induction rule: repo_step.induct)
    (simp_all add: wrapper_defs add_le synced_le on_mailbox_le mailbox_ops claim_mailbox_le
      claim_session_ready_le renew_session_ready_le commit_session_ready_le retry_session_ready_le
      fail_session_ready_le recover_mailbox_le reconcile_mailbox_le reconcile_sessions_rp_le accept_inbound_le
      accept_inbound_v2_le acquire_le renew_v1_le commit_v1_le fail_v1_le claim_outbox_loop_le
      mark_outbox_published_le release_outbox_le record_delivery_le begin_delivery_le finish_delivery_le
      dead_letter_outbox_le)

interpretation repository: state_machine repo_step repo_inv
  by unfold_locales (rule repo_step_inv)

lemma init_repository_inv: "inj uuids \<Longrightarrow> repo_inv (init_repository uuids)"
  using init_mailbox_store_inv [of uuids]
  by (simp add: repo_inv_def init_repository_def ids_wf_def sessions_wf_def registry_wf_def outbox_wf_def)
    (simp add: init_mailbox_store_def)

lemma reachable_repo_le:
  assumes "reachable_from repo_step rp rp'" and "repo_inv rp"
  shows "repo_le rp rp'"
  using assms
proof (induction rule: reachable_from.induct)
  case (there s t)
  then show ?case by (blast intro: repo_le_trans repo_step_le repository.reachable_inv)
qed simp

end
