(* ===== verification/Repository_Props.thy ===== *)
theory Repository_Props
  imports Repository_Inv Mailbox_Props
begin

text \<open>
  What the in-memory runtime repository promises to its clients: the properties of acceptance, of session
  claims and commits, of the outbox and of deliveries, each with a concrete history on which it applies.
\<close>

subsection \<open>What a session-ready commit does\<close>

lemma enumerate_event_ids: "map se_event_id (enumerate_events n es) = map se_event_id es"
  by (induction es arbitrary: n) auto

lemma mailbox_lease_for_Inr:
  "mailbox_lease_for m lease = Inr l \<longleftrightarrow>
     (\<exists>n. mb_processing_sequence m = Some n \<and> l = mailbox_lease_of m lease n)
   \<and> mb_status m = RUNNING \<and> mb_processing_inbound_id m = Some (sl_inbound_id lease)
   \<and> mb_lease_owner m = Some (sl_worker_id lease) \<and> mb_lease_epoch m = sl_fencing_token lease"
  by (auto simp: mailbox_lease_for_def split: option.splits if_splits)

lemma mailbox_lease_of_fields [simp]:
  "ml_tenant_id (mailbox_lease_of m lease n) = sl_tenant_id lease"
  "ml_session_id (mailbox_lease_of m lease n) = sl_session_id lease"
  "ml_inbound_id (mailbox_lease_of m lease n) = sl_inbound_id lease"
  "ml_epoch (mailbox_lease_of m lease n) = sl_fencing_token lease"
  "ml_owner_id (mailbox_lease_of m lease n) = sl_worker_id lease"
  "ml_sequence (mailbox_lease_of m lease n) = n"
  by (simp_all add: mailbox_lease_of_def)

lemma commit_base_mailbox [simp]:
  "ms_get k (rp_mailbox (commit_base c rp)) = ms_get k (rp_mailbox rp)"
  by (simp add: commit_base_def)

lemma commit_applied_outbox:
  "tu_outbound c = Some e \<Longrightarrow>
   map_of (rp_outbox (commit_applied c s ms rp)) (ms_uuid (rp_mailbox rp) (ms_uuids_drawn (rp_mailbox rp))) =
     Some (outbound_ready_record (ms_uuid (rp_mailbox rp) (ms_uuids_drawn (rp_mailbox rp))) (sl_tenant_id (tu_lease c)) e)"
  by (simp add: commit_applied_def Let_def commit_outbound_def)

text \<open>
  C9. A session-ready commit is all or nothing. If it raises, the repository is unchanged (a freshly drawn
  random id apart). If it returns, then at once the snapshot has the next version, the new state and the
  turn's events appended under contiguous sequence numbers, the caller held the mailbox lease of exactly
  this message and epoch, exactly one more message of the session is resolved, the message is recorded as
  committed, the session lease is gone, the reply (if any) is in the outbox, and no other session
  changed.
\<close>

theorem commit_session_ready_atomic:
  assumes "repo_inv rp" and "commit_session_ready c now rp = (res, rp')" and "k = sl_key (tu_lease c)"
  shows "case res of
      Inl e \<Rightarrow> rp' = rp \<or> rp' = rp\<lparr>rp_mailbox := (rp_mailbox rp)\<lparr>ms_uuids_drawn := Suc (ms_uuids_drawn (rp_mailbox rp))\<rparr>\<rparr>
    | Inr r \<Rightarrow>
        \<exists>s s' l. rp_sessions rp k = Some s \<and> rp_sessions rp' k = Some s'
          \<and> ss_version s' = ss_version s + 1 \<and> ss_state s' = tu_state c
          \<and> map se_event_id (ss_events s') = map se_event_id (ss_events s) @ map se_event_id (tu_events c)
          \<and> map se_sequence (ss_events s') = [1..<ss_next_sequence s']
          \<and> ml_key l = k \<and> ml_epoch l = sl_fencing_token (tu_lease c) \<and> ml_inbound_id l = sl_inbound_id (tu_lease c)
          \<and> lease_held (rp_mailbox rp) l now
          \<and> resolved_count (rp_mailbox rp') k = resolved_count (rp_mailbox rp) k + 1
          \<and> (fst k, sl_inbound_id (tu_lease c)) \<in> rp_committed_inbound rp' \<and> rp_leases rp' k = None
          \<and> (\<forall>e. tu_outbound c = Some e \<longrightarrow> (\<exists>i. map_of (rp_outbox rp') i = Some (outbound_ready_record i (fst k) e)))
          \<and> (\<forall>k'. k' \<noteq> k \<longrightarrow> rp_sessions rp' k' = rp_sessions rp k' \<and> rp_leases rp' k' = rp_leases rp k')"
  using assms(2)
proof (cases rule: commit_session_ready_cases)
  case (raised e)
  then show ?thesis by (auto simp: commit_base_def draw_def)
next
  case (committed m l m' ms s)
  have i: "store_inv (rp_mailbox (commit_base c rp))" using repo_inv_store [OF commit_base_inv [OF assms(1)]] .
  note lf = committed(3) [unfolded mailbox_lease_for_Inr]
  have lk: "ml_key l = k" "ml_epoch l = sl_fencing_token (tu_lease c)" "ml_inbound_id l = sl_inbound_id (tu_lease c)"
    using lf assms(3) by auto
  obtain m0 where m0: "ms_get k (rp_mailbox rp) = Some m0" "owns (Some m0) l now" "ms_get k ms = Some m'"
    "mb_resolved_sequence m' = mb_resolved_sequence m0 + 1"
    by (rule commit_granted [OF i committed(5)]) (use lk(1) in simp)
  have "snapshot_wf k (apply_turn c s)"
    using repo_inv_sessions [OF assms(1)] committed(4) assms(3) by (auto intro: snapshot_wf_apply_turn dest: sessions_wfD)
  then have w: "map se_sequence (ss_events (apply_turn c s)) = [1..<ss_next_sequence (apply_turn c s)]"
    by (simp add: snapshot_wf_def)
  have o: "\<exists>i. map_of (rp_outbox rp') i = Some (outbound_ready_record i (fst k) e)" if "tu_outbound c = Some e" for e
    using commit_applied_outbox [OF that, of s ms rp] committed(7) assms(3) by (metis fst_conv)
  have h: "lease_held (rp_mailbox rp) l now" "resolved_count ms k = resolved_count (rp_mailbox rp) k + 1"
    using m0 lk(1) by (simp_all add: lease_held_def resolved_count_get)
  show ?thesis
    using committed(4,6,7) assms(3) lk w o h
    by (auto simp: apply_turn_fields enumerate_event_ids intro!: exI [of _ l])
qed auto

subsection \<open>A concrete history\<close>

definition demo_uuids :: "nat \<Rightarrow> string" where "demo_uuids n = replicate (Suc n) CHR ''u''"

definition demo_context :: tenant_context where
  "demo_context = \<lparr>tc_tenant_id = ''tenant'', tc_app_id = ''app'', tc_config_version = 1, tc_channel_binding_id = ''b'',
     tc_principal_id = ''p'', tc_session_id = ''session'', tc_request_id = ''r'', tc_trace_id = ''trace''\<rparr>"

definition demo_envelope :: "string \<Rightarrow> inbound_envelope" where
  "demo_envelope i = \<lparr>ie_channel = FEISHU, ie_account_id = ''acc'', ie_external_message_id = i, ie_external_user_id = ''u'',
     ie_conversation_kind = DIRECT, ie_external_conversation_id = None, ie_payload_kind = TEXT, ie_text = Some ''hi'',
     ie_media = [], ie_event_type = None, ie_occurred_at = 0, ie_provider_metadata = []\<rparr>"

definition demo_outbound :: outbound_envelope where
  "demo_outbound = \<lparr>oe_outbound_id = ''out'', oe_tenant_id = ''tenant'', oe_binding_id = ''b'', oe_channel = FEISHU,
     oe_target_id = ''u'', oe_session_id = ''session'', oe_payload_kind = TEXT, oe_text = Some ''yo'', oe_media = [],
     oe_in_reply_to = None, oe_trace_headers = []\<rparr>"

definition demo_event :: stored_event where
  "demo_event = \<lparr>se_event_id = ''e1'', se_author = ''bot'', se_timestamp = 0, se_event = [], se_state_delta = []\<rparr>"

definition demo_repo0 :: runtime_repository where
  "demo_repo0 = init_repository demo_uuids"

definition demo_repo1 :: runtime_repository where
  "demo_repo1 = snd (accept_inbound_v2 demo_context (demo_envelope ''x1'') 0 None (\<lambda>_. 10) demo_repo0)"

definition demo_repo2 :: runtime_repository where
  "demo_repo2 = snd (accept_inbound_v2 demo_context (demo_envelope ''x2'') 0 None (\<lambda>_. 20) demo_repo1)"

definition demo_ready :: "(session_claim, runtime_repository) outcome" where
  "demo_ready = claim_session_ready demo_key ''w1'' 100 (Some 1) None None (\<lambda>_. 30) demo_repo2"

definition demo_turn :: turn_commit where
  "demo_turn = \<lparr>tu_context = demo_context, tu_lease = the (sc_execution_lease (projr (fst demo_ready))), tu_state = [],
     tu_events = [demo_event], tu_outbound = Some demo_outbound\<rparr>"

definition demo_done :: "(commit_result, runtime_repository) outcome" where
  "demo_done = commit_session_ready demo_turn 60 (snd demo_ready)"

lemma inj_demo_uuids: "inj demo_uuids"
  by (rule injI) (simp add: demo_uuids_def)

lemma demo_repo_reachable:
  "reachable_from repo_step demo_repo0 demo_repo1"
  "reachable_from repo_step demo_repo0 demo_repo2"
  "reachable_from repo_step demo_repo0 (snd demo_ready)"
  "reachable_from repo_step (snd demo_ready) (snd demo_done)"
  unfolding demo_done_def demo_ready_def demo_repo2_def demo_repo1_def
  by (meson repo_step.intros reachable_from.intros)+

lemma demo_repo_inv: "repo_inv demo_repo0" "repo_inv demo_repo1" "repo_inv demo_repo2" "repo_inv (snd demo_ready)" "repo_inv (snd demo_done)"
proof -
  show 0: "repo_inv demo_repo0" unfolding demo_repo0_def by (rule init_repository_inv [OF inj_demo_uuids])
  show "repo_inv demo_repo1" "repo_inv demo_repo2" and 4: "repo_inv (snd demo_ready)"
    using repository.reachable_inv [OF _ 0] demo_repo_reachable by blast+
  show "repo_inv (snd demo_done)" using repository.reachable_inv [OF demo_repo_reachable(4) 4] .
qed

lemma demo_repo_eval:
  "isl (fst demo_ready) = False" "sc_status (projr (fst demo_ready)) = CLAIMED"
  "sc_execution_lease (projr (fst demo_ready)) \<noteq> None"
  "isl (fst demo_done) = False" "cr_first_sequence (projr (fst demo_done)) = Some 1"
  by code_simp+

text \<open>
  C17. In every state the in-memory runtime repository can reach from its constructor by any
  sequence of its operations, its registries are well formed. The embedded mailbox store satisfies its
  own invariant, and its wake-ups have distinct ids that were drawn from the supply. The two acceptance registries agree:
  every acceptance is stored under its message key and under its own drawn id, is not marked as a duplicate and has an admission
  number, admission numbers are distinct and below the next one. The event sequences of a session snapshot are
  1, 2, ... without a gap. Every record of the runtime outbox is stored once, under its own id.
\<close>

theorem repository_invariant:
  assumes "inj uuids" and "reachable_from repo_step (init_repository uuids) rp"
  shows "repo_inv rp"
  using repository.reachable_inv [OF assms(2) init_repository_inv [OF assms(1)]] .

theorem repository_invariant_witness:
  "inj demo_uuids \<and> reachable_from repo_step (init_repository demo_uuids) (snd demo_ready) \<and> repo_inv (snd demo_ready)"
  using repository_invariant [OF inj_demo_uuids demo_repo_reachable(3) [unfolded demo_repo0_def]]
    demo_repo_reachable(3) inj_demo_uuids by (simp add: demo_repo0_def)

lemma accept_v2_registers:
  assumes "accept_inbound_v2 c e p r clk rp = (Inr a, rp')" and "repo_inv rp"
  shows "\<exists>b. rp_acceptances rp' (inbound_key c e) = Some b \<and> ac_inbound_id b = ac_inbound_id a
     \<and> a = (if rp_acceptances rp (inbound_key c e) = None then b else b\<lparr>ac_duplicate := True\<rparr>)"
proof (cases "rp_acceptances rp (inbound_key c e)")
  case None
  obtain b rp1 where reg: "register_acceptance c e (clk 0) rp = (b, rp1)" by fastforce
  have "a = b" "rp_acceptances rp' = rp_acceptances rp1"
    using assms(1) None reg
    by (auto simp: accept_inbound_v2_def Let_def on_mailbox_eq split: sum.splits)
  moreover have "rp_acceptances rp1 (inbound_key c e) = Some b"
    using reg by (auto simp: register_acceptance_eq Let_def)
  ultimately show ?thesis using None by simp
qed (use assms in \<open>auto simp: accept_inbound_v2_def\<close>)

lemma accept_v1_registers:
  assumes "accept_inbound c e headers now rp = (a, rp')"
  shows "\<exists>b. rp_acceptances rp' (inbound_key c e) = Some b \<and> ac_inbound_id b = ac_inbound_id a"
proof (cases "rp_acceptances rp (inbound_key c e)")
  case None
  obtain b rp1 where reg: "register_acceptance c e now rp = (b, rp1)" by fastforce
  have "rp_acceptances rp1 (inbound_key c e) = Some b"
    using reg by (auto simp: register_acceptance_eq Let_def)
  then show ?thesis using assms None reg by (auto simp: accept_inbound_def Let_def draw_uuid_def on_mailbox_eq split_beta)
qed (use assms in \<open>auto simp: accept_inbound_def\<close>)

text \<open>
  C33. Duplicate suppression across both protocols. Once a provider message (tenant, binding and external
  message id) was accepted, through either acceptance path, every later delivery of it, through either
  acceptance path and in every later state, returns the id of the first acceptance marked as a duplicate and changes nothing.
\<close>

theorem inbound_accepted_once:
  assumes "repo_inv rp"
    and "accept_inbound_v2 c e p r clk rp = (Inr a, rp1) \<or> accept_inbound c e headers now rp = (a, rp1)"
    and "reachable_from repo_step rp1 rp2"
    and "inbound_key c' e' = inbound_key c e"
  shows "\<exists>b. ac_inbound_id b = ac_inbound_id a \<and> ac_duplicate b
       \<and> accept_inbound_v2 c' e' p' r' clk' rp2 = (Inr b, rp2) \<and> accept_inbound c' e' headers' now' rp2 = (b, rp2)"
proof -
  obtain b where b: "rp_acceptances rp1 (inbound_key c e) = Some b" "ac_inbound_id b = ac_inbound_id a"
    using assms(2) accept_v2_registers [OF _ assms(1), of c e p r clk a rp1] accept_v1_registers [of c e headers now rp a rp1] by blast
  have "repo_inv rp1"
    using accept_inbound_v2_inv [OF assms(1), of c e p r clk] accept_inbound_inv [OF assms(1), of c e headers now] assms(2) by auto
  then have "rp_acceptances rp1 \<subseteq>\<^sub>m rp_acceptances rp2"
    using reachable_repo_le [OF assms(3)] by (simp add: repo_le_def)
  then have "rp_acceptances rp2 (inbound_key c' e') = Some b"
    using b(1) assms(4) by (metis domI map_le_def)
  then show ?thesis using b(2) by (intro exI [of _ "b\<lparr>ac_duplicate := True\<rparr>"]) (simp add: accept_inbound_v2_def accept_inbound_def)
qed

theorem inbound_accepted_once_witness:
  "(\<exists>b. ac_duplicate b \<and> accept_inbound demo_context (demo_envelope ''x1'') [] 99 (snd demo_ready) = (b, snd demo_ready))
   \<and> (\<exists>b. ac_duplicate b \<and> ac_inbound_id b = ac_inbound_id (fst (accept_inbound demo_context (demo_envelope ''x7'') [] 5 demo_repo0))
        \<and> accept_inbound_v2 demo_context (demo_envelope ''x7'') 0 None (\<lambda>_. 9) (snd (accept_inbound demo_context (demo_envelope ''x7'') [] 5 demo_repo0))
          = (Inr b, snd (accept_inbound demo_context (demo_envelope ''x7'') [] 5 demo_repo0)))"
proof -
  let ?a = "accept_inbound_v2 demo_context (demo_envelope ''x1'') 0 None (\<lambda>_. 10) demo_repo0"
  let ?v = "accept_inbound demo_context (demo_envelope ''x7'') [] 5 demo_repo0"
  have "isl (fst ?a) = False" by code_simp
  then have a: "?a = (Inr (projr (fst ?a)), demo_repo1)" by (simp add: prod_eq_iff demo_repo1_def)
  have r: "reachable_from repo_step demo_repo1 (snd demo_ready)"
    unfolding demo_ready_def demo_repo2_def by (meson repo_step.intros reachable_from.intros)
  note x = inbound_accepted_once [OF demo_repo_inv(1) disjI1 [OF a] r refl, where p' = 0 and r' = None and clk' = "\<lambda>_. 0"
      and headers' = "[]" and now' = 99]
  have v: "?v = (fst ?v, snd ?v)" by simp
  note y = inbound_accepted_once [OF demo_repo_inv(1) disjI2 [OF v] reachable_from.here refl, where p' = 0 and r' = None
      and clk' = "\<lambda>_. 9" and headers' = "[]" and now' = 0]
  from x y show ?thesis by blast
qed

lemma claim_session_claimed:
  assumes "claim_session k owner lf eg None acc now st = (Inr c, st')" and "sc_claimed c" and "sc_lease c = Some l"
  shows "claim k owner lf now st = (Inr (Some l), st')"
    and "eg \<noteq> None \<Longrightarrow> eg = Some (int (mb_queue_generation (the (ms_get k st))))"
    and "sc_execution_lease c = None"
proof -
  obtain res st1 where cl: "claim k owner lf now st = (res, st1)" by fastforce
  have r: "res = Inr (Some l)" "st1 = st'" "sc_execution_lease c = None"
    using assms cl by (auto simp: claim_session_def Let_def sc_claimed_def split: sum.splits if_splits)
  then show c: "claim k owner lf now st = (Inr (Some l), st')" "sc_execution_lease c = None" using cl by auto
  show "eg \<noteq> None \<Longrightarrow> eg = Some (int (mb_queue_generation (the (ms_get k st))))"
    using assms claim_some_exists [OF c(1)] by (auto simp: claim_session_def Let_def sc_claimed_def split: if_splits)
qed

lemma claim_session_execution: "claim_session k owner lf eg ee acc now st = (Inr c, st') \<Longrightarrow> sc_execution_lease c = None"
  by (auto simp: claim_session_def Let_def split: sum.splits if_splits prod.splits)

lemma claim_session_ready_executes:
  assumes "claim_session_ready k owner lf eg ev acc clk rp = (Inr c, rp')" and "sc_execution_lease c = Some sl"
  obtains g l a ms where "wakeup_generation k ev eg (rp_mailbox rp) = Some g" and "\<not> session_lease_live k (clk 1) rp"
    and "claim k owner lf (clk 2) (rp_mailbox rp) = (Inr (Some l), ms)"
    and "g \<noteq> None \<Longrightarrow> g = Some (int (mb_queue_generation (the (ms_get k (rp_mailbox rp)))))"
    and "\<not> already_committed (fst k, ml_inbound_id l) rp"
    and "map_of (rp_acceptances_by_id rp) (ml_inbound_id l) = Some a"
    and "materialize_new k owner l a (rp\<lparr>rp_mailbox := ms\<rparr>) = (sl, rp')" and "sc_lease c = Some l" and "sc_acceptance c = Some a"
proof -
  obtain g where g: "wakeup_generation k ev eg (rp_mailbox rp) = Some g" "\<not> session_lease_live k (clk 1) rp"
    using assms by (auto simp: claim_session_ready_def Let_def split: option.splits if_splits)
  obtain res ms where cs: "claim_session k owner lf g None acc (clk 2) (rp_mailbox rp) = (res, ms)" by fastforce
  obtain c0 where c0: "res = Inr c0"
    using assms(1) g cs by (cases res) (auto simp: claim_session_ready_def Let_def claim_mailbox_def on_mailbox_eq)
  have x: "sc_execution_lease c0 = None" using claim_session_execution cs c0 by blast
  obtain l where l: "sc_claimed c0" "sc_lease c0 = Some l"
      and mc: "materialize_claim k owner c0 l (clk 3) (rp\<lparr>rp_mailbox := ms\<rparr>) = (Inr c, rp')"
    using assms g cs c0 x
    by (auto simp: claim_session_ready_def Let_def claim_mailbox_def on_mailbox_eq split: if_splits option.splits)
  obtain a where a: "map_of (rp_acceptances_by_id rp) (ml_inbound_id l) = Some a"
    "\<not> already_committed (fst k, ml_inbound_id l) rp"
    "materialize_new k owner l a (rp\<lparr>rp_mailbox := ms\<rparr>) = (sl, rp')" "sc_lease c = sc_lease c0" "sc_acceptance c = Some a"
    using mc assms(2) x
    by (auto simp: materialize_claim_eq already_committed_def split: option.splits if_splits prod.splits sum.splits)
  note cc = claim_session_claimed [OF cs [unfolded c0] l]
  show thesis by (rule that [OF g cc(1,2) a(2,1,3)]) (use a(4,5) l(2) in simp_all)
qed

text \<open>
  C15. No message runs twice after its commit: once a message is recorded as committed, no execution lease
  of any later session claim, by any worker at any time, is for that message.
\<close>

theorem committed_inbound_never_runs_again:
  assumes "repo_inv rp" and "(t, i) \<in> rp_committed_inbound rp" and "reachable_from repo_step rp rp'"
    and "claim_session_ready (t, s) owner lf eg ev acc clk rp' = (Inr c, rp2)" and "sc_execution_lease c = Some sl"
  shows "sl_inbound_id sl \<noteq> i"
proof -
  have "(t, i) \<in> rp_committed_inbound rp'" using reachable_repo_le [OF assms(3,1)] assms(2) by (auto simp: repo_le_def)
  moreover obtain l a ms where "\<not> already_committed (t, ml_inbound_id l) rp'"
      and "materialize_new (t, s) owner l a (rp'\<lparr>rp_mailbox := ms\<rparr>) = (sl, rp2)"
    by (rule claim_session_ready_executes [OF assms(4,5)]) simp
  moreover from this(2) have "sl_inbound_id sl = ml_inbound_id l" by (auto simp: materialize_new_def Let_def)
  ultimately show ?thesis by (auto simp: already_committed_def)
qed

text \<open>
  C16. An execution lease is handed out only to one worker and, for a wake-up, only if the wake-up is current. When a claim
  returns an execution lease, no session lease and no mailbox lease of the session was live, and the new session lease and the
  new mailbox lease name the same session, message, epoch and owner and are valid until the same time. If the claim
  names a wake-up event, that event is a stored wake-up of this session and of the current queue generation; if it
  names no event but a generation, that generation is the current one.
\<close>

theorem claim_session_ready_is_exclusive:
  assumes "repo_inv rp" and "claim_session_ready k owner lf eg ev acc clk rp = (Inr c, rp')"
    and "sc_execution_lease c = Some sl"
  shows "\<not> session_lease_live k (clk 1) rp
       \<and> (\<forall>event_id. ev = Some event_id \<longrightarrow>
            (\<exists>r g. r \<in> set (ms_outbox (rp_mailbox rp)) \<and> ob_outbox_id r = event_id \<and> ready_record_for k r
               \<and> map_of (ob_payload r) ''generation'' = Some (JInt (int g))
               \<and> (\<exists>m. ms_get k (rp_mailbox rp) = Some m \<and> mb_queue_generation m = g)))
       \<and> (\<forall>g. ev = None \<longrightarrow> eg = Some g \<longrightarrow>
            (\<exists>m. ms_get k (rp_mailbox rp) = Some m \<and> g = int (mb_queue_generation m)))
       \<and> (\<forall>l t. ml_key l = k \<longrightarrow> clk 2 \<le> t \<longrightarrow> \<not> lease_held (rp_mailbox rp) l t)
       \<and> rp_leases rp' k = Some sl \<and> sl_key sl = k \<and> sl_worker_id sl = owner
       \<and> (\<exists>l. sc_lease c = Some l \<and> ml_key l = k \<and> ml_epoch l = sl_fencing_token sl \<and> ml_inbound_id l = sl_inbound_id sl
            \<and> (\<forall>t < sl_expires_at sl. lease_held (rp_mailbox rp') l t))
       \<and> (\<exists>a. sc_acceptance c = Some a \<and> ac_inbound_id a = sl_inbound_id sl)"
proof -
  obtain g l a ms where x: "wakeup_generation k ev eg (rp_mailbox rp) = Some g" "\<not> session_lease_live k (clk 1) rp"
    "claim k owner lf (clk 2) (rp_mailbox rp) = (Inr (Some l), ms)"
    "g \<noteq> None \<Longrightarrow> g = Some (int (mb_queue_generation (the (ms_get k (rp_mailbox rp)))))"
    "map_of (rp_acceptances_by_id rp) (ml_inbound_id l) = Some a"
    "materialize_new k owner l a (rp\<lparr>rp_mailbox := ms\<rparr>) = (sl, rp')" "sc_lease c = Some l" "sc_acceptance c = Some a"
    by (rule claim_session_ready_executes [OF assms(2,3)]) simp
  obtain m where m: "ms_get k (rp_mailbox rp) = Some m" using claim_some_exists [OF x(3)] by blast
  have gen: "g = int (mb_queue_generation m)" if "ev = None" "eg = Some g" for g
    using x(1,4) m that by (auto simp: wakeup_generation_def)
  have ev: "\<exists>r. r \<in> set (ms_outbox (rp_mailbox rp)) \<and> ob_outbox_id r = event_id \<and> ready_record_for k r
            \<and> map_of (ob_payload r) ''generation'' = Some (JInt (int (mb_queue_generation m)))"
    if "ev = Some event_id" for event_id
    using x(1,4) m that by (auto simp: wakeup_generation_def ready_event_generation_def ready_record_for_def find_Some_iff
        split: option.splits if_splits jval.splits) (metis nth_mem)+
  obtain mg it where gr: "ms_get k (rp_mailbox rp) = Some mg" "\<not> later_than (mb_lease_expires_at mg) (clk 2)"
    "grant_claim k owner lf (clk 2) mg (mb_resolved_sequence mg + 1) it (rp_mailbox rp) = (Inr (Some l), ms)"
    using claim_granted [OF repo_inv_store [OF assms(1)] x(3)] by metis
  note r = grant_claim_result [OF gr(3)]
  have ns: "\<not> lease_held (rp_mailbox rp) l' t" if "ml_key l' = k" "clk 2 \<le> t" for l' t
    using that gr(1,2) by (auto simp: lease_held_def owns_def later_than_iff)
  have sl: "rp_leases rp' k = Some sl" "sl_key sl = k" "sl_worker_id sl = owner" "ml_epoch l = sl_fencing_token sl"
    "ml_inbound_id l = sl_inbound_id sl" "sl_expires_at sl = ml_expires_at l" "ms_get k (rp_mailbox rp') = ms_get k ms"
    using x(6) by (auto simp: materialize_new_def Let_def)
  have "ac_inbound_id a = sl_inbound_id sl"
    using registry_wfD(3) [OF _ x(5)] assms(1) sl(5) by (simp add: repo_inv_def)
  moreover have "lease_held (rp_mailbox rp') l t" if "t < sl_expires_at sl" for t
    using r(1,6) r(8) [of t] that sl(6,7) by (simp add: lease_held_def)
  ultimately show ?thesis using x(2,7,8) ev gen m ns sl r(1) by auto
qed

lemma claim_loop_keeps: "set cl \<subseteq> set (fst (claim_outbox_loop rs ty w mx lf now cl rp))"
  by (induction rs ty w mx lf now cl rp rule: claim_outbox_loop.induct) (auto simp: Let_def)

lemma claim_loop_frame:
  "i \<notin> ob_outbox_id ` set rs \<Longrightarrow>
     rp_outbox_claims (snd (claim_outbox_loop rs ty w mx lf now cl rp)) i = rp_outbox_claims rp i
   \<and> map_of (rp_outbox (snd (claim_outbox_loop rs ty w mx lf now cl rp))) i = map_of (rp_outbox rp) i"
  by (induction rs ty w mx lf now cl rp rule: claim_outbox_loop.induct) (auto simp: Let_def)

lemma claim_loop_unclaimed:
  "i \<notin> ob_outbox_id ` set (fst (claim_outbox_loop rs ty w mx lf now cl rp)) \<Longrightarrow>
     rp_outbox_claims (snd (claim_outbox_loop rs ty w mx lf now cl rp)) i = rp_outbox_claims rp i
   \<and> map_of (rp_outbox (snd (claim_outbox_loop rs ty w mx lf now cl rp))) i = map_of (rp_outbox rp) i"
proof (induction rs ty w mx lf now cl rp rule: claim_outbox_loop.induct)
  case (2 r rs ty w mx lf now cl rp)
  let ?skip = "ob_event_type r \<noteq> ty \<or> (case rp_outbox_claims rp (ob_outbox_id r) of None \<Rightarrow> False | Some (_, t) \<Rightarrow> now < t)"
  let ?r = "r\<lparr>ob_attempts := ob_attempts r + 1\<rparr>"
  let ?rp = "rp\<lparr>rp_outbox_claims := (rp_outbox_claims rp)(ob_outbox_id r \<mapsto> (w, now + lf)),
        rp_outbox := AList.update (ob_outbox_id r) ?r (rp_outbox rp)\<rparr>"
  show ?case
  proof (cases ?skip)
    case True
    then show ?thesis using 2 by simp
  next
    case False
    show ?thesis
    proof (cases "mx \<le> int (length (cl @ [?r]))")
      case True
      then show ?thesis using False "2.prems" by (auto simp: Let_def)
    next
      case more: False
      have e: "claim_outbox_loop (r # rs) ty w mx lf now cl rp = claim_outbox_loop rs ty w mx lf now (cl @ [?r]) ?rp"
        using False more by (auto simp: Let_def)
      have "ob_outbox_id r \<in> ob_outbox_id ` set (fst (claim_outbox_loop rs ty w mx lf now (cl @ [?r]) ?rp))"
        using claim_loop_keeps [of "cl @ [?r]" rs ty w mx lf now ?rp] by (intro image_eqI [where x = ?r]) auto
      then have "i \<noteq> ob_outbox_id r" using "2.prems" e by auto
      then show ?thesis using "2.IH"(2) [OF False refl refl refl more] "2.prems" unfolding e by auto
    qed
  qed
qed simp

lemma claim_loop_count:
  "int (length (fst (claim_outbox_loop rs ty w mx lf now cl rp))) \<le> max mx (int (length cl) + 1)"
  by (induction rs ty w mx lf now cl rp rule: claim_outbox_loop.induct) (auto simp: Let_def)

definition outbox_claimable :: "string \<Rightarrow> time \<Rightarrow> outbox_record \<Rightarrow> runtime_repository \<Rightarrow> bool" where
  "outbox_claimable ty now r rp \<longleftrightarrow> ob_event_type r = ty
     \<and> (case rp_outbox_claims rp (ob_outbox_id r) of None \<Rightarrow> True | Some (_, t) \<Rightarrow> t \<le> now)"

lemma claim_loop_new:
  assumes "r' \<in> set (fst (claim_outbox_loop rs ty w mx lf now cl rp))" and "distinct (map ob_outbox_id rs)" and "r' \<notin> set cl"
  shows "\<exists>r \<in> set rs. r' = r\<lparr>ob_attempts := ob_attempts r + 1\<rparr> \<and> outbox_claimable ty now r rp
     \<and> rp_outbox_claims (snd (claim_outbox_loop rs ty w mx lf now cl rp)) (ob_outbox_id r) = Some (w, now + lf)
     \<and> map_of (rp_outbox (snd (claim_outbox_loop rs ty w mx lf now cl rp))) (ob_outbox_id r) = Some r'"
  using assms
proof (induction rs ty w mx lf now cl rp rule: claim_outbox_loop.induct)
  case (2 r rs ty w mx lf now cl rp)
  let ?skip = "ob_event_type r \<noteq> ty \<or> (case rp_outbox_claims rp (ob_outbox_id r) of None \<Rightarrow> False | Some (_, t) \<Rightarrow> now < t)"
  let ?r = "r\<lparr>ob_attempts := ob_attempts r + 1\<rparr>"
  let ?rp = "rp\<lparr>rp_outbox_claims := (rp_outbox_claims rp)(ob_outbox_id r \<mapsto> (w, now + lf)),
        rp_outbox := AList.update (ob_outbox_id r) ?r (rp_outbox rp)\<rparr>"
  have d: "ob_outbox_id r \<notin> ob_outbox_id ` set rs" "distinct (map ob_outbox_id rs)" using "2.prems"(2) by auto
  show ?case
  proof (cases ?skip)
    case True
    have i: "r' \<in> set (fst (claim_outbox_loop rs ty w mx lf now cl rp))" using "2.prems"(1) True by simp
    from True have e: "claim_outbox_loop (r # rs) ty w mx lf now cl rp = claim_outbox_loop rs ty w mx lf now cl rp"
      by (simp only: claim_outbox_loop.simps if_True)
    show ?thesis unfolding e using "2.IH"(1) [OF True i d(2) "2.prems"(3)] by auto
  next
    case skip: False
    then have c: "outbox_claimable ty now r rp" by (auto simp: outbox_claimable_def split: option.splits)
    show ?thesis
    proof (cases "mx \<le> int (length (cl @ [?r]))")
      case True
      then have e: "claim_outbox_loop (r # rs) ty w mx lf now cl rp = (cl @ [?r], ?rp)" using skip by (auto simp: Let_def)
      then show ?thesis using "2.prems" c by auto
    next
      case False
      then have e: "claim_outbox_loop (r # rs) ty w mx lf now cl rp = claim_outbox_loop rs ty w mx lf now (cl @ [?r]) ?rp"
        using skip by (auto simp: Let_def)
      show ?thesis
      proof (cases "r' = ?r")
        case True
        then show ?thesis unfolding e using claim_loop_frame [OF d(1), of ty w mx lf now "cl @ [?r]" ?rp] c by auto
      next
        case neq: False
        have "\<exists>x \<in> set rs. r' = x\<lparr>ob_attempts := ob_attempts x + 1\<rparr> \<and> outbox_claimable ty now x ?rp
            \<and> rp_outbox_claims (snd (claim_outbox_loop rs ty w mx lf now (cl @ [?r]) ?rp)) (ob_outbox_id x) = Some (w, now + lf)
            \<and> map_of (rp_outbox (snd (claim_outbox_loop rs ty w mx lf now (cl @ [?r]) ?rp))) (ob_outbox_id x) = Some r'"
          using "2.IH"(2) [OF skip refl refl refl False _ d(2)] "2.prems"(1,3) neq unfolding e by auto
        moreover have "outbox_claimable ty now x ?rp = outbox_claimable ty now x rp" if "x \<in> set rs" for x
        proof -
          have "ob_outbox_id x \<noteq> ob_outbox_id r" using d(1) that by (metis imageI)
          then show ?thesis by (simp add: outbox_claimable_def)
        qed
        ultimately show ?thesis unfolding e by auto
      qed
    qed
  qed
qed simp

text \<open>
  Claiming outbox records for dispatch: at most the requested number is returned (at least one is
  allowed), each is a stored record of the requested type whose earlier claim, if any, had expired, each is
  now claimed by the caller until the lease time and counts one more attempt, and no other record or claim
  changed.
\<close>

theorem claim_outbox_is_exclusive:
  assumes "repo_inv rp" and "claim_outbox ty w limit lf now rp = (rs, rp')"
  shows "int (length rs) \<le> max 1 limit
       \<and> (\<forall>r' \<in> set rs. \<exists>r. map_of (rp_outbox rp) (ob_outbox_id r') = Some r \<and> r' = r\<lparr>ob_attempts := ob_attempts r + 1\<rparr>
            \<and> ob_event_type r = ty
            \<and> (\<forall>w' t. rp_outbox_claims rp (ob_outbox_id r') = Some (w', t) \<longrightarrow> t \<le> now)
            \<and> rp_outbox_claims rp' (ob_outbox_id r') = Some (w, now + lf)
            \<and> map_of (rp_outbox rp') (ob_outbox_id r') = Some r')
       \<and> (\<forall>i. i \<notin> ob_outbox_id ` set rs \<longrightarrow> rp_outbox_claims rp' i = rp_outbox_claims rp i
            \<and> map_of (rp_outbox rp') i = map_of (rp_outbox rp) i)"
proof -
  let ?rs = "map snd (rp_outbox rp)"
  have w: "distinct (map fst (rp_outbox rp))" "\<And>i r. map_of (rp_outbox rp) i = Some r \<Longrightarrow> ob_outbox_id r = i"
    using repo_inv_outboxD [OF assms(1)] by (auto simp: outbox_wf_def)
  have k: "ob_outbox_id (snd x) = fst x" if "x \<in> set (rp_outbox rp)" for x
    using w(2) [of "fst x" "snd x"] that map_of_is_SomeI [OF w(1), of "fst x" "snd x"] by simp
  then have "map ob_outbox_id ?rs = map fst (rp_outbox rp)" by simp
  then have d: "distinct (map ob_outbox_id ?rs)" using w(1) by metis
  have l: "claim_outbox_loop ?rs ty w limit lf now [] rp = (rs, rp')" using assms(2) by (simp add: claim_outbox_def)
  have m: "map_of (rp_outbox rp) (ob_outbox_id r) = Some r" if "r \<in> set ?rs" for r
    using that k w(1) by (auto simp: map_of_eq_Some_iff)
  have "int (length rs) \<le> max 1 limit" using claim_loop_count [of ?rs ty w limit lf now "[]" rp] l by simp
  moreover have "\<exists>r. map_of (rp_outbox rp) (ob_outbox_id r') = Some r \<and> r' = r\<lparr>ob_attempts := ob_attempts r + 1\<rparr>
            \<and> ob_event_type r = ty
            \<and> (\<forall>w' t. rp_outbox_claims rp (ob_outbox_id r') = Some (w', t) \<longrightarrow> t \<le> now)
            \<and> rp_outbox_claims rp' (ob_outbox_id r') = Some (w, now + lf)
            \<and> map_of (rp_outbox rp') (ob_outbox_id r') = Some r'" if "r' \<in> set rs" for r'
  proof -
    have "r' \<in> set (fst (claim_outbox_loop ?rs ty w limit lf now [] rp))" using that l by simp
    from claim_loop_new [OF this d] obtain r where r: "r \<in> set ?rs" "r' = r\<lparr>ob_attempts := ob_attempts r + 1\<rparr>"
      "outbox_claimable ty now r rp" "rp_outbox_claims rp' (ob_outbox_id r) = Some (w, now + lf)"
      "map_of (rp_outbox rp') (ob_outbox_id r) = Some r'"
      using l by auto
    from r(2) have "ob_outbox_id r' = ob_outbox_id r" by simp
    with r m [OF r(1)] show ?thesis by (auto simp: outbox_claimable_def)
  qed
  moreover have "rp_outbox_claims rp' i = rp_outbox_claims rp i \<and> map_of (rp_outbox rp') i = map_of (rp_outbox rp) i"
    if "i \<notin> ob_outbox_id ` set rs" for i
    using claim_loop_unclaimed [of i ?rs ty w limit lf now "[]" rp] that l by simp
  ultimately show ?thesis by blast
qed

lemma attempts_le_terminal:
  assumes "attempts_le a b" and "a k = Some (w, n, s)" and "s \<in> {''delivered'', ''ambiguous''}"
  obtains w' where "b k = Some (w', n, s)"
proof -
  from assms(1) [unfolded attempts_le_def, rule_format, OF assms(2)]
  obtain w' n' s' where "b k = Some (w', n', s')" "s \<in> {''delivered'', ''ambiguous''} \<longrightarrow> n' = n \<and> s' = s" by blast
  with assms(3) that show thesis by simp
qed

text \<open>
  At most one successful delivery: once the attempt record of an outbound message says delivered or
  ambiguous, every later attempt to begin or to finish a delivery of it, by any dispatcher and in every
  later state, raises and changes nothing.
\<close>

theorem delivery_outcome_is_terminal:
  assumes "repo_inv rp" and "rp_delivery_attempts rp (ob_tenant_id r, ob_aggregate_id r) = Some (w, n, s)"
    and "s \<in> {''delivered'', ''ambiguous''}" and "reachable_from repo_step rp rp'"
  shows "(\<exists>e. begin_delivery r w' rp' = (Inl (FencingConflict e), rp'))
       \<and> (\<exists>e. finish_delivery r w' n' receipt delay now rp' = (Inl e, rp'))"
proof -
  have "attempts_le (rp_delivery_attempts rp) (rp_delivery_attempts rp')"
    using reachable_repo_le [OF assms(4,1)] by (simp add: repo_le_def)
  from attempts_le_terminal [OF this assms(2,3)]
  obtain w1 where "rp_delivery_attempts rp' (ob_tenant_id r, ob_aggregate_id r) = Some (w1, n, s)" .
  note x = this
  have n: "s \<noteq> ''sending''" using assms(3) by auto
  have "\<exists>e. begin_delivery r w' rp' = (Inl (FencingConflict e), rp')"
    by (cases "s = ''delivered''"; cases "outbox_claimed_by (ob_outbox_id r) w' rp'")
      (use x n assms(3) in \<open>simp_all add: begin_delivery_def outbox_claim_lost_def\<close>)
  moreover have "\<exists>e. finish_delivery r w' n' receipt delay now rp' = (Inl e, rp')"
    using x n by (simp add: finish_delivery_def Let_def)
  ultimately show ?thesis by blast
qed

text \<open>
  A delivery begins only for the holder of the outbox claim, under the next attempt number, and until it
  is finished every other begin for the same outbound message is refused: with the number of the attempt in
  flight for the holder of a claim, with a lost claim for everybody else.
\<close>

theorem one_delivery_in_flight:
  assumes "begin_delivery r w rp = (Inr a, rp1)"
  shows "outbox_claimed_by (ob_outbox_id r) w rp
       \<and> rp_delivery_attempts rp1 (ob_tenant_id r, ob_aggregate_id r) = Some (w, da_attempt_number a, ''sending'')
       \<and> (case rp_delivery_attempts rp (ob_tenant_id r, ob_aggregate_id r) of
            None \<Rightarrow> da_attempt_number a = 1 | Some (_, n, _) \<Rightarrow> da_attempt_number a = n + 1)
       \<and> (\<forall>r' w'. (ob_tenant_id r', ob_aggregate_id r') = (ob_tenant_id r, ob_aggregate_id r) \<longrightarrow>
            begin_delivery r' w' rp1 =
              (Inl (if outbox_claimed_by (ob_outbox_id r') w' rp1 then DeliveryInProgress (da_attempt_number a)
                    else outbox_claim_lost), rp1))"
proof -
  let ?k = "(ob_tenant_id r, ob_aggregate_id r)"
  have c: "outbox_claimed_by (ob_outbox_id r) w rp"
    using assms by (cases "outbox_claimed_by (ob_outbox_id r) w rp") (simp_all add: begin_delivery_def)
  obtain n where n: "a = \<lparr>da_tenant_id = ob_tenant_id r, da_outbound_id = ob_aggregate_id r, da_attempt_number = n, da_owner_id = w\<rparr>"
    "rp1 = rp\<lparr>rp_delivery_attempts := (rp_delivery_attempts rp)(?k \<mapsto> (w, n, ''sending''))\<rparr>"
    "case rp_delivery_attempts rp ?k of None \<Rightarrow> n = 1 | Some (_, m, _) \<Rightarrow> n = m + 1"
    using assms c by (cases "rp_delivery_attempts rp ?k") (simp_all add: begin_delivery_def Let_def split_beta split: if_splits)
  have "begin_delivery r' w' rp1 =
              (Inl (if outbox_claimed_by (ob_outbox_id r') w' rp1 then DeliveryInProgress n else outbox_claim_lost), rp1)"
    if "(ob_tenant_id r', ob_aggregate_id r') = ?k" for r' w'
    using n(2) that by (simp add: begin_delivery_def Let_def)
  moreover have "da_attempt_number a = n" by (simp add: n(1))
  ultimately show ?thesis using c n(3) by (simp add: n(2) split: option.splits)
qed

lemma earlier_pending_False:
  "earlier_pending a n rp items = Inr False \<longleftrightarrow>
   (\<forall>item \<in> set items. tc_tenant_id (ac_context item) = tc_tenant_id (ac_context a)
        \<longrightarrow> tc_session_id (ac_context item) = tc_session_id (ac_context a)
        \<longrightarrow> (\<exists>m. rp_acceptance_sequence rp (ac_inbound_id item) = Some m
              \<and> (m < n \<longrightarrow> (tc_tenant_id (ac_context item), ac_inbound_id item) \<in> rp_committed_inbound rp)))"
  by (induction items) (auto split: option.splits)

text \<open>
  First in, first out for the first protocol: a session lease is granted for a message only when it is not
  committed, when every message of the same session that was admitted earlier is committed, and when no
  session lease is live; the granted lease is the one the repository stores.
\<close>

theorem acquire_respects_admission_order:
  assumes "repo_inv rp" and "acquire a worker lf clk rp = (Inr (Some lease), rp')"
    and "rp_acceptance_sequence rp (ac_inbound_id a) = Some n"
    and "map_of (rp_acceptances_by_id rp) i = Some b" and "rp_acceptance_sequence rp i = Some m" and "m < n"
    and "tc_tenant_id (ac_context b) = tc_tenant_id (ac_context a)"
    and "tc_session_id (ac_context b) = tc_session_id (ac_context a)"
  shows "(tc_tenant_id (ac_context b), i) \<in> rp_committed_inbound rp
       \<and> (tc_tenant_id (ac_context a), ac_inbound_id a) \<notin> rp_committed_inbound rp
       \<and> \<not> session_lease_live (tc_tenant_id (ac_context a), tc_session_id (ac_context a)) (clk 1) rp
       \<and> rp_leases rp' (tc_tenant_id (ac_context a), tc_session_id (ac_context a)) = Some lease"
proof -
  have e: "earlier_pending a n rp (map snd (rp_acceptances_by_id rp)) = Inr False"
    and al: "acquire_lease a worker lf (clk 1) rp = (Inr (Some lease), rp')"
    and nc: "(tc_tenant_id (ac_context a), ac_inbound_id a) \<notin> rp_committed_inbound rp"
    using assms(2,3) by (auto simp: acquire_def Let_def split: if_splits sum.splits bool.splits)
  have "b \<in> set (map snd (rp_acceptances_by_id rp))" using map_of_SomeD [OF assms(4)] by force
  moreover have "ac_inbound_id b = i" using registry_wfD(3) [OF _ assms(4)] assms(1) by (simp add: repo_inv_def)
  ultimately have "(tc_tenant_id (ac_context b), i) \<in> rp_committed_inbound rp"
    using e assms(5-8) unfolding earlier_pending_False by fastforce
  moreover have "\<not> session_lease_live (tc_tenant_id (ac_context a), tc_session_id (ac_context a)) (clk 1) rp"
    "rp_leases rp' (tc_tenant_id (ac_context a), tc_session_id (ac_context a)) = Some lease"
    using al by (auto simp: acquire_lease_def session_lease_live_def Let_def draw_uuid_eq split: if_splits option.splits)
  ultimately show ?thesis using nc by blast
qed

subsection \<open>The properties on the concrete history\<close>

theorem committed_inbound_never_runs_again_witness:
  "\<exists>c sl. (''tenant'', ''u'') \<in> rp_committed_inbound (snd demo_done)
     \<and> claim_session_ready demo_key ''w2'' 100 (Some 2) None None (\<lambda>_. 70) (snd demo_done)
         = (Inr c, snd (claim_session_ready demo_key ''w2'' 100 (Some 2) None None (\<lambda>_. 70) (snd demo_done)))
     \<and> sc_execution_lease c = Some sl \<and> sl_inbound_id sl \<noteq> ''u''"
proof -
  let ?r = "claim_session_ready demo_key ''w2'' 100 (Some 2) None None (\<lambda>_. 70) (snd demo_done)"
  have "case fst ?r of Inl _ \<Rightarrow> False | Inr c \<Rightarrow> sc_execution_lease c \<noteq> None" by code_simp
  then have e: "isl (fst ?r) = False" "sc_execution_lease (projr (fst ?r)) \<noteq> None" by (auto split: sum.splits)
  have c: "(''tenant'', ''u'') \<in> rp_committed_inbound (snd demo_done)" by code_simp
  from e(1) have r: "?r = (Inr (projr (fst ?r)), snd ?r)" by (simp add: prod_eq_iff)
  from e(2) obtain sl where sl: "sc_execution_lease (projr (fst ?r)) = Some sl" by blast
  show ?thesis
    using committed_inbound_never_runs_again [OF demo_repo_inv(5) c reachable_from.here r [unfolded demo_key_def] sl [unfolded demo_key_def]]
      r sl c by (auto simp: demo_key_def)
qed

theorem commit_session_ready_atomic_witness:
  "\<exists>r s'. commit_session_ready demo_turn 60 (snd demo_ready) = (Inr r, snd demo_done)
     \<and> rp_sessions (snd demo_done) (sl_key (tu_lease demo_turn)) = Some s' \<and> map se_sequence (ss_events s') = [1..<ss_next_sequence s']"
proof -
  have d: "commit_session_ready demo_turn 60 (snd demo_ready) = (Inr (projr (fst demo_done)), snd demo_done)"
    using demo_repo_eval(4) by (simp add: demo_done_def prod_eq_iff)
  show ?thesis using commit_session_ready_atomic [OF demo_repo_inv(4) d refl] d by auto
qed

theorem claim_session_ready_is_exclusive_witness:
  "\<exists>c sl. fst (claim_session_ready demo_key ''w1'' 100 None (Some ''uu'') None (\<lambda>_. 30) demo_repo2) = Inr c
     \<and> sc_execution_lease c = Some sl \<and> sl_worker_id sl = ''w1'' \<and> \<not> session_lease_live demo_key 30 demo_repo2"
proof -
  let ?r = "claim_session_ready demo_key ''w1'' 100 None (Some ''uu'') None (\<lambda>_. 30) demo_repo2"
  have "case fst ?r of Inl _ \<Rightarrow> False | Inr c \<Rightarrow> sc_execution_lease c \<noteq> None" by code_simp
  then have e: "isl (fst ?r) = False" "sc_execution_lease (projr (fst ?r)) \<noteq> None" by (auto split: sum.splits)
  from e(1) have r: "?r = (Inr (projr (fst ?r)), snd ?r)" by (simp add: prod_eq_iff)
  from e(2) obtain sl where sl: "sc_execution_lease (projr (fst ?r)) = Some sl" by blast
  have "sl_worker_id sl = ''w1'' \<and> \<not> session_lease_live demo_key 30 demo_repo2"
    using claim_session_ready_is_exclusive [OF demo_repo_inv(3) r sl] by simp
  with r sl show ?thesis by (metis fst_conv)
qed

definition demo_v1 :: runtime_repository where
  "demo_v1 = snd (accept_inbound demo_context (demo_envelope ''x1'') [] 10 demo_repo0)"

definition demo_v1_committed :: runtime_repository where
  "demo_v1_committed =
     (let a = the (rp_acceptances demo_v1 (inbound_key demo_context (demo_envelope ''x1'')));
          (l, rp) = acquire a ''w1'' 100 (\<lambda>_. 20) demo_v1
      in snd (commit_v1 \<lparr>tu_context = demo_context, tu_lease = the (projr l), tu_state = [], tu_events = [], tu_outbound = Some demo_outbound\<rparr> 30 rp))"

lemma demo_v1_committed_inv: "repo_inv demo_v1_committed"
proof -
  have "repo_inv demo_v1" unfolding demo_v1_def by (rule repo_step_inv [OF rs_accept_inbound demo_repo_inv(1)])
  then show ?thesis unfolding demo_v1_committed_def Let_def
    by (simp add: split_beta commit_v1_inv acquire_inv)
qed

definition demo_claimed_outbox :: "outbox_record list \<times> runtime_repository" where
  "demo_claimed_outbox = claim_outbox ''outbound.feishu.ready'' ''d1'' 10 1000 70 demo_v1_committed"

definition demo_record :: outbox_record where
  "demo_record = hd (fst demo_claimed_outbox)"

definition demo_sending :: "(delivery_attempt, runtime_repository) outcome" where
  "demo_sending = begin_delivery demo_record ''d1'' (snd demo_claimed_outbox)"

definition demo_receipt :: delivery_receipt where
  "demo_receipt = \<lparr>dr_outbound_id = ''out'', dr_status = DELIVERED, dr_provider_message_id = None, dr_provider_code = None,
     dr_retryable = False, dr_retry_after_seconds = None, dr_attempts = 1\<rparr>"

definition demo_delivered :: runtime_repository where
  "demo_delivered = snd (finish_delivery demo_record ''d1'' 1 demo_receipt 0 80 (snd demo_sending))"

lemma demo_delivery_inv: "repo_inv (snd demo_claimed_outbox)" "repo_inv demo_delivered"
proof -
  show 1: "repo_inv (snd demo_claimed_outbox)" unfolding demo_claimed_outbox_def
    by (rule repo_step_inv [OF rs_claim_outbox demo_v1_committed_inv])
  have "repo_inv (snd demo_sending)" unfolding demo_sending_def by (rule repo_step_inv [OF rs_begin_delivery 1])
  then show "repo_inv demo_delivered" unfolding demo_delivered_def by (rule repo_step_inv [OF rs_finish_delivery])
qed

lemma demo_delivery_eval:
  "length (fst demo_claimed_outbox) = 1" "isl (fst demo_sending) = False"
  "rp_delivery_attempts demo_delivered (ob_tenant_id demo_record, ob_aggregate_id demo_record) = Some (''d1'', 1, ''delivered'')"
  by code_simp+

theorem claim_outbox_is_exclusive_witness:
  "claim_outbox ''outbound.feishu.ready'' ''d1'' 10 1000 70 demo_v1_committed = demo_claimed_outbox
   \<and> demo_record \<in> set (fst demo_claimed_outbox)
   \<and> rp_outbox_claims (snd demo_claimed_outbox) (ob_outbox_id demo_record) = Some (''d1'', 1070)"
proof -
  have "fst demo_claimed_outbox \<noteq> []" using demo_delivery_eval(1) by auto
  then have m: "demo_record \<in> set (fst demo_claimed_outbox)" by (simp add: demo_record_def)
  have c: "claim_outbox ''outbound.feishu.ready'' ''d1'' 10 1000 70 demo_v1_committed = (fst demo_claimed_outbox, snd demo_claimed_outbox)"
    by (simp add: demo_claimed_outbox_def)
  show ?thesis using claim_outbox_is_exclusive [OF demo_v1_committed_inv c] m c by auto
qed

theorem delivery_outcome_is_terminal_witness:
  "\<exists>e. begin_delivery demo_record ''d2'' demo_delivered = (Inl (FencingConflict e), demo_delivered)"
  using delivery_outcome_is_terminal [OF demo_delivery_inv(2) demo_delivery_eval(3) _ reachable_from.here] by blast

theorem one_delivery_in_flight_witness:
  "\<exists>a. begin_delivery demo_record ''d1'' (snd demo_claimed_outbox) = (Inr a, snd demo_sending) \<and> da_attempt_number a = 1
     \<and> (\<exists>e. begin_delivery demo_record ''d1'' (snd demo_sending) = (Inl e, snd demo_sending))"
proof -
  have a: "begin_delivery demo_record ''d1'' (snd demo_claimed_outbox) = (Inr (projr (fst demo_sending)), snd demo_sending)"
    using demo_delivery_eval(2) by (simp add: demo_sending_def prod_eq_iff)
  have "da_attempt_number (projr (fst demo_sending)) = 1" by code_simp
  then show ?thesis using one_delivery_in_flight [OF a] a by blast
qed

definition demo_v1_second :: "acceptance \<times> runtime_repository" where
  "demo_v1_second = accept_inbound demo_context (demo_envelope ''x2'') [] 40 demo_v1_committed"

lemma demo_v1_inv: "repo_inv (snd demo_v1_second)"
  unfolding demo_v1_second_def by (rule repo_step_inv [OF rs_accept_inbound demo_v1_committed_inv])

lemma demo_v1_eval:
  "fst (acquire (fst demo_v1_second) ''w2'' 100 (\<lambda>_. 50) (snd demo_v1_second)) \<noteq> Inr None"
  "isl (fst (acquire (fst demo_v1_second) ''w2'' 100 (\<lambda>_. 50) (snd demo_v1_second))) = False"
  "rp_acceptance_sequence (snd demo_v1_second) (ac_inbound_id (fst demo_v1_second)) = Some 2"
  "map_option ac_context (map_of (rp_acceptances_by_id (snd demo_v1_second)) ''u'') = Some demo_context"
  "rp_acceptance_sequence (snd demo_v1_second) ''u'' = Some 1"
  "ac_context (fst demo_v1_second) = demo_context"
  by code_simp+

theorem acquire_respects_admission_order_witness:
  "\<exists>lease. fst (acquire (fst demo_v1_second) ''w2'' 100 (\<lambda>_. 50) (snd demo_v1_second)) = Inr (Some lease)
     \<and> (''tenant'', ''u'') \<in> rp_committed_inbound (snd demo_v1_second)"
proof -
  let ?q = "acquire (fst demo_v1_second) ''w2'' 100 (\<lambda>_. 50) (snd demo_v1_second)"
  obtain lease where l: "fst ?q = Inr (Some lease)" using demo_v1_eval(1,2) by (cases "fst ?q") auto
  then have q: "?q = (Inr (Some lease), snd ?q)" by (simp add: prod_eq_iff)
  obtain b where b: "map_of (rp_acceptances_by_id (snd demo_v1_second)) ''u'' = Some b" "ac_context b = demo_context"
    using demo_v1_eval(4) by auto
  show ?thesis
    using acquire_respects_admission_order [OF demo_v1_inv q demo_v1_eval(3) b(1) demo_v1_eval(5)] b(2) demo_v1_eval(6) l
    by (simp add: demo_context_def)
qed

text \<open>
  A session claim that finds its head already committed resolves it in the mailbox store, which appends
  a wake-up for the next message. This wake-up is not copied to the runtime outbox.
\<close>

definition demo_healed :: runtime_repository where
  "demo_healed =
     (let rp = snd (accept_mailbox demo_key ''u'' 0 None None 40 demo_v1_committed);
          rp = snd (accept_inbound_v2 demo_context (demo_envelope ''x2'') 0 None (\<lambda>_. 50) rp)
      in snd (claim_session_ready demo_key ''w2'' 100 (Some 1) None None (\<lambda>_. 60) rp))"

lemma healed_wakeup_not_dispatched:
  "map_option mb_status (ms_get demo_key (rp_mailbox demo_healed)) = Some QUEUED"
  "map_option mb_queue_generation (ms_get demo_key (rp_mailbox demo_healed)) = Some 2"
  "map (\<lambda>r. map_of (rp_outbox demo_healed) (ob_outbox_id r) = None) (ms_outbox (rp_mailbox demo_healed)) = [False, True]"
  by code_simp+

end
