(* ===== verification/Uuid.thy ===== *)
theory Uuid
  imports Prelude
begin

text \<open>
  \<^verbatim>\<open>UUID(value)\<close> and \<^verbatim>\<open>str(UUID(value))\<close> of the Python standard library, as \<^verbatim>\<open>_require_uuid\<close> of
  \<^verbatim>\<open>src/trpc_service/storage/mailbox.py\<close> uses them. A UUID is represented by its canonical text. The
  constructor drops every \<^verbatim>\<open>urn:\<close> and \<^verbatim>\<open>uuid:\<close>, surrounding braces and all hyphens, wants 32 characters
  and reads them with \<^verbatim>\<open>int(hex, 16)\<close>, which allows surrounding white space, a sign, a \<^verbatim>\<open>0x\<close> prefix and
  single underscores between digits.
\<close>

subsection \<open>Reading\<close>

text \<open>\<^verbatim>\<open>s.replace(pat, '')\<close>: the counter skips the rest of an occurrence.\<close>

fun remove_from :: "nat \<Rightarrow> string \<Rightarrow> string \<Rightarrow> string" where
  "remove_from n pat [] = []"
| "remove_from (Suc n) pat (c # cs) = remove_from n pat cs"
| "remove_from 0 pat (c # cs) =
     (if take (length pat) (c # cs) = pat then remove_from (length pat - 1) pat cs
      else c # remove_from 0 pat cs)"

definition remove_all_of :: "string \<Rightarrow> string \<Rightarrow> string" where
  "remove_all_of pat s = remove_from 0 pat s"

definition strip_chars :: "string \<Rightarrow> string \<Rightarrow> string" where
  "strip_chars cs s =
     rev (dropWhile (\<lambda>c. c \<in> set cs) (rev (dropWhile (\<lambda>c. c \<in> set cs) s)))"

definition py_whitespace :: string where
  "py_whitespace =
     [CHR 0x09, CHR 0x0A, CHR 0x0B, CHR 0x0C, CHR 0x0D, CHR 0x1C, CHR 0x1D, CHR 0x1E, CHR 0x1F,
      CHR 0x20, CHR 0x85, CHR 0xA0]"

definition hex_lower :: "char \<Rightarrow> char option" where
  "hex_lower c = map_of (zip ''0123456789abcdefABCDEF'' ''0123456789abcdefabcdef'') c"

text \<open>The digits of a number with single underscores between them; the flag says that the last
  character was a digit.\<close>

fun hex_digits :: "bool \<Rightarrow> string \<Rightarrow> string option" where
  "hex_digits after_digit [] = (if after_digit then Some [] else None)"
| "hex_digits after_digit (c # cs) =
     (case hex_lower c of
        Some d \<Rightarrow> (case hex_digits True cs of None \<Rightarrow> None | Some ds \<Rightarrow> Some (d # ds))
      | None \<Rightarrow> if c = CHR ''_'' \<and> after_digit then hex_digits False cs else None)"

text \<open>\<^verbatim>\<open>int(s, 16)\<close>: whether there is a minus sign, and the digits.\<close>

definition py_int16 :: "string \<Rightarrow> (bool \<times> string) option" where
  "py_int16 s =
     (let s1 = strip_chars py_whitespace s;
          negative = (take 1 s1 = ''-'');
          s2 = (if take 1 s1 = ''-'' \<or> take 1 s1 = ''+'' then drop 1 s1 else s1);
          s3 = (if take 2 s2 = ''0x'' \<or> take 2 s2 = ''0X''
                then (if take 1 (drop 2 s2) = ''_'' then drop 3 s2 else drop 2 s2) else s2)
      in map_option (\<lambda>ds. (negative, ds)) (hex_digits False s3))"

definition hyphenate :: "string \<Rightarrow> string" where
  "hyphenate h =
     take 8 h @ ''-'' @ take 4 (drop 8 h) @ ''-'' @ take 4 (drop 12 h) @ ''-'' @ take 4 (drop 16 h)
     @ ''-'' @ drop 20 h"

text \<open>\<^verbatim>\<open>str(UUID(value))\<close>; \<open>None\<close> is the \<^verbatim>\<open>ValueError\<close> of the constructor. A negative number is out of range.\<close>

definition uuid_of :: "string \<Rightarrow> string option" where
  "uuid_of s =
     (let h = remove_all_of ''uuid:'' (remove_all_of ''urn:'' s);
          h1 = filter (\<lambda>c. c \<noteq> CHR ''-'') (strip_chars ''{}'' h)
      in if length h1 \<noteq> 32 then None
         else case py_int16 h1 of
                None \<Rightarrow> None
              | Some (negative, ds) \<Rightarrow>
                  if negative \<and> list_ex (\<lambda>d. d \<noteq> CHR ''0'') ds then None
                  else Some (hyphenate (replicate (32 - length ds) CHR ''0'' @ ds)))"

definition require_uuid :: "string \<Rightarrow> error + string" where
  "require_uuid s =
     (case uuid_of s of
        None \<Rightarrow> Inl (ValueError ''PostgreSQL mailbox inbound_id must be a UUID'')
      | Some u \<Rightarrow> Inr u)"

subsection \<open>The canonical text reads as itself\<close>

definition hex_lowers :: string where
  "hex_lowers = ''0123456789abcdef''"

lemma hex_lower_cases:
  "hex_lower c = Some d \<Longrightarrow> d \<in> set hex_lowers"
  by (auto simp: hex_lower_def hex_lowers_def split: if_splits)

lemma hex_lower_lower: "d \<in> set hex_lowers \<Longrightarrow> hex_lower d = Some d"
  by (auto simp: hex_lower_def hex_lowers_def)

lemma hex_lowers_not_special:
  "c \<in> set hex_lowers \<Longrightarrow> c \<notin> set ''{}'' \<and> c \<notin> set py_whitespace \<and> c \<noteq> CHR ''-'' \<and> c \<noteq> CHR ''+'' \<and> c \<noteq> CHR ''x''
     \<and> c \<noteq> CHR ''X'' \<and> c \<noteq> CHR '':''"
  by (simp add: hex_lowers_def py_whitespace_def) (elim disjE; simp)

lemma hex_digits_lower: "hex_digits b s = Some ds \<Longrightarrow> set ds \<subseteq> set hex_lowers \<and> length ds \<le> length s"
proof (induction b s arbitrary: ds rule: hex_digits.induct)
  case (2 b c cs)
  then show ?case by (fastforce dest: hex_lower_cases split: option.splits if_splits)
qed (auto split: if_splits)

lemma hex_digits_id: "set ds \<subseteq> set hex_lowers \<Longrightarrow> ds \<noteq> [] \<or> b \<Longrightarrow> hex_digits b ds = Some ds"
  by (induction ds arbitrary: b) (auto simp: hex_lower_lower)

lemma remove_from_id:
  assumes "CHR '':'' \<notin> set s" and "CHR '':'' \<in> set pat"
  shows "remove_from 0 pat s = s"
  using assms
proof (induction s)
  case (Cons c cs)
  have "take (length pat) (c # cs) \<noteq> pat"
    using Cons.prems by (metis in_set_takeD)
  with Cons show ?case by simp
qed simp

lemma strip_id:
  assumes "s \<noteq> []" "hd s \<notin> set cs" "last s \<notin> set cs"
  shows "strip_chars cs s = s"
proof -
  have "dropWhile (\<lambda>c. c \<in> set cs) s = s" using assms(1,2) by (simp add: dropWhile_eq_self_iff)
  moreover have "dropWhile (\<lambda>c. c \<in> set cs) (rev s) = rev s" using assms(1,3) by (simp add: dropWhile_eq_self_iff hd_rev)
  ultimately show ?thesis by (simp add: strip_chars_def)
qed

lemma filter_hyphenate:
  assumes "set h \<subseteq> set hex_lowers" and "length h = 32"
  shows "filter (\<lambda>c. c \<noteq> CHR ''-'') (hyphenate h) = h"
proof -
  have n: "c \<noteq> CHR ''-''" if "c \<in> set h" for c using that assms(1) hex_lowers_not_special [of c] by blast
  have f: "filter (\<lambda>c. c \<noteq> CHR ''-'') xs = xs" if "set xs \<subseteq> set h" for xs
    using that n by (auto simp: filter_id_conv)
  have sub: "set (take i (drop j h)) \<subseteq> set h" "set (drop j h) \<subseteq> set h" "set (take i h) \<subseteq> set h" for i j
    by (meson order_trans set_drop_subset set_take_subset)+
  have "take 8 h @ take 4 (drop 8 h) @ take 4 (drop 12 h) @ take 4 (drop 16 h) @ drop 20 h = h"
    using append_take_drop_id [of 4 "drop 16 h"] append_take_drop_id [of 4 "drop 12 h"] append_take_drop_id [of 4 "drop 8 h"]
    by simp
  then show ?thesis using f [OF sub(1)] f [OF sub(2)] f [OF sub(3)] by (simp add: hyphenate_def)
qed

lemma py_int16_id:
  assumes "set h \<subseteq> set hex_lowers" and "length h = 32"
  shows "py_int16 h = Some (False, h)"
proof -
  have ne: "h \<noteq> []" using assms(2) by auto
  then have hl: "hd h \<in> set hex_lowers" "last h \<in> set hex_lowers" using assms(1) hd_in_set last_in_set by blast+
  have w: "strip_chars py_whitespace h = h"
    using ne hl [THEN hex_lowers_not_special] by (intro strip_id) simp_all
  obtain a b t where h: "h = a # b # t" using assms(2) by (cases h; cases "tl h") auto
  show ?thesis
    using assms(1) hex_digits_id [OF assms(1), of False] ne unfolding py_int16_def Let_def w
    using hex_lowers_not_special [of a] hex_lowers_not_special [of b] by (simp add: h)
qed

text \<open>Every notation that leaves the same 32 lower-case digits is the same UUID.\<close>

lemma uuid_of_digits:
  assumes "set h \<subseteq> set hex_lowers" and "length h = 32"
    and "filter (\<lambda>c. c \<noteq> CHR ''-'') (strip_chars ''{}'' (remove_all_of ''uuid:'' (remove_all_of ''urn:'' s))) = h"
  shows "uuid_of s = Some (hyphenate h)"
  unfolding uuid_of_def Let_def assms(3) py_int16_id [OF assms(1,2)] using assms(2) by simp

lemma remove_all_id: "CHR '':'' \<notin> set s \<Longrightarrow> remove_all_of ''uuid:'' (remove_all_of ''urn:'' s) = s"
  by (simp add: remove_all_of_def remove_from_id)

lemma hyphenate_chars:
  assumes "set h \<subseteq> set hex_lowers" and "c \<in> set (hyphenate h)"
  shows "c \<noteq> CHR '':'' \<and> c \<notin> set ''{}''"
proof -
  have "c = CHR ''-'' \<or> c \<in> set hex_lowers"
    using assms by (auto simp: hyphenate_def dest!: in_set_takeD in_set_dropD)
  then show ?thesis using hex_lowers_not_special [of c] by auto
qed

lemma hyphenate_nonempty: "hyphenate h \<noteq> []"
  by (simp add: hyphenate_def)

lemma uuid_of_canonical:
  assumes "set h \<subseteq> set hex_lowers" and "length h = 32"
  shows "uuid_of (hyphenate h) = Some (hyphenate h)"
proof (rule uuid_of_digits [OF assms])
  have "remove_all_of ''uuid:'' (remove_all_of ''urn:'' (hyphenate h)) = hyphenate h"
    using hyphenate_chars [OF assms(1)] by (intro remove_all_id) blast
  moreover have "strip_chars ''{}'' (hyphenate h) = hyphenate h"
    using hyphenate_chars [OF assms(1)] hd_in_set last_in_set hyphenate_nonempty by (intro strip_id) blast+
  ultimately show "filter (\<lambda>c. c \<noteq> CHR ''-'') (strip_chars ''{}'' (remove_all_of ''uuid:'' (remove_all_of ''urn:'' (hyphenate h)))) = h"
    by (simp only: filter_hyphenate [OF assms])
qed

lemma uuid_of_Some:
  assumes "uuid_of s = Some u"
  obtains h where "set h \<subseteq> set hex_lowers" "length h = 32" "u = hyphenate h"
proof -
  obtain h1 neg ds where d: "length h1 = 32" "py_int16 h1 = Some (neg, ds)"
    and u: "u = hyphenate (replicate (32 - length ds) CHR ''0'' @ ds)"
    using assms by (auto simp: uuid_of_def Let_def split: if_splits option.splits)
  have sl: "length (strip_chars cs s) \<le> length s" for cs s :: string
    unfolding strip_chars_def length_rev by (metis le_trans length_dropWhile_le length_rev)
  have "length ds \<le> 32 \<and> set ds \<subseteq> set hex_lowers"
    using d(2) hex_digits_lower sl [of py_whitespace h1] d(1)
    by (fastforce simp: py_int16_def Let_def split: if_splits)
  then show thesis using u by (intro that [of "replicate (32 - length ds) CHR ''0'' @ ds"]) (auto simp: hex_lowers_def)
qed

lemma uuid_of_idem: "uuid_of s = Some u \<Longrightarrow> uuid_of u = Some u"
  by (metis uuid_of_Some uuid_of_canonical)

lemma uuid_of_nonempty: "uuid_of s = Some u \<Longrightarrow> u \<noteq> []"
  by (elim uuid_of_Some) (simp add: hyphenate_def)

lemma require_uuid_Inr: "require_uuid s = Inr u \<longleftrightarrow> uuid_of s = Some u"
  by (simp add: require_uuid_def split: option.splits)

end
