(* ===== verification/Pg_Mailbox.thy ===== *)
theory Pg_Mailbox
  imports Mailbox Uuid "HOL-Library.Product_Lexorder" "HOL-Library.List_Lexorder" "HOL-Library.Char_ord"
begin

text \<open>
  The PostgreSQL session mailbox of \<^verbatim>\<open>src/trpc_service/storage/mailbox.py\<close>
  (\<^verbatim>\<open>PostgresSessionMailboxStore\<close>), with the tables of \<^verbatim>\<open>migrations/versions/0008_session_mailboxes.py\<close> and
  the recovery functions that \<^verbatim>\<open>0008\<close> and \<^verbatim>\<open>0011_mailbox_recovery_fencing.py\<close> define in the database.

  A transaction is one state transformer: its statements run in order on the database, a raised error
  undoes all of them, and the row locks (\<^verbatim>\<open>FOR UPDATE\<close> on the mailbox row first) keep other
  transactions of the session out. The server clock moves during a transaction: \<open>clk i\<close> is what
  \<^verbatim>\<open>clock_timestamp()\<close> returns in the \<open>i\<close>-th statement that reads it, and \<open>clk 0\<close> is also the transaction
  time \<^verbatim>\<open>now()\<close>. The constraints of the two
  mailbox tables are checked by every statement that writes them; the payload check of \<^verbatim>\<open>outbox_events\<close> is not
  modelled. The columns \<^verbatim>\<open>created_at\<close> of the two mailbox tables are
  never read and left out. Every statement carries the tenant id that the row security policy compares, so
  the policy adds nothing. A \<^verbatim>\<open>bigint\<close> counter is a natural number.
\<close>

subsection \<open>Tables\<close>

record session_row =
  sr_app_id :: string
  sr_principal_id :: string
  sr_state :: json
  sr_version :: nat
  sr_next_sequence :: nat
  sr_lease_epoch :: nat
  sr_lease_owner :: "string option"
  sr_lease_expires_at :: "time option"
  sr_updated_at :: time

record outbox_event = outbox_record +
  ev_aggregate_type :: string
  ev_available_at :: time
  ev_claimed_by :: "string option"
  ev_claim_expires_at :: "time option"
  ev_published_at :: "time option"
  ev_last_error_type :: "string option"
  ev_ready_replayed_at :: "time option"
  ev_created_at :: time

text \<open>
  \<open>db_resolved_at\<close> is the column \<^verbatim>\<open>resolved_at\<close> of \<^verbatim>\<open>session_mailbox_items\<close>; \<open>db_inbound\<close> the status of
  each row of \<^verbatim>\<open>inbound_messages\<close>; \<open>db_uuid\<close> the values \<^verbatim>\<open>gen_random_uuid()\<close> returns one after the other.
\<close>

record pg_db =
  db_tenants :: "string list"
  db_inbound :: "(string \<times> string) \<Rightarrow> string option"
  db_sessions :: "session_key \<Rightarrow> session_row option"
  db_mailboxes :: "(session_key \<times> session_mailbox) list"
  db_items :: "session_key \<Rightarrow> (nat \<times> mailbox_item) list"
  db_resolved_at :: "session_key \<Rightarrow> nat \<Rightarrow> time option"
  db_outbox :: "outbox_event list"
  db_uuid :: "nat \<Rightarrow> string"
  db_uuids_drawn :: nat

definition check_violation :: error where "check_violation = PostgresError ''check_violation''"
definition foreign_key_violation :: error where "foreign_key_violation = PostgresError ''foreign_key_violation''"
definition unique_violation :: error where "unique_violation = PostgresError ''unique_violation''"
definition data_error :: error where "data_error = PostgresError ''numeric_value_out_of_range''"
definition indeterminate_datatype :: error where "indeterminate_datatype = PostgresError ''indeterminate_datatype''"
definition lease_not_current :: error where
  "lease_not_current = FencingConflict ''mailbox lease is no longer current''"

definition bounded_text :: "nat \<Rightarrow> string \<Rightarrow> bool" where
  "bounded_text n s = (1 \<le> length s \<and> length s \<le> n)"

text \<open>The value range of the type \<^verbatim>\<open>integer\<close>, which the client checks when it encodes an argument.\<close>

definition in_int4 :: "int \<Rightarrow> bool" where
  "in_int4 p = (- (2 ^ 31) \<le> p \<and> p < 2 ^ 31)"

text \<open>The table constraints of \<^verbatim>\<open>session_mailboxes\<close>.\<close>

definition mailbox_row_ok :: "session_mailbox \<Rightarrow> bool" where
  "mailbox_row_ok m =
     (bounded_text 256 (mb_session_id m)
      \<and> mb_resolved_sequence m \<le> mb_accepted_sequence m
      \<and> (case mb_processing_sequence m of
           None \<Rightarrow> True
         | Some n \<Rightarrow> mb_resolved_sequence m < n \<and> n \<le> mb_accepted_sequence m)
      \<and> (case mb_lease_owner m of None \<Rightarrow> True | Some owner_id \<Rightarrow> bounded_text 256 owner_id)
      \<and> 0 \<le> mb_priority m
      \<and> (mb_lease_owner m = None) = (mb_lease_expires_at m = None)
      \<and> (if mb_status m = RUNNING
         then mb_processing_sequence m \<noteq> None \<and> mb_processing_inbound_id m \<noteq> None
            \<and> mb_lease_owner m \<noteq> None \<and> mb_lease_expires_at m \<noteq> None
         else mb_processing_sequence m = None \<and> mb_processing_inbound_id m = None
            \<and> mb_lease_owner m = None \<and> mb_lease_expires_at m = None))"

definition pg_get :: "session_key \<Rightarrow> pg_db \<Rightarrow> session_mailbox option" where
  "pg_get k db = map_of (db_mailboxes db) k"

definition pg_item :: "session_key \<Rightarrow> nat \<Rightarrow> pg_db \<Rightarrow> mailbox_item option" where
  "pg_item k n db = map_of (db_items db k) n"

definition update_mailbox :: "session_key \<Rightarrow> session_mailbox \<Rightarrow> pg_db \<Rightarrow> error + pg_db" where
  "update_mailbox k m db =
     (if mailbox_row_ok m then Inr (db\<lparr>db_mailboxes := AList.update k m (db_mailboxes db)\<rparr>)
      else Inl check_violation)"

definition update_item :: "session_key \<Rightarrow> nat \<Rightarrow> mailbox_item \<Rightarrow> pg_db \<Rightarrow> pg_db" where
  "update_item k n it db = db\<lparr>db_items := (db_items db)(k := AList.update n it (db_items db k))\<rparr>"

definition set_resolved_at :: "session_key \<Rightarrow> nat \<Rightarrow> time \<Rightarrow> pg_db \<Rightarrow> pg_db" where
  "set_resolved_at k n t db =
     (if pg_item k n db = None then db
      else db\<lparr>db_resolved_at := (db_resolved_at db)(k := (db_resolved_at db k)(n := Some t))\<rparr>)"

definition transaction :: "'db \<Rightarrow> error + ('a \<times> 'db) \<Rightarrow> ('a, 'db) outcome" where
  "transaction db body = (case body of Inl e \<Rightarrow> raise_in db e | Inr (a, db') \<Rightarrow> return_in db' a)"

text \<open>The constructor: the replay cooldown in seconds the store keeps.\<close>

definition init_pg_mailbox :: "int \<Rightarrow> error + int" where
  "init_pg_mailbox ready_replay_cooldown_seconds =
     (if ready_replay_cooldown_seconds < 5 \<or> 86400 < ready_replay_cooldown_seconds
      then Inl (ValueError ''ready replay cooldown must be between 5 and 86400 seconds'')
      else Inr ready_replay_cooldown_seconds)"

subsection \<open>Wake-ups\<close>

text \<open>\<^verbatim>\<open>to_char\<close> renders the time in milliseconds.\<close>

definition floor_ms :: "time \<Rightarrow> time" where
  "floor_ms t = t - t mod 1000"

definition ready_event_for :: "session_key \<Rightarrow> nat \<Rightarrow> outbox_event \<Rightarrow> bool" where
  "ready_event_for k generation e =
     (ob_event_type e = ''session.ready.v2'' \<and> ob_tenant_id e = fst k \<and> ob_aggregate_id e = snd k
      \<and> map_of (ob_payload e) ''generation'' = Some (JInt (int generation)))"

text \<open>The insertion of a wake-up; the unique index makes it idempotent for each generation.\<close>

definition insert_ready_event ::
    "session_key \<Rightarrow> nat \<Rightarrow> int \<Rightarrow> string \<Rightarrow> time \<Rightarrow> time \<Rightarrow> pg_db \<Rightarrow> pg_db"
where
  "insert_ready_event k generation priority trace_id now tx db =
     (if list_ex (ready_event_for k generation) (db_outbox db) then db
      else db\<lparr>db_outbox := db_outbox db @
                [\<lparr>ob_outbox_id = db_uuid db (db_uuids_drawn db),
                  ob_tenant_id = fst k,
                  ob_event_type = ''session.ready.v2'',
                  ob_aggregate_id = snd k,
                  ob_payload =
                    [(''generation'', JInt (int generation)), (''priority'', JInt priority),
                     (''trace_id'', JStr trace_id), (''created_at'', JTime (floor_ms now))],
                  ob_trace_headers = [], ob_attempts = 0,
                  ev_aggregate_type = ''session'', ev_available_at = tx, ev_claimed_by = None,
                  ev_claim_expires_at = None, ev_published_at = None, ev_last_error_type = None,
                  ev_ready_replayed_at = None, ev_created_at = tx\<rparr>],
              db_uuids_drawn := Suc (db_uuids_drawn db)\<rparr>)"

definition item_trace :: "mailbox_item \<Rightarrow> session_mailbox \<Rightarrow> string" where
  "item_trace it m = str_or (Some (it_trace_id it)) (str_or (Some (it_inbound_id it)) (mb_session_id m))"

definition emit_ready_outbox ::
    "session_mailbox \<Rightarrow> mailbox_item \<Rightarrow> time \<Rightarrow> time \<Rightarrow> pg_db \<Rightarrow> pg_db"
where
  "emit_ready_outbox m it now tx db =
     insert_ready_event (mb_key m) (mb_queue_generation m) (it_priority it) (item_trace it m) now tx db"

definition reopen_event :: "time \<Rightarrow> outbox_event \<Rightarrow> outbox_event" where
  "reopen_event now e =
     e\<lparr>ev_published_at := None, ev_claimed_by := None, ev_claim_expires_at := None,
       ev_available_at := now, ev_last_error_type := None, ev_ready_replayed_at := Some now\<rparr>"

definition replay_due :: "duration \<Rightarrow> time \<Rightarrow> outbox_event \<Rightarrow> bool" where
  "replay_due cooldown now e =
     (ev_aggregate_type e = ''session''
      \<and> (case ev_published_at e of
           None \<Rightarrow> False
         | Some p \<Rightarrow> max p (case ev_ready_replayed_at e of None \<Rightarrow> p | Some r \<Rightarrow> r) \<le> now - cooldown)
      \<and> \<not> later_than (ev_claim_expires_at e) now)"

definition requeue_ready_outbox ::
    "session_mailbox \<Rightarrow> mailbox_item \<Rightarrow> duration \<Rightarrow> time \<Rightarrow> time \<Rightarrow> pg_db \<Rightarrow> pg_db"
where
  "requeue_ready_outbox m it cooldown now tx db =
     (let hit = (\<lambda>e. ready_event_for (mb_key m) (mb_queue_generation m) e \<and> replay_due cooldown now e);
          db1 = db\<lparr>db_outbox := map (\<lambda>e. if hit e then reopen_event now e else e) (db_outbox db)\<rparr>
      in if length (filter hit (db_outbox db)) = 1 then db1
         else insert_ready_event (mb_key m) (mb_queue_generation m) (it_priority it) (item_trace it m)
                now tx db1)"

subsection \<open>Accepting\<close>

definition insert_mailbox :: "session_key \<Rightarrow> time \<Rightarrow> pg_db \<Rightarrow> error + pg_db" where
  "insert_mailbox k now db =
     (if pg_get k db \<noteq> None then Inr db
      else if fst k \<notin> set (db_tenants db) then Inl foreign_key_violation
      else update_mailbox k (new_session_mailbox (fst k) (snd k) now) db)"

definition insert_item :: "session_key \<Rightarrow> nat \<Rightarrow> mailbox_item \<Rightarrow> pg_db \<Rightarrow> error + pg_db" where
  "insert_item k n it db =
     (if \<not> in_int4 (it_priority it) then Inl data_error
      else if \<not> bounded_text 512 (it_trace_id it) then Inl check_violation
      else if db_inbound db (fst k, it_inbound_id it) = None then Inl foreign_key_violation
      else if pg_item k n db \<noteq> None then Inl unique_violation
      else Inr (update_item k n it db))"

definition pg_accept_new ::
    "session_key \<Rightarrow> string \<Rightarrow> string \<Rightarrow> int \<Rightarrow> time option \<Rightarrow> (nat \<Rightarrow> time) \<Rightarrow> session_mailbox
     \<Rightarrow> pg_db \<Rightarrow> error + (session_mailbox \<times> pg_db)"
where
  "pg_accept_new k inbound trace priority retry_at clk m db =
     (let sequence = mb_accepted_sequence m + 1;
          it = \<lparr>it_tenant_id = fst k, it_session_id = snd k, it_inbound_id = inbound,
                it_sequence = sequence, it_trace_id = trace, it_priority = priority,
                it_retry_count = 0, it_attempt = 0, it_retry_at = retry_at,
                it_accepted_at = clk 1\<rparr>
      in case insert_item k sequence it db of
           Inl e \<Rightarrow> Inl e
         | Inr db1 \<Rightarrow>
             (let (status, next_retry_at) = accept_status m retry_at (clk 2);
                  should_emit = (status = QUEUED \<and> mb_status m \<in> {IDLE, RETRY_WAIT});
                  updated = m\<lparr>mb_accepted_sequence := sequence, mb_status := status,
                              mb_queue_generation := mb_queue_generation m + (if should_emit then 1 else 0),
                              mb_priority := max (mb_priority m) priority,
                              mb_retry_at := next_retry_at, mb_updated_at := clk 3\<rparr>
              in case update_mailbox k updated db1 of
                   Inl e \<Rightarrow> Inl e
                 | Inr db2 \<Rightarrow>
                     Inr (updated,
                          if should_emit then emit_ready_outbox updated it (clk 4) (clk 0) db2 else db2)))"

definition pg_accept ::
    "session_key \<Rightarrow> string \<Rightarrow> int \<Rightarrow> time option \<Rightarrow> string option \<Rightarrow> (nat \<Rightarrow> time)
     \<Rightarrow> pg_db \<Rightarrow> (session_mailbox, pg_db) outcome"
where
  "pg_accept k inbound_id priority retry_at trace_id clk db =
     (case validate_priority priority of Some e \<Rightarrow> raise_in db e | None \<Rightarrow>
      case require_uuid inbound_id of Inl e \<Rightarrow> raise_in db e | Inr inbound \<Rightarrow>
      transaction db
        (case insert_mailbox k (clk 0) db of
           Inl e \<Rightarrow> Inl e
         | Inr db1 \<Rightarrow>
             (case pg_get k db1 of
                None \<Rightarrow> Inl (AssertionError ''mailbox'')
              | Some m \<Rightarrow>
                  if list_ex (\<lambda>(n, it). it_inbound_id it = inbound) (db_items db1 k) then Inr (m, db1)
                  else pg_accept_new k inbound (str_or trace_id inbound_id) priority retry_at clk m db1)))"

subsection \<open>Claiming\<close>

definition pg_grant ::
    "session_key \<Rightarrow> string \<Rightarrow> duration \<Rightarrow> time \<Rightarrow> session_mailbox \<Rightarrow> nat \<Rightarrow> mailbox_item
     \<Rightarrow> pg_db \<Rightarrow> error + (mailbox_lease option \<times> pg_db)"
where
  "pg_grant k owner_id lease_for now m sequence it db =
     (let epoch = mb_lease_epoch m + 1;
          it' = it\<lparr>it_attempt := it_attempt it + 1\<rparr>;
          m' = m\<lparr>mb_status := RUNNING, mb_processing_sequence := Some sequence,
                 mb_processing_inbound_id := Some (it_inbound_id it),
                 mb_lease_owner := Some owner_id, mb_lease_epoch := epoch,
                 mb_lease_expires_at := Some (now + lease_for), mb_attempt := it_attempt it',
                 mb_retry_count := it_retry_count it, mb_priority := it_priority it,
                 mb_retry_at := it_retry_at it, mb_updated_at := now\<rparr>
      in case update_mailbox k m' (update_item k sequence it' db) of
           Inl e \<Rightarrow> Inl e
         | Inr db1 \<Rightarrow>
             Inr (Some \<lparr>ml_tenant_id = fst k, ml_session_id = snd k, ml_inbound_id = it_inbound_id it,
                        ml_sequence = sequence, ml_owner_id = owner_id, ml_epoch = epoch,
                        ml_expires_at = now + lease_for, ml_attempt = it_attempt it',
                        ml_retry_count = it_retry_count it, ml_priority = it_priority it\<rparr>, db1))"

text \<open>
  The statement that would store the retry time of a waiting head names the parameters \<^verbatim>\<open>$1\<close>, \<^verbatim>\<open>$2\<close> and
  \<^verbatim>\<open>$4\<close> and not \<^verbatim>\<open>$3\<close>. The server cannot determine a type for \<^verbatim>\<open>$3\<close> and rejects the statement when it is
  prepared (\<^verbatim>\<open>42P18\<close>).
\<close>

definition claim_locked ::
    "session_key \<Rightarrow> string \<Rightarrow> duration \<Rightarrow> (nat \<Rightarrow> time) \<Rightarrow> pg_db
     \<Rightarrow> error + (mailbox_lease option \<times> pg_db)"
where
  "claim_locked k owner_id lease_for clk db =
     (case pg_get k db of
        None \<Rightarrow> Inr (None, db)
      | Some m \<Rightarrow>
          if later_than (mb_lease_expires_at m) (clk 0) then Inr (None, db)
          else
            (let sequence = (case mb_processing_sequence m of
                               Some n \<Rightarrow> n | None \<Rightarrow> mb_resolved_sequence m + 1)
             in if mb_processing_sequence m = None \<and> mb_accepted_sequence m < sequence
                then (case update_mailbox k (m\<lparr>mb_status := IDLE, mb_updated_at := clk 1\<rparr>) db of
                        Inl e \<Rightarrow> Inl e | Inr db1 \<Rightarrow> Inr (None, db1))
                else case pg_item k sequence db of
                       None \<Rightarrow> Inr (None, db)
                     | Some it \<Rightarrow>
                         if \<not> later_than (it_retry_at it) (clk 1)
                         then pg_grant k owner_id lease_for (clk 2) m sequence it db
                         else if later_than (it_retry_at it) (clk 2) then Inl indeterminate_datatype
                         else Inr (None, db)))"

definition pg_claim ::
    "session_key \<Rightarrow> string \<Rightarrow> duration \<Rightarrow> (nat \<Rightarrow> time)
     \<Rightarrow> pg_db \<Rightarrow> (mailbox_lease option, pg_db) outcome"
where
  "pg_claim k owner_id lease_for clk db =
     (case validate_lease_for lease_for of Some e \<Rightarrow> raise_in db e | None \<Rightarrow>
      transaction db (claim_locked k owner_id lease_for clk db))"

text \<open>\<open>client_now\<close> is the client's clock, which the default of a new \<^verbatim>\<open>SessionMailbox\<close> reads.\<close>

definition pg_claim_session ::
    "session_key \<Rightarrow> string \<Rightarrow> duration \<Rightarrow> int option \<Rightarrow> int option \<Rightarrow> acceptance option \<Rightarrow> time
     \<Rightarrow> (nat \<Rightarrow> time) \<Rightarrow> pg_db \<Rightarrow> (session_claim, pg_db) outcome"
where
  "pg_claim_session k owner_id lease_for expected_generation expected_epoch acc client_now clk db =
     (let expected = (case expected_generation of None \<Rightarrow> expected_epoch | Some g \<Rightarrow> Some g);
          result = (\<lambda>s m l. \<lparr>sc_status = s, sc_mailbox = m, sc_lease = l, sc_acceptance = acc,
                             sc_execution_lease = None\<rparr>)
      in case validate_lease_for lease_for of Some e \<Rightarrow> raise_in db e | None \<Rightarrow>
         transaction db
           (let before = (case pg_get k db of
                            None \<Rightarrow> new_session_mailbox (fst k) (snd k) client_now | Some m \<Rightarrow> m)
            in if expected \<noteq> None \<and> expected \<noteq> Some (int (mb_queue_generation before))
               then Inr (result STALE before None, db)
               else case claim_locked k owner_id lease_for (\<lambda>i. clk (i + 1)) db of
                      Inl e \<Rightarrow> Inl e
                    | Inr (lease, db1) \<Rightarrow>
                        (let m = (case pg_get k db1 of None \<Rightarrow> before | Some m \<Rightarrow> m)
                         in if lease \<noteq> None then Inr (result CLAIMED m lease, db1)
                            else if later_than (mb_lease_expires_at m) (clk 0)
                            then Inr (result CLAIM_RUNNING m None, db1)
                            else if expected \<noteq> None \<and> expected \<noteq> Some (int (mb_queue_generation m))
                            then Inr (result STALE m None, db1)
                            else Inr (result EMPTY m None, db1))))"

subsection \<open>Renewing\<close>

definition renew_row ::
    "mailbox_lease \<Rightarrow> duration \<Rightarrow> time \<Rightarrow> pg_db \<Rightarrow> error + (time option \<times> pg_db)"
where
  "renew_row lease lease_for now db =
     (case uuid_of (ml_inbound_id lease) of
        None \<Rightarrow> Inl (ValueError ''badly formed hexadecimal UUID string'')
      | Some inbound \<Rightarrow>
          (case pg_get (ml_key lease) db of
             None \<Rightarrow> Inr (None, db)
           | Some m \<Rightarrow>
               if owns (Some m) (lease\<lparr>ml_inbound_id := inbound\<rparr>) now
               then (let expires_at = (case mb_lease_expires_at m of
                                         None \<Rightarrow> now + lease_for | Some t \<Rightarrow> max (now + lease_for) (t + 1))
                     in case update_mailbox (ml_key lease)
                               (m\<lparr>mb_lease_expires_at := Some expires_at, mb_updated_at := now\<rparr>) db of
                          Inl e \<Rightarrow> Inl e
                        | Inr db1 \<Rightarrow> Inr (Some expires_at, db1))
               else Inr (None, db)))"

definition pg_renew ::
    "mailbox_lease \<Rightarrow> duration \<Rightarrow> time \<Rightarrow> pg_db \<Rightarrow> (mailbox_lease, pg_db) outcome"
where
  "pg_renew lease lease_for now db =
     (case validate_lease_for lease_for of Some e \<Rightarrow> raise_in db e | None \<Rightarrow>
      case renew_row lease lease_for now db of
        Inl e \<Rightarrow> raise_in db e
      | Inr (None, db1) \<Rightarrow> raise_in db1 lease_not_current
      | Inr (Some t, db1) \<Rightarrow> return_in db1 (lease\<lparr>ml_expires_at := t\<rparr>))"

fun renew_rows ::
    "string \<Rightarrow> mailbox_lease list \<Rightarrow> duration \<Rightarrow> (nat \<Rightarrow> time) \<Rightarrow> pg_db
     \<Rightarrow> error + (mailbox_lease list \<times> pg_db)"
where
  "renew_rows tenant_id [] lease_for clk db = Inr ([], db)"
| "renew_rows tenant_id (l # ls) lease_for clk db =
     (if ml_tenant_id l \<noteq> tenant_id then Inl (ValueError ''mailbox renew batch must use one tenant'')
      else case renew_row l lease_for (clk 0) db of
             Inl e \<Rightarrow> Inl e
           | Inr (None, db1) \<Rightarrow> Inl lease_not_current
           | Inr (Some t, db1) \<Rightarrow>
               (case renew_rows tenant_id ls lease_for (\<lambda>i. clk (i + 1)) db1 of
                  Inl e \<Rightarrow> Inl e
                | Inr (ls', db2) \<Rightarrow> Inr (l\<lparr>ml_expires_at := t\<rparr> # ls', db2)))"

definition pg_renew_many ::
    "mailbox_lease list \<Rightarrow> duration \<Rightarrow> (nat \<Rightarrow> time) \<Rightarrow> pg_db \<Rightarrow> (mailbox_lease list, pg_db) outcome"
where
  "pg_renew_many leases lease_for clk db =
     (case validate_lease_for lease_for of Some e \<Rightarrow> raise_in db e | None \<Rightarrow>
      case leases of
        [] \<Rightarrow> return_in db []
      | l # _ \<Rightarrow> transaction db (renew_rows (ml_tenant_id l) leases lease_for clk db))"

subsection \<open>Committing and releasing\<close>

definition assert_owned :: "mailbox_lease \<Rightarrow> time \<Rightarrow> pg_db \<Rightarrow> error + session_mailbox" where
  "assert_owned lease now db =
     (case pg_get (ml_key lease) db of
        None \<Rightarrow> Inl lease_not_current
      | Some m \<Rightarrow> if owns (Some m) lease now then Inr m else Inl lease_not_current)"

text \<open>The state a mailbox without lease gets from its head item, if there is one.\<close>

definition next_state :: "mailbox_item option \<Rightarrow> time \<Rightarrow> mailbox_status \<times> time option" where
  "next_state item now =
     (case item of
        None \<Rightarrow> (IDLE, None)
      | Some it \<Rightarrow>
          if later_than (it_retry_at it) now then (RETRY_WAIT, it_retry_at it) else (QUEUED, None))"

definition unleased_row ::
    "session_mailbox \<Rightarrow> mailbox_status \<Rightarrow> time option \<Rightarrow> nat \<Rightarrow> time \<Rightarrow> session_mailbox"
where
  "unleased_row m status retry_at increment now =
     m\<lparr>mb_status := status, mb_processing_sequence := None, mb_processing_inbound_id := None,
       mb_lease_owner := None, mb_lease_expires_at := None, mb_retry_at := retry_at,
       mb_queue_generation := mb_queue_generation m + increment, mb_updated_at := now\<rparr>"

definition pg_commit :: "mailbox_lease \<Rightarrow> (nat \<Rightarrow> time) \<Rightarrow> pg_db \<Rightarrow> (session_mailbox, pg_db) outcome" where
  "pg_commit lease clk db =
     transaction db
       (case assert_owned lease (clk 0) db of
          Inl e \<Rightarrow> Inl e
        | Inr m \<Rightarrow>
            (let k = ml_key lease;
                 db1 = set_resolved_at k (ml_sequence lease) (clk 1) db;
                 next_item = pg_item k (ml_sequence lease + 1) db1;
                 (status, retry_at) = next_state next_item (clk 2);
                 row = unleased_row (m\<lparr>mb_resolved_sequence := ml_sequence lease\<rparr>) status retry_at
                         (if status = QUEUED then 1 else 0) (clk 3)
             in case update_mailbox k row db1 of
                  Inl e \<Rightarrow> Inl e
                | Inr db2 \<Rightarrow>
                    Inr (row,
                         case next_item of
                           None \<Rightarrow> db2
                         | Some it \<Rightarrow> if status = QUEUED then emit_ready_outbox row it (clk 4) (clk 0) db2
                                      else db2)))"

definition pg_release ::
    "mailbox_lease \<Rightarrow> time option \<Rightarrow> int option \<Rightarrow> bool \<Rightarrow> bool \<Rightarrow> (nat \<Rightarrow> time)
     \<Rightarrow> pg_db \<Rightarrow> (session_mailbox, pg_db) outcome"
where
  "pg_release lease retry_at priority increment_retry emit clk db =
     (case (case priority of None \<Rightarrow> None | Some p \<Rightarrow> validate_priority p) of
        Some e \<Rightarrow> raise_in db e
      | None \<Rightarrow>
      transaction db
        (case assert_owned lease (clk 0) db of
           Inl e \<Rightarrow> Inl e
         | Inr m \<Rightarrow>
             (let k = ml_key lease
              in if \<not> (case priority of None \<Rightarrow> True | Some p \<Rightarrow> in_int4 p) then Inl data_error
                 else case pg_item k (ml_sequence lease) db of
                   None \<Rightarrow> Inl (AssertionError ''mailbox item'')
                 | Some it \<Rightarrow>
                     (let it' = it\<lparr>it_retry_count := it_retry_count it + (if increment_retry then 1 else 0),
                                   it_priority := (case priority of None \<Rightarrow> it_priority it | Some p \<Rightarrow> p),
                                   it_retry_at := retry_at\<rparr>;
                          db1 = update_item k (ml_sequence lease) it' db;
                          (status0, retry0) = next_state (Some it') (clk 1);
                          status = (if emit then status0 else RETRY_WAIT);
                          next_retry_at = (if emit then retry0 else retry_at);
                          row = (unleased_row m status next_retry_at (if status = QUEUED then 1 else 0) (clk 2))
                                  \<lparr>mb_retry_count := it_retry_count it', mb_priority := it_priority it'\<rparr>
                      in case update_mailbox k row db1 of
                           Inl e \<Rightarrow> Inl e
                         | Inr db2 \<Rightarrow>
                             Inr (row,
                                  if status = QUEUED \<and> emit then emit_ready_outbox row it' (clk 3) (clk 0) db2
                                  else db2)))))"

definition pg_reschedule ::
    "mailbox_lease \<Rightarrow> time option \<Rightarrow> int option \<Rightarrow> (nat \<Rightarrow> time) \<Rightarrow> pg_db \<Rightarrow> (session_mailbox, pg_db) outcome"
where
  "pg_reschedule lease retry_at priority = pg_release lease retry_at priority False True"

definition pg_retry ::
    "mailbox_lease \<Rightarrow> time option \<Rightarrow> int option \<Rightarrow> (nat \<Rightarrow> time) \<Rightarrow> pg_db \<Rightarrow> (session_mailbox, pg_db) outcome"
where
  "pg_retry lease retry_at priority = pg_release lease retry_at priority True True"

definition pg_retry_without_wakeup ::
    "mailbox_lease \<Rightarrow> time option \<Rightarrow> (nat \<Rightarrow> time) \<Rightarrow> pg_db \<Rightarrow> (session_mailbox, pg_db) outcome"
where
  "pg_retry_without_wakeup lease retry_at = pg_release lease retry_at None True False"

end
