(* ===== verification/Pg_Recovery.thy ===== *)
theory Pg_Recovery
  imports Pg_Mailbox
begin

text \<open>
  Recovery of the PostgreSQL mailbox: \<^verbatim>\<open>recover\<close> and \<^verbatim>\<open>reconcile\<close> of one session
  (\<^verbatim>\<open>src/trpc_service/storage/mailbox.py\<close>), and the three batch functions of the database that
  \<^verbatim>\<open>sweep_expired_leases\<close>, \<^verbatim>\<open>schedule_retries\<close> and \<^verbatim>\<open>reconcile_sessions\<close> call
  (\<^verbatim>\<open>migrations/versions/0011_mailbox_recovery_fencing.py\<close> and, for the retries, \<^verbatim>\<open>0008\<close>).

  A batch function selects its rows first and then works through them, one statement after the other.
  \<open>clk k i\<close> is the clock at the \<open>i\<close>-th statement that handles session \<open>k\<close>; \<open>busy k\<close> says that another
  transaction holds the lock of the mailbox row, which \<^verbatim>\<open>SKIP LOCKED\<close> then passes over. The rows of
  \<^verbatim>\<open>sessions\<close> are not locked by the selection: \<open>race k\<close> is what other transactions commit to the session row
  between the selection and the moment the loop locks it. Text is ordered bytewise.
\<close>

subsection \<open>One session\<close>

definition session_live :: "session_row option \<Rightarrow> time \<Rightarrow> bool" where
  "session_live row now =
     (case row of
        None \<Rightarrow> False
      | Some s \<Rightarrow> sr_lease_owner s \<noteq> None \<and> later_than (sr_lease_expires_at s) now)"

definition pg_recover ::
    "session_key \<Rightarrow> (nat \<Rightarrow> time) \<Rightarrow> pg_db \<Rightarrow> (session_mailbox option, pg_db) outcome"
where
  "pg_recover k clk db =
     transaction db
       (case pg_get k db of
          None \<Rightarrow> Inr (None, db)
        | Some m \<Rightarrow>
            if \<not> not_later_than (mb_lease_expires_at m) (clk 0) then Inr (None, db)
            else if session_live (db_sessions db k) (clk 1) then Inr (None, db)
            else
              (let sequence = head_sequence m;
                   item = pg_item k sequence db;
                   (status, retry_at) = head_status item sequence m (clk 1);
                   row = unleased_row m status retry_at (if status = QUEUED then 1 else 0) (clk 2)
               in case update_mailbox k row db of
                    Inl e \<Rightarrow> Inl e
                  | Inr db1 \<Rightarrow>
                      Inr (Some row,
                           case item of
                             None \<Rightarrow> db1
                           | Some it \<Rightarrow> if status = QUEUED then emit_ready_outbox row it (clk 3) (clk 0) db1
                                        else db1)))"

definition pg_reconcile ::
    "duration \<Rightarrow> session_key \<Rightarrow> (nat \<Rightarrow> time) \<Rightarrow> pg_db \<Rightarrow> (session_mailbox option, pg_db) outcome"
where
  "pg_reconcile cooldown k clk db =
     transaction db
       (case pg_get k db of
          None \<Rightarrow> Inr (None, db)
        | Some m \<Rightarrow>
            if session_live (db_sessions db k) (clk 0) then Inr (Some m, db)
            else
              (let sequence = head_sequence m;
                   item = pg_item k sequence db;
                   (status, retry_at) = head_status item sequence m (clk 0);
                   queued_is_recent =
                     (status = QUEUED \<and> mb_status m = QUEUED
                      \<and> clk 0 - RECONCILE_READY_GRACE < mb_updated_at m);
                   increment =
                     (if status = QUEUED \<and> \<not> (mb_status m = QUEUED \<and> 1 \<le> mb_queue_generation m)
                      then 1 else 0);
                   row = unleased_row m status retry_at increment (clk 1)
               in if queued_is_recent then Inr (Some m, db)
                  else case update_mailbox k row db of
                    Inl e \<Rightarrow> Inl e
                  | Inr db1 \<Rightarrow>
                      Inr (Some row,
                           case item of
                             None \<Rightarrow> db1
                           | Some it \<Rightarrow>
                               if status = QUEUED
                               then if increment = 1 then emit_ready_outbox row it (clk 2) (clk 0) db1
                                    else requeue_ready_outbox row it cooldown (clk 2) (clk 0) db1
                               else db1)))"

subsection \<open>Batch functions\<close>

text \<open>The row another transaction leaves in \<^verbatim>\<open>sessions\<close>, as the locking read of the loop finds it.\<close>

definition lock_session ::
    "(session_key \<Rightarrow> session_row option \<Rightarrow> session_row option) \<Rightarrow> session_key \<Rightarrow> pg_db \<Rightarrow> pg_db"
where
  "lock_session race k db = db\<lparr>db_sessions := (db_sessions db)(k := race k (db_sessions db k))\<rparr>"

text \<open>Only the lease that the mailbox row represents is cleared in \<^verbatim>\<open>sessions\<close>.\<close>

definition clear_session_lease :: "session_key \<Rightarrow> session_mailbox \<Rightarrow> time \<Rightarrow> pg_db \<Rightarrow> pg_db" where
  "clear_session_lease k m now db =
     (case db_sessions db k of
        None \<Rightarrow> db
      | Some s \<Rightarrow>
          if sr_lease_owner s = mb_lease_owner m \<and> sr_lease_epoch s = mb_lease_epoch m
             \<and> sr_lease_expires_at s = mb_lease_expires_at m
          then db\<lparr>db_sessions := (db_sessions db)(k \<mapsto>
                 s\<lparr>sr_lease_owner := None, sr_lease_expires_at := None, sr_updated_at := now\<rparr>)\<rparr>
          else db)"

definition coalesce_trace :: "mailbox_item option \<Rightarrow> string option \<Rightarrow> string \<Rightarrow> string" where
  "coalesce_trace item inbound session_id =
     (case item of Some it \<Rightarrow> it_trace_id it
      | None \<Rightarrow> (case inbound of Some i \<Rightarrow> i | None \<Rightarrow> session_id))"

definition coalesce_priority :: "mailbox_item option \<Rightarrow> int" where
  "coalesce_priority item = (case item of Some it \<Rightarrow> it_priority it | None \<Rightarrow> 0)"

definition retry_pending :: "mailbox_item option \<Rightarrow> time \<Rightarrow> bool" where
  "retry_pending item now = (case item of None \<Rightarrow> False | Some it \<Rightarrow> later_than (it_retry_at it) now)"

text \<open>The retry time a row keeps when it waits: the column of the joined item.\<close>

definition retry_column :: "mailbox_status \<Rightarrow> mailbox_item option \<Rightarrow> time option" where
  "retry_column status item =
     (if status = RETRY_WAIT then (case item of None \<Rightarrow> None | Some it \<Rightarrow> it_retry_at it) else None)"

text \<open>\<^verbatim>\<open>ORDER BY key, tenant_id, session_id LIMIT p_limit\<close>.\<close>

definition take_ordered :: "(session_mailbox \<Rightarrow> time) \<Rightarrow> nat \<Rightarrow> (session_key \<times> session_mailbox) list
    \<Rightarrow> (session_key \<times> session_mailbox) list" where
  "take_ordered key limit rows = take limit (sort_key (\<lambda>(k, m). (key m, k)) rows)"

type_synonym batch_clock = "session_key \<Rightarrow> nat \<Rightarrow> time"

definition sweep_row ::
    "session_key \<Rightarrow> session_mailbox \<Rightarrow> mailbox_item option \<Rightarrow> (nat \<Rightarrow> time) \<Rightarrow> time \<Rightarrow> pg_db
     \<Rightarrow> error + pg_db"
where
  "sweep_row k m item clk tx db =
     (let status = (if mb_accepted_sequence m \<le> mb_resolved_sequence m then IDLE
                    else if retry_pending item (clk 3) then RETRY_WAIT else QUEUED);
          row = unleased_row m status (retry_column status item) (if status = QUEUED then 1 else 0) (clk 4)
      in case update_mailbox k row db of
           Inl e \<Rightarrow> Inl e
         | Inr db1 \<Rightarrow>
             (let db2 = clear_session_lease k m (clk 5) db1
              in Inr (if status = QUEUED
                      then insert_ready_event k (mb_queue_generation row) (coalesce_priority item)
                             (coalesce_trace item (mb_processing_inbound_id m) (snd k)) (clk 6) tx db2
                      else db2)))"

fun sweep_rows ::
    "(session_key \<times> session_mailbox \<times> mailbox_item option) list \<Rightarrow> nat
     \<Rightarrow> (session_key \<Rightarrow> session_row option \<Rightarrow> session_row option) \<Rightarrow> batch_clock \<Rightarrow> time \<Rightarrow> pg_db
     \<Rightarrow> error + (nat \<times> pg_db)"
where
  "sweep_rows [] processed race clk tx db = Inr (processed, db)"
| "sweep_rows ((k, m, item) # recs) processed race clk tx db =
     (let db0 = lock_session race k db
      in if session_live (db_sessions db0 k) (clk k 2) then sweep_rows recs processed race clk tx db0
         else case sweep_row k m item (clk k) tx db0 of
                Inl e \<Rightarrow> Inl e
              | Inr db1 \<Rightarrow> sweep_rows recs (Suc processed) race clk tx db1)"

definition sweep_selected ::
    "nat \<Rightarrow> (session_key \<Rightarrow> bool) \<Rightarrow> batch_clock \<Rightarrow> pg_db
     \<Rightarrow> (session_key \<times> session_mailbox \<times> mailbox_item option) list"
where
  "sweep_selected limit busy clk db =
     map (\<lambda>(k, m). (k, m, Option.bind (mb_processing_sequence m) (\<lambda>n. pg_item k n db)))
       (take_ordered (\<lambda>m. case mb_lease_expires_at m of Some t \<Rightarrow> t | None \<Rightarrow> 0) limit
          (filter (\<lambda>(k, m). mb_status m = RUNNING \<and> not_later_than (mb_lease_expires_at m) (clk k 0)
                          \<and> \<not> session_live (db_sessions db k) (clk k 1) \<and> \<not> busy k)
                  (db_mailboxes db)))"

definition recovery_limit_range :: error where
  "recovery_limit_range = ValueError ''recovery limit must be between 1 and 1000''"

definition pg_sweep_expired_leases ::
    "int \<Rightarrow> (session_key \<Rightarrow> bool) \<Rightarrow> (session_key \<Rightarrow> session_row option \<Rightarrow> session_row option)
     \<Rightarrow> batch_clock \<Rightarrow> time \<Rightarrow> pg_db \<Rightarrow> (nat, pg_db) outcome"
where
  "pg_sweep_expired_leases limit busy race clk tx db =
     (if limit < 1 \<or> 1000 < limit then raise_in db recovery_limit_range
      else transaction db (sweep_rows (sweep_selected (nat limit) busy clk db) 0 race clk tx db))"

text \<open>Retries: an inner join with the head item.\<close>

definition schedule_row ::
    "session_key \<Rightarrow> session_mailbox \<Rightarrow> mailbox_item \<Rightarrow> (nat \<Rightarrow> time) \<Rightarrow> time \<Rightarrow> pg_db \<Rightarrow> error + pg_db"
where
  "schedule_row k m it clk tx db =
     (let row = m\<lparr>mb_status := QUEUED, mb_retry_at := None,
                  mb_queue_generation := mb_queue_generation m + 1, mb_updated_at := clk 1\<rparr>
      in case update_mailbox k row db of
           Inl e \<Rightarrow> Inl e
         | Inr db1 \<Rightarrow>
             Inr (insert_ready_event k (mb_queue_generation row) (it_priority it) (it_trace_id it) (clk 2) tx db1))"

fun schedule_rows ::
    "(session_key \<times> session_mailbox \<times> mailbox_item) list \<Rightarrow> nat \<Rightarrow> batch_clock \<Rightarrow> time \<Rightarrow> pg_db
     \<Rightarrow> error + (nat \<times> pg_db)"
where
  "schedule_rows [] processed clk tx db = Inr (processed, db)"
| "schedule_rows ((k, m, it) # recs) processed clk tx db =
     (case schedule_row k m it (clk k) tx db of
        Inl e \<Rightarrow> Inl e
      | Inr db1 \<Rightarrow> schedule_rows recs (Suc processed) clk tx db1)"

definition schedule_selected ::
    "nat \<Rightarrow> (session_key \<Rightarrow> bool) \<Rightarrow> batch_clock \<Rightarrow> pg_db
     \<Rightarrow> (session_key \<times> session_mailbox \<times> mailbox_item) list"
where
  "schedule_selected limit busy clk db =
     map (\<lambda>(k, m). (k, m, the (pg_item k (mb_resolved_sequence m + 1) db)))
       (take_ordered (\<lambda>m. case mb_retry_at m of Some t \<Rightarrow> t | None \<Rightarrow> 0) limit
          (filter (\<lambda>(k, m). mb_status m = RETRY_WAIT \<and> not_later_than (mb_retry_at m) (clk k 0)
                          \<and> pg_item k (mb_resolved_sequence m + 1) db \<noteq> None \<and> \<not> busy k)
                  (db_mailboxes db)))"

definition pg_schedule_retries ::
    "int \<Rightarrow> (session_key \<Rightarrow> bool) \<Rightarrow> batch_clock \<Rightarrow> time \<Rightarrow> pg_db \<Rightarrow> (nat, pg_db) outcome"
where
  "pg_schedule_retries limit busy clk tx db =
     (if limit < 1 \<or> 1000 < limit then raise_in db recovery_limit_range
      else transaction db (schedule_rows (schedule_selected (nat limit) busy clk db) 0 clk tx db))"

subsection \<open>Reconciliation\<close>

definition inbound_committed :: "session_key \<Rightarrow> nat \<Rightarrow> pg_db \<Rightarrow> bool" where
  "inbound_committed k n db =
     (case pg_item k n db of
        None \<Rightarrow> False
      | Some it \<Rightarrow> db_inbound db (fst k, it_inbound_id it) = Some ''committed''
                 \<and> db_resolved_at db k n = None)"

text \<open>\<^verbatim>\<open>coalesce(m.processing_sequence, m.resolved_sequence+1)\<close>.\<close>

definition joined_sequence :: "session_mailbox \<Rightarrow> nat" where
  "joined_sequence m =
     (case mb_processing_sequence m of Some n \<Rightarrow> n | None \<Rightarrow> mb_resolved_sequence m + 1)"

definition needs_reconcile :: "session_key \<Rightarrow> session_mailbox \<Rightarrow> time \<Rightarrow> pg_db \<Rightarrow> bool" where
  "needs_reconcile k m now db =
     ((mb_status m \<noteq> RUNNING
         \<and> (mb_processing_sequence m \<noteq> None \<or> mb_processing_inbound_id m \<noteq> None
            \<or> mb_lease_owner m \<noteq> None \<or> mb_lease_expires_at m \<noteq> None))
      \<or> (mb_status m = RUNNING \<and> not_later_than (mb_lease_expires_at m) now)
      \<or> (mb_accepted_sequence m \<le> mb_resolved_sequence m \<and> mb_status m \<noteq> IDLE)
      \<or> (mb_resolved_sequence m < mb_accepted_sequence m \<and> mb_status m = IDLE)
      \<or> (mb_status m = RETRY_WAIT \<and> mb_retry_at m = None)
      \<or> (mb_status m = QUEUED \<and> pg_item k (joined_sequence m) db = None)
      \<or> (mb_status m = QUEUED \<and> mb_updated_at m \<le> now - seconds 5)
      \<or> inbound_committed k (joined_sequence m) db)"

text \<open>The branch for a head whose message is committed already: it is resolved.\<close>

definition reconcile_committed_row ::
    "session_key \<Rightarrow> session_mailbox \<Rightarrow> nat \<Rightarrow> (nat \<Rightarrow> time) \<Rightarrow> time \<Rightarrow> pg_db \<Rightarrow> error + pg_db"
where
  "reconcile_committed_row k m n clk tx db =
     (let db1 = set_resolved_at k n (clk 3) db;
          next_item = pg_item k (n + 1) db1;
          status = (if next_item = None \<or> mb_accepted_sequence m \<le> n then IDLE
                    else if retry_pending next_item (clk 4) then RETRY_WAIT else QUEUED);
          row = unleased_row (m\<lparr>mb_resolved_sequence := n\<rparr>) status (retry_column status next_item)
                  (if status = QUEUED then 1 else 0) (clk 5)
      in case update_mailbox k row db1 of
           Inl e \<Rightarrow> Inl e
         | Inr db2 \<Rightarrow>
             (let db3 = clear_session_lease k m (clk 6) db2
              in Inr (if status = QUEUED
                      then insert_ready_event k (mb_queue_generation row) (coalesce_priority next_item)
                             (coalesce_trace next_item None (snd k)) (clk 7) tx db3
                      else db3)))"

text \<open>Re-opening the wake-up of the current generation. The cooldown argument of the function is not used.\<close>

definition reopen_ready_event ::
    "session_key \<Rightarrow> nat \<Rightarrow> int \<Rightarrow> string \<Rightarrow> (nat \<Rightarrow> time) \<Rightarrow> time \<Rightarrow> pg_db \<Rightarrow> pg_db"
where
  "reopen_ready_event k generation priority trace_id clk tx db =
     (let hit = (\<lambda>e. ready_event_for k generation e \<and> ev_aggregate_type e = ''session''
                    \<and> \<not> later_than (ev_claim_expires_at e) (clk 6))
      in if list_ex hit (db_outbox db)
         then db\<lparr>db_outbox := map (\<lambda>e. if hit e then reopen_event (clk 6) e else e) (db_outbox db)\<rparr>
         else insert_ready_event k generation priority trace_id (clk 7) tx db)"

definition reconcile_open_row ::
    "session_key \<Rightarrow> session_mailbox \<Rightarrow> mailbox_item option \<Rightarrow> (nat \<Rightarrow> time) \<Rightarrow> time \<Rightarrow> pg_db \<Rightarrow> error + pg_db"
where
  "reconcile_open_row k m item clk tx db =
     (let status = (if mb_accepted_sequence m \<le> mb_resolved_sequence m \<or> item = None then IDLE
                    else if retry_pending item (clk 3) then RETRY_WAIT else QUEUED);
          fresh = (mb_status m \<noteq> QUEUED \<or> mb_queue_generation m < 1);
          row = unleased_row m status (retry_column status item)
                  (if status = QUEUED \<and> fresh then 1 else 0) (clk 4)
      in case update_mailbox k row db of
           Inl e \<Rightarrow> Inl e
         | Inr db1 \<Rightarrow>
             (let db2 = clear_session_lease k m (clk 5) db1;
                  trace = coalesce_trace item None (snd k)
              in Inr (if status = QUEUED
                      then if fresh
                           then insert_ready_event k (mb_queue_generation row) (coalesce_priority item) trace
                                  (clk 6) tx db2
                           else reopen_ready_event k (mb_queue_generation row) (coalesce_priority item) trace
                                  clk tx db2
                      else db2)))"

fun reconcile_rows ::
    "(session_key \<times> session_mailbox \<times> nat \<times> mailbox_item option \<times> bool) list \<Rightarrow> nat
     \<Rightarrow> (session_key \<Rightarrow> session_row option \<Rightarrow> session_row option) \<Rightarrow> batch_clock \<Rightarrow> time \<Rightarrow> pg_db
     \<Rightarrow> error + (nat \<times> pg_db)"
where
  "reconcile_rows [] processed race clk tx db = Inr (processed, db)"
| "reconcile_rows ((k, m, n, item, committed) # recs) processed race clk tx db =
     (let db0 = lock_session race k db
      in if session_live (db_sessions db0 k) (clk k 2) then reconcile_rows recs processed race clk tx db0
         else case (if committed then reconcile_committed_row k m n (clk k) tx db0
                    else reconcile_open_row k m item (clk k) tx db0) of
                Inl e \<Rightarrow> Inl e
              | Inr db1 \<Rightarrow> reconcile_rows recs (Suc processed) race clk tx db1)"

definition reconcile_selected ::
    "nat \<Rightarrow> (session_key \<Rightarrow> bool) \<Rightarrow> batch_clock \<Rightarrow> pg_db
     \<Rightarrow> (session_key \<times> session_mailbox \<times> nat \<times> mailbox_item option \<times> bool) list"
where
  "reconcile_selected limit busy clk db =
     map (\<lambda>(k, m). let n = joined_sequence m in (k, m, n, pg_item k n db, inbound_committed k n db))
       (take_ordered mb_updated_at limit
          (filter (\<lambda>(k, m). needs_reconcile k m (clk k 0) db
                          \<and> \<not> session_live (db_sessions db k) (clk k 1) \<and> \<not> busy k)
                  (db_mailboxes db)))"

definition pg_reconcile_sessions ::
    "int \<Rightarrow> int \<Rightarrow> (session_key \<Rightarrow> bool) \<Rightarrow> (session_key \<Rightarrow> session_row option \<Rightarrow> session_row option)
     \<Rightarrow> batch_clock \<Rightarrow> time \<Rightarrow> pg_db \<Rightarrow> (nat, pg_db) outcome"
where
  "pg_reconcile_sessions limit cooldown_seconds busy race clk tx db =
     (if limit < 1 \<or> 1000 < limit then raise_in db recovery_limit_range
      else transaction db
             (if cooldown_seconds < 5 \<or> 86400 < cooldown_seconds
              then Inl (PostgresError ''ready replay cooldown must be between 5 and 86400 seconds'')
              else reconcile_rows (reconcile_selected (nat limit) busy clk db) 0 race clk tx db))"

end
