(* ===== verification/Pg_Inv.thy ===== *)
theory Pg_Inv
  imports Pg_Recovery Mailbox_Inv
begin

text \<open>
  The invariant of the PostgreSQL mailbox and its preservation by every transaction. The mailbox tables
  are read as a store of the in-memory kind (\<open>mailbox_view\<close>

), which has to satisfy the invariant of that
  store; \<open>pg_session_ok\<close> adds what the database keeps in addition (table constraints, canonical
  identifiers, the \<^verbatim>\<open>resolved_at\<close> marks).
\<close>

declare split_paired_All [simp del] split_paired_Ex [simp del]

subsection \<open>The mailbox tables as a mailbox store\<close>

definition is_ready_event :: "outbox_event \<Rightarrow> bool" where
  "is_ready_event e = (ob_event_type e = ''session.ready.v2'')"

definition mailbox_view :: "pg_db \<Rightarrow> mailbox_store" where
  "mailbox_view db =
     \<lparr>ms_mailboxes = db_mailboxes db, ms_items = db_items db,
      ms_outbox = map outbox_record.truncate (filter is_ready_event (db_outbox db)),
      ms_uuid = db_uuid db, ms_uuids_drawn = db_uuids_drawn db\<rparr>"

lemma truncate_fields [simp]:
  "ob_outbox_id (outbox_record.truncate e) = ob_outbox_id e"
  "ob_tenant_id (outbox_record.truncate e) = ob_tenant_id e"
  "ob_event_type (outbox_record.truncate e) = ob_event_type e"
  "ob_aggregate_id (outbox_record.truncate e) = ob_aggregate_id e"
  "ob_payload (outbox_record.truncate e) = ob_payload e"
  by (simp_all add: outbox_record.truncate_def)

lemma view_fields [simp]:
  "ms_get k (mailbox_view db) = pg_get k db"
  "ms_item k n (mailbox_view db) = pg_item k n db"
  "ms_items (mailbox_view db) = db_items db"
  "ms_mailboxes (mailbox_view db) = db_mailboxes db"
  by (simp_all add: mailbox_view_def ms_get_def pg_get_def ms_item_def pg_item_def)

lemma update_mailbox_Inr:
  "update_mailbox k m db = Inr db' \<longleftrightarrow>
     mailbox_row_ok m \<and> db' = db\<lparr>db_mailboxes := AList.update k m (db_mailboxes db)\<rparr>"
  by (auto simp: update_mailbox_def)

lemma view_put [simp]:
  "mailbox_view (db\<lparr>db_mailboxes := AList.update k m (db_mailboxes db)\<rparr>) = ms_put k m (mailbox_view db)"
  by (simp add: mailbox_view_def ms_put_def)

lemma view_update_item [simp]:
  "mailbox_view (update_item k n it db) = ms_put_item k n it (mailbox_view db)"
  by (simp add: mailbox_view_def ms_put_item_def update_item_def)

lemma view_irrelevant [simp]:
  "mailbox_view (set_resolved_at k n t db) = mailbox_view db"
  "mailbox_view (lock_session race k db) = mailbox_view db"
  "mailbox_view (clear_session_lease k m t db) = mailbox_view db"
  by (simp_all add: mailbox_view_def set_resolved_at_def lock_session_def clear_session_lease_def
      split: option.splits)

lemma conflict_iff:
  "list_ex (ready_event_for k g) (db_outbox db) \<longleftrightarrow>
     Some (JInt (int g)) \<in> set (ready_generations k (mailbox_view db))"
  by (auto simp: list_ex_iff ready_generations_def mailbox_view_def ready_event_for_def ready_record_for_def
      is_ready_event_def image_iff)

text \<open>An item that carries a given trace.\<close>

definition trace_item :: "int \<Rightarrow> string \<Rightarrow> mailbox_item" where
  "trace_item priority trace =
     \<lparr>it_tenant_id = [], it_session_id = [], it_inbound_id = trace, it_sequence = 0, it_trace_id = trace,
      it_priority = priority, it_retry_count = 0, it_attempt = 0, it_retry_at = None, it_accepted_at = 0\<rparr>"

lemma view_insert:
  assumes "\<not> list_ex (ready_event_for (mb_key m) g) (db_outbox db)"
  shows "mailbox_view (insert_ready_event (mb_key m) g p tr now tx db) =
     snd (append_ready m (trace_item p tr) (floor_ms now) g (mailbox_view db))"
  using assms
  by (simp add: insert_ready_event_def mailbox_view_def append_ready_def trace_item_def str_or_def
      is_ready_event_def outbox_record.truncate_def)

lemma view_reopen:
  assumes "\<And>e. outbox_record.truncate (f e) = outbox_record.truncate e"
  shows "mailbox_view (db\<lparr>db_outbox := map (\<lambda>e. if P e then f e else e) (db_outbox db)\<rparr>) = mailbox_view db"
proof -
  have r: "is_ready_event (f e) = is_ready_event e" for e
    using arg_cong [OF assms [of e], of ob_event_type] by (simp add: is_ready_event_def)
  have "map outbox_record.truncate (filter is_ready_event (map (\<lambda>e. if P e then f e else e) xs))
      = map outbox_record.truncate (filter is_ready_event xs)" for xs
    by (induction xs) (auto simp: assms r)
  then show ?thesis by (simp add: mailbox_view_def)
qed

lemma truncate_reopen [simp]: "outbox_record.truncate (reopen_event now e) = outbox_record.truncate e"
  by (simp add: reopen_event_def outbox_record.truncate_def)

lemma append_put:
  "snd (append_ready m it t g (ms_put k r st)) = ms_put k r (snd (append_ready m it t g st))"
  by (simp add: append_ready_def ms_put_def)

lemma put_item_put: "ms_put k m (ms_put_item k n it st) = ms_put_item k n it (ms_put k m st)"
  by (simp add: ms_put_item_def ms_put_def)

lemma pg_get_simps [fields_simps]:
  "pg_get k' (db\<lparr>db_mailboxes := AList.update k m (db_mailboxes db)\<rparr>) = (if k' = k then Some m else pg_get k' db)"
  "pg_get k' (update_item k n it db) = pg_get k' db"
  "pg_get k' (set_resolved_at k n t db) = pg_get k' db"
  "pg_get k' (insert_ready_event k g p tr now tx db) = pg_get k' db"
  "pg_get k' (lock_session race k db) = pg_get k' db"
  "pg_get k' (clear_session_lease k m t db) = pg_get k' db"
  by (simp_all add: pg_get_def update_item_def set_resolved_at_def insert_ready_event_def lock_session_def
      clear_session_lease_def split: option.splits)

lemma pg_item_simps [fields_simps]:
  "pg_item k' n' (db\<lparr>db_mailboxes := ms\<rparr>) = pg_item k' n' db"
  "pg_item k' n' (update_item k n it db) = (if k' = k \<and> n' = n then Some it else pg_item k' n' db)"
  "pg_item k' n' (set_resolved_at k n t db) = pg_item k' n' db"
  "pg_item k' n' (insert_ready_event k g p tr now tx db) = pg_item k' n' db"
  "pg_item k' n' (lock_session race k db) = pg_item k' n' db"
  "pg_item k' n' (clear_session_lease k m t db) = pg_item k' n' db"
  by (simp_all add: pg_item_def update_item_def set_resolved_at_def insert_ready_event_def lock_session_def
      clear_session_lease_def split: option.splits)

lemma db_resolved_simps [fields_simps]:
  "db_resolved_at (db\<lparr>db_mailboxes := ms\<rparr>) = db_resolved_at db"
  "db_resolved_at (update_item k n it db) = db_resolved_at db"
  "db_resolved_at (insert_ready_event k g p tr now tx db) = db_resolved_at db"
  "db_resolved_at (lock_session race k db) = db_resolved_at db"
  "db_resolved_at (clear_session_lease k m t db) = db_resolved_at db"
  "db_resolved_at (set_resolved_at k n t db) k' n' =
     (if k' = k \<and> n' = n \<and> pg_item k n db \<noteq> None then Some t else db_resolved_at db k' n')"
  by (auto simp: update_item_def set_resolved_at_def insert_ready_event_def lock_session_def
      clear_session_lease_def split: option.splits)

subsection \<open>The invariant\<close>

definition pg_session_ok :: "session_key \<Rightarrow> pg_db \<Rightarrow> bool" where
  "pg_session_ok k db \<longleftrightarrow>
     (\<forall>m. pg_get k db = Some m \<longrightarrow> mailbox_row_ok m
        \<and> (\<forall>n it. mb_processing_sequence m = Some n \<longrightarrow> pg_item k n db = Some it \<longrightarrow> mb_attempt m = it_attempt it))
   \<and> (\<forall>n it. pg_item k n db = Some it \<longrightarrow>
        0 \<le> it_priority it \<and> it_trace_id it \<noteq> [] \<and> uuid_of (it_inbound_id it) = Some (it_inbound_id it))
   \<and> (\<forall>n. db_resolved_at db k n \<noteq> None \<longleftrightarrow>
        1 \<le> n \<and> (\<exists>m. pg_get k db = Some m \<and> n \<le> mb_resolved_sequence m))"

definition pg_inv :: "pg_db \<Rightarrow> bool" where
  "pg_inv db \<longleftrightarrow> store_inv (mailbox_view db) \<and> (\<forall>k. pg_session_ok k db)"

lemma pg_inv_view: "pg_inv db \<Longrightarrow> store_inv (mailbox_view db)"
  by (simp add: pg_inv_def)

lemma pg_inv_session: "pg_inv db \<Longrightarrow> pg_session_ok k db"
  by (simp add: pg_inv_def)

lemma pg_invD:
  assumes "pg_inv db" and "pg_get k db = Some m"
  shows "mb_tenant_id m = fst k" and "mb_session_id m = snd k" and "mailbox_wf m"
    and "items_wf k (mb_accepted_sequence m) (db_items db k)"
    and "ready_generations k (mailbox_view db) = generations_upto (mb_queue_generation m)"
    and "mb_processing_sequence m = Some n \<Longrightarrow>
           \<exists>it. pg_item k n db = Some it \<and> mb_processing_inbound_id m = Some (it_inbound_id it)"
    and "mailbox_row_ok m"
    and "pg_item k i db = Some it \<longleftrightarrow> 1 \<le> i \<and> i \<le> mb_accepted_sequence m \<and> pg_item k i db = Some it"
proof -
  have g: "ms_get k (mailbox_view db) = Some m" using assms(2) by simp
  note d = store_invD [OF pg_inv_view [OF assms(1)] g]
  show "mb_tenant_id m = fst k" "mb_session_id m = snd k" "mailbox_wf m"
    and w: "items_wf k (mb_accepted_sequence m) (db_items db k)"
    and "ready_generations k (mailbox_view db) = generations_upto (mb_queue_generation m)"
    using d(1-5) by simp_all
  show "\<exists>it. pg_item k n db = Some it \<and> mb_processing_inbound_id m = Some (it_inbound_id it)"
    if "mb_processing_sequence m = Some n" using d(6) [OF that] by simp
  show "mailbox_row_ok m" using pg_inv_session [OF assms(1), of k] assms(2) by (simp add: pg_session_ok_def)
  show "pg_item k i db = Some it \<longleftrightarrow> 1 \<le> i \<and> i \<le> mb_accepted_sequence m \<and> pg_item k i db = Some it"
    using item_exists [OF w, of i] by (auto simp: pg_item_def)
qed

lemma next_generation_fresh:
  assumes "pg_inv db" and "pg_get k db = Some m"
  shows "\<not> list_ex (ready_event_for k (Suc (mb_queue_generation m))) (db_outbox db)"
  using pg_invD(5) [OF assms] by (auto simp: conflict_iff generations_upto_def)

text \<open>A transaction changes the rows of one session only.\<close>

definition same_elsewhere :: "session_key \<Rightarrow> pg_db \<Rightarrow> pg_db \<Rightarrow> bool" where
  "same_elsewhere k db db' \<longleftrightarrow>
     (\<forall>k'. k' \<noteq> k \<longrightarrow> pg_get k' db' = pg_get k' db \<and> db_items db' k' = db_items db k'
        \<and> db_resolved_at db' k' = db_resolved_at db k')"

lemma pg_inv_local:
  assumes "pg_inv db" and "same_elsewhere k db db'" and "store_inv (mailbox_view db')" and "pg_session_ok k db'"
  shows "pg_inv db'"
proof -
  have "pg_session_ok k' db'" for k'
  proof (cases "k' = k")
    case False
    with assms(2) have "pg_get k' db' = pg_get k' db" "\<And>n. pg_item k' n db' = pg_item k' n db"
      "db_resolved_at db' k' = db_resolved_at db k'"
      by (simp_all add: same_elsewhere_def pg_item_def)
    with pg_inv_session [OF assms(1), of k'] show ?thesis by (simp add: pg_session_ok_def)
  qed (use assms(4) in simp)
  with assms(3) show ?thesis by (simp add: pg_inv_def)
qed

lemma same_elsewhereI [intro?]:
  assumes "\<And>k'. k' \<noteq> k \<Longrightarrow> pg_get k' db' = pg_get k' db"
    and "\<And>k'. k' \<noteq> k \<Longrightarrow> db_items db' k' = db_items db k'"
    and "\<And>k'. k' \<noteq> k \<Longrightarrow> db_resolved_at db' k' = db_resolved_at db k'"
  shows "same_elsewhere k db db'"
  using assms by (simp add: same_elsewhere_def)

lemma elsewhere_simps [fields_simps]:
  "db_items (db\<lparr>db_mailboxes := ms\<rparr>) k' = db_items db k'"
  "db_items (update_item k n it db) k' = (if k' = k then AList.update n it (db_items db k) else db_items db k')"
  "db_items (set_resolved_at k n t db) k' = db_items db k'"
  "db_items (insert_ready_event k g p tr now tx db) k' = db_items db k'"
  "db_items (lock_session race k db) k' = db_items db k'"
  "db_items (clear_session_lease k m t db) k' = db_items db k'"
  by (simp_all add: update_item_def set_resolved_at_def insert_ready_event_def lock_session_def
      clear_session_lease_def split: option.splits)

lemma resolved_elsewhere [fields_simps]:
  "k' \<noteq> k \<Longrightarrow> db_resolved_at (set_resolved_at k n t db) k' = db_resolved_at db k'"
  by (simp add: set_resolved_at_def)

subsection \<open>Writing a row without lease\<close>

text \<open>
  Committing, releasing and every form of recovery end by clearing the lease columns, with a wake-up of the
  next generation or without one.
\<close>

definition without_lease :: "session_mailbox \<Rightarrow> session_mailbox \<Rightarrow> bool" where
  "without_lease m row \<longleftrightarrow>
     unleased row \<and> mb_status row \<noteq> RUNNING \<and> mb_tenant_id row = mb_tenant_id m \<and> mb_session_id row = mb_session_id m
   \<and> mb_accepted_sequence row = mb_accepted_sequence m \<and> mb_resolved_sequence row \<le> mb_accepted_sequence m
   \<and> (mb_status row = IDLE \<longleftrightarrow> mb_resolved_sequence row = mb_accepted_sequence m)"

lemma view_unleased_inv:
  assumes "store_inv (mailbox_view db)" and "pg_get k db = Some m" and "without_lease m row"
    and "mb_queue_generation row = mb_queue_generation m" and "mb_status row = QUEUED \<Longrightarrow> 1 \<le> mb_queue_generation m"
  shows "store_inv (ms_put k row (mailbox_view db))"
  using assms(2-) by (intro store_inv_put_unleased [OF assms(1)]) (auto simp: without_lease_def mailbox_wf_unleased)

lemma view_emit_inv:
  assumes "store_inv (mailbox_view db)" and "pg_get k db = Some m" and "without_lease m row"
    and "mb_queue_generation row = Suc (mb_queue_generation m)" and "mb_status row = QUEUED"
  shows "store_inv (mailbox_view (insert_ready_event k (mb_queue_generation row) p tr now tx
           (db\<lparr>db_mailboxes := AList.update k row (db_mailboxes db)\<rparr>)))"
proof -
  note d = store_invD [OF assms(1), of k m]
  have k: "mb_key row = k" using assms(2,3) d(1,2) by (simp add: without_lease_def)
  let ?db = "db\<lparr>db_mailboxes := AList.update k row (db_mailboxes db)\<rparr>"
  have "\<not> list_ex (ready_event_for k (mb_queue_generation row)) (db_outbox ?db)"
    using d(5) assms(2,4) conflict_iff [of k "mb_queue_generation row" db] by (auto simp: generations_upto_def)
  then have v: "mailbox_view (insert_ready_event k (mb_queue_generation row) p tr now tx ?db) =
      ms_put k row (snd (append_ready row (trace_item p tr) (floor_ms now) (mb_queue_generation row) (mailbox_view db)))"
    using view_insert [of row "mb_queue_generation row" ?db p tr now tx] k by (simp add: append_put)
  let ?row = "row\<lparr>mb_queue_generation := mb_queue_generation m\<rparr>"
  have r: "row\<lparr>mb_queue_generation := Suc (mb_queue_generation m)\<rparr> = row" using assms(4) by (cases row) simp
  have e: "emit_ready ?row (trace_item p tr) (floor_ms now) (mailbox_view db) =
      (row, snd (append_ready row (trace_item p tr) (floor_ms now) (mb_queue_generation row) (mailbox_view db)))"
    by (simp add: emit_ready_eq assms(4) r)
  have "mb_resolved_sequence row < mb_accepted_sequence row"
    using assms(3,5) by (auto simp: without_lease_def)
  then show ?thesis unfolding v using assms(2,3,5)
    by (intro store_inv_emit_unleased [OF assms(1) _ _ _ _ _ _ _ _ e]) (auto simp: without_lease_def unleased_def)
qed

definition items_ok :: "session_key \<Rightarrow> pg_db \<Rightarrow> bool" where
  "items_ok k db \<longleftrightarrow>
     (\<forall>n it. pg_item k n db = Some it \<longrightarrow>
        0 \<le> it_priority it \<and> it_trace_id it \<noteq> [] \<and> uuid_of (it_inbound_id it) = Some (it_inbound_id it))"

definition resolved_upto :: "session_key \<Rightarrow> nat \<Rightarrow> pg_db \<Rightarrow> bool" where
  "resolved_upto k r db \<longleftrightarrow> (\<forall>n. db_resolved_at db k n \<noteq> None \<longleftrightarrow> 1 \<le> n \<and> n \<le> r)"

lemma pg_session_okD:
  assumes "pg_inv db"
  shows "items_ok k db" and "pg_get k db = Some m \<Longrightarrow> resolved_upto k (mb_resolved_sequence m) db"
  using pg_inv_session [OF assms, of k] by (auto simp: pg_session_ok_def items_ok_def resolved_upto_def)

text \<open>
  The last statements of a transaction. \<open>base\<close> is the database when the mailbox row is written.
\<close>

lemma pg_finish:
  assumes "pg_inv db" and "same_elsewhere k db base" and "store_inv (mailbox_view base)" and "pg_get k base = Some m"
    and "items_ok k base" and "resolved_upto k (mb_resolved_sequence row) base"
    and "without_lease m row" and "mailbox_row_ok row"
    and "if fresh then mb_queue_generation row = Suc (mb_queue_generation m) \<and> mb_status row = QUEUED
         else mb_queue_generation row = mb_queue_generation m \<and> (mb_status row = QUEUED \<longrightarrow> 1 \<le> mb_queue_generation m)"
    and "db1 = base\<lparr>db_mailboxes := AList.update k row (db_mailboxes base)\<rparr>"
    and "db2 = (if fresh then insert_ready_event k (mb_queue_generation row) p tr now tx db1 else db1)"
  shows "pg_inv db2"
proof (rule pg_inv_local [OF assms(1)])
  show "same_elsewhere k db db2"
    using assms(2) unfolding assms(10,11) by (auto simp: same_elsewhere_def fields_simps)
  show "store_inv (mailbox_view db2)"
    using assms(9) view_emit_inv [OF assms(3,4,7)] view_unleased_inv [OF assms(3,4,7)]
    unfolding assms(10,11) by (cases fresh) simp_all
  have "mb_processing_sequence row = None" using assms(7) by (simp add: without_lease_def unleased_def)
  then show "pg_session_ok k db2"
    using assms(5,6,8) unfolding assms(10,11)
    by (auto simp: pg_session_ok_def items_ok_def resolved_upto_def fields_simps)
qed

lemma pg_inv_sessions:
  assumes "pg_inv db"
  shows "pg_inv (db\<lparr>db_sessions := ss\<rparr>)"
proof -
  have "mailbox_view (db\<lparr>db_sessions := ss\<rparr>) = mailbox_view db" by (simp add: mailbox_view_def)
  moreover have "pg_session_ok k (db\<lparr>db_sessions := ss\<rparr>) = pg_session_ok k db" for k
    by (simp add: pg_session_ok_def pg_get_def pg_item_def)
  ultimately show ?thesis using assms by (simp add: pg_inv_def)
qed

lemma pg_inv_outbox:
  assumes "pg_inv db" and "mailbox_view (db\<lparr>db_outbox := es\<rparr>) = mailbox_view db"
  shows "pg_inv (db\<lparr>db_outbox := es\<rparr>)"
proof -
  have "pg_session_ok k (db\<lparr>db_outbox := es\<rparr>) = pg_session_ok k db" for k
    by (simp add: pg_session_ok_def pg_get_def pg_item_def)
  then show ?thesis using assms by (simp add: pg_inv_def)
qed

lemma pg_inv_lock: "pg_inv db \<Longrightarrow> pg_inv (lock_session race k db)"
  by (simp add: lock_session_def pg_inv_sessions)

lemma pg_inv_clear: "pg_inv db \<Longrightarrow> pg_inv (clear_session_lease k m t db)"
  by (simp add: clear_session_lease_def pg_inv_sessions split: option.splits)

lemma insert_clear:
  "insert_ready_event k g p tr now tx (clear_session_lease k' m t db) =
     clear_session_lease k' m t (insert_ready_event k g p tr now tx db)"
  by (simp add: insert_ready_event_def clear_session_lease_def split: option.splits)

lemma transaction_inv:
  assumes "pg_inv db" and "\<And>a db'. body = Inr (a, db') \<Longrightarrow> pg_inv db'"
  shows "pg_inv (snd (transaction db body))"
  using assms by (auto simp: transaction_def split: sum.splits)

lemma unleased_row_fields [simp]:
  "unleased (unleased_row m s r i t)" "mb_status (unleased_row m s r i t) = s"
  "mb_tenant_id (unleased_row m s r i t) = mb_tenant_id m" "mb_session_id (unleased_row m s r i t) = mb_session_id m"
  "mb_accepted_sequence (unleased_row m s r i t) = mb_accepted_sequence m"
  "mb_resolved_sequence (unleased_row m s r i t) = mb_resolved_sequence m"
  "mb_queue_generation (unleased_row m s r i t) = mb_queue_generation m + i"
  "mb_lease_epoch (unleased_row m s r i t) = mb_lease_epoch m"
  "mb_priority (unleased_row m s r i t) = mb_priority m"
  "mb_retry_at (unleased_row m s r i t) = r"
  by (simp_all add: unleased_row_def unleased_def)

lemma unleased_row_ok: "mailbox_row_ok m \<Longrightarrow> s \<noteq> RUNNING \<Longrightarrow> mailbox_row_ok (unleased_row m s r i t)"
  by (simp add: mailbox_row_ok_def unleased_row_def)

subsection \<open>Recovery of one session\<close>

declare One_nat_def [simp del]

lemma pg_head_status:
  assumes "pg_inv db" and "pg_get k db = Some m"
    and "head_status (pg_item k (head_sequence m) db) (head_sequence m) m now = (s, r)"
  shows "s = IDLE \<longleftrightarrow> mb_resolved_sequence m = mb_accepted_sequence m" and "s \<noteq> RUNNING"
    and "s = QUEUED \<Longrightarrow> pg_item k (head_sequence m) db \<noteq> None"
    and "mb_resolved_sequence m \<le> mb_accepted_sequence m"
proof -
  have g: "ms_get k (mailbox_view db) = Some m" using assms(2) by simp
  have h: "head_status (ms_item k (head_sequence m) (mailbox_view db)) (head_sequence m) m now = (s, r)"
    using assms(3) by simp
  note d = head_status_wf [OF pg_inv_view [OF assms(1)] g h]
  show "s = IDLE \<longleftrightarrow> mb_resolved_sequence m = mb_accepted_sequence m" "s \<noteq> RUNNING"
    "mb_resolved_sequence m \<le> mb_accepted_sequence m" by (fact d(1,2,4))+
  show "s = QUEUED \<Longrightarrow> pg_item k (head_sequence m) db \<noteq> None"
    using assms(3) by (auto simp: head_status_def split: option.splits)
qed

lemma pg_unleased_inv:
  assumes "pg_inv db" and "pg_get k db = Some m" and "s \<noteq> RUNNING"
    and "s = IDLE \<longleftrightarrow> mb_resolved_sequence m = mb_accepted_sequence m"
    and "update_mailbox k (unleased_row m s r i t) db = Inr db1"
    and "if fresh then i = 1 \<and> s = QUEUED else i = 0 \<and> (s = QUEUED \<longrightarrow> 1 \<le> mb_queue_generation m)"
  shows "pg_inv (if fresh then insert_ready_event k (mb_queue_generation m + i) p tr now tx db1 else db1)"
proof -
  have d: "mb_resolved_sequence m \<le> mb_accepted_sequence m" using pg_invD(3) [OF assms(1,2)] by (simp add: mailbox_wf_def)
  have u: "mailbox_row_ok (unleased_row m s r i t)" "db1 = db\<lparr>db_mailboxes := AList.update k (unleased_row m s r i t) (db_mailboxes db)\<rparr>"
    using assms(5) by (auto simp: update_mailbox_Inr)
  show ?thesis
  proof (rule pg_finish [OF assms(1) _ pg_inv_view [OF assms(1)] assms(2) pg_session_okD(1) [OF assms(1)] _ _ u(1) _ u(2),
        where p = p and tr = tr and now = now and tx = tx and fresh = fresh])
    show "same_elsewhere k db db" by (simp add: same_elsewhere_def)
    show "resolved_upto k (mb_resolved_sequence (unleased_row m s r i t)) db"
      using pg_session_okD(2) [OF assms(1,2)] by simp
    show "without_lease m (unleased_row m s r i t)" using assms(3,4) d by (simp add: without_lease_def)
    show "if fresh then mb_queue_generation (unleased_row m s r i t) = Suc (mb_queue_generation m) \<and>
                 mb_status (unleased_row m s r i t) = QUEUED
          else mb_queue_generation (unleased_row m s r i t) = mb_queue_generation m \<and>
             (mb_status (unleased_row m s r i t) = QUEUED \<longrightarrow> 1 \<le> mb_queue_generation m)"
      using assms(6) by (cases fresh) simp_all
  qed simp
qed

lemma emit_ready_outbox_eq:
  assumes "pg_inv db" and "pg_get k db = Some m"
  shows "emit_ready_outbox (unleased_row m s r i t) it now tx =
     insert_ready_event k (mb_queue_generation m + i) (it_priority it) (item_trace it (unleased_row m s r i t)) now tx"
  using pg_invD(1,2) [OF assms] by (simp add: emit_ready_outbox_def fun_eq_iff)

lemma pg_recover_inv [inv_intros]:
  assumes "pg_inv db"
  shows "pg_inv (snd (pg_recover k clk db))"
proof (cases "pg_get k db")
  case None
  then show ?thesis using assms by (simp add: pg_recover_def transaction_def)
next
  case (Some m)
  obtain s r where h: "head_status (pg_item k (head_sequence m) db) (head_sequence m) m (clk 1) = (s, r)" by fastforce
  note hs = pg_head_status [OF assms Some h]
  have "pg_inv (if s = QUEUED then insert_ready_event k (mb_queue_generation m + (if s = QUEUED then 1 else 0)) p tr now tx db1 else db1)"
    if "update_mailbox k (unleased_row m s r (if s = QUEUED then 1 else 0) (clk 2)) db = Inr db1" for db1 p tr now tx
    using hs by (intro pg_unleased_inv [OF assms Some _ _ that]) auto
  then show ?thesis
    using assms hs(3) unfolding pg_recover_def
    by (intro transaction_inv) (auto simp: Some h Let_def emit_ready_outbox_eq [OF assms Some] split: sum.splits if_splits option.splits)
qed

lemma requeue_inv:
  assumes "pg_inv db" and "pg_get k db = Some m" and "1 \<le> mb_queue_generation m"
    and "mb_key m' = k" and "mb_queue_generation m' = mb_queue_generation m"
  shows "pg_inv (requeue_ready_outbox m' it c now tx db)"
proof -
  let ?hit = "\<lambda>e. ready_event_for k (mb_queue_generation m) e \<and> replay_due c now e"
  let ?db = "db\<lparr>db_outbox := map (\<lambda>e. if ?hit e then reopen_event now e else e) (db_outbox db)\<rparr>"
  have v: "mailbox_view ?db = mailbox_view db" by (rule view_reopen) simp
  have i: "pg_inv ?db" by (rule pg_inv_outbox [OF assms(1) v])
  have "list_ex (ready_event_for k (mb_queue_generation m)) (db_outbox ?db)"
    unfolding conflict_iff v pg_invD(5) [OF assms(1,2)] using assms(3) by (auto simp: generations_upto_def)
  then have "insert_ready_event k (mb_queue_generation m) p tr now tx ?db = ?db" for p tr
    unfolding insert_ready_event_def by (rule if_P)
  then show ?thesis using i assms(4,5) by (simp add: requeue_ready_outbox_def Let_def)
qed

lemma pg_reconcile_inv [inv_intros]:
  assumes "pg_inv db"
  shows "pg_inv (snd (pg_reconcile c k clk db))"
proof (cases "pg_get k db")
  case None
  then show ?thesis using assms by (simp add: pg_reconcile_def transaction_def)
next
  case (Some m)
  obtain s r where h: "head_status (pg_item k (head_sequence m) db) (head_sequence m) m (clk 0) = (s, r)" by fastforce
  note hs = pg_head_status [OF assms Some h]
  let ?fresh = "s = QUEUED \<and> \<not> (mb_status m = QUEUED \<and> 1 \<le> mb_queue_generation m)"
  let ?row = "unleased_row m s r (if ?fresh then 1 else 0) (clk 1)"
  have w: "pg_inv (if ?fresh then insert_ready_event k (mb_queue_generation m + (if ?fresh then 1 else 0)) p tr now tx db1 else db1)"
    if "update_mailbox k ?row db = Inr db1" for db1 p tr now tx
    using hs by (intro pg_unleased_inv [OF assms Some _ _ that]) auto
  have q: "pg_inv (requeue_ready_outbox ?row it c now tx db1)"
    if "update_mailbox k ?row db = Inr db1" "s = QUEUED" "\<not> ?fresh" for db1 it now tx
  proof (rule requeue_inv)
    show "pg_inv db1" using w [OF that(1)] unfolding if_not_P [OF that(3)] .
    show "pg_get k db1 = Some ?row" using that(1) by (auto simp: update_mailbox_Inr fields_simps)
    show "mb_key ?row = k" using pg_invD(1,2) [OF assms Some] by simp
  qed (use that(2,3) in simp_all)
  show ?thesis
    using assms hs(3) w q unfolding pg_reconcile_def
    by (intro transaction_inv) (auto simp: Some h Let_def emit_ready_outbox_eq [OF assms Some] split: sum.splits if_splits option.splits)
qed

subsection \<open>Accepting\<close>

lemma insert_mailbox_inv:
  assumes "pg_inv db" and "insert_mailbox k t db = Inr db1"
  shows "pg_inv db1" and "\<exists>m. pg_get k db1 = Some m"
proof -
  consider "pg_get k db \<noteq> None" "db1 = db"
    | "pg_get k db = None" "update_mailbox k (new_session_mailbox (fst k) (snd k) t) db = Inr db1"
    using assms(2) by (auto simp: insert_mailbox_def split: if_splits)
  then have "pg_inv db1 \<and> (\<exists>m. pg_get k db1 = Some m)"
  proof cases
    case 1
    then show ?thesis using assms(1) by auto
  next
    case 2
    let ?m = "new_session_mailbox (fst k) (snd k) t"
    have u: "mailbox_row_ok ?m" "db1 = db\<lparr>db_mailboxes := AList.update k ?m (db_mailboxes db)\<rparr>"
      using 2(2) by (auto simp: update_mailbox_Inr)
    have g: "ms_get k (mailbox_view db) = None" using 2(1) by simp
    have "db_items db k = []" using store_inv_absent [OF pg_inv_view [OF assms(1)] g] by simp
    moreover have "db_resolved_at db k n = None" for n
      using pg_inv_session [OF assms(1), of k] 2(1) by (simp add: pg_session_ok_def)
    ultimately have "pg_session_ok k db1" using u
      by (simp add: pg_session_ok_def fields_simps new_session_mailbox_def) (simp add: pg_item_def)
    moreover have "store_inv (mailbox_view db1)"
      using store_inv_ensure [OF pg_inv_view [OF assms(1)] g] by (simp add: u(2))
    moreover have "same_elsewhere k db db1" by (simp add: u(2) same_elsewhere_def fields_simps)
    ultimately show ?thesis using pg_inv_local [OF assms(1)] by (auto simp: u(2) fields_simps)
  qed
  then show "pg_inv db1" "\<exists>m. pg_get k db1 = Some m" by simp_all
qed

lemma accept_find: "find P (map snd xs) = None \<longleftrightarrow> \<not> list_ex (\<lambda>(n, it). P it) xs"
  by (auto simp: find_None_iff list_ex_iff)

lemma pg_accept_new_inv:
  assumes "pg_inv db" and "pg_get k db = Some m"
    and "\<not> list_ex (\<lambda>(n, it). it_inbound_id it = inbound) (db_items db k)"
    and "uuid_of inbound = Some inbound" and "0 \<le> p"
    and "pg_accept_new k inbound tr p r clk m db = Inr (a, db')"
  shows "pg_inv db'"
proof -
  let ?n = "mb_accepted_sequence m + 1"
  let ?it = "\<lparr>it_tenant_id = fst k, it_session_id = snd k, it_inbound_id = inbound, it_sequence = ?n,
     it_trace_id = tr, it_priority = p, it_retry_count = 0, it_attempt = 0, it_retry_at = r, it_accepted_at = clk 1\<rparr>"
  obtain s t where s: "accept_status m r (clk 2) = (s, t)" by fastforce
  let ?e = "s = QUEUED \<and> mb_status m \<in> {IDLE, RETRY_WAIT}"
  define row where "row = m\<lparr>mb_accepted_sequence := ?n, mb_status := s,
     mb_queue_generation := mb_queue_generation m + (if ?e then 1 else 0),
     mb_priority := max (mb_priority m) p, mb_retry_at := t, mb_updated_at := clk 3\<rparr>"
  obtain db1 db2 where i: "insert_item k ?n ?it db = Inr db1" and u: "update_mailbox k row db1 = Inr db2"
    and d: "db' = (if ?e then emit_ready_outbox row ?it (clk 4) (clk 0) db2 else db2)"
    using assms(6) unfolding pg_accept_new_def Let_def s row_def by (auto split: sum.splits)
  have db1: "db1 = update_item k ?n ?it db" and tr: "tr \<noteq> []"
    using i by (auto simp: insert_item_def bounded_text_def split: if_splits)
  have db2: "db2 = db1\<lparr>db_mailboxes := AList.update k row (db_mailboxes db1)\<rparr>" and ok: "mailbox_row_ok row"
    using u by (auto simp: update_mailbox_Inr)
  note m = pg_invD [OF assms(1,2)]
  have kk: "mb_key row = k" using m(1,2) by (simp add: row_def)
  have w: "items_wf k (Suc (mb_accepted_sequence m)) (AList.update (Suc (mb_accepted_sequence m)) ?it (db_items db k))"
    using m(4) assms(3) by (intro items_wf_append) (simp_all add: accept_find One_nat_def)
  have fr: "mb_queue_generation m + 1 = Suc (mb_queue_generation m)" by simp
  have nc: "\<not> list_ex (ready_event_for (mb_key row) (mb_queue_generation row)) (db_outbox db2)" if ?e
    using next_generation_fresh [OF assms(1,2)] kk that by (simp add: db2 db1 row_def update_item_def fr)
  have v: "mailbox_view db' = ms_put k row (if ?e
      then snd (append_ready row (trace_item p (item_trace ?it row)) (floor_ms (clk 4)) (mb_queue_generation row)
                  (ms_put_item k ?n ?it (mailbox_view db)))
      else ms_put_item k ?n ?it (mailbox_view db))"
  proof (cases ?e)
    case True
    then show ?thesis using view_insert [OF nc [OF True]] kk by (simp add: d emit_ready_outbox_def db2 db1 append_put)
  next
    case False
    then show ?thesis unfolding d if_not_P [OF False] by (simp add: db2 db1)
  qed
  have pr: "\<exists>it. ms_item k n (ms_put_item k ?n ?it (mailbox_view db)) = Some it \<and> mb_processing_inbound_id m = Some (it_inbound_id it)"
    if "mb_processing_sequence m = Some n" for n
    using m(3) m(6) [OF that] that by (auto simp: mailbox_wf_def fields_simps split: if_splits)
  note c = accept_status_cases [OF s]
  have "store_inv (mailbox_view db')"
    unfolding v using c m(1,2,3,5) w pr kk
    by (intro store_inv_put [OF pg_inv_view [OF assms(1)]])
      (auto simp: fields_simps mailbox_wf_def generations_upto_Suc row_def One_nat_def)
  moreover have "same_elsewhere k db db'"
    using kk by (auto simp: d emit_ready_outbox_def db2 db1 same_elsewhere_def fields_simps)
  moreover have "pg_session_ok k db'"
    using pg_inv_session [OF assms(1), of k] assms(2,4,5) ok tr m(3) kk
    by (auto simp: pg_session_ok_def d emit_ready_outbox_def db2 db1 fields_simps row_def mailbox_wf_def split: if_splits)
  ultimately show ?thesis by (intro pg_inv_local [OF assms(1)])
qed

lemma pg_accept_inv [inv_intros]:
  assumes "pg_inv db"
  shows "pg_inv (snd (pg_accept k i p r tr clk db))"
proof (cases "validate_priority p = None \<and> (\<exists>u. require_uuid i = Inr u)")
  case False
  then show ?thesis using assms by (auto simp: pg_accept_def split: option.splits sum.splits)
next
  case True
  then obtain u where u: "require_uuid i = Inr u" and p: "0 \<le> p"
    by (auto simp: validate_priority_def split: if_splits)
  have uu: "uuid_of u = Some u" using u uuid_of_idem by (simp add: require_uuid_Inr)
  show ?thesis
    using True u insert_mailbox_inv [OF assms, of k "clk 0"] pg_accept_new_inv [OF _ _ _ uu p, of _ k] unfolding pg_accept_def
    by simp (rule transaction_inv [OF assms], auto split: sum.splits option.splits if_splits)
qed

subsection \<open>Claiming and renewing\<close>

lemma pg_row_inv:
  assumes "pg_inv db" and "pg_get k db = Some m" and "update_mailbox k m' db = Inr db1"
    and "store_inv (ms_put k m' (mailbox_view db))"
    and "mb_resolved_sequence m' = mb_resolved_sequence m" and "mb_attempt m' = mb_attempt m"
    and "mb_processing_sequence m' = mb_processing_sequence m"
  shows "pg_inv db1"
proof (rule pg_inv_local [OF assms(1), where k = k])
  have u: "mailbox_row_ok m'" "db1 = db\<lparr>db_mailboxes := AList.update k m' (db_mailboxes db)\<rparr>"
    using assms(3) by (auto simp: update_mailbox_Inr)
  show "same_elsewhere k db db1" by (simp add: u(2) same_elsewhere_def fields_simps)
  show "store_inv (mailbox_view db1)" using assms(4) by (simp add: u(2))
  show "pg_session_ok k db1"
    using pg_inv_session [OF assms(1), of k] assms(2,5-7) u(1) by (simp add: u(2) pg_session_ok_def fields_simps)
qed

lemma pg_grant_inv:
  assumes "pg_inv db" and "pg_get k db = Some m" and "pg_item k n db = Some it"
    and "n = mb_resolved_sequence m + 1" and "n \<le> mb_accepted_sequence m"
    and "pg_grant k owner lf now m n it db = Inr (a, db1)"
  shows "pg_inv db1"
proof (rule pg_inv_local [OF assms(1), where k = k])
  let ?it = "it\<lparr>it_attempt := it_attempt it + 1\<rparr>"
  obtain m' where m': "snd (grant_claim k owner lf now m n it (mailbox_view db)) = ms_put k m' (ms_put_item k n ?it (mailbox_view db))"
    and u: "mailbox_row_ok m'" "db1 = (update_item k n ?it db)\<lparr>db_mailboxes := AList.update k m' (db_mailboxes (update_item k n ?it db))\<rparr>"
    and f: "mb_resolved_sequence m' = mb_resolved_sequence m" "mb_attempt m' = it_attempt it + 1" "mb_processing_sequence m' = Some n"
    using assms(6) by (auto simp: pg_grant_def grant_claim_def Let_def update_mailbox_Inr split: sum.splits)
  show "same_elsewhere k db db1" by (simp add: u(2) same_elsewhere_def fields_simps)
  have "store_inv (snd (grant_claim k owner lf now m n it (mailbox_view db)))"
    using assms(2-5) by (intro grant_claim_inv [OF pg_inv_view [OF assms(1)]]) simp_all
  then show "store_inv (mailbox_view db1)" unfolding m' by (simp add: u(2))
  show "pg_session_ok k db1"
    using pg_inv_session [OF assms(1), of k] assms(2,3) f u(1) by (auto simp: u(2) pg_session_ok_def fields_simps)
qed

lemma claim_locked_inv:
  assumes "pg_inv db" and "claim_locked k owner lf clk db = Inr (a, db1)"
  shows "pg_inv db1"
proof (cases "pg_get k db")
  case None
  then show ?thesis using assms by (simp add: claim_locked_def)
next
  case (Some m)
  let ?n = "case mb_processing_sequence m of Some n \<Rightarrow> n | None \<Rightarrow> mb_resolved_sequence m + 1"
  have wf: "mailbox_wf m" using pg_invD(3) [OF assms(1) Some] .
  then have n: "?n = mb_resolved_sequence m + 1" by (auto simp: mailbox_wf_def split: if_splits option.splits)
  have g: "pg_inv db1" if "pg_grant k owner lf now m (mb_resolved_sequence m + 1) it db = Inr (a, db1)"
    "pg_item k (mb_resolved_sequence m + 1) db = Some it" for now it
    using pg_invD(8) [OF assms(1) Some, of "mb_resolved_sequence m + 1" it] that
    by (intro pg_grant_inv [OF assms(1) Some]) auto
  have i: "pg_inv db1" if "update_mailbox k (m\<lparr>mb_status := IDLE, mb_updated_at := t\<rparr>) db = Inr db1"
    "mb_processing_sequence m = None" "mb_accepted_sequence m < mb_resolved_sequence m + 1" for t
  proof (rule pg_row_inv [OF assms(1) Some that(1)])
    show "store_inv (ms_put k (m\<lparr>mb_status := IDLE, mb_updated_at := t\<rparr>) (mailbox_view db))"
      using wf that(2,3) Some
      by (intro store_inv_put_row [OF pg_inv_view [OF assms(1)]]) (auto simp: mailbox_wf_def)
  qed simp_all
  show ?thesis
    using assms g i n Some
    by (auto simp: claim_locked_def Let_def split: if_splits option.splits sum.splits)
qed

lemma pg_claim_inv [inv_intros]: "pg_inv db \<Longrightarrow> pg_inv (snd (pg_claim k owner lf clk db))"
  by (auto simp: pg_claim_def intro: transaction_inv claim_locked_inv split: option.splits)

lemma pg_claim_session_inv [inv_intros]:
  assumes "pg_inv db"
  shows "pg_inv (snd (pg_claim_session k owner lf eg ee acc cn clk db))"
proof -
  have "pg_inv db1" if "claim_locked k owner lf clk' db = Inr (a, db1)" for clk' a db1
    using claim_locked_inv [OF assms that] .
  then show ?thesis using assms unfolding pg_claim_session_def Let_def
    by (auto intro!: transaction_inv split: option.splits sum.splits if_splits)
qed

lemma renew_row_inv:
  assumes "pg_inv db" and "renew_row l lf now db = Inr (a, db1)"
  shows "pg_inv db1"
proof -
  have "pg_inv db1" if m: "pg_get (ml_key l) db = Some m"
    and u: "update_mailbox (ml_key l) (m\<lparr>mb_lease_expires_at := Some t, mb_updated_at := now\<rparr>) db = Inr db1"
    and o: "owns (Some m) l' now" for m t l'
  proof (rule pg_row_inv [OF assms(1) m u])
    show "store_inv (ms_put (ml_key l) (m\<lparr>mb_lease_expires_at := Some t, mb_updated_at := now\<rparr>) (mailbox_view db))"
      using o m pg_invD(3) [OF assms(1) m]
      by (intro store_inv_put_row [OF pg_inv_view [OF assms(1)]]) (auto simp: mailbox_wf_def owns_def)
  qed simp_all
  then show ?thesis using assms by (auto simp: renew_row_def Let_def split: option.splits sum.splits if_splits)
qed

lemma pg_renew_inv [inv_intros]: "pg_inv db \<Longrightarrow> pg_inv (snd (pg_renew l lf now db))"
  by (auto simp: pg_renew_def dest: renew_row_inv split: option.splits sum.splits)

lemma renew_rows_inv: "pg_inv db \<Longrightarrow> renew_rows t ls lf clk db = Inr (a, db1) \<Longrightarrow> pg_inv db1"
proof (induction ls arbitrary: db clk a)
  case (Cons l ls)
  then show ?case by (fastforce dest: renew_row_inv split: if_splits sum.splits option.splits prod.splits)
qed simp

lemma pg_renew_many_inv [inv_intros]: "pg_inv db \<Longrightarrow> pg_inv (snd (pg_renew_many ls lf clk db))"
  unfolding pg_renew_many_def by (auto intro!: transaction_inv dest: renew_rows_inv simp del: renew_rows.simps split: option.splits list.splits)

subsection \<open>Committing and releasing\<close>

lemma assert_owned_Inr:
  "assert_owned l now db = Inr m \<longleftrightarrow> pg_get (ml_key l) db = Some m \<and> owns (Some m) l now"
  by (auto simp: assert_owned_def split: option.splits if_splits)

lemma pg_owned:
  assumes "pg_inv db" and "assert_owned l now db = Inr m"
  shows "pg_get (ml_key l) db = Some m" and "mb_status m = RUNNING" and "ml_sequence l = mb_resolved_sequence m + 1"
    and "ml_sequence l \<le> mb_accepted_sequence m" and "mb_processing_sequence m = Some (ml_sequence l)"
proof -
  show g: "pg_get (ml_key l) db = Some m" using assms(2) by (simp add: assert_owned_Inr)
  show "mb_status m = RUNNING" "ml_sequence l = mb_resolved_sequence m + 1" "ml_sequence l \<le> mb_accepted_sequence m"
    "mb_processing_sequence m = Some (ml_sequence l)"
    using assms(2) pg_invD(3) [OF assms(1) g] by (auto simp: assert_owned_Inr owns_def mailbox_wf_def)
qed

lemma pg_commit_inv [inv_intros]:
  assumes "pg_inv db"
  shows "pg_inv (snd (pg_commit l clk db))"
proof (cases "assert_owned l (clk 0) db")
  case (Inl e)
  then show ?thesis using assms by (simp add: pg_commit_def transaction_def)
next
  case (Inr m)
  note o = pg_owned [OF assms Inr]
  let ?k = "ml_key l" and ?n = "ml_sequence l"
  let ?db = "set_resolved_at ?k ?n (clk 1) db"
  obtain s r where s: "next_state (pg_item ?k (?n + 1) db) (clk 2) = (s, r)" by fastforce
  define row where "row = unleased_row (m\<lparr>mb_resolved_sequence := ?n\<rparr>) s r (if s = QUEUED then 1 else 0) (clk 3)"
  have it: "pg_item ?k (?n + 1) db = None \<longleftrightarrow> ?n = mb_accepted_sequence m"
    using item_exists [OF pg_invD(4) [OF assms o(1)], of "?n + 1"] o(4) by (auto simp: pg_item_def)
  have st: "s \<noteq> RUNNING" "s = IDLE \<longleftrightarrow> ?n = mb_accepted_sequence m"
    using s it by (auto simp: next_state_def split: option.splits if_splits)
  have "pg_item ?k ?n db \<noteq> None" using pg_invD(6) [OF assms o(1) o(5)] by auto
  then have res: "resolved_upto ?k ?n ?db"
    using pg_session_okD(2) [OF assms o(1)] o(3) by (auto simp: resolved_upto_def fields_simps)
  have fin: "pg_inv (if s = QUEUED then insert_ready_event ?k (mb_queue_generation row) p tr now tx db1 else db1)"
    if "update_mailbox ?k row ?db = Inr db1" for db1 p tr now tx
  proof (rule pg_finish [OF assms, where base = ?db and row = row and m = m])
    show "same_elsewhere ?k db ?db" by (simp add: same_elsewhere_def fields_simps)
    show "items_ok ?k ?db" using pg_session_okD(1) [OF assms, of ?k] by (simp add: items_ok_def fields_simps)
    show "without_lease m row" using st o(4) by (simp add: without_lease_def row_def)
  qed (use that o(1) pg_inv_view [OF assms] res in \<open>auto simp: update_mailbox_Inr fields_simps row_def\<close>)
  have em: "emit_ready_outbox row it = insert_ready_event ?k (mb_queue_generation row) (it_priority it) (item_trace it row)" for it
    using pg_invD(1,2) [OF assms o(1)] by (simp add: emit_ready_outbox_def fun_eq_iff row_def)
  have "pg_commit l clk db = transaction db (case update_mailbox ?k row ?db of
      Inl e \<Rightarrow> Inl e
    | Inr db2 \<Rightarrow> Inr (row, case pg_item ?k (?n + 1) db of None \<Rightarrow> db2
        | Some it \<Rightarrow> if s = QUEUED then emit_ready_outbox row it (clk 4) (clk 0) db2 else db2))"
    unfolding pg_commit_def Inr sum.case Let_def pg_item_simps(3) s prod.case row_def by (rule refl)
  moreover have "pg_item ?k (?n + 1) db = None \<longrightarrow> s \<noteq> QUEUED" using st it by auto
  ultimately show ?thesis
    using fin assms by (auto simp: em intro!: transaction_inv split: sum.splits option.splits if_splits)
qed

lemma transaction_simps [simp]:
  "transaction db (Inl e) = (Inl e, db)" "transaction db (Inr (a, db')) = (Inr a, db')"
  by (simp_all add: transaction_def)

lemma pg_release_cases:
  obtains (raised) e where "pg_release l r p inc emit clk db = (Inl e, db)"
  | (released) m it it' s t row db1 where "assert_owned l (clk 0) db = Inr m" "pg_item (ml_key l) (ml_sequence l) db = Some it"
      "it' = it\<lparr>it_retry_count := it_retry_count it + (if inc then 1 else 0),
         it_priority := (case p of None \<Rightarrow> it_priority it | Some q \<Rightarrow> q), it_retry_at := r\<rparr>"
      "(s, t) = (if emit then next_state (Some it') (clk 1) else (RETRY_WAIT, r))"
      "row = (unleased_row m s t (if s = QUEUED then 1 else 0) (clk 2))\<lparr>mb_retry_count := it_retry_count it', mb_priority := it_priority it'\<rparr>"
      "update_mailbox (ml_key l) row (update_item (ml_key l) (ml_sequence l) it' db) = Inr db1"
      "pg_release l r p inc emit clk db =
         (Inr row, if s = QUEUED \<and> emit then emit_ready_outbox row it' (clk 3) (clk 0) db1 else db1)"
proof (cases "case p of None \<Rightarrow> None | Some p \<Rightarrow> validate_priority p")
  case (Some e)
  then show thesis by (intro raised) (simp add: pg_release_def)
next
  case p: None
  show thesis
  proof (cases "assert_owned l (clk 0) db")
    case (Inl e)
    then show thesis using p by (intro raised [of e]) (simp add: pg_release_def)
  next
    case (Inr m)
    show thesis
    proof (cases "(case p of None \<Rightarrow> True | Some p \<Rightarrow> in_int4 p) \<and> pg_item (ml_key l) (ml_sequence l) db \<noteq> None")
      case False
      then show thesis using p Inr by (cases "case p of None \<Rightarrow> True | Some p \<Rightarrow> in_int4 p") (auto simp: pg_release_def Let_def intro: raised)
    next
      case True
      then obtain it where it: "pg_item (ml_key l) (ml_sequence l) db = Some it" by blast
      define it' where "it' = it\<lparr>it_retry_count := it_retry_count it + (if inc then 1 else 0),
         it_priority := (case p of None \<Rightarrow> it_priority it | Some q \<Rightarrow> q), it_retry_at := r\<rparr>"
      obtain s0 r0 where n: "next_state (Some it') (clk 1) = (s0, r0)" by fastforce
      define s where "s = (if emit then s0 else RETRY_WAIT)"
      define t where "t = (if emit then r0 else r)"
      define row where "row = (unleased_row m s t (if s = QUEUED then 1 else 0) (clk 2))\<lparr>mb_retry_count := it_retry_count it', mb_priority := it_priority it'\<rparr>"
      have e: "pg_release l r p inc emit clk db = transaction db
          (case update_mailbox (ml_key l) row (update_item (ml_key l) (ml_sequence l) it' db) of
             Inl e \<Rightarrow> Inl e
           | Inr db2 \<Rightarrow> Inr (row, if s = QUEUED \<and> emit then emit_ready_outbox row it' (clk 3) (clk 0) db2 else db2))"
        unfolding pg_release_def p option.case Inr sum.case Let_def it it'_def [symmetric] n prod.case s_def [symmetric] t_def [symmetric] row_def [symmetric]
        using True by simp
      have st: "(s, t) = (if emit then next_state (Some it') (clk 1) else (RETRY_WAIT, r))" by (simp add: s_def t_def n)
      show thesis
      proof (cases "update_mailbox (ml_key l) row (update_item (ml_key l) (ml_sequence l) it' db)")
        case (Inl x)
        then show thesis using e by (intro raised [of x]) simp
      next
        case u: (Inr db1)
        then have "pg_release l r p inc emit clk db =
            (Inr row, if s = QUEUED \<and> emit then emit_ready_outbox row it' (clk 3) (clk 0) db1 else db1)"
          using e by simp
        then show thesis by (rule released [OF Inr it it'_def st row_def u])
      qed
    qed
  qed
qed

lemma pg_release_inv [inv_intros]:
  assumes "pg_inv db"
  shows "pg_inv (snd (pg_release l r p inc emit clk db))"
proof (cases rule: pg_release_cases [of l r p inc emit clk db])
  case (released m it it' s t row db1)
  note o = pg_owned [OF assms released(1)]
  let ?k = "ml_key l" and ?n = "ml_sequence l"
  let ?db = "update_item ?k ?n it' db"
  have st: "s \<noteq> RUNNING" "s \<noteq> IDLE" "s = QUEUED \<longrightarrow> emit"
    using released(4) by (auto simp: next_state_def split: if_splits)
  have pr: "0 \<le> it_priority it'"
    using released(6) by (auto simp: update_mailbox_Inr mailbox_row_ok_def released(5))
  have "pg_inv (if s = QUEUED then insert_ready_event ?k (mb_queue_generation row) q tr now tx db1 else db1)" for q tr now tx
  proof (rule pg_finish [OF assms, where base = ?db and row = row and m = m])
    show "same_elsewhere ?k db ?db" by (simp add: same_elsewhere_def fields_simps)
    show "items_ok ?k ?db" using pg_session_okD(1) [OF assms, of ?k] released(2,3) pr
      by (auto simp: items_ok_def fields_simps)
    show "without_lease m row" using st o(3,4) by (auto simp: without_lease_def released(5) unleased_row_def unleased_def)
    show "store_inv (mailbox_view ?db)"
      unfolding view_update_item using released(2) by (intro store_inv_put_item [OF pg_inv_view [OF assms]]) (simp_all add: released(3))
    show "resolved_upto ?k (mb_resolved_sequence row) ?db"
      using pg_session_okD(2) [OF assms o(1)] by (simp add: resolved_upto_def fields_simps released(5))
  qed (use released(6) o(1) in \<open>auto simp: update_mailbox_Inr fields_simps released(5)\<close>)
  moreover have "emit_ready_outbox row i = insert_ready_event ?k (mb_queue_generation row) (it_priority i) (item_trace i row)" for i
    using pg_invD(1,2) [OF assms o(1)] by (simp add: emit_ready_outbox_def fun_eq_iff released(5))
  ultimately show ?thesis using st(3) by (auto simp: released(7))
qed (use assms in simp)

lemma pg_releases_inv [inv_intros]:
  "pg_inv db \<Longrightarrow> pg_inv (snd (pg_reschedule l r p clk db))"
  "pg_inv db \<Longrightarrow> pg_inv (snd (pg_retry l r p clk db))"
  "pg_inv db \<Longrightarrow> pg_inv (snd (pg_retry_without_wakeup l r clk db))"
  by (simp_all add: pg_reschedule_def pg_retry_def pg_retry_without_wakeup_def pg_release_inv)

end
