(* ===== verification/Pg_History.thy ===== *)
theory Pg_History
  imports Pg_Inv Mailbox_History
begin

text \<open>
  Histories of the PostgreSQL mailbox. The order \<open>pg_le\<close> says what no transaction undoes (it is \<open>store_le\<close> of the
  mailbox tables); the three batch functions are instances of the interface \<open>row_batch\<close>; \<open>pg_step\<close> is the step
  relation of the database, and the machine it gives is fenced by the lease epoch of the mailbox row.
\<close>

declare split_paired_All [simp del] split_paired_Ex [simp del] One_nat_def [simp del]

subsection \<open>What no transaction undoes\<close>

definition pg_le :: "pg_db \<Rightarrow> pg_db \<Rightarrow> bool" where
  "pg_le db db' \<longleftrightarrow> store_le (mailbox_view db) (mailbox_view db')"

lemma pg_le_refl [simp]: "pg_le db db"
  by (simp add: pg_le_def)

lemma pg_le_trans: "pg_le a b \<Longrightarrow> pg_le b c \<Longrightarrow> pg_le a c"
  unfolding pg_le_def by (rule store_le_trans)

lemma pg_le_view: "mailbox_view db' = mailbox_view db \<Longrightarrow> pg_le db db'"
  by (simp add: pg_le_def)

lemma pg_le_put:
  "update_mailbox k row db = Inr db1 \<Longrightarrow> pg_get k db = Some m \<Longrightarrow> mailbox_le m row \<Longrightarrow> pg_le db db1"
  by (auto simp: pg_le_def update_mailbox_Inr intro!: store_le_put)

lemma pg_le_put_new: "update_mailbox k row db = Inr db1 \<Longrightarrow> pg_get k db = None \<Longrightarrow> pg_le db db1"
  by (auto simp: pg_le_def update_mailbox_Inr intro!: store_le_put_new)

lemma pg_le_item:
  "(\<And>it. pg_item k n db = Some it \<Longrightarrow> it_inbound_id it' = it_inbound_id it \<and> it_attempt it \<le> it_attempt it')
     \<Longrightarrow> pg_le db (update_item k n it' db)"
  by (auto simp: pg_le_def intro!: store_le_put_item)

lemma pg_le_insert [simp]: "pg_le db (insert_ready_event k g p tr now tx db)"
proof (cases "list_ex (ready_event_for k g) (db_outbox db)")
  case False
  have k: "mb_key (new_session_mailbox (fst k) (snd k) 0) = k" by (simp add: new_session_mailbox_def)
  from False have "mailbox_view (insert_ready_event k g p tr now tx db) =
      snd (append_ready (new_session_mailbox (fst k) (snd k) 0) (trace_item p tr) (floor_ms now) g (mailbox_view db))"
    using view_insert [of "new_session_mailbox (fst k) (snd k) 0" g db p tr now tx] k by simp
  then show ?thesis by (simp add: pg_le_def store_le_append_ready)
qed (simp add: insert_ready_event_def)

lemma pg_le_emit [simp]: "pg_le db (emit_ready_outbox m it now tx db)"
  by (simp add: emit_ready_outbox_def)

lemma pg_le_same [simp]:
  "pg_le db (set_resolved_at k n t db)" "pg_le db (lock_session race k db)" "pg_le db (clear_session_lease k m t db)"
  "pg_le db (db\<lparr>db_outbox := map (\<lambda>e. if P e then reopen_event now e else e) (db_outbox db)\<rparr>)"
  by (simp_all add: pg_le_view view_reopen)

lemma pg_le_intros:
  assumes "pg_le db db1"
  shows "pg_le db (insert_ready_event k g p tr now tx db1)" "pg_le db (emit_ready_outbox m it now tx db1)"
    "pg_le db (set_resolved_at k n t db1)" "pg_le db (lock_session race k db1)" "pg_le db (clear_session_lease k m t db1)"
    "pg_le db (db1\<lparr>db_outbox := map (\<lambda>e. if P e then reopen_event now e else e) (db_outbox db1)\<rparr>)"
    "pg_le db (requeue_ready_outbox m it c now tx db1)"
proof -
  have r: "pg_le db1 (requeue_ready_outbox m it c now tx db1)"
    by (auto simp: requeue_ready_outbox_def Let_def intro: pg_le_trans [OF _ pg_le_insert])
  show "pg_le db (requeue_ready_outbox m it c now tx db1)" by (rule pg_le_trans [OF assms r])
qed (rule pg_le_trans [OF assms], simp)+

lemma pg_le_unleased [simp]:
  "mailbox_le m (unleased_row (m\<lparr>mb_resolved_sequence := n\<rparr>) s r i t) \<longleftrightarrow> mb_resolved_sequence m \<le> n"
  "mailbox_le m (unleased_row m s r i t)"
  by (simp_all add: mailbox_le_def)

lemma transaction_le:
  assumes "\<And>a db'. body = Inr (a, db') \<Longrightarrow> pg_le db db'"
  shows "pg_le db (snd (transaction db body))"
  using assms by (auto simp: transaction_def split: sum.splits)

lemma pg_recover_le: "pg_le db (snd (pg_recover k clk db))"
  unfolding pg_recover_def
  by (auto simp: Let_def intro!: transaction_le pg_le_intros dest!: pg_le_put
      split: option.splits if_splits sum.splits prod.splits)

lemma pg_reconcile_le: "pg_le db (snd (pg_reconcile c k clk db))"
  unfolding pg_reconcile_def
  by (auto simp: Let_def intro!: transaction_le pg_le_intros dest!: pg_le_put
      split: option.splits if_splits sum.splits prod.splits)

lemma insert_mailbox_le: "insert_mailbox k t db = Inr db1 \<Longrightarrow> pg_le db db1"
  by (auto simp: insert_mailbox_def intro: pg_le_put_new split: if_splits)

lemma pg_accept_new_le:
  assumes "pg_get k db = Some m" and "pg_accept_new k inbound tr p r clk m db = Inr (a, db')"
  shows "pg_le db db'"
proof -
  have i: "pg_le db db1 \<and> pg_get k db1 = Some m" if "insert_item k n it db = Inr db1" for n it db1
    using that assms(1) by (auto simp: insert_item_def fields_simps intro!: pg_le_item split: if_splits)
  obtain n it db1 row db2 where d: "insert_item k n it db = Inr db1" "update_mailbox k row db1 = Inr db2" "mailbox_le m row"
      "db' = db2 \<or> db' = emit_ready_outbox row it (clk 4) (clk 0) db2"
    using assms(2) unfolding pg_accept_new_def Let_def
    by (auto split: sum.splits prod.splits if_splits simp: mailbox_le_def)
  have "pg_le db db2" using pg_le_trans [OF _ pg_le_put [OF d(2) _ d(3)]] i [OF d(1)] by blast
  then show ?thesis using d(4) pg_le_intros(2) by blast
qed

lemma pg_accept_le: "pg_le db (snd (pg_accept k i p r tr clk db))"
  unfolding pg_accept_def
  by (auto simp: Let_def intro!: transaction_le dest!: insert_mailbox_le pg_accept_new_le intro: pg_le_trans
      split: option.splits if_splits sum.splits)

lemma claim_locked_le:
  assumes "claim_locked k owner lf clk db = Inr (a, db1)"
  shows "pg_le db db1"
proof -
  have g: "pg_le db db1" if "pg_grant k owner lf now m n it db = Inr (a, db1)" "pg_get k db = Some m" "pg_item k n db = Some it" for now m n it
  proof -
    let ?base = "update_item k n (it\<lparr>it_attempt := it_attempt it + 1\<rparr>) db"
    have "pg_le db ?base" using that(3) by (intro pg_le_item) auto
    moreover have "pg_get k ?base = Some m" using that(2) by (simp add: fields_simps)
    ultimately show ?thesis using that(1) unfolding pg_grant_def Let_def
      by (auto split: sum.splits dest!: pg_le_put simp: mailbox_le_def intro: pg_le_trans)
  qed
  have i: "pg_le db db1" if "update_mailbox k (m\<lparr>mb_status := IDLE, mb_updated_at := t\<rparr>) db = Inr db1" "pg_get k db = Some m" for m t
    using pg_le_put [OF that] by (simp add: mailbox_le_def)
  show ?thesis using assms g i
    by (auto simp: claim_locked_def Let_def split: if_splits option.splits sum.splits)
qed

lemma pg_claim_le: "pg_le db (snd (pg_claim k owner lf clk db))"
  by (auto simp: pg_claim_def intro!: transaction_le dest: claim_locked_le split: option.splits)

lemma pg_claim_session_le: "pg_le db (snd (pg_claim_session k owner lf eg ee acc cn clk db))"
  unfolding pg_claim_session_def Let_def
  by (auto intro!: transaction_le dest: claim_locked_le split: option.splits sum.splits if_splits)

lemma renew_row_le: "renew_row l lf now db = Inr (a, db1) \<Longrightarrow> pg_le db db1"
  by (auto simp: renew_row_def Let_def mailbox_le_def dest!: pg_le_put split: option.splits sum.splits if_splits)

lemma pg_renew_le: "pg_le db (snd (pg_renew l lf now db))"
  by (auto simp: pg_renew_def dest: renew_row_le split: option.splits sum.splits)

lemma renew_rows_le: "renew_rows t ls lf clk db = Inr (a, db1) \<Longrightarrow> pg_le db db1"
proof (induction ls arbitrary: db clk a)
  case (Cons l ls)
  then show ?case by (fastforce dest: renew_row_le intro: pg_le_trans split: if_splits sum.splits option.splits prod.splits)
qed simp

lemma pg_renew_many_le: "pg_le db (snd (pg_renew_many ls lf clk db))"
  unfolding pg_renew_many_def
  by (auto intro!: transaction_le dest: renew_rows_le simp del: renew_rows.simps split: option.splits list.splits)

lemma pg_commit_le:
  assumes "pg_inv db"
  shows "pg_le db (snd (pg_commit l clk db))"
proof -
  have "pg_le db db1"
    if "assert_owned l t db = Inr m" "update_mailbox (ml_key l) (unleased_row (m\<lparr>mb_resolved_sequence := ml_sequence l\<rparr>) s r i t')
        (set_resolved_at (ml_key l) (ml_sequence l) t'' db) = Inr db1" for t m s r i t' t'' db1
  proof -
    note o = pg_owned [OF assms that(1)]
    have g: "pg_get (ml_key l) (set_resolved_at (ml_key l) (ml_sequence l) t'' db) = Some m" using o(1) by (simp add: fields_simps)
    show ?thesis using pg_le_trans [OF pg_le_same(1) pg_le_put [OF that(2) g]] o(3) by simp
  qed
  then show ?thesis unfolding pg_commit_def
    by (auto simp: Let_def intro!: transaction_le pg_le_intros split: option.splits if_splits sum.splits prod.splits)
qed

lemma pg_release_le: "pg_le db (snd (pg_release l r p inc emit clk db))"
proof (cases rule: pg_release_cases [of l r p inc emit clk db])
  case (released m it it' s t row db1)
  have "pg_le db (update_item (ml_key l) (ml_sequence l) it' db)"
    using released(2,3) by (intro pg_le_item) auto
  moreover have "pg_get (ml_key l) (update_item (ml_key l) (ml_sequence l) it' db) = Some m"
    using released(1) by (simp add: assert_owned_Inr fields_simps)
  moreover have "mailbox_le m row" by (simp add: released(5) mailbox_le_def)
  ultimately have "pg_le db db1" using pg_le_put [OF released(6)] pg_le_trans by blast
  then show ?thesis by (auto simp: released(7) intro: pg_le_intros)
qed simp

lemma pg_releases_le:
  "pg_le db (snd (pg_reschedule l r p clk db))" "pg_le db (snd (pg_retry l r p clk db))"
  "pg_le db (snd (pg_retry_without_wakeup l r clk db))"
  by (simp_all add: pg_reschedule_def pg_retry_def pg_retry_without_wakeup_def pg_release_le)

subsection \<open>The batch functions as instances\<close>

definition pg_obs :: "session_key \<Rightarrow> pg_db \<Rightarrow> session_mailbox option \<times> (nat \<times> mailbox_item) list \<times> (nat \<Rightarrow> time option) \<times> session_row option" where
  "pg_obs k db = (pg_get k db, db_items db k, db_resolved_at db k, db_sessions db k)"

definition sweep_body ::
    "(session_key \<Rightarrow> session_row option \<Rightarrow> session_row option) \<Rightarrow> batch_clock \<Rightarrow> time
     \<Rightarrow> session_key \<times> session_mailbox \<times> mailbox_item option \<Rightarrow> pg_db \<Rightarrow> error + (bool \<times> pg_db)"
where
  "sweep_body race clk tx rec db =
     (case rec of (k, m, item) \<Rightarrow>
        let db0 = lock_session race k db
        in if session_live (db_sessions db0 k) (clk k 2) then Inr (False, db0)
           else map_sum id (\<lambda>db1. (True, db1)) (sweep_row k m item (clk k) tx db0))"

lemma sweep_rows_loop: "sweep_rows recs n race clk tx db = rows_loop (sweep_body race clk tx) recs n db"
  by (induction recs n race clk tx db rule: sweep_rows.induct) (auto simp: sweep_body_def Let_def split: sum.splits)

definition schedule_body ::
    "batch_clock \<Rightarrow> time \<Rightarrow> session_key \<times> session_mailbox \<times> mailbox_item \<Rightarrow> pg_db \<Rightarrow> error + (bool \<times> pg_db)"
where
  "schedule_body clk tx rec db =
     (case rec of (k, m, it) \<Rightarrow> map_sum id (\<lambda>db1. (True, db1)) (schedule_row k m it (clk k) tx db))"

lemma schedule_rows_loop: "schedule_rows recs n clk tx db = rows_loop (schedule_body clk tx) recs n db"
  by (induction recs n clk tx db rule: schedule_rows.induct) (auto simp: schedule_body_def split: sum.splits)

definition reconcile_body ::
    "(session_key \<Rightarrow> session_row option \<Rightarrow> session_row option) \<Rightarrow> batch_clock \<Rightarrow> time
     \<Rightarrow> session_key \<times> session_mailbox \<times> nat \<times> mailbox_item option \<times> bool \<Rightarrow> pg_db \<Rightarrow> error + (bool \<times> pg_db)"
where
  "reconcile_body race clk tx rec db =
     (case rec of (k, m, n, item, committed) \<Rightarrow>
        let db0 = lock_session race k db
        in if session_live (db_sessions db0 k) (clk k 2) then Inr (False, db0)
           else map_sum id (\<lambda>db1. (True, db1))
                  (if committed then reconcile_committed_row k m n (clk k) tx db0
                   else reconcile_open_row k m item (clk k) tx db0))"

lemma reconcile_rows_loop: "reconcile_rows recs n race clk tx db = rows_loop (reconcile_body race clk tx) recs n db"
  by (induction recs n race clk tx db rule: reconcile_rows.induct)
    (auto simp: reconcile_body_def Let_def split: sum.splits)

lemma pg_obs_simps [fields_simps]:
  "k' \<noteq> k \<Longrightarrow> pg_obs k' (db\<lparr>db_mailboxes := AList.update k m (db_mailboxes db)\<rparr>) = pg_obs k' db"
  "k' \<noteq> k \<Longrightarrow> pg_obs k' (set_resolved_at k n t db) = pg_obs k' db"
  "k' \<noteq> k \<Longrightarrow> pg_obs k' (lock_session race k db) = pg_obs k' db"
  "k' \<noteq> k \<Longrightarrow> pg_obs k' (clear_session_lease k m t db) = pg_obs k' db"
  "pg_obs k' (insert_ready_event kk g p tr now tx db) = pg_obs k' db"
  "pg_obs k' (db\<lparr>db_outbox := es\<rparr>) = pg_obs k' db"
  by (simp_all add: pg_obs_def pg_get_def set_resolved_at_def lock_session_def clear_session_lease_def insert_ready_event_def
      split: option.splits)

lemma update_mailbox_obs: "update_mailbox k m db = Inr db1 \<Longrightarrow> k' \<noteq> k \<Longrightarrow> pg_obs k' db1 = pg_obs k' db"
  by (auto simp: update_mailbox_Inr fields_simps)

lemma reopen_obs [fields_simps]: "pg_obs k' (reopen_ready_event k g p tr clk tx db) = pg_obs k' db"
  by (simp add: reopen_ready_event_def Let_def fields_simps)

lemma row_obs:
  assumes "k' \<noteq> k"
  shows "sweep_row k m item clk tx db = Inr db1 \<Longrightarrow> pg_obs k' db1 = pg_obs k' db"
    and "schedule_row k m it clk tx db = Inr db1 \<Longrightarrow> pg_obs k' db1 = pg_obs k' db"
    and "reconcile_committed_row k m n clk tx db = Inr db1 \<Longrightarrow> pg_obs k' db1 = pg_obs k' db"
    and "reconcile_open_row k m item clk tx db = Inr db1 \<Longrightarrow> pg_obs k' db1 = pg_obs k' db"
  using assms unfolding sweep_row_def schedule_row_def reconcile_committed_row_def reconcile_open_row_def Let_def
  by (auto simp: fields_simps dest!: update_mailbox_obs [OF _ assms] split: sum.splits if_splits)

text \<open>Work on one row, given what the selection found.\<close>

lemma sweep_row_step:
  assumes "pg_inv db" and "pg_get k db = Some m" and "mb_status m = RUNNING"
    and "sweep_row k m item clk tx db = Inr db1"
  shows "pg_inv db1 \<and> pg_le db db1"
proof -
  define s where "s = (if mb_accepted_sequence m \<le> mb_resolved_sequence m then IDLE
                    else if retry_pending item (clk 3) then RETRY_WAIT else QUEUED)"
  define row where "row = unleased_row m s (retry_column s item) (if s = QUEUED then 1 else 0) (clk 4)"
  obtain db2 where u: "update_mailbox k row db = Inr db2"
    and d: "db1 = (if s = QUEUED then insert_ready_event k (mb_queue_generation row) (coalesce_priority item)
                     (coalesce_trace item (mb_processing_inbound_id m) (snd k)) (clk 6) tx (clear_session_lease k m (clk 5) db2)
                   else clear_session_lease k m (clk 5) db2)"
    using assms(4) unfolding sweep_row_def Let_def s_def [symmetric] row_def [symmetric] by (auto split: sum.splits)
  have wf: "mailbox_wf m" by (rule pg_invD(3) [OF assms(1,2)])
  have i: "pg_inv (if s = QUEUED then insert_ready_event k (mb_queue_generation m + (if s = QUEUED then 1 else 0)) p tr now tx db2 else db2)" for p tr now tx
    using wf assms(3) by (intro pg_unleased_inv [OF assms(1,2) _ _ u [unfolded row_def]]) (auto simp: s_def mailbox_wf_def)
  have "pg_inv db1"
    using i unfolding d insert_clear by (auto simp: row_def intro: pg_inv_clear split: if_splits)
  moreover have "pg_le db db2" using u assms(2) unfolding row_def by (rule pg_le_put) simp
  ultimately show ?thesis by (auto simp: d intro!: pg_le_intros)
qed

lemma schedule_row_step:
  assumes "pg_inv db" and "pg_get k db = Some m" and "mb_status m = RETRY_WAIT"
    and "schedule_row k m it clk tx db = Inr db1"
  shows "pg_inv db1 \<and> pg_le db db1"
proof -
  have wf: "mailbox_wf m" by (rule pg_invD(3) [OF assms(1,2)])
  have row: "m\<lparr>mb_status := QUEUED, mb_retry_at := None, mb_queue_generation := mb_queue_generation m + 1, mb_updated_at := clk 1\<rparr>
      = unleased_row m QUEUED None 1 (clk 1)"
    using wf assms(3) by (cases m) (simp add: unleased_row_def mailbox_wf_def)
  obtain db2 where u: "update_mailbox k (unleased_row m QUEUED None 1 (clk 1)) db = Inr db2"
    and d: "db1 = insert_ready_event k (mb_queue_generation m + 1) (it_priority it) (it_trace_id it) (clk 2) tx db2"
    using assms(4) unfolding schedule_row_def row Let_def by (auto split: sum.splits)
  have "pg_inv (if True then insert_ready_event k (mb_queue_generation m + 1) p tr now tx db2 else db2)" for p tr now tx
    using wf assms(3) by (intro pg_unleased_inv [OF assms(1,2) _ _ u]) (auto simp: mailbox_wf_def)
  moreover have "pg_le db db2" using u assms(2) by (rule pg_le_put) simp
  ultimately show ?thesis by (auto simp: d intro!: pg_le_intros)
qed

lemma joined_sequence_wf: "mailbox_wf m \<Longrightarrow> joined_sequence m = mb_resolved_sequence m + 1"
  by (auto simp: joined_sequence_def mailbox_wf_def split: option.splits if_splits)

lemma reconcile_committed_row_step:
  assumes "pg_inv db" and "pg_get k db = Some m" and "n = joined_sequence m" and "pg_item k n db \<noteq> None"
    and "reconcile_committed_row k m n clk tx db = Inr db1"
  shows "pg_inv db1 \<and> pg_le db db1"
proof -
  let ?base = "set_resolved_at k n (clk 3) db"
  define item where "item = pg_item k (n + 1) db"
  define s where "s = (if item = None \<or> mb_accepted_sequence m \<le> n then IDLE
                    else if retry_pending item (clk 4) then RETRY_WAIT else QUEUED)"
  define row where "row = unleased_row (m\<lparr>mb_resolved_sequence := n\<rparr>) s (retry_column s item) (if s = QUEUED then 1 else 0) (clk 5)"
  obtain db2 where u: "update_mailbox k row ?base = Inr db2"
    and d: "db1 = (if s = QUEUED then insert_ready_event k (mb_queue_generation row) (coalesce_priority item)
                     (coalesce_trace item None (snd k)) (clk 7) tx (clear_session_lease k m (clk 6) db2)
                   else clear_session_lease k m (clk 6) db2)"
    using assms(5) unfolding reconcile_committed_row_def Let_def pg_item_simps(3) item_def [symmetric] s_def [symmetric] row_def [symmetric]
    by (auto split: sum.splits)
  have wf: "mailbox_wf m" by (rule pg_invD(3) [OF assms(1,2)])
  have n: "n = mb_resolved_sequence m + 1" using assms(3) joined_sequence_wf [OF wf] by simp
  note ie = item_exists [OF pg_invD(4) [OF assms(1,2)]]
  have na: "n \<le> mb_accepted_sequence m" using assms(4) ie [of n] by (auto simp: pg_item_def)
  have st: "s \<noteq> RUNNING" "s = IDLE \<longleftrightarrow> n = mb_accepted_sequence m"
    using ie [of "n + 1"] na by (auto simp: s_def item_def pg_item_def)
  have i: "pg_inv (if s = QUEUED then insert_ready_event k (mb_queue_generation row) p tr now tx db2 else db2)" for p tr now tx
  proof (rule pg_finish [OF assms(1), where base = ?base and row = row and m = m])
    show "same_elsewhere k db ?base" by (simp add: same_elsewhere_def fields_simps)
    show "items_ok k ?base" using pg_session_okD(1) [OF assms(1), of k] by (simp add: items_ok_def fields_simps)
    show "without_lease m row" using st na by (simp add: without_lease_def row_def)
    show "resolved_upto k (mb_resolved_sequence row) ?base"
      using pg_session_okD(2) [OF assms(1,2)] assms(4) n by (auto simp: resolved_upto_def fields_simps row_def)
  qed (use u assms(2) pg_inv_view [OF assms(1)] in \<open>auto simp: update_mailbox_Inr fields_simps row_def\<close>)
  have "pg_inv db1" using i unfolding d insert_clear by (auto intro: pg_inv_clear split: if_splits)
  moreover have "pg_get k ?base = Some m" using assms(2) by (simp add: fields_simps)
  then have "pg_le ?base db2" using n by (intro pg_le_put [OF u]) (auto simp: row_def mailbox_le_def)
  then have "pg_le db db2" by (rule pg_le_trans [OF pg_le_same(1)])
  ultimately show ?thesis by (auto simp: d intro!: pg_le_intros)
qed

lemma reopen_step:
  assumes "pg_inv db" and "pg_get k db = Some m" and "1 \<le> mb_queue_generation m" and "g = mb_queue_generation m"
  shows "pg_inv (reopen_ready_event k g p tr clk tx db)" and "pg_le db (reopen_ready_event k g p tr clk tx db)"
proof -
  let ?hit = "\<lambda>e. ready_event_for k g e \<and> ev_aggregate_type e = ''session'' \<and> \<not> later_than (ev_claim_expires_at e) (clk 6)"
  let ?db = "db\<lparr>db_outbox := map (\<lambda>e. if ?hit e then reopen_event (clk 6) e else e) (db_outbox db)\<rparr>"
  have i: "pg_inv ?db" by (rule pg_inv_outbox [OF assms(1) view_reopen]) simp
  have l: "pg_le db ?db" by (rule pg_le_same(4))
  have "list_ex (ready_event_for k g) (db_outbox db)"
    unfolding conflict_iff pg_invD(5) [OF assms(1,2)] using assms(3,4) by (auto simp: generations_upto_def)
  then have "insert_ready_event k g p tr now tx db = db" for now unfolding insert_ready_event_def by (rule if_P)
  then have "reopen_ready_event k g p tr clk tx db = (if list_ex ?hit (db_outbox db) then ?db else db)"
    unfolding reopen_ready_event_def Let_def by simp
  then show "pg_inv (reopen_ready_event k g p tr clk tx db)" "pg_le db (reopen_ready_event k g p tr clk tx db)"
    using i l assms(1) by simp_all
qed

lemma reopen_clear:
  "reopen_ready_event k g p tr clk tx (clear_session_lease k' m t db) =
     clear_session_lease k' m t (reopen_ready_event k g p tr clk tx db)"
proof (cases "db_sessions db k'")
  case None
  then show ?thesis by (simp add: reopen_ready_event_def clear_session_lease_def Let_def insert_ready_event_def)
next
  case (Some s)
  then show ?thesis by (simp add: reopen_ready_event_def clear_session_lease_def Let_def insert_ready_event_def)
qed

lemma reconcile_open_row_step:
  assumes "pg_inv db" and "pg_get k db = Some m" and "item = pg_item k (joined_sequence m) db"
    and "reconcile_open_row k m item clk tx db = Inr db1"
  shows "pg_inv db1 \<and> pg_le db db1"
proof -
  define s where "s = (if mb_accepted_sequence m \<le> mb_resolved_sequence m \<or> item = None then IDLE
                    else if retry_pending item (clk 3) then RETRY_WAIT else QUEUED)"
  define fresh where "fresh = (mb_status m \<noteq> QUEUED \<or> mb_queue_generation m < 1)"
  define row where "row = unleased_row m s (retry_column s item) (if s = QUEUED \<and> fresh then 1 else 0) (clk 4)"
  define tr where "tr = coalesce_trace item None (snd k)"
  obtain db2 where u: "update_mailbox k row db = Inr db2"
    and d: "db1 = (if s = QUEUED
         then if fresh then insert_ready_event k (mb_queue_generation row) (coalesce_priority item) tr (clk 6) tx (clear_session_lease k m (clk 5) db2)
              else reopen_ready_event k (mb_queue_generation row) (coalesce_priority item) tr clk tx (clear_session_lease k m (clk 5) db2)
         else clear_session_lease k m (clk 5) db2)"
    using assms(4) unfolding reconcile_open_row_def Let_def s_def [symmetric] fresh_def [symmetric] row_def [symmetric] tr_def [symmetric]
    by (auto split: sum.splits)
  have wf: "mailbox_wf m" by (rule pg_invD(3) [OF assms(1,2)])
  have st: "s \<noteq> RUNNING" "s = IDLE \<longleftrightarrow> mb_resolved_sequence m = mb_accepted_sequence m"
    using item_exists [OF pg_invD(4) [OF assms(1,2)], of "joined_sequence m"] joined_sequence_wf [OF wf] wf assms(3)
    by (auto simp: s_def pg_item_def mailbox_wf_def)
  have f: "pg_inv (if s = QUEUED \<and> fresh then insert_ready_event k (mb_queue_generation m + (if s = QUEUED \<and> fresh then 1 else 0)) p t now tx' db2 else db2)" for p t now tx'
    using st by (intro pg_unleased_inv [OF assms(1,2) _ _ u [unfolded row_def]]) (auto simp: fresh_def)
  have i: "s = QUEUED \<Longrightarrow> fresh \<Longrightarrow> pg_inv (insert_ready_event k (mb_queue_generation row) p t now tx' db2)" for p t now tx'
    using f by (simp add: row_def)
  have i': "pg_inv db2" if "\<not> (s = QUEUED \<and> fresh)"
    using f [of undefined undefined undefined undefined] unfolding if_not_P [OF that] .
  have l: "pg_le db db2" using u assms(2) unfolding row_def by (rule pg_le_put) simp
  have g: "pg_get k db2 = Some row" using u by (auto simp: update_mailbox_Inr fields_simps)
  show ?thesis
  proof (cases "s = QUEUED")
    case False
    then show ?thesis using i' l by (auto simp: d intro: pg_inv_clear pg_le_intros)
  next
    case q: True
    show ?thesis
    proof (cases fresh)
      case True
      then show ?thesis using q i l by (auto simp: d insert_clear intro: pg_inv_clear pg_le_intros)
    next
      case False
      then have r: "1 \<le> mb_queue_generation row" using q by (auto simp: row_def fresh_def)
      note o = reopen_step [OF i' g r refl]
      show ?thesis using q False o l pg_le_trans [OF l o(2)] unfolding d reopen_clear by (auto intro: pg_inv_clear pg_le_intros)
    qed
  qed
qed

text \<open>None of the rows violates a constraint of the tables.\<close>

lemma sweep_row_total:
  assumes "mailbox_row_ok m"
  shows "\<exists>db1. sweep_row k m item clk tx db = Inr db1"
proof -
  define s where "s = (if mb_accepted_sequence m \<le> mb_resolved_sequence m then IDLE
                    else if retry_pending item (clk 3) then RETRY_WAIT else QUEUED)"
  have s: "s \<noteq> RUNNING" by (simp add: s_def)
  show ?thesis
    unfolding sweep_row_def Let_def s_def [symmetric] update_mailbox_def if_P [OF unleased_row_ok [OF assms s]] by simp
qed

lemma schedule_row_total:
  assumes "mailbox_row_ok m" and "mb_status m = RETRY_WAIT"
  shows "\<exists>db1. schedule_row k m it clk tx db = Inr db1"
  using assms by (auto simp: schedule_row_def Let_def update_mailbox_def mailbox_row_ok_def)

lemma reconcile_committed_row_total:
  assumes "mailbox_row_ok m" and "n \<le> mb_accepted_sequence m"
  shows "\<exists>db1. reconcile_committed_row k m n clk tx db = Inr db1"
proof -
  define s where "s = (if pg_item k (n + 1) db = None \<or> mb_accepted_sequence m \<le> n then IDLE
                    else if retry_pending (pg_item k (n + 1) db) (clk 4) then RETRY_WAIT else QUEUED)"
  have s: "s \<noteq> RUNNING" by (simp add: s_def)
  have "mailbox_row_ok (unleased_row (m\<lparr>mb_resolved_sequence := n\<rparr>) s r i t)" for r i t
    using assms s by (simp add: mailbox_row_ok_def unleased_row_def)
  then show ?thesis
    unfolding reconcile_committed_row_def Let_def pg_item_simps(3) s_def [symmetric] update_mailbox_def by simp
qed

lemma reconcile_open_row_total:
  assumes "mailbox_row_ok m"
  shows "\<exists>db1. reconcile_open_row k m item clk tx db = Inr db1"
proof -
  define s where "s = (if mb_accepted_sequence m \<le> mb_resolved_sequence m \<or> item = None then IDLE
                    else if retry_pending item (clk 3) then RETRY_WAIT else QUEUED)"
  have s: "s \<noteq> RUNNING" by (simp add: s_def)
  show ?thesis
    unfolding reconcile_open_row_def Let_def s_def [symmetric] update_mailbox_def if_P [OF unleased_row_ok [OF assms s]] by simp
qed

definition still_running :: "session_key \<times> session_mailbox \<times> mailbox_item option
    \<Rightarrow> session_mailbox option \<times> (nat \<times> mailbox_item) list \<times> (nat \<Rightarrow> time option) \<times> session_row option \<Rightarrow> bool" where
  "still_running rec v \<longleftrightarrow> fst v = Some (fst (snd rec)) \<and> mb_status (fst (snd rec)) = RUNNING"

definition still_waiting :: "session_key \<times> session_mailbox \<times> mailbox_item
    \<Rightarrow> session_mailbox option \<times> (nat \<times> mailbox_item) list \<times> (nat \<Rightarrow> time option) \<times> session_row option \<Rightarrow> bool" where
  "still_waiting rec v \<longleftrightarrow> fst v = Some (fst (snd rec)) \<and> mb_status (fst (snd rec)) = RETRY_WAIT"

definition still_joined :: "session_key \<times> session_mailbox \<times> nat \<times> mailbox_item option \<times> bool
    \<Rightarrow> session_mailbox option \<times> (nat \<times> mailbox_item) list \<times> (nat \<Rightarrow> time option) \<times> session_row option \<Rightarrow> bool" where
  "still_joined rec v \<longleftrightarrow>
     (case rec of (k, m, n, item, committed) \<Rightarrow>
        fst v = Some m \<and> n = joined_sequence m \<and> item = map_of (fst (snd v)) n \<and> (committed \<longrightarrow> item \<noteq> None))"

lemma counted_Inr [simp]: "map_sum id (Pair True) x = Inr (c, t) \<longleftrightarrow> c \<and> x = Inr t"
  by (cases x) auto

lemma lock_get [simp]:
  "pg_get k' (lock_session race k db) = pg_get k' db" "pg_item k' n (lock_session race k db) = pg_item k' n db"
  "db_items (lock_session race k db) = db_items db"
  by (simp_all add: lock_session_def pg_get_def pg_item_def)

interpretation pg_sweep: row_batch pg_inv pg_le fst pg_obs still_running "sweep_body race clk tx" for race clk tx
proof unfold_locales
  show "pg_inv t \<and> pg_le s t"
    if i: "pg_inv s" and v: "still_running r (pg_obs (fst r) s)" and b: "sweep_body race clk tx r s = Inr (c, t)" for s r c t
  proof -
    obtain k m item where r: "r = (k, m, item)" by (cases r)
    let ?s = "lock_session race k s"
    have l: "pg_inv ?s" "pg_le s ?s" using i by (simp_all add: pg_inv_lock)
    have g: "pg_get k ?s = Some m" "mb_status m = RUNNING" using v by (simp_all add: r still_running_def pg_obs_def)
    show ?thesis using b l sweep_row_step [OF l(1) g] pg_le_trans [OF l(2)]
      by (auto simp: sweep_body_def r Let_def split: if_splits)
  qed
  show "\<exists>c t. sweep_body race clk tx r s = Inr (c, t)" if i: "pg_inv s" and v: "still_running r (pg_obs (fst r) s)" for s r
  proof -
    obtain k m item where r: "r = (k, m, item)" by (cases r)
    have "mailbox_row_ok m" using v pg_invD(7) [OF i, of k m] by (simp add: r still_running_def pg_obs_def)
    from sweep_row_total [OF this] show ?thesis by (auto simp: sweep_body_def r Let_def)
  qed
  show "pg_obs k t = pg_obs k s" if "sweep_body race clk tx r s = Inr (c, t)" "k \<noteq> fst r" for r s c t k
    using that by (cases r) (auto simp: sweep_body_def Let_def pg_obs_simps(3) row_obs(1) split: if_splits)
qed (auto intro: pg_le_trans)

interpretation pg_schedule: row_batch pg_inv pg_le fst pg_obs still_waiting "schedule_body clk tx" for clk tx
proof unfold_locales
  show "pg_inv t \<and> pg_le s t"
    if "pg_inv s" and "still_waiting r (pg_obs (fst r) s)" and "schedule_body clk tx r s = Inr (c, t)" for s r c t
    using that by (cases r) (auto simp: schedule_body_def still_waiting_def pg_obs_def dest: schedule_row_step)
  show "\<exists>c t. schedule_body clk tx r s = Inr (c, t)" if "pg_inv s" and "still_waiting r (pg_obs (fst r) s)" for s r
    using that pg_invD(7) schedule_row_total by (cases r) (fastforce simp: schedule_body_def still_waiting_def pg_obs_def)
  show "pg_obs k t = pg_obs k s" if "schedule_body clk tx r s = Inr (c, t)" "k \<noteq> fst r" for r s c t k
    using that by (cases r) (auto simp: schedule_body_def row_obs(2))
qed (auto intro: pg_le_trans)

interpretation pg_reconciliation: row_batch pg_inv pg_le fst pg_obs still_joined "reconcile_body race clk tx" for race clk tx
proof unfold_locales
  show "pg_inv t \<and> pg_le s t"
    if i: "pg_inv s" and v: "still_joined r (pg_obs (fst r) s)" and b: "reconcile_body race clk tx r s = Inr (c, t)" for s r c t
  proof -
    obtain k m n item committed where r: "r = (k, m, n, item, committed)" by (cases r)
    let ?s = "lock_session race k s"
    have l: "pg_inv ?s" "pg_le s ?s" using i by (simp_all add: pg_inv_lock)
    have g: "pg_get k ?s = Some m" "n = joined_sequence m" "item = pg_item k n ?s" "committed \<longrightarrow> pg_item k n ?s \<noteq> None"
      using v by (auto simp: r still_joined_def pg_obs_def pg_item_def)
    show ?thesis
      using b l reconcile_committed_row_step [OF l(1) g(1,2)] reconcile_open_row_step [OF l(1) g(1)] g(2-4) pg_le_trans [OF l(2)]
      by (auto simp: reconcile_body_def r Let_def split: if_splits)
  qed
  show "\<exists>c t. reconcile_body race clk tx r s = Inr (c, t)" if i: "pg_inv s" and v: "still_joined r (pg_obs (fst r) s)" for s r
  proof -
    obtain k m n item committed where r: "r = (k, m, n, item, committed)" by (cases r)
    have g: "pg_get k s = Some m" "committed \<longrightarrow> pg_item k n s \<noteq> None"
      using v by (auto simp: r still_joined_def pg_obs_def pg_item_def)
    have "committed \<longrightarrow> n \<le> mb_accepted_sequence m" using g(2) pg_invD(8) [OF i g(1), of n] by auto
    then show ?thesis
      using reconcile_committed_row_total [OF pg_invD(7) [OF i g(1)]] reconcile_open_row_total [OF pg_invD(7) [OF i g(1)]]
      by (auto simp: reconcile_body_def r Let_def)
  qed
  show "pg_obs k t = pg_obs k s" if "reconcile_body race clk tx r s = Inr (c, t)" "k \<noteq> fst r" for r s c t k
    using that by (cases r) (auto simp: reconcile_body_def Let_def pg_obs_simps(3) row_obs(3,4) split: if_splits)
qed (auto intro: pg_le_trans)

text \<open>What a selection returns.\<close>

lemma take_ordered_rows:
  "set (take_ordered key n rows) \<subseteq> set rows" "length (take_ordered key n rows) \<le> n"
  "distinct (map fst rows) \<Longrightarrow> distinct (map fst (take_ordered key n rows))"
proof -
  show "set (take_ordered key n rows) \<subseteq> set rows" by (auto simp: take_ordered_def dest: in_set_takeD)
  show "length (take_ordered key n rows) \<le> n" by (simp add: take_ordered_def)
  let ?s = "sort_key (\<lambda>(k, m). (key m, k)) rows"
  have "distinct (map fst rows) \<Longrightarrow> distinct (map fst ?s)" by (simp add: distinct_map)
  then show "distinct (map fst rows) \<Longrightarrow> distinct (map fst (take_ordered key n rows))"
    unfolding take_ordered_def take_map [symmetric] by (rule distinct_take)
qed

lemma selected_rows:
  assumes "pg_inv db"
  shows "distinct (map fst (take_ordered key n (filter P (db_mailboxes db))))"
    and "(k, m) \<in> set (take_ordered key n (filter P (db_mailboxes db))) \<Longrightarrow> pg_get k db = Some m \<and> P (k, m)"
proof -
  have d: "distinct (map fst (db_mailboxes db))" using store_inv_distinct [OF pg_inv_view [OF assms]] by simp
  then show "distinct (map fst (take_ordered key n (filter P (db_mailboxes db))))"
    by (intro take_ordered_rows(3)) (simp add: distinct_map_filter)
  show "pg_get k db = Some m \<and> P (k, m)" if "(k, m) \<in> set (take_ordered key n (filter P (db_mailboxes db)))"
    using subsetD [OF take_ordered_rows(1) that] d by (simp add: pg_get_def)
qed

lemma sweep_selected_rows:
  assumes "pg_inv db"
  shows "distinct (map fst (sweep_selected n busy clk db))" and "length (sweep_selected n busy clk db) \<le> n"
    and "r \<in> set (sweep_selected n busy clk db) \<Longrightarrow> still_running r (pg_obs (fst r) db)
           \<and> not_later_than (mb_lease_expires_at (fst (snd r))) (clk (fst r) 0) \<and> \<not> busy (fst r)
           \<and> \<not> session_live (db_sessions db (fst r)) (clk (fst r) 1)"
proof -
  show "distinct (map fst (sweep_selected n busy clk db))"
    using selected_rows(1) [OF assms] by (simp add: sweep_selected_def comp_def split_beta)
  show "length (sweep_selected n busy clk db) \<le> n" by (simp add: sweep_selected_def take_ordered_rows(2))
qed (auto simp: sweep_selected_def still_running_def pg_obs_def dest!: selected_rows(2) [OF assms])

lemma schedule_selected_rows:
  assumes "pg_inv db"
  shows "distinct (map fst (schedule_selected n busy clk db))" and "length (schedule_selected n busy clk db) \<le> n"
    and "r \<in> set (schedule_selected n busy clk db) \<Longrightarrow> still_waiting r (pg_obs (fst r) db)"
proof -
  show "distinct (map fst (schedule_selected n busy clk db))"
    using selected_rows(1) [OF assms] by (simp add: schedule_selected_def comp_def split_beta)
  show "length (schedule_selected n busy clk db) \<le> n" by (simp add: schedule_selected_def take_ordered_rows(2))
qed (auto simp: schedule_selected_def still_waiting_def pg_obs_def dest!: selected_rows(2) [OF assms])

lemma reconcile_selected_rows:
  assumes "pg_inv db"
  shows "distinct (map fst (reconcile_selected n busy clk db))" and "length (reconcile_selected n busy clk db) \<le> n"
    and "r \<in> set (reconcile_selected n busy clk db) \<Longrightarrow> still_joined r (pg_obs (fst r) db)"
proof -
  show "distinct (map fst (reconcile_selected n busy clk db))"
    using selected_rows(1) [OF assms] by (simp add: reconcile_selected_def comp_def split_beta Let_def)
  show "length (reconcile_selected n busy clk db) \<le> n" by (simp add: reconcile_selected_def take_ordered_rows(2))
qed (auto simp: reconcile_selected_def still_joined_def pg_obs_def pg_item_def inbound_committed_def Let_def
    split: option.splits dest!: selected_rows(2) [OF assms])

lemma pg_sweep_step:
  assumes "pg_inv db"
  shows "pg_inv (snd (pg_sweep_expired_leases n busy race clk tx db))"
    and "pg_le db (snd (pg_sweep_expired_leases n busy race clk tx db))"
proof -
  note s = pg_sweep.rows_step [OF assms sweep_selected_rows(1) [OF assms]] sweep_selected_rows(3) [OF assms]
  show "pg_inv (snd (pg_sweep_expired_leases n busy race clk tx db))"
    "pg_le db (snd (pg_sweep_expired_leases n busy race clk tx db))"
    unfolding pg_sweep_expired_leases_def sweep_rows_loop
    using s assms by (auto intro!: transaction_inv transaction_le)
qed

lemma pg_schedule_step:
  assumes "pg_inv db"
  shows "pg_inv (snd (pg_schedule_retries n busy clk tx db))" and "pg_le db (snd (pg_schedule_retries n busy clk tx db))"
proof -
  note s = pg_schedule.rows_step [OF assms schedule_selected_rows(1) [OF assms]] schedule_selected_rows(3) [OF assms]
  show "pg_inv (snd (pg_schedule_retries n busy clk tx db))" "pg_le db (snd (pg_schedule_retries n busy clk tx db))"
    unfolding pg_schedule_retries_def schedule_rows_loop
    using s assms by (auto intro!: transaction_inv transaction_le)
qed

lemma pg_reconcile_sessions_step:
  assumes "pg_inv db"
  shows "pg_inv (snd (pg_reconcile_sessions n c busy race clk tx db))"
    and "pg_le db (snd (pg_reconcile_sessions n c busy race clk tx db))"
proof -
  note s = pg_reconciliation.rows_step [OF assms reconcile_selected_rows(1) [OF assms]] reconcile_selected_rows(3) [OF assms]
  show "pg_inv (snd (pg_reconcile_sessions n c busy race clk tx db))"
    "pg_le db (snd (pg_reconcile_sessions n c busy race clk tx db))"
    unfolding pg_reconcile_sessions_def reconcile_rows_loop
    using s assms by (auto intro!: transaction_inv transaction_le)
qed

subsection \<open>Histories of the database\<close>

text \<open>
  One rule for each transaction of \<^verbatim>\<open>PostgresSessionMailboxStore\<close> and of the batch functions, with any arguments, any clock and
  any interference on \<^verbatim>\<open>sessions\<close>, and one for everything else that writes to the database. The other writers are the
  environment of the mailbox store: some leave the mailbox tables alone (they publish and claim outbox rows, move session
  leases, insert inbound messages), and \<^verbatim>\<open>storage/postgres.py\<close>, which is not modelled, also writes \<^verbatim>\<open>session_mailboxes\<close>,
  \<^verbatim>\<open>session_mailbox_items\<close> and wake-ups in its own transactions. The rule \<open>ps_other\<close> admits every one of them that keeps
  the invariant of the tables and takes nothing back (\<open>pg_le\<close>); that is the condition the mailbox store relies on.
\<close>

definition environment_ok :: "pg_db \<Rightarrow> pg_db \<Rightarrow> bool" where
  "environment_ok db db' \<longleftrightarrow> (pg_inv db \<longrightarrow> pg_inv db' \<and> pg_le db db')"

inductive pg_step :: "pg_db \<Rightarrow> pg_db \<Rightarrow> bool" where
  ps_accept: "pg_step db (snd (pg_accept k i p r tr clk db))"
| ps_claim: "pg_step db (snd (pg_claim k owner lf clk db))"
| ps_claim_session: "pg_step db (snd (pg_claim_session k owner lf eg ee acc cn clk db))"
| ps_renew: "pg_step db (snd (pg_renew l lf now db))"
| ps_renew_many: "pg_step db (snd (pg_renew_many ls lf clk db))"
| ps_commit: "pg_step db (snd (pg_commit l clk db))"
| ps_reschedule: "pg_step db (snd (pg_reschedule l r q clk db))"
| ps_retry: "pg_step db (snd (pg_retry l r q clk db))"
| ps_retry_without_wakeup: "pg_step db (snd (pg_retry_without_wakeup l r clk db))"
| ps_recover: "pg_step db (snd (pg_recover k clk db))"
| ps_reconcile: "pg_step db (snd (pg_reconcile c k clk db))"
| ps_sweep: "pg_step db (snd (pg_sweep_expired_leases n busy race bclk tx db))"
| ps_schedule: "pg_step db (snd (pg_schedule_retries n busy bclk tx db))"
| ps_reconcile_sessions: "pg_step db (snd (pg_reconcile_sessions n cs busy race bclk tx db))"
| ps_other: "environment_ok db db' \<Longrightarrow> pg_step db db'"

definition pg_epoch :: "pg_db \<Rightarrow> session_key \<Rightarrow> nat" where
  "pg_epoch db k = mailbox_epoch (mailbox_view db) k"

definition pg_lease_held :: "pg_db \<Rightarrow> mailbox_lease \<Rightarrow> time \<Rightarrow> bool" where
  "pg_lease_held db l now = lease_held (mailbox_view db) l now"

lemma view_eq_fields:
  assumes "mailbox_view db' = mailbox_view db"
  shows "pg_get k db' = pg_get k db" and "pg_item k n db' = pg_item k n db" and "db_items db' = db_items db"
  using arg_cong [OF assms, of "ms_get k"] arg_cong [OF assms, of "ms_item k n"] arg_cong [OF assms, of ms_items] by simp_all

lemma pg_other_ok:
  assumes "mailbox_view db' = mailbox_view db" and "db_resolved_at db' = db_resolved_at db"
  shows "environment_ok db db'"
  using assms by (simp add: environment_ok_def pg_inv_def pg_session_ok_def view_eq_fields [OF assms(1)] pg_le_view)

lemma pg_step_inv: "pg_step db db' \<Longrightarrow> pg_inv db \<Longrightarrow> pg_inv db'"
  by (induction rule: pg_step.induct)
    (auto simp: environment_ok_def intro: inv_intros pg_sweep_step pg_schedule_step pg_reconcile_sessions_step)

lemma pg_step_le: "pg_step db db' \<Longrightarrow> pg_inv db \<Longrightarrow> pg_le db db'"
  by (induction rule: pg_step.induct)
    (auto simp: environment_ok_def intro: pg_accept_le pg_claim_le pg_claim_session_le pg_renew_le pg_renew_many_le pg_commit_le pg_releases_le
      pg_recover_le pg_reconcile_le pg_sweep_step pg_schedule_step pg_reconcile_sessions_step)

interpretation pg_mailbox: fenced_machine pg_step pg_inv pg_epoch ml_key ml_epoch pg_lease_held
proof unfold_locales
  show "pg_inv t" if "pg_step s t" "pg_inv s" for s t using that by (rule pg_step_inv)
  show "pg_epoch s k \<le> pg_epoch t k" if "pg_step s t" "pg_inv s" for s t k
    using pg_step_le [OF that] unfolding pg_epoch_def pg_le_def by (rule store_le_epoch)
  show "pg_epoch s (ml_key l) = ml_epoch l" if "pg_inv s" "pg_lease_held s l now" for s l now
    using mailbox.holds_epoch [OF pg_inv_view [OF that(1)]] that(2) by (simp add: pg_lease_held_def pg_epoch_def)
qed

definition init_pg_db :: "string list \<Rightarrow> (string \<times> string \<Rightarrow> string option) \<Rightarrow> (nat \<Rightarrow> string) \<Rightarrow> pg_db" where
  "init_pg_db tenants inbound uuids =
     \<lparr>db_tenants = tenants, db_inbound = inbound, db_sessions = (\<lambda>_. None), db_mailboxes = [], db_items = (\<lambda>_. []),
      db_resolved_at = (\<lambda>_ _. None), db_outbox = [], db_uuid = uuids, db_uuids_drawn = 0\<rparr>"

lemma init_pg_db_inv: "pg_inv (init_pg_db tenants inbound uuids)"
proof -
  have "mailbox_view (init_pg_db tenants inbound uuids) = init_mailbox_store uuids"
    by (simp add: mailbox_view_def init_pg_db_def init_mailbox_store_def)
  then show ?thesis
    by (simp add: pg_inv_def init_mailbox_store_inv pg_session_ok_def) (simp add: init_pg_db_def pg_get_def pg_item_def)
qed

end
