(* ===== verification/Pg_Errors.thy ===== *)
theory Pg_Errors
  imports Pg_History
begin

text \<open>
  Which errors the transactions of the PostgreSQL mailbox can raise in a database that satisfies the invariant,
  and that the recovery transactions and the batch functions always return.
\<close>

declare split_paired_All [simp del] split_paired_Ex [simp del] One_nat_def [simp del]

subsection \<open>Errors\<close>

definition database_error :: "error \<Rightarrow> bool" where
  "database_error e = (case e of PostgresError _ \<Rightarrow> True | AssertionError _ \<Rightarrow> True | _ \<Rightarrow> False)"

lemma database_error_simps [simp]:
  "database_error check_violation" "database_error foreign_key_violation" "database_error unique_violation"
  "database_error data_error" "database_error indeterminate_datatype" "\<not> database_error lease_not_current"
  "\<not> database_error (ValueError v)" "\<not> database_error (FencingConflict v)" "\<not> database_error recovery_limit_range"
  by (simp_all add: database_error_def check_violation_def foreign_key_violation_def unique_violation_def data_error_def
      indeterminate_datatype_def lease_not_current_def recovery_limit_range_def)

lemma pg_accept_errors:
  assumes "pg_inv db" and "pg_accept k i p r tr clk db = (Inl e, db')" and "database_error e"
  shows "fst k \<notin> set (db_tenants db) \<or> \<not> bounded_text 256 (snd k) \<or> \<not> in_int4 p
       \<or> \<not> bounded_text 512 (str_or tr i) \<or> (\<exists>u. uuid_of i = Some u \<and> db_inbound db (fst k, u) = None)"
proof (rule ccontr)
  assume "\<not> ?thesis"
  then have a: "fst k \<in> set (db_tenants db)" "bounded_text 256 (snd k)" "in_int4 p" "bounded_text 512 (str_or tr i)"
    "\<And>u. uuid_of i = Some u \<Longrightarrow> db_inbound db (fst k, u) \<noteq> None" by auto
  have vp: "validate_priority p = None" and pp: "0 \<le> p"
    using assms(2,3) by (auto simp: pg_accept_def validate_priority_def split: if_splits)
  obtain u where u: "require_uuid i = Inr u"
    using assms(2,3) vp by (auto simp: pg_accept_def require_uuid_def split: option.splits sum.splits)
  have uu: "uuid_of i = Some u" using u by (simp add: require_uuid_Inr)
  have "mailbox_row_ok (new_session_mailbox (fst k) (snd k) (clk 0))"
    using a(2) by (simp add: mailbox_row_ok_def new_session_mailbox_def)
  then have "\<exists>db1. insert_mailbox k (clk 0) db = Inr db1"
    using a(1) by (cases "pg_get k db") (simp_all add: insert_mailbox_def update_mailbox_def)
  then obtain db1 where d1: "insert_mailbox k (clk 0) db = Inr db1" by blast
  then have inb: "db_inbound db1 = db_inbound db" by (auto simp: insert_mailbox_def update_mailbox_def split: if_splits)
  note i1 = insert_mailbox_inv [OF assms(1) d1]
  obtain m where m: "pg_get k db1 = Some m" using i1(2) by blast
  note d = pg_invD [OF i1(1) m]
  have "pg_item k (mb_accepted_sequence m + 1) db1 = None"
    using item_exists [OF d(4), of "mb_accepted_sequence m + 1"] by (auto simp: pg_item_def)
  then have "\<exists>db2. insert_item k (mb_accepted_sequence m + 1) it db1 = Inr db2"
    if "it_priority it = p" "it_trace_id it = str_or tr i" "it_inbound_id it = u" for it
    using that a(3-5) uu inb by (simp add: insert_item_def)
  moreover obtain s t where s: "accept_status m r (clk 2) = (s, t)" by fastforce
  have "mailbox_row_ok (m\<lparr>mb_accepted_sequence := mb_accepted_sequence m + 1, mb_status := s, mb_queue_generation := g,
      mb_priority := max (mb_priority m) p, mb_retry_at := t, mb_updated_at := v\<rparr>)" for g v
    using d(7) pp accept_status_cases [OF s] by (auto simp: mailbox_row_ok_def split: option.splits)
  ultimately have "\<exists>x. pg_accept_new k u (str_or tr i) p r clk m db1 = Inr x"
    by (auto simp: pg_accept_new_def Let_def s update_mailbox_def split: sum.splits) (metis Inr_not_Inl mailbox_item.select_convs(3,5,6))
  then show False using assms(2) vp u d1 m by (auto simp: pg_accept_def split: if_splits)
qed

definition head_waits :: "session_key \<Rightarrow> time \<Rightarrow> pg_db \<Rightarrow> bool" where
  "head_waits k now db =
     (case pg_get k db of
        None \<Rightarrow> False
      | Some m \<Rightarrow> (case pg_item k (mb_resolved_sequence m + 1) db of None \<Rightarrow> False | Some it \<Rightarrow> later_than (it_retry_at it) now))"

lemma pg_grant_total:
  assumes "pg_inv db" and "pg_get k db = Some m" and "pg_item k (mb_resolved_sequence m + 1) db = Some it" and "bounded_text 256 owner"
  shows "\<exists>x. pg_grant k owner lf now m (mb_resolved_sequence m + 1) it db = Inr x"
proof -
  have "mb_resolved_sequence m + 1 \<le> mb_accepted_sequence m" using pg_invD(8) [OF assms(1,2), of "mb_resolved_sequence m + 1" it] assms(3) by simp
  moreover have "0 \<le> it_priority it" using pg_session_okD(1) [OF assms(1), of k] assms(3) by (simp add: items_ok_def)
  ultimately show ?thesis using pg_invD(7) [OF assms(1,2)] assms(4)
    by (simp add: pg_grant_def Let_def update_mailbox_def mailbox_row_ok_def)
qed

lemma claim_locked_errors:
  assumes "pg_inv db" and "claim_locked k owner lf clk db = Inl e"
  shows "\<not> bounded_text 256 owner \<or> (e = indeterminate_datatype \<and> head_waits k (clk 2) db)"
proof -
  obtain m where m: "pg_get k db = Some m" using assms(2) by (auto simp: claim_locked_def split: option.splits)
  note d = pg_invD [OF assms(1) m]
  let ?n = "mb_resolved_sequence m + 1"
  have n: "(case mb_processing_sequence m of Some n \<Rightarrow> n | None \<Rightarrow> ?n) = ?n"
    using d(3) by (auto simp: mailbox_wf_def split: option.splits if_splits)
  have "mailbox_row_ok (m\<lparr>mb_status := IDLE, mb_updated_at := clk 1\<rparr>)" if "mb_processing_sequence m = None"
    using d(7) that by (auto simp: mailbox_row_ok_def split: if_splits)
  then show ?thesis
    using assms(2) pg_grant_total [OF assms(1) m, of _ owner lf "clk 2"]
    by (auto simp: claim_locked_def m Let_def n update_mailbox_def head_waits_def split: if_splits option.splits)
qed

lemma pg_claim_errors:
  assumes "pg_inv db" and "pg_claim k owner lf clk db = (Inl e, db')" and "database_error e"
  shows "db' = db \<and> (\<not> bounded_text 256 owner \<or> e = indeterminate_datatype \<and> head_waits k (clk 2) db)"
proof -
  have "claim_locked k owner lf clk db = Inl e" "db' = db"
    using assms(2,3) by (auto simp: pg_claim_def validate_lease_for_def transaction_def split: if_splits sum.splits)
  then show ?thesis using claim_locked_errors [OF assms(1)] by blast
qed

lemma renew_row_total:
  assumes "pg_inv db" and "uuid_of (ml_inbound_id l) \<noteq> None"
  shows "\<exists>x. renew_row l lf now db = Inr x"
proof (cases "pg_get (ml_key l) db")
  case (Some m)
  note d = pg_invD(7) [OF assms(1) Some]
  have "mailbox_row_ok (m\<lparr>mb_lease_expires_at := Some t, mb_updated_at := now\<rparr>)" if "owns (Some m) l' now" for l' t
    using d that by (auto simp: mailbox_row_ok_def owns_def)
  then show ?thesis using assms(2) Some by (auto simp: renew_row_def Let_def update_mailbox_def)
qed (use assms(2) in \<open>auto simp: renew_row_def\<close>)

lemma pg_renew_errors:
  assumes "pg_inv db" and "pg_renew l lf now db = (Inl e, db')"
  shows "\<not> database_error e"
proof (cases "uuid_of (ml_inbound_id l)")
  case None
  then show ?thesis using assms(2) by (auto simp: pg_renew_def renew_row_def validate_lease_for_def split: if_splits)
next
  case (Some u)
  then obtain x where "renew_row l lf now db = Inr x" using renew_row_total [OF assms(1)] by blast
  then show ?thesis using assms(2)
    by (cases x) (auto simp: pg_renew_def validate_lease_for_def split: if_splits option.splits)
qed

lemma pg_commit_total:
  assumes "pg_inv db" and "assert_owned l (clk 0) db = Inr m"
  shows "\<exists>r. fst (pg_commit l clk db) = Inr r"
proof -
  note o = pg_owned [OF assms]
  obtain s r where s: "next_state (pg_item (ml_key l) (ml_sequence l + 1) db) (clk 2) = (s, r)" by fastforce
  then have "s \<noteq> RUNNING" by (auto simp: next_state_def split: option.splits if_splits)
  then have "mailbox_row_ok (unleased_row (m\<lparr>mb_resolved_sequence := ml_sequence l\<rparr>) s r i t)" for i t
    using pg_invD(7) [OF assms(1) o(1)] o(4) by (simp add: mailbox_row_ok_def unleased_row_def)
  then show ?thesis
    unfolding pg_commit_def assms(2) sum.case Let_def pg_item_simps(3) s prod.case update_mailbox_def by simp
qed

lemma pg_commit_errors:
  assumes "pg_inv db" and "pg_commit l clk db = (Inl e, db')"
  shows "e = lease_not_current \<and> db' = db"
proof (cases "assert_owned l (clk 0) db")
  case (Inl x)
  then have "x = lease_not_current" by (auto simp: assert_owned_def split: option.splits if_splits)
  then show ?thesis using assms(2) Inl by (simp add: pg_commit_def)
next
  case (Inr m)
  then show ?thesis using pg_commit_total [where clk = clk, OF assms(1) Inr] assms(2) by simp
qed

lemma pg_release_errors:
  assumes "pg_inv db" and "pg_release l r p inc emit clk db = (Inl e, db')" and "database_error e"
  shows "\<exists>q. p = Some q \<and> \<not> in_int4 q"
proof (rule ccontr)
  assume n: "\<not> ?thesis"
  have p: "(case p of None \<Rightarrow> None | Some q \<Rightarrow> validate_priority q) = None"
    using assms(2,3) by (auto simp: pg_release_def validate_priority_def split: option.splits if_splits)
  have pi: "(case p of None \<Rightarrow> True | Some q \<Rightarrow> in_int4 q) = True" using n by (auto split: option.splits)
  show False
  proof (cases "assert_owned l (clk 0) db")
    case (Inl x)
    then have "x = lease_not_current" by (auto simp: assert_owned_def split: option.splits if_splits)
    then show False using assms(2,3) p Inl by (simp add: pg_release_def)
  next
    case (Inr m)
    note o = pg_owned [OF assms(1) Inr]
    obtain it where it: "pg_item (ml_key l) (ml_sequence l) db = Some it" using pg_invD(6) [OF assms(1) o(1) o(5)] by auto
    have "0 \<le> it_priority it" using pg_session_okD(1) [OF assms(1), of "ml_key l"] it by (simp add: items_ok_def)
    then have q: "0 \<le> (case p of None \<Rightarrow> it_priority it | Some q \<Rightarrow> q)"
      using p by (auto simp: validate_priority_def split: option.splits if_splits)
    obtain s0 r0 where n: "next_state (Some (it\<lparr>it_retry_count := it_retry_count it + (if inc then 1 else 0),
         it_priority := (case p of None \<Rightarrow> it_priority it | Some q \<Rightarrow> q), it_retry_at := r\<rparr>)) (clk 1) = (s0, r0)" by fastforce
    have s0: "s0 \<noteq> RUNNING" using n by (auto simp: next_state_def split: if_splits)
    have ok: "mailbox_row_ok ((unleased_row m (if emit then s0 else RETRY_WAIT) t i v)\<lparr>mb_retry_count := c,
        mb_priority := (case p of None \<Rightarrow> it_priority it | Some q \<Rightarrow> q)\<rparr>)" for t i v c
      using pg_invD(7) [OF assms(1) o(1)] q s0 by (auto simp: mailbox_row_ok_def unleased_row_def)
    have "\<exists>a. fst (pg_release l r p inc emit clk db) = Inr a"
      unfolding pg_release_def p option.case Inr sum.case Let_def it pi n prod.case update_mailbox_def
      using ok by simp
    then show False using assms(2) by simp
  qed
qed

lemma pg_recover_total:
  assumes "pg_inv db"
  shows "\<exists>x. fst (pg_recover k clk db) = Inr x"
proof (cases "pg_get k db")
  case (Some m)
  obtain s r where h: "head_status (pg_item k (head_sequence m) db) (head_sequence m) m (clk 1) = (s, r)" by fastforce
  have "mailbox_row_ok (unleased_row m s r i t)" for i t
    using unleased_row_ok [OF pg_invD(7) [OF assms Some] pg_head_status(2) [OF assms Some h]] .
  then show ?thesis unfolding pg_recover_def Some option.case Let_def h prod.case update_mailbox_def by simp
qed (simp add: pg_recover_def)

lemma pg_reconcile_total:
  assumes "pg_inv db"
  shows "\<exists>x. fst (pg_reconcile c k clk db) = Inr x"
proof (cases "pg_get k db")
  case (Some m)
  obtain s r where h: "head_status (pg_item k (head_sequence m) db) (head_sequence m) m (clk 0) = (s, r)" by fastforce
  have "mailbox_row_ok (unleased_row m s r i t)" for i t
    using unleased_row_ok [OF pg_invD(7) [OF assms Some] pg_head_status(2) [OF assms Some h]] .
  then show ?thesis unfolding pg_reconcile_def Some option.case Let_def h prod.case update_mailbox_def by simp
qed (simp add: pg_reconcile_def)

lemma pg_batches_total:
  assumes "pg_inv db" and "1 \<le> n" and "n \<le> 1000"
  shows "\<exists>c \<le> nat n. fst (pg_sweep_expired_leases n busy race clk tx db) = Inr c"
    and "\<exists>c \<le> nat n. fst (pg_schedule_retries n busy clk tx db) = Inr c"
    and "5 \<le> cs \<Longrightarrow> cs \<le> 86400 \<Longrightarrow> \<exists>c \<le> nat n. fst (pg_reconcile_sessions n cs busy race clk tx db) = Inr c"
proof -
  have n: "\<not> (n < 1 \<or> 1000 < n)" using assms(2,3) by simp
  obtain c t where "rows_loop (sweep_body race clk tx) (sweep_selected (nat n) busy clk db) 0 db = Inr (c, t)"
    using pg_sweep.rows_total [OF assms(1) sweep_selected_rows(1) [OF assms(1)]] sweep_selected_rows(3) [OF assms(1)] by blast
  moreover from pg_sweep.rows_count [OF this] have "c \<le> nat n" using sweep_selected_rows(2) [OF assms(1), of "nat n" busy clk] by simp
  ultimately show "\<exists>c \<le> nat n. fst (pg_sweep_expired_leases n busy race clk tx db) = Inr c"
    unfolding pg_sweep_expired_leases_def if_not_P [OF n] sweep_rows_loop by simp
  obtain c t where "rows_loop (schedule_body clk tx) (schedule_selected (nat n) busy clk db) 0 db = Inr (c, t)"
    using pg_schedule.rows_total [OF assms(1) schedule_selected_rows(1) [OF assms(1)]] schedule_selected_rows(3) [OF assms(1)] by blast
  moreover from pg_schedule.rows_count [OF this] have "c \<le> nat n" using schedule_selected_rows(2) [OF assms(1), of "nat n" busy clk] by simp
  ultimately show "\<exists>c \<le> nat n. fst (pg_schedule_retries n busy clk tx db) = Inr c"
    unfolding pg_schedule_retries_def if_not_P [OF n] schedule_rows_loop by simp
  assume "5 \<le> cs" "cs \<le> 86400"
  then have cs: "\<not> (cs < 5 \<or> 86400 < cs)" by simp
  obtain c t where "rows_loop (reconcile_body race clk tx) (reconcile_selected (nat n) busy clk db) 0 db = Inr (c, t)"
    using pg_reconciliation.rows_total [OF assms(1) reconcile_selected_rows(1) [OF assms(1)]] reconcile_selected_rows(3) [OF assms(1)] by blast
  moreover from pg_reconciliation.rows_count [OF this] have "c \<le> nat n" using reconcile_selected_rows(2) [OF assms(1), of "nat n" busy clk] by simp
  ultimately show "\<exists>c \<le> nat n. fst (pg_reconcile_sessions n cs busy race clk tx db) = Inr c"
    unfolding pg_reconcile_sessions_def if_not_P [OF n] if_not_P [OF cs] reconcile_rows_loop by simp
qed

end
