(* ===== verification/Pg_Refine.thy ===== *)
theory Pg_Refine
  imports Pg_Errors
begin

text \<open>
  The PostgreSQL mailbox and the in-memory mailbox side by side. When both are called with the same arguments and read
  the same clock, they give the same answers, up to two columns nobody reads in the state in question, and stay
  related, as long as the calls satisfy \<open>call_ok\<close>.
\<close>

declare split_paired_All [simp del] split_paired_Ex [simp del] One_nat_def [simp del]

subsection \<open>The simulation relation\<close>

text \<open>
  Two rows agree when they differ at most in columns nobody reads in their state: the retry time of a mailbox that
  is queued or idle, and the time of the last update of a running one.
\<close>

definition row_sim :: "session_mailbox \<Rightarrow> session_mailbox \<Rightarrow> bool" where
  "row_sim m m' \<longleftrightarrow>
     m' = m\<lparr>mb_retry_at := mb_retry_at m', mb_updated_at := mb_updated_at m'\<rparr>
   \<and> (mb_status m \<in> {QUEUED, IDLE} \<or> mb_retry_at m' = mb_retry_at m)
   \<and> (mb_status m = RUNNING \<or> mb_updated_at m' = mb_updated_at m)"

definition wakeup :: "outbox_record \<Rightarrow> outbox_record" where
  "wakeup r = r\<lparr>ob_payload := filter (\<lambda>(f, _). f \<noteq> ''created_at'') (ob_payload r)\<rparr>"

definition store_sim :: "mailbox_store \<Rightarrow> mailbox_store \<Rightarrow> bool" where
  "store_sim st st' \<longleftrightarrow>
     (\<forall>k. rel_option row_sim (ms_get k st) (ms_get k st')) \<and> ms_items st' = ms_items st
   \<and> map wakeup (ms_outbox st') = map wakeup (ms_outbox st)
   \<and> ms_uuid st' = ms_uuid st \<and> ms_uuids_drawn st' = ms_uuids_drawn st"

definition mailbox_sim :: "pg_db \<Rightarrow> mailbox_store \<Rightarrow> bool" where
  "mailbox_sim db st \<longleftrightarrow> pg_inv db \<and> store_inv st \<and> store_sim (mailbox_view db) st"

lemma row_sim_refl [simp]: "row_sim m m"
  by (simp add: row_sim_def)

lemma row_sim_fields:
  assumes "row_sim m m'"
  shows "mb_tenant_id m' = mb_tenant_id m" "mb_session_id m' = mb_session_id m" "mb_status m' = mb_status m"
    "mb_accepted_sequence m' = mb_accepted_sequence m" "mb_resolved_sequence m' = mb_resolved_sequence m"
    "mb_processing_sequence m' = mb_processing_sequence m" "mb_processing_inbound_id m' = mb_processing_inbound_id m"
    "mb_queue_generation m' = mb_queue_generation m" "mb_lease_owner m' = mb_lease_owner m"
    "mb_lease_epoch m' = mb_lease_epoch m" "mb_lease_expires_at m' = mb_lease_expires_at m"
    "mb_retry_count m' = mb_retry_count m" "mb_attempt m' = mb_attempt m" "mb_priority m' = mb_priority m"
proof -
  define r u where "r = mb_retry_at m'" and "u = mb_updated_at m'"
  have "m' = m\<lparr>mb_retry_at := r, mb_updated_at := u\<rparr>" using assms by (simp add: row_sim_def r_def u_def)
  then show "mb_tenant_id m' = mb_tenant_id m" "mb_session_id m' = mb_session_id m" "mb_status m' = mb_status m"
    "mb_accepted_sequence m' = mb_accepted_sequence m" "mb_resolved_sequence m' = mb_resolved_sequence m"
    "mb_processing_sequence m' = mb_processing_sequence m" "mb_processing_inbound_id m' = mb_processing_inbound_id m"
    "mb_queue_generation m' = mb_queue_generation m" "mb_lease_owner m' = mb_lease_owner m"
    "mb_lease_epoch m' = mb_lease_epoch m" "mb_lease_expires_at m' = mb_lease_expires_at m"
    "mb_retry_count m' = mb_retry_count m" "mb_attempt m' = mb_attempt m" "mb_priority m' = mb_priority m"
    by simp_all
qed

lemma row_sim_elim:
  assumes "row_sim m m'"
  obtains r u where "m' = m\<lparr>mb_retry_at := r, mb_updated_at := u\<rparr>"
    and "mb_status m \<in> {QUEUED, IDLE} \<or> r = mb_retry_at m" and "mb_status m = RUNNING \<or> u = mb_updated_at m"
  using assms unfolding row_sim_def by blast

lemma row_simI:
  "mb_status m \<in> {QUEUED, IDLE} \<or> r = mb_retry_at m \<Longrightarrow> mb_status m = RUNNING \<or> u = mb_updated_at m
     \<Longrightarrow> row_sim m (m\<lparr>mb_retry_at := r, mb_updated_at := u\<rparr>)"
  by (auto simp: row_sim_def)

lemma sim_row:
  assumes "mailbox_sim db st"
  shows "pg_get k db = None \<longleftrightarrow> ms_get k st = None"
    and "pg_get k db = Some m \<Longrightarrow> \<exists>m'. ms_get k st = Some m' \<and> row_sim m m'"
    and "ms_item k n st = pg_item k n db" and "ms_items st = db_items db"
proof -
  have r: "rel_option row_sim (pg_get k db) (ms_get k st)" and i: "ms_items st = db_items db"
    using assms by (simp_all add: mailbox_sim_def store_sim_def)
  show "pg_get k db = None \<longleftrightarrow> ms_get k st = None" using r by (auto simp: option.rel_sel)
  show "pg_get k db = Some m \<Longrightarrow> \<exists>m'. ms_get k st = Some m' \<and> row_sim m m'" using r by (auto simp: option_rel_Some1)
  show "ms_item k n st = pg_item k n db" using i by (simp add: ms_item_def pg_item_def)
  show "ms_items st = db_items db" by (rule i)
qed

lemma sim_put: "store_sim st st' \<Longrightarrow> row_sim m m' \<Longrightarrow> store_sim (ms_put k m st) (ms_put k m' st')"
  by (simp add: store_sim_def fields_simps)

lemma sim_put_item: "store_sim st st' \<Longrightarrow> store_sim (ms_put_item k n it st) (ms_put_item k n it st')"
  by (simp add: store_sim_def fields_simps) (simp add: ms_put_item_def)

lemma sim_append:
  assumes "store_sim st st'" and "mb_key m' = mb_key m" and "it_priority it' = it_priority it"
    and "str_or (Some (it_trace_id it')) (it_inbound_id it') = str_or (Some (it_trace_id it)) (it_inbound_id it)"
  shows "store_sim (snd (append_ready m it t g st)) (snd (append_ready m' it' t' g st'))"
  using assms by (simp add: store_sim_def fields_simps) (simp add: append_ready_def wakeup_def)

lemma sim_emit:
  assumes "store_sim (mailbox_view base) st" and "\<not> list_ex (ready_event_for (mb_key row) (mb_queue_generation row)) (db_outbox base)"
    and "row_sim row row'" and "it_trace_id it \<noteq> []"
  shows "store_sim (mailbox_view (emit_ready_outbox row it t tx (base\<lparr>db_mailboxes := AList.update k row (db_mailboxes base)\<rparr>)))
           (ms_put k row' (snd (append_ready row' it t' (mb_queue_generation row) st)))"
proof -
  let ?base = "base\<lparr>db_mailboxes := AList.update k row (db_mailboxes base)\<rparr>"
  have "item_trace it row = it_trace_id it" using assms(4) by (simp add: item_trace_def str_or_def)
  moreover have "\<not> list_ex (ready_event_for (mb_key row) (mb_queue_generation row)) (db_outbox ?base)" using assms(2) by simp
  ultimately have v: "mailbox_view (emit_ready_outbox row it t tx ?base) =
      ms_put k row (snd (append_ready row (trace_item (it_priority it) (it_trace_id it)) (floor_ms t) (mb_queue_generation row) (mailbox_view base)))"
    using view_insert [of row "mb_queue_generation row" ?base "it_priority it" "it_trace_id it" t tx]
    by (simp add: emit_ready_outbox_def append_put)
  show ?thesis unfolding v
    using row_sim_fields(1,2) [OF assms(3)] assms(4)
    by (intro sim_put [OF sim_append [OF assms(1)] assms(3)]) (simp_all add: trace_item_def str_or_def)
qed

lemma outbox_simps [simp]:
  "db_outbox (update_item k n it db) = db_outbox db" "db_outbox (set_resolved_at k n t db) = db_outbox db"
  "db_outbox (clear_session_lease k m t db) = db_outbox db"
  by (simp_all add: update_item_def set_resolved_at_def clear_session_lease_def split: option.splits)

lemma pg_item_trace: "pg_inv db \<Longrightarrow> pg_item k n db = Some it \<Longrightarrow> it_trace_id it \<noteq> []"
  using pg_session_okD(1) [of db k] by (simp add: items_ok_def)

lemma sim_store: "mailbox_sim db st \<Longrightarrow> store_sim (mailbox_view db) st"
  by (simp add: mailbox_sim_def)

subsection \<open>Calls and replies\<close>

datatype mailbox_call =
    Accept session_key string int "time option" "string option"
  | Claim session_key string duration
  | Claim_Session session_key string duration "int option" "int option" "acceptance option"
  | Renew mailbox_lease duration
  | Commit mailbox_lease
  | Release mailbox_lease "time option" "int option" bool bool
  | Recover session_key
  | Reconcile session_key

datatype mailbox_reply =
    Row session_mailbox
  | Row_Option "session_mailbox option"
  | Lease mailbox_lease
  | Lease_Option "mailbox_lease option"
  | Session_Claim session_claim

definition replies :: "('a \<Rightarrow> mailbox_reply) \<Rightarrow> ('a, 's) outcome \<Rightarrow> (mailbox_reply, 's) outcome" where
  "replies f r = (map_sum id f (fst r), snd r)"

definition run_memory :: "mailbox_call \<Rightarrow> time \<Rightarrow> mailbox_store \<Rightarrow> (mailbox_reply, mailbox_store) outcome" where
  "run_memory c now st =
     (case c of
        Accept k i p r tr \<Rightarrow> replies Row (accept k i p r tr now st)
      | Claim k owner lf \<Rightarrow> replies Lease_Option (claim k owner lf now st)
      | Claim_Session k owner lf eg ee acc \<Rightarrow> replies Session_Claim (claim_session k owner lf eg ee acc now st)
      | Renew l lf \<Rightarrow> replies Lease (renew l lf now st)
      | Commit l \<Rightarrow> replies Row (commit l now st)
      | Release l r p inc emit \<Rightarrow> replies Row (release l r p inc emit now st)
      | Recover k \<Rightarrow> replies Row_Option (apfst Inr (recover k now st))
      | Reconcile k \<Rightarrow> replies Row_Option (apfst Inr (reconcile k now st)))"

definition run_pg :: "duration \<Rightarrow> mailbox_call \<Rightarrow> time \<Rightarrow> pg_db \<Rightarrow> (mailbox_reply, pg_db) outcome" where
  "run_pg cooldown c now db =
     (case c of
        Accept k i p r tr \<Rightarrow> replies Row (pg_accept k i p r tr (\<lambda>_. now) db)
      | Claim k owner lf \<Rightarrow> replies Lease_Option (pg_claim k owner lf (\<lambda>_. now) db)
      | Claim_Session k owner lf eg ee acc \<Rightarrow>
          replies Session_Claim (pg_claim_session k owner lf eg ee acc now (\<lambda>_. now) db)
      | Renew l lf \<Rightarrow> replies Lease (pg_renew l lf now db)
      | Commit l \<Rightarrow> replies Row (pg_commit l (\<lambda>_. now) db)
      | Release l r p inc emit \<Rightarrow> replies Row (pg_release l r p inc emit (\<lambda>_. now) db)
      | Recover k \<Rightarrow> replies Row_Option (pg_recover k (\<lambda>_. now) db)
      | Reconcile k \<Rightarrow> replies Row_Option (pg_reconcile cooldown k (\<lambda>_. now) db))"

fun reply_sim :: "mailbox_reply \<Rightarrow> mailbox_reply \<Rightarrow> bool" where
  "reply_sim (Row m) (Row m') = row_sim m m'"
| "reply_sim (Row_Option m) (Row_Option m') = rel_option row_sim m m'"
| "reply_sim (Lease l) (Lease l') = (l = l')"
| "reply_sim (Lease_Option l) (Lease_Option l') = (l = l')"
| "reply_sim (Session_Claim c) (Session_Claim c') =
     (\<exists>m'. row_sim (sc_mailbox c) m' \<and> c' = c\<lparr>sc_mailbox := m'\<rparr>)"
| "reply_sim _ _ = False"

text \<open>
  What the caller and the rest of the service provide for the two stores to agree: identifiers the tables accept, the
  rows that the foreign keys name, a head that is due when it is claimed, and, for recovery, a session lease that
  agrees with the lease of the mailbox.
\<close>

fun call_ok :: "mailbox_call \<Rightarrow> time \<Rightarrow> pg_db \<Rightarrow> bool" where
  "call_ok (Accept k i p r tr) now db =
     (fst k \<noteq> [] \<and> fst k \<in> set (db_tenants db) \<and> bounded_text 256 (snd k) \<and> in_int4 p
      \<and> bounded_text 512 (str_or tr i) \<and> uuid_of i = Some i \<and> db_inbound db (fst k, i) \<noteq> None)"
| "call_ok (Claim k owner lf) now db =
     (fst k \<noteq> [] \<and> snd k \<noteq> [] \<and> bounded_text 256 owner \<and> \<not> head_waits k now db)"
| "call_ok (Claim_Session k owner lf eg ee acc) now db =
     (fst k \<noteq> [] \<and> snd k \<noteq> [] \<and> 0 < lf \<and> bounded_text 256 owner \<and> \<not> head_waits k now db)"
| "call_ok (Renew l lf) now db = (uuid_of (ml_inbound_id l) = Some (ml_inbound_id l))"
| "call_ok (Commit l) now db = True"
| "call_ok (Release l r p inc emit) now db = (case p of None \<Rightarrow> True | Some q \<Rightarrow> in_int4 q)"
| "call_ok (Recover k) now db = (\<not> session_live (db_sessions db k) now)"
| "call_ok (Reconcile k) now db =
     (session_live (db_sessions db k) now =
        (case pg_get k db of None \<Rightarrow> False | Some m \<Rightarrow> later_than (mb_lease_expires_at m) now))"

subsection \<open>Each call simulates\<close>

text \<open>The stores have to be related after the call; the invariants follow.\<close>

definition simulates :: "(mailbox_reply, pg_db) outcome \<Rightarrow> (mailbox_reply, mailbox_store) outcome \<Rightarrow> bool" where
  "simulates p q \<longleftrightarrow> rel_sum (=) reply_sim (fst p) (fst q) \<and> store_sim (mailbox_view (snd p)) (snd q)"

lemma simulates_replies [simp]:
  "simulates (replies f (Inl e, db)) (replies g (Inl e', st)) \<longleftrightarrow> e = e' \<and> store_sim (mailbox_view db) st"
  "simulates (replies f (Inr a, db)) (replies g (Inr b, st)) \<longleftrightarrow> reply_sim (f a) (g b) \<and> store_sim (mailbox_view db) st"
  by (simp_all add: simulates_def replies_def)

lemma owns_sim: "row_sim m m' \<Longrightarrow> owns (Some m') l now = owns (Some m) l now"
  by (simp add: owns_def row_sim_fields)

lemma require_sim:
  assumes "mailbox_sim db st"
  shows "assert_owned l now db = Inl e \<Longrightarrow> e = lease_not_current \<and> require_owned (ml_key l) l now st = Inl lease_not_current"
    and "assert_owned l now db = Inr m \<Longrightarrow> \<exists>m'. row_sim m m' \<and> require_owned (ml_key l) l now st = Inr m'"
  using sim_row(1,2) [OF assms, of "ml_key l"] owns_sim
  by (auto simp: assert_owned_def require_owned_def lease_not_current_def split: option.splits if_splits)

lemma sim_renew:
  assumes "mailbox_sim db st" and "uuid_of (ml_inbound_id l) = Some (ml_inbound_id l)"
  shows "simulates (replies Lease (pg_renew l lf now db)) (replies Lease (renew l lf now st))"
proof (cases "validate_lease_for lf = None")
  case False
  then show ?thesis using sim_store [OF assms(1)] by (auto simp: pg_renew_def renew_def)
next
  case v: True
  show ?thesis
  proof (cases "assert_owned l now db")
    case (Inl e)
    then have "renew_row l lf now db = Inr (None, db)"
      using assms(2) by (auto simp: renew_row_def assert_owned_def split: option.splits if_splits)
    then show ?thesis using require_sim(1) [OF assms(1) Inl] sim_store [OF assms(1)] v
      by (simp add: pg_renew_def renew_def)
  next
    case (Inr m)
    have i: "pg_inv db" using assms(1) by (simp add: mailbox_sim_def)
    have o: "pg_get (ml_key l) db = Some m" "owns (Some m) l now" using Inr by (simp_all add: assert_owned_Inr)
    obtain m' where m': "row_sim m m'" "require_owned (ml_key l) l now st = Inr m'" using require_sim(2) [OF assms(1) Inr] by blast
    obtain t where t: "mb_lease_expires_at m = Some t" "mb_status m = RUNNING"
      using o(2) by (auto simp: owns_def later_than_def split: option.splits)
    let ?t = "max (now + lf) (t + 1)"
    have "mailbox_row_ok (m\<lparr>mb_lease_expires_at := Some ?t, mb_updated_at := now\<rparr>)"
      using pg_invD(7) [OF i o(1)] t by (auto simp: mailbox_row_ok_def split: option.splits)
    then have r: "renew_row l lf now db = Inr (Some ?t, db\<lparr>db_mailboxes := AList.update (ml_key l)
        (m\<lparr>mb_lease_expires_at := Some ?t, mb_updated_at := now\<rparr>) (db_mailboxes db)\<rparr>)"
      using assms(2) o t by (simp add: renew_row_def Let_def update_mailbox_def)
    have "row_sim (m\<lparr>mb_lease_expires_at := Some ?t, mb_updated_at := now\<rparr>) (m'\<lparr>mb_lease_expires_at := Some ?t, mb_updated_at := now\<rparr>)"
      using m'(1) t(2) by (elim row_sim_elim) (simp add: row_sim_def)
    then show ?thesis
      using v r m' t row_sim_fields(11) [OF m'(1)] by (simp add: pg_renew_def renew_def Let_def sim_put [OF sim_store [OF assms(1)]])
  qed
qed

lemma sim_commit:
  assumes "mailbox_sim db st"
  shows "simulates (replies Row (pg_commit l (\<lambda>_. now) db)) (replies Row (commit l now st))"
proof (cases "assert_owned l now db")
  case (Inl e)
  then show ?thesis using require_sim(1) [OF assms Inl] sim_store [OF assms] by (simp add: pg_commit_def commit_def)
next
  case (Inr m)
  have i: "pg_inv db" using assms by (simp add: mailbox_sim_def)
  note o = pg_owned [OF i Inr]
  let ?k = "ml_key l" and ?n = "ml_sequence l"
  let ?base = "set_resolved_at ?k ?n now db"
  obtain m' where m': "row_sim m m'" "require_owned ?k l now st = Inr m'" using require_sim(2) [OF assms Inr] by blast
  note f = row_sim_fields [OF m'(1)]
  obtain s r where s: "next_state (pg_item ?k (?n + 1) db) now = (s, r)" by fastforce
  define row where "row = unleased_row (m\<lparr>mb_resolved_sequence := ?n\<rparr>) s r (if s = QUEUED then 1 else 0) now"
  have "s \<noteq> RUNNING" using s by (auto simp: next_state_def split: option.splits if_splits)
  then have ok: "mailbox_row_ok row"
    using pg_invD(7) [OF i o(1)] o(4) by (simp add: mailbox_row_ok_def unleased_row_def row_def)
  let ?db1 = "?base\<lparr>db_mailboxes := AList.update ?k row (db_mailboxes ?base)\<rparr>"
  have p: "pg_commit l (\<lambda>_. now) db = (Inr row, case pg_item ?k (?n + 1) db of None \<Rightarrow> ?db1
        | Some it \<Rightarrow> if s = QUEUED then emit_ready_outbox row it now now ?db1 else ?db1)"
    unfolding pg_commit_def Inr sum.case Let_def pg_item_simps(3) s prod.case row_def [symmetric] update_mailbox_def if_P [OF ok] by simp
  let ?res = "m'\<lparr>mb_resolved_sequence := ?n, mb_processing_sequence := None, mb_processing_inbound_id := None,
     mb_lease_owner := None, mb_lease_expires_at := None, mb_status := ready_status m' ?n now, mb_retry_at := None, mb_updated_at := now\<rparr>"
  have sb: "store_sim (mailbox_view ?base) st" using sim_store [OF assms] by simp
  have it: "pg_item ?k (?n + 1) db = None \<longleftrightarrow> mb_accepted_sequence m \<le> ?n"
    using item_exists [OF pg_invD(4) [OF i o(1)], of "?n + 1"] by (auto simp: pg_item_def)
  have k: "mb_key row = ?k" using pg_invD(1,2) [OF i o(1)] by (simp add: row_def)
  show ?thesis
  proof (cases "pg_item ?k (?n + 1) db")
    case None
    then have "s = IDLE" "r = None" using s by (simp_all add: next_state_def)
    then have "row_sim row ?res"
      using m'(1) None it f by (elim row_sim_elim) (simp add: row_sim_def row_def unleased_row_def ready_status_def)
    moreover have "commit l now st = (Inr ?res, ms_put ?k ?res st)"
      using m'(2) f(6) o(5) None by (simp add: commit_def Let_def sim_row(3) [OF assms])
    ultimately show ?thesis using sim_put [OF sb] None by (simp add: p)
  next
    case (Some it)
    have tr: "it_trace_id it \<noteq> []" using pg_item_trace [OF i Some] .
    show ?thesis
    proof (cases "later_than (it_retry_at it) now")
      case True
      then have sr: "s = RETRY_WAIT" "r = it_retry_at it" using s Some by (simp_all add: next_state_def)
      let ?row' = "?res\<lparr>mb_status := RETRY_WAIT, mb_retry_at := it_retry_at it\<rparr>"
      have "row_sim row ?row'"
        using m'(1) by (elim row_sim_elim) (simp add: row_sim_def row_def unleased_row_def sr)
      moreover have "commit l now st = (Inr ?row', ms_put ?k ?row' st)"
        using m'(2) f(6) o(5) Some True by (simp add: commit_def Let_def sim_row(3) [OF assms])
      ultimately show ?thesis using sim_put [OF sb] Some sr by (simp add: p)
    next
      case False
      then have sr: "s = QUEUED" "r = None" using s Some by (simp_all add: next_state_def)
      let ?row' = "?res\<lparr>mb_status := QUEUED, mb_queue_generation := mb_queue_generation m' + 1\<rparr>"
      have rs: "row_sim row ?row'"
        using m'(1) by (elim row_sim_elim) (simp add: row_sim_def row_def unleased_row_def sr)
      have g: "mb_queue_generation row = mb_queue_generation m + 1" by (simp add: row_def sr)
      have nc: "\<not> list_ex (ready_event_for (mb_key row) (mb_queue_generation row)) (db_outbox ?base)"
        using next_generation_fresh [OF i o(1)] k g by (simp add: Suc_eq_plus1)
      note e = sim_emit [OF sb nc rs tr, where k = ?k and t = now and t' = now and tx = now]
      have c: "commit l now st = (Inr ?row', ms_put ?k ?row' (snd (append_ready ?row' it now (mb_queue_generation row) st)))"
        using m'(2) f(6,8) o(5) Some False g by (simp add: commit_def Let_def emit_ready_eq sim_row(3) [OF assms])
      show ?thesis using e rs Some sr by (simp add: p c)
    qed
  qed
qed

lemma sim_release:
  assumes "mailbox_sim db st" and "case p of None \<Rightarrow> True | Some q \<Rightarrow> in_int4 q"
  shows "simulates (replies Row (pg_release l r p inc emit (\<lambda>_. now) db)) (replies Row (release l r p inc emit now st))"
proof (cases "case p of None \<Rightarrow> None | Some q \<Rightarrow> validate_priority q")
  case (Some e)
  then show ?thesis using sim_store [OF assms(1)] by (simp add: pg_release_def release_def)
next
  case p: None
  have i: "pg_inv db" using assms(1) by (simp add: mailbox_sim_def)
  show ?thesis
  proof (cases "assert_owned l now db")
    case (Inl e)
    then show ?thesis using require_sim(1) [OF assms(1) Inl] sim_store [OF assms(1)] p by (simp add: pg_release_def release_def)
  next
    case (Inr m)
    note o = pg_owned [OF i Inr]
    let ?k = "ml_key l" and ?n = "ml_sequence l"
    obtain m' where m': "row_sim m m'" "require_owned ?k l now st = Inr m'" using require_sim(2) [OF assms(1) Inr] by blast
    note f = row_sim_fields [OF m'(1)]
    obtain it where it: "pg_item ?k ?n db = Some it" using pg_invD(6) [OF i o(1) o(5)] by auto
    have at: "mb_attempt m = it_attempt it" using pg_inv_session [OF i, of ?k] o(1,5) it by (simp add: pg_session_ok_def)
    have tr: "it_trace_id it \<noteq> []" using pg_item_trace [OF i it] .
    define it' where "it' = it\<lparr>it_retry_count := it_retry_count it + (if inc then 1 else 0),
       it_priority := (case p of None \<Rightarrow> it_priority it | Some q \<Rightarrow> q), it_retry_at := r\<rparr>"
    have it'm: "it\<lparr>it_retry_count := it_retry_count it + (if inc then 1 else 0), it_retry_at := r,
       it_priority := (case p of None \<Rightarrow> it_priority it | Some q \<Rightarrow> q)\<rparr> = it'" by (simp add: it'_def)
    obtain s0 r0 where n0: "next_state (Some it') now = (s0, r0)" by fastforce
    define s where "s = (if emit then s0 else RETRY_WAIT)"
    define t where "t = (if emit then r0 else r)"
    have sq: "s = (if emit \<and> \<not> later_than r now then QUEUED else RETRY_WAIT)" "s \<noteq> QUEUED \<longrightarrow> t = r" "s = QUEUED \<longrightarrow> emit"
      using n0 by (auto simp: s_def t_def next_state_def it'_def split: if_splits)
    define row where "row = (unleased_row m s t (if s = QUEUED then 1 else 0) now)
       \<lparr>mb_retry_count := it_retry_count it', mb_priority := it_priority it'\<rparr>"
    let ?base = "update_item ?k ?n it' db"
    have pr: "0 \<le> it_priority it'"
      using p pg_session_okD(1) [OF i, of ?k] it
      by (auto simp: it'_def items_ok_def validate_priority_def split: option.splits if_splits)
    have ok: "mailbox_row_ok row"
      using pg_invD(7) [OF i o(1)] pr by (simp add: mailbox_row_ok_def unleased_row_def row_def sq(1))
    let ?db1 = "?base\<lparr>db_mailboxes := AList.update ?k row (db_mailboxes ?base)\<rparr>"
    have P: "pg_release l r p inc emit (\<lambda>_. now) db = (Inr row, if s = QUEUED then emit_ready_outbox row it' now now ?db1 else ?db1)"
      unfolding pg_release_def p option.case Inr sum.case Let_def it it'_def [symmetric] n0 prod.case s_def [symmetric] t_def [symmetric]
        row_def [symmetric] update_mailbox_def if_P [OF ok]
      using assms(2) sq(3) by simp
    have sb: "store_sim (mailbox_view ?base) (ms_put_item ?k ?n it' st)" using sim_put_item [OF sim_store [OF assms(1)]] by simp
    define upd where "upd = m'\<lparr>mb_status := s, mb_processing_sequence := None, mb_processing_inbound_id := None,
       mb_lease_owner := None, mb_lease_expires_at := None, mb_retry_count := it_retry_count it', mb_attempt := it_attempt it,
       mb_priority := it_priority it', mb_retry_at := r, mb_updated_at := now\<rparr>"
    have st: "(if emit then ready_status (m'\<lparr>mb_retry_at := r\<rparr>) (mb_resolved_sequence m') now else RETRY_WAIT) = s"
      using o(3,4) f by (auto simp: sq(1) ready_status_def)
    have ne: "\<not> mb_processing_sequence m' \<noteq> Some ?n" using f(6) o(5) by simp
    have itm: "ms_item ?k ?n st = Some it" using it by (simp add: sim_row(3) [OF assms(1)])
    have rc: "it_retry_count it + (if inc then 1 else 0) = it_retry_count it'" by (simp add: it'_def)
    have qe: "(s = QUEUED \<and> emit) = (s = QUEUED)" using sq(3) by blast
    have M: "release l r p inc emit now st = (let (u, st2) = (if s = QUEUED then emit_ready upd it' now (ms_put_item ?k ?n it' st)
          else (upd, ms_put_item ?k ?n it' st)) in (Inr u, ms_put ?k u st2))"
      unfolding release_def p option.case m'(2) sum.case if_not_P [OF ne] Let_def itm option.case it'm st qe
      unfolding rc upd_def [symmetric] Let_def ..
    show ?thesis
    proof (cases "s = QUEUED")
      case True
      let ?u = "upd\<lparr>mb_queue_generation := mb_queue_generation m' + 1\<rparr>"
      have rs: "row_sim row ?u"
        using m'(1) at True by (elim row_sim_elim) (simp add: row_sim_def row_def unleased_row_def upd_def t_def)
      have g: "mb_queue_generation row = mb_queue_generation m + 1" by (simp add: row_def True)
      have "mb_key row = ?k" using pg_invD(1,2) [OF i o(1)] by (simp add: row_def)
      then have nc: "\<not> list_ex (ready_event_for (mb_key row) (mb_queue_generation row)) (db_outbox ?base)"
        using next_generation_fresh [OF i o(1)] g by (simp add: Suc_eq_plus1)
      have "it_trace_id it' \<noteq> []" using tr by (simp add: it'_def)
      note e = sim_emit [OF sb nc rs this, where k = ?k and t = now and t' = now and tx = now]
      have "upd\<lparr>mb_queue_generation := mb_queue_generation upd + 1\<rparr> = ?u" "mb_queue_generation upd + 1 = mb_queue_generation row"
        using f(8) g by (simp_all add: upd_def)
      then have "emit_ready upd it' now (ms_put_item ?k ?n it' st) = (?u, snd (append_ready ?u it' now (mb_queue_generation row) (ms_put_item ?k ?n it' st)))"
        unfolding emit_ready_eq by simp
      then show ?thesis using e rs by (simp add: P M True)
    next
      case False
      have "row_sim row upd"
        using m'(1) at False by (elim row_sim_elim) (simp add: row_sim_def row_def unleased_row_def upd_def sq(2))
      then show ?thesis using sim_put [OF sb] False by (simp add: P M)
    qed
  qed
qed

lemma accept_status_sim:
  assumes "row_sim m m'" and "accept_status m r now = (s, t)"
  shows "\<exists>t'. accept_status m' r now = (s, t') \<and> (s = QUEUED \<or> t' = t)"
  using assms by (elim row_sim_elim) (auto simp: accept_status_def split: mailbox_status.splits if_splits)

lemma sim_accept_new:
  assumes "mailbox_sim db st" and "pg_get k db = Some m" and "ms_get k st = Some m'" and "row_sim m m'"
    and "0 \<le> p" and "in_int4 p" and "bounded_text 512 (str_or tr i)" and "uuid_of i = Some i" and "db_inbound db (fst k, i) \<noteq> None"
  shows "\<exists>row db2. pg_accept_new k i (str_or tr i) p r (\<lambda>_. now) m db = Inr (row, db2)
       \<and> simulates (replies Row (Inr row, db2)) (replies Row (accept_new k i p r tr now m' st))"
proof -
  have inv: "pg_inv db" using assms(1) by (simp add: mailbox_sim_def)
  note d = pg_invD [OF inv assms(2)] and f = row_sim_fields [OF assms(4)]
  let ?n = "mb_accepted_sequence m + 1"
  define it where "it = \<lparr>it_tenant_id = fst k, it_session_id = snd k, it_inbound_id = i, it_sequence = ?n,
     it_trace_id = str_or tr i, it_priority = p, it_retry_count = 0, it_attempt = 0, it_retry_at = r, it_accepted_at = now\<rparr>"
  have "pg_item k ?n db = None" using item_exists [OF d(4), of ?n] by (auto simp: pg_item_def)
  then have ins: "insert_item k ?n it db = Inr (update_item k ?n it db)"
    using assms(6,7,9) by (simp add: insert_item_def it_def)
  obtain s t where s: "accept_status m r now = (s, t)" by fastforce
  obtain t' where t': "accept_status m' r now = (s, t')" "s = QUEUED \<or> t' = t" using accept_status_sim [OF assms(4) s] by blast
  define e where "e = (s = QUEUED \<and> mb_status m \<in> {IDLE, RETRY_WAIT})"
  define row where "row = m\<lparr>mb_accepted_sequence := ?n, mb_status := s, mb_queue_generation := mb_queue_generation m + (if e then 1 else 0),
     mb_priority := max (mb_priority m) p, mb_retry_at := t, mb_updated_at := now\<rparr>"
  let ?base = "update_item k ?n it db"
  let ?db1 = "?base\<lparr>db_mailboxes := AList.update k row (db_mailboxes ?base)\<rparr>"
  have "mailbox_row_ok row"
    using d(7) assms(5) accept_status_cases [OF s] by (auto simp: mailbox_row_ok_def row_def split: option.splits)
  then have P: "pg_accept_new k i (str_or tr i) p r (\<lambda>_. now) m db =
      Inr (row, if e then emit_ready_outbox row it now now ?db1 else ?db1)"
    unfolding pg_accept_new_def Let_def it_def [symmetric] ins sum.case s prod.case e_def [symmetric] row_def [symmetric]
    by (simp add: update_mailbox_def)
  define upd where "upd = m'\<lparr>mb_status := s, mb_accepted_sequence := ?n, mb_priority := max (mb_priority m) p,
     mb_retry_at := t', mb_updated_at := now\<rparr>"
  have M: "accept_new k i p r tr now m' st = (let (u, st2) = (if e then emit_ready upd it now (ms_put_item k ?n it st)
        else (upd, ms_put_item k ?n it st)) in (Inr u, ms_put k u st2))"
    using assms(7) f t'(1) unfolding accept_new_def
    by (auto simp: Let_def bounded_text_def it_def upd_def e_def)
  have sb: "store_sim (mailbox_view ?base) (ms_put_item k ?n it st)" using sim_put_item [OF sim_store [OF assms(1)]] by simp
  show ?thesis
  proof (cases e)
    case True
    let ?u = "upd\<lparr>mb_queue_generation := mb_queue_generation m + 1\<rparr>"
    have q: "s = QUEUED" using True by (simp add: e_def)
    have rs: "row_sim row ?u"
      using assms(4) True q by (elim row_sim_elim) (simp add: row_sim_def row_def upd_def)
    have g: "mb_queue_generation row = mb_queue_generation m + 1" by (simp add: row_def True)
    have "mb_key row = k" using d(1,2) by (simp add: row_def)
    then have nc: "\<not> list_ex (ready_event_for (mb_key row) (mb_queue_generation row)) (db_outbox ?base)"
      using next_generation_fresh [OF inv assms(2)] g by (simp add: Suc_eq_plus1)
    have "it_trace_id it \<noteq> []" using assms(7) by (auto simp: it_def bounded_text_def)
    note em = sim_emit [OF sb nc rs this, where k = k and t = now and t' = now and tx = now]
    have "upd\<lparr>mb_queue_generation := mb_queue_generation upd + 1\<rparr> = ?u" "mb_queue_generation upd + 1 = mb_queue_generation row"
      using f(8) g by (simp_all add: upd_def)
    then have "emit_ready upd it now (ms_put_item k ?n it st) = (?u, snd (append_ready ?u it now (mb_queue_generation row) (ms_put_item k ?n it st)))"
      unfolding emit_ready_eq by simp
    then show ?thesis using em rs True by (simp add: P M)
  next
    case False
    have "row_sim row upd"
      using assms(4) t'(2) False accept_status_cases(3) [OF s]
      by (elim row_sim_elim) (auto simp: row_sim_def row_def upd_def e_def)
    then show ?thesis using sim_put [OF sb] False by (simp add: P M)
  qed
qed

lemma sim_insert_mailbox:
  fixes now :: time
  assumes "mailbox_sim db st" and "pg_get k db = None" and "fst k \<noteq> []" and "fst k \<in> set (db_tenants db)" and "bounded_text 256 (snd k)"
  defines "new \<equiv> new_session_mailbox (fst k) (snd k) now"
  shows "insert_mailbox k now db = Inr (db\<lparr>db_mailboxes := AList.update k new (db_mailboxes db)\<rparr>)"
    and "mailbox_sim (db\<lparr>db_mailboxes := AList.update k new (db_mailboxes db)\<rparr>) (ms_put k new st)"
    and "db_items db k = []"
proof -
  have i: "pg_inv db" "store_inv st" using assms(1) by (simp_all add: mailbox_sim_def)
  have n: "ms_get k st = None" using sim_row(1) [OF assms(1)] assms(2) by simp
  have "mailbox_row_ok new" using assms(3,5) by (simp add: new_def mailbox_row_ok_def new_session_mailbox_def)
  then show ins: "insert_mailbox k now db = Inr (db\<lparr>db_mailboxes := AList.update k new (db_mailboxes db)\<rparr>)"
    using assms(2,4) by (simp add: insert_mailbox_def update_mailbox_def new_def)
  show "mailbox_sim (db\<lparr>db_mailboxes := AList.update k new (db_mailboxes db)\<rparr>) (ms_put k new st)"
    using insert_mailbox_inv(1) [OF i(1) ins] store_inv_ensure [OF i(2) n] sim_put [OF sim_store [OF assms(1)]]
    by (simp add: mailbox_sim_def new_def)
  show "db_items db k = []" using store_inv_absent [OF pg_inv_view [OF i(1)], of k] assms(2) by simp
qed

lemma sim_accept:
  assumes "mailbox_sim db st" and "call_ok (Accept k i p r tr) now db"
  shows "simulates (replies Row (pg_accept k i p r tr (\<lambda>_. now) db)) (replies Row (accept k i p r tr now st))"
proof -
  have c: "fst k \<noteq> []" "fst k \<in> set (db_tenants db)" "bounded_text 256 (snd k)" "in_int4 p" "bounded_text 512 (str_or tr i)"
    "uuid_of i = Some i" "db_inbound db (fst k, i) \<noteq> None" using assms(2) by simp_all
  have u: "require_uuid i = Inr i" using c(6) by (simp add: require_uuid_Inr)
  have ids: "validate_ids [fst k, snd k, i] = None" using c uuid_of_nonempty [OF c(6)] by (auto simp: validate_ids_def bounded_text_def)
  show ?thesis
  proof (cases "validate_priority p")
    case (Some e)
    then show ?thesis using ids sim_store [OF assms(1)] by (simp add: pg_accept_def accept_def)
  next
    case p: None
    then have p0: "0 \<le> p" by (simp add: validate_priority_def split: if_splits)
    show ?thesis
    proof (cases "pg_get k db")
      case (Some m)
      obtain m' where m': "ms_get k st = Some m'" "row_sim m m'" using sim_row(2) [OF assms(1) Some] by blast
      have ins: "insert_mailbox k now db = Inr db" using Some by (simp add: insert_mailbox_def)
      show ?thesis
      proof (cases "list_ex (\<lambda>(n, it). it_inbound_id it = i) (db_items db k)")
        case True
        then obtain it where "find (\<lambda>it. it_inbound_id it = i) (map snd (ms_items st k)) = Some it"
          using accept_find [of "\<lambda>it. it_inbound_id it = i" "db_items db k"] by (auto simp: sim_row(4) [OF assms(1)])
        then show ?thesis using True ids p u ins Some m' sim_store [OF assms(1)] by (simp add: pg_accept_def accept_def)
      next
        case False
        then have f: "find (\<lambda>it. it_inbound_id it = i) (map snd (ms_items st k)) = None"
          by (simp add: accept_find sim_row(4) [OF assms(1)])
        obtain row db2 where "pg_accept_new k i (str_or tr i) p r (\<lambda>_. now) m db = Inr (row, db2)"
          "simulates (replies Row (Inr row, db2)) (replies Row (accept_new k i p r tr now m' st))"
          using sim_accept_new [OF assms(1) Some m' p0 c(4-7)] by blast
        then show ?thesis using False f ids p u ins Some m' by (simp add: pg_accept_def accept_def)
      qed
    next
      case None
      let ?new = "new_session_mailbox (fst k) (snd k) now"
      let ?db = "db\<lparr>db_mailboxes := AList.update k ?new (db_mailboxes db)\<rparr>"
      note n = sim_insert_mailbox(1,2) [OF assms(1) None c(1-3), of now] sim_insert_mailbox(3) [OF assms(1) None c(1-3)]
      have db_in: "db_inbound ?db (fst k, i) \<noteq> None" using c(7) by simp
      have g: "pg_get k ?db = Some ?new" "ms_get k (ms_put k ?new st) = Some ?new" by (simp_all add: fields_simps)
      have "ms_get k st = None" "ms_items st k = []" using None n(3) sim_row(1,4) [OF assms(1)] by simp_all
      moreover obtain row db2 where "pg_accept_new k i (str_or tr i) p r (\<lambda>_. now) ?new ?db = Inr (row, db2)"
        "simulates (replies Row (Inr row, db2)) (replies Row (accept_new k i p r tr now ?new (ms_put k ?new st)))"
        using sim_accept_new [OF n(2) g row_sim_refl p0 c(4-6) db_in] by blast
      ultimately show ?thesis using ids p u g n by (simp add: pg_accept_def accept_def ensure_mailbox_def Let_def)
    qed
  qed
qed

lemma sim_grant:
  assumes "mailbox_sim db st" and "pg_get k db = Some m" and "row_sim m m'"
    and "pg_item k (mb_resolved_sequence m + 1) db = Some it" and "bounded_text 256 owner"
  defines "n \<equiv> mb_resolved_sequence m + 1"
  shows "\<exists>l db1 st1. pg_grant k owner lf now m n it db = Inr (l, db1) \<and> grant_claim k owner lf now m' n it st = (Inr l, st1)
      \<and> store_sim (mailbox_view db1) st1"
proof -
  have i: "pg_inv db" using assms(1) by (simp add: mailbox_sim_def)
  obtain x where "pg_grant k owner lf now m n it db = Inr x" using pg_grant_total [OF i assms(2,4,5)] unfolding n_def by blast
  moreover have "row_sim (m\<lparr>mb_status := RUNNING, mb_processing_sequence := Some n, mb_processing_inbound_id := Some (it_inbound_id it),
       mb_lease_owner := Some owner, mb_lease_epoch := mb_lease_epoch m + 1, mb_lease_expires_at := Some (now + lf), mb_attempt := it_attempt it + 1,
       mb_retry_count := it_retry_count it, mb_priority := it_priority it, mb_retry_at := it_retry_at it, mb_updated_at := now\<rparr>)
     (m'\<lparr>mb_status := RUNNING, mb_processing_sequence := Some n, mb_processing_inbound_id := Some (it_inbound_id it),
       mb_lease_owner := Some owner, mb_lease_epoch := mb_lease_epoch m + 1, mb_lease_expires_at := Some (now + lf), mb_attempt := it_attempt it + 1,
       mb_retry_count := it_retry_count it, mb_priority := it_priority it, mb_retry_at := it_retry_at it, mb_updated_at := now\<rparr>)"
    using assms(3) by (elim row_sim_elim) (simp add: row_sim_def)
  ultimately show ?thesis
    using row_sim_fields(10) [OF assms(3)]
    by (auto simp: pg_grant_def grant_claim_def Let_def update_mailbox_Inr split: sum.splits
        intro!: sim_put sim_put_item sim_store [OF assms(1)])
qed

lemma sim_claim_locked:
  assumes "mailbox_sim db st" and "fst k \<noteq> []" and "snd k \<noteq> []" and "bounded_text 256 owner" and "\<not> head_waits k now db"
    and "validate_lease_for lf = None"
  shows "\<exists>l db1 st1. claim_locked k owner lf (\<lambda>_. now) db = Inr (l, db1) \<and> claim k owner lf now st = (Inr l, st1)
      \<and> store_sim (mailbox_view db1) st1"
proof -
  have ids: "validate_ids [fst k, snd k, owner] = None" using assms(2-4) by (auto simp: validate_ids_def bounded_text_def)
  have i: "pg_inv db" using assms(1) by (simp add: mailbox_sim_def)
  note s = sim_store [OF assms(1)]
  show ?thesis
  proof (cases "pg_get k db")
    case None
    then show ?thesis using s ids assms(6) sim_row(1) [OF assms(1), of k] by (simp add: claim_locked_def claim_def)
  next
    case (Some m)
    obtain m' where m': "ms_get k st = Some m'" "row_sim m m'" using sim_row(2) [OF assms(1) Some] by blast
    note d = pg_invD [OF i Some] and f = row_sim_fields [OF m'(2)]
    let ?n = "mb_resolved_sequence m + 1"
    have n: "mb_processing_sequence m = Some q \<Longrightarrow> q = ?n" for q
      using d(3) by (auto simp: mailbox_wf_def split: if_splits)
    have "mailbox_row_ok (m\<lparr>mb_status := IDLE, mb_updated_at := now\<rparr>)" if "mb_processing_sequence m = None"
      using d(7) that by (auto simp: mailbox_row_ok_def split: if_splits)
    moreover have "store_sim (ms_put k (m\<lparr>mb_status := IDLE, mb_updated_at := now\<rparr>) (mailbox_view db))
        (ms_put k (m'\<lparr>mb_status := IDLE, mb_updated_at := now\<rparr>) st)"
      using m'(2) by (intro sim_put s) (elim row_sim_elim, simp add: row_sim_def)
    moreover have "\<not> later_than (it_retry_at it) now" if "pg_item k ?n db = Some it" for it
      using assms(5) Some that by (simp add: head_waits_def)
    moreover note sim_grant [OF assms(1) Some m'(2) _ assms(4), where lf = lf and now = now]
    ultimately show ?thesis
      using n ids assms(6) m'(1) f s
      by (auto simp: claim_locked_def claim_def Some Let_def update_mailbox_def sim_row(3) [OF assms(1)] split: option.splits)
  qed
qed

lemma sim_claim:
  assumes "mailbox_sim db st" and "call_ok (Claim k owner lf) now db"
  shows "simulates (replies Lease_Option (pg_claim k owner lf (\<lambda>_. now) db)) (replies Lease_Option (claim k owner lf now st))"
proof (cases "validate_lease_for lf")
  case (Some e)
  have "validate_ids [fst k, snd k, owner] = None" using assms(2) by (auto simp: validate_ids_def bounded_text_def)
  then show ?thesis using Some sim_store [OF assms(1)] by (simp add: pg_claim_def claim_def)
next
  case None
  obtain l db1 st1 where "claim_locked k owner lf (\<lambda>_. now) db = Inr (l, db1)" "claim k owner lf now st = (Inr l, st1)"
    "store_sim (mailbox_view db1) st1"
    using sim_claim_locked [OF assms(1) _ _ _ _ None, of k owner now] assms(2) by auto
  then show ?thesis using None by (simp add: pg_claim_def)
qed

lemma sim_claim_session:
  assumes "mailbox_sim db st" and "call_ok (Claim_Session k owner lf eg ee acc) now db"
  shows "simulates (replies Session_Claim (pg_claim_session k owner lf eg ee acc now (\<lambda>_. now) db))
           (replies Session_Claim (claim_session k owner lf eg ee acc now st))"
proof -
  have v: "validate_lease_for lf = None" using assms(2) by (simp add: validate_lease_for_def)
  obtain l db1 st1 where c: "claim_locked k owner lf (\<lambda>_. now) db = Inr (l, db1)" "claim k owner lf now st = (Inr l, st1)"
    and s: "store_sim (mailbox_view db1) st1"
    using sim_claim_locked [OF assms(1) _ _ _ _ v, of k owner now] assms(2) by auto
  define b b' where "b = (case pg_get k db of None \<Rightarrow> new_session_mailbox (fst k) (snd k) now | Some m \<Rightarrow> m)"
    and "b' = (case ms_get k st of None \<Rightarrow> new_session_mailbox (fst k) (snd k) now | Some m \<Rightarrow> m)"
  define a a' where "a = (case pg_get k db1 of None \<Rightarrow> b | Some m \<Rightarrow> m)" and "a' = (case ms_get k st1 of None \<Rightarrow> b' | Some m \<Rightarrow> m)"
  have "rel_option row_sim (pg_get k db) (ms_get k st)" "rel_option row_sim (pg_get k db1) (ms_get k st1)"
    using sim_store [OF assms(1)] s by (simp_all add: store_sim_def)
  then have b: "row_sim b b'" and a: "row_sim a a'"
    by (auto simp: b_def b'_def a_def a'_def split: option.splits)
  define e where "e = (case eg of None \<Rightarrow> ee | Some g \<Rightarrow> Some g)"
  note eqs = v c e_def [symmetric] b_def [symmetric] b'_def [symmetric] option.case sum.case prod.case Let_def
    a_def [symmetric] a'_def [symmetric] row_sim_fields(8,11) [OF a] row_sim_fields(8) [OF b]
  show ?thesis
    unfolding pg_claim_session_def claim_session_def eqs
    using b a s sim_store [OF assms(1)] by auto
qed

lemma head_status_sim: "row_sim m m' \<Longrightarrow> head_status it n m' now = head_status it n m now"
  by (simp add: head_status_def row_sim_fields(4) split: option.split)

definition recovered :: "mailbox_status \<Rightarrow> time option \<Rightarrow> time \<Rightarrow> session_mailbox \<Rightarrow> session_mailbox" where
  "recovered s r now m = m\<lparr>mb_status := s, mb_processing_sequence := None, mb_processing_inbound_id := None,
     mb_lease_owner := None, mb_lease_expires_at := None, mb_retry_at := r, mb_updated_at := now\<rparr>"

lemma sim_rest:
  fixes s :: mailbox_status and r :: "time option" and now :: time
  assumes "mailbox_sim db st" and "row_sim m m'"
  defines "row \<equiv> unleased_row m s r 0 now" and "upd \<equiv> recovered s r now m'"
  shows "row_sim row upd" and "store_sim (mailbox_view (db\<lparr>db_mailboxes := AList.update k row (db_mailboxes db)\<rparr>)) (ms_put k upd st)"
proof -
  show "row_sim row upd" using assms(2) by (elim row_sim_elim) (simp add: row_sim_def row_def upd_def unleased_row_def recovered_def)
  then show "store_sim (mailbox_view (db\<lparr>db_mailboxes := AList.update k row (db_mailboxes db)\<rparr>)) (ms_put k upd st)"
    using sim_put [OF sim_store [OF assms(1)]] by simp
qed

lemma sim_wake:
  fixes r :: "time option" and now :: time
  assumes "mailbox_sim db st" and "pg_get k db = Some m" and "row_sim m m'" and "pg_item k n db = Some it"
  defines "row \<equiv> unleased_row m QUEUED r 1 now" and "woken \<equiv> emit_ready (recovered QUEUED r now m') it now st"
  shows "row_sim row (fst woken)"
    and "store_sim (mailbox_view (emit_ready_outbox row it now now (db\<lparr>db_mailboxes := AList.update k row (db_mailboxes db)\<rparr>)))
           (ms_put k (fst woken) (snd woken))"
proof -
  have i: "pg_inv db" using assms(1) by (simp add: mailbox_sim_def)
  let ?u = "(recovered QUEUED r now m')\<lparr>mb_queue_generation := mb_queue_generation row\<rparr>"
  have g: "mb_queue_generation row = mb_queue_generation m + 1" by (simp add: row_def)
  have rs: "row_sim row ?u" using assms(3) by (elim row_sim_elim) (simp add: row_sim_def row_def unleased_row_def recovered_def)
  have "mb_key row = k" using pg_invD(1,2) [OF i assms(2)] by (simp add: row_def)
  then have nc: "\<not> list_ex (ready_event_for (mb_key row) (mb_queue_generation row)) (db_outbox db)"
    using next_generation_fresh [OF i assms(2)] g by (simp add: Suc_eq_plus1)
  have w: "woken = (?u, snd (append_ready ?u it now (mb_queue_generation row) st))"
    using row_sim_fields(8) [OF assms(3)] g unfolding woken_def emit_ready_eq by (simp add: recovered_def)
  show "row_sim row (fst woken)" using rs by (simp add: w)
  show "store_sim (mailbox_view (emit_ready_outbox row it now now (db\<lparr>db_mailboxes := AList.update k row (db_mailboxes db)\<rparr>)))
           (ms_put k (fst woken) (snd woken))"
    using sim_emit [OF sim_store [OF assms(1)] nc rs pg_item_trace [OF i assms(4)]] by (simp add: w)
qed

lemma sim_recover:
  assumes "mailbox_sim db st" and "\<not> session_live (db_sessions db k) now"
  shows "simulates (replies Row_Option (pg_recover k (\<lambda>_. now) db)) (replies Row_Option (apfst Inr (recover k now st)))"
proof (cases "pg_get k db")
  case None
  then show ?thesis using sim_store [OF assms(1)] sim_row(1) [OF assms(1), of k] by (simp add: pg_recover_def recover_def)
next
  case (Some m)
  have i: "pg_inv db" using assms(1) by (simp add: mailbox_sim_def)
  obtain m' where m': "ms_get k st = Some m'" "row_sim m m'" using sim_row(2) [OF assms(1) Some] by blast
  note f = row_sim_fields [OF m'(2)]
  show ?thesis
  proof (cases "not_later_than (mb_lease_expires_at m) now")
    case False
    then show ?thesis using Some m' f(11) sim_store [OF assms(1)] by (simp add: pg_recover_def recover_def)
  next
    case True
    let ?it = "pg_item k (head_sequence m) db"
    have hq: "head_sequence m' = head_sequence m" using f(5,6) by (simp add: head_sequence_def split: option.split)
    obtain s r where h: "head_status ?it (head_sequence m) m now = (s, r)" by fastforce
    note hs = pg_head_status [OF i Some h]
    define row where "row = unleased_row m s r (if s = QUEUED then 1 else 0) now"
    have ok: "mailbox_row_ok row" using unleased_row_ok [OF pg_invD(7) [OF i Some] hs(2)] by (simp add: row_def)
    let ?db1 = "db\<lparr>db_mailboxes := AList.update k row (db_mailboxes db)\<rparr>"
    have P: "pg_recover k (\<lambda>_. now) db = (Inr (Some row), case ?it of None \<Rightarrow> ?db1
        | Some it \<Rightarrow> if s = QUEUED then emit_ready_outbox row it now now ?db1 else ?db1)"
      unfolding pg_recover_def Some option.case Let_def h prod.case row_def [symmetric] update_mailbox_def if_P [OF ok] sum.case
      using True assms(2) by simp
    let ?upd = "recovered s r now m'"
    have h': "head_status ?it (head_sequence m) m' now = (s, r)" using h by (simp add: head_status_sim [OF m'(2)])
    have "\<not> \<not> not_later_than (mb_lease_expires_at m') now" using True f(11) by simp
    then have M: "recover k now st = (let (u, st1) = (case ?it of Some it \<Rightarrow> if s = QUEUED then emit_ready ?upd it now st
         else (?upd, st) | None \<Rightarrow> (?upd, st)) in (Some u, ms_put k u st1))"
      unfolding recover_def m'(1) option.case Let_def hq sim_row(3) [OF assms(1)] h' prod.case recovered_def [symmetric] by (rule if_not_P)
    show ?thesis
    proof (cases "s = QUEUED")
      case False
      then show ?thesis using sim_rest [OF assms(1) m'(2)] by (simp add: P M row_def split: option.split)
    next
      case True
      then obtain it where it: "?it = Some it" using hs(3) by blast
      show ?thesis using sim_wake [OF assms(1) Some m'(2) it, of r now] True it
        by (simp add: P M row_def split_def Let_def)
    qed
  qed
qed

lemma requeue_view:
  assumes "pg_inv db" and "pg_get k db = Some m" and "1 \<le> mb_queue_generation m"
    and "mb_key row = k" and "mb_queue_generation row = mb_queue_generation m"
  shows "mailbox_view (requeue_ready_outbox row it c now tx (db\<lparr>db_mailboxes := AList.update k row (db_mailboxes db)\<rparr>))
       = ms_put k row (mailbox_view db)"
proof -
  let ?base = "db\<lparr>db_mailboxes := AList.update k row (db_mailboxes db)\<rparr>"
  let ?hit = "\<lambda>e. ready_event_for k (mb_queue_generation m) e \<and> replay_due c now e"
  let ?db = "?base\<lparr>db_outbox := map (\<lambda>e. if ?hit e then reopen_event now e else e) (db_outbox ?base)\<rparr>"
  have v: "mailbox_view ?db = mailbox_view ?base" by (rule view_reopen) simp
  have "ready_generations k (mailbox_view ?db) = generations_upto (mb_queue_generation m)"
    unfolding v using pg_invD(5) [OF assms(1,2)] by (simp add: ready_generations_def ms_put_def)
  then have "list_ex (ready_event_for k (mb_queue_generation m)) (db_outbox ?db)"
    unfolding conflict_iff using assms(3) by (auto simp: generations_upto_def)
  then have "insert_ready_event k (mb_queue_generation m) p tr now tx ?db = ?db" for p tr
    unfolding insert_ready_event_def by (rule if_P)
  then have "requeue_ready_outbox row it c now tx ?base = ?db" using assms(4,5) by (simp add: requeue_ready_outbox_def Let_def)
  then show ?thesis using v by simp
qed

lemma sim_reconcile_active:
  assumes "mailbox_sim db st" and "pg_get k db = Some m" and "later_than (mb_lease_expires_at m) now"
  shows "\<exists>u. reconcile k now st = (Some u, ms_put k u st) \<and> row_sim m u"
proof -
  have i: "pg_inv db" using assms(1) by (simp add: mailbox_sim_def)
  obtain m' where m': "ms_get k st = Some m'" "row_sim m m'" using sim_row(2) [OF assms(1,2)] by blast
  note f = row_sim_fields [OF m'(2)]
  have wf: "mailbox_wf m'" using assms(1) store_invD(3) [OF _ m'(1)] by (simp add: mailbox_sim_def)
  have a: "lease_active m' now" using lease_active_iff [OF wf] f(11) assms(3) by simp
  have run: "mb_status m' = RUNNING" using lease_active_running [OF wf a] by simp
  have "row_sim m (m'\<lparr>mb_status := RUNNING, mb_updated_at := now\<rparr>)"
    using m'(2) run f(3) by (elim row_sim_elim) (simp add: row_sim_def)
  moreover have "reconcile k now st = (Some (m'\<lparr>mb_status := RUNNING, mb_updated_at := now\<rparr>), ms_put k (m'\<lparr>mb_status := RUNNING, mb_updated_at := now\<rparr>) st)"
    using m'(1) a by (simp add: reconcile_def Let_def split: prod.split option.split)
  ultimately show ?thesis by blast
qed

lemma sim_reconcile:
  assumes "mailbox_sim db st" and "call_ok (Reconcile k) now db"
  shows "simulates (replies Row_Option (pg_reconcile c k (\<lambda>_. now) db)) (replies Row_Option (apfst Inr (reconcile k now st)))"
proof (cases "pg_get k db")
  case None
  then show ?thesis using sim_store [OF assms(1)] sim_row(1) [OF assms(1), of k] by (simp add: pg_reconcile_def reconcile_def)
next
  case (Some m)
  have i: "pg_inv db" and im: "store_inv st" using assms(1) by (simp_all add: mailbox_sim_def)
  obtain m' where m': "ms_get k st = Some m'" "row_sim m m'" using sim_row(2) [OF assms(1) Some] by blast
  note f = row_sim_fields [OF m'(2)]
  show ?thesis
  proof (cases "later_than (mb_lease_expires_at m) now")
    case True
    then have "pg_reconcile c k (\<lambda>_. now) db = (Inr (Some m), db)" using assms(2) Some by (simp add: pg_reconcile_def)
    moreover have "store_sim (mailbox_view db) (ms_put k u st)" if "row_sim m u" for u
    proof -
      have "rel_option row_sim (pg_get k' db) (ms_get k' (ms_put k u st))" for k'
        using sim_store [OF assms(1)] that Some by (simp add: store_sim_def fields_simps)
      then show ?thesis using sim_store [OF assms(1)] by (simp add: store_sim_def) (simp add: ms_put_def)
    qed
    ultimately show ?thesis using sim_reconcile_active [OF assms(1) Some True] by auto
  next
    case False
    let ?it = "pg_item k (head_sequence m) db"
    have hq: "head_sequence m' = head_sequence m" using f(5,6) by (simp add: head_sequence_def split: option.split)
    obtain s r where h: "head_status ?it (head_sequence m) m now = (s, r)" by fastforce
    note hs = pg_head_status [OF i Some h]
    have h': "head_status ?it (head_sequence m) m' now = (s, r)" using h by (simp add: head_status_sim [OF m'(2)])
    have nl: "\<not> session_live (db_sessions db k) now" using assms(2) Some False by simp
    have na: "lease_active m' now = False" using lease_active_iff [OF store_invD(3) [OF im m'(1)]] f(11) False by simp
    define recent where "recent = (s = QUEUED \<and> mb_status m = QUEUED \<and> now - RECONCILE_READY_GRACE < mb_updated_at m)"
    have rm: "(\<not> False \<and> s = QUEUED \<and> ?it \<noteq> None \<and> mb_status m' = QUEUED \<and> now - mb_updated_at m' < RECONCILE_READY_GRACE) = recent"
      using hs(3) m'(2) by (auto simp: recent_def row_sim_def f(3))
    define fresh where "fresh = (s = QUEUED \<and> \<not> (mb_status m = QUEUED \<and> 1 \<le> mb_queue_generation m))"
    define row where "row = unleased_row m s r (if fresh then 1 else 0) now"
    have ok: "mailbox_row_ok row" using unleased_row_ok [OF pg_invD(7) [OF i Some] hs(2)] by (simp add: row_def)
    let ?db1 = "db\<lparr>db_mailboxes := AList.update k row (db_mailboxes db)\<rparr>"
    have P: "pg_reconcile c k (\<lambda>_. now) db = (if recent then (Inr (Some m), db) else (Inr (Some row), case ?it of None \<Rightarrow> ?db1
        | Some it \<Rightarrow> if s = QUEUED then if fresh then emit_ready_outbox row it now now ?db1 else requeue_ready_outbox row it c now now ?db1 else ?db1))"
      unfolding pg_reconcile_def Some option.case Let_def h prod.case fresh_def [symmetric] recent_def [symmetric] if_not_P [OF nl]
        row_def [symmetric] update_mailbox_def if_P [OF ok] sum.case
      by (cases recent) (simp_all split: option.split)
    let ?upd = "recovered s r now m'"
    have M: "reconcile k now st = (if recent then (Some m', st) else let (u, st1) = (case ?it of None \<Rightarrow> (?upd, st)
         | Some it \<Rightarrow> if s = QUEUED then if fresh then emit_ready ?upd it now st else requeue_ready ?upd it now st else (?upd, st)) in (Some u, ms_put k u st1))"
      unfolding reconcile_def m'(1) option.case Let_def hq sim_row(3) [OF assms(1)] h' prod.case na if_False rm recovered_def [symmetric]
      by (cases recent) (auto simp: fresh_def f split: option.split)
    show ?thesis
    proof (cases "recent \<or> s \<noteq> QUEUED")
      case True
      then show ?thesis using sim_rest [OF assms(1) m'(2)] m'(2) sim_store [OF assms(1)]
        by (cases recent) (simp_all add: P M row_def fresh_def split: option.split)
    next
      case False
      then obtain it where it: "?it = Some it" using hs(3) by blast
      show ?thesis
      proof (cases fresh)
        case True
        then show ?thesis using sim_wake [OF assms(1) Some m'(2) it, of r now] False it
          by (simp add: P M row_def split_def Let_def)
      next
        case nf: False
        then have g: "1 \<le> mb_queue_generation m" using False by (simp add: fresh_def)
        have "requeue_ready ?upd it now st = (?upd, st)"
          using g f(1,2,8) pg_invD(1,2) [OF i Some] by (intro requeue_ready_noop [OF im m'(1)]) (simp_all add: recovered_def)
        moreover have "mailbox_view (requeue_ready_outbox row it c now now ?db1) = mailbox_view ?db1"
          using requeue_view [OF i Some g, of row] pg_invD(1,2) [OF i Some] nf by (simp add: row_def)
        ultimately show ?thesis using sim_rest [OF assms(1) m'(2)] False it nf by (simp add: P M row_def)
      qed
    qed
  qed
qed

lemma run_simulates:
  assumes "mailbox_sim db st" and "call_ok c now db"
  shows "simulates (run_pg cooldown c now db) (run_memory c now st)"
  using assms
  by (cases c) (auto simp: run_pg_def run_memory_def simp del: call_ok.simps(1-3,8)
      intro!: sim_accept sim_claim sim_claim_session sim_renew sim_commit sim_release sim_recover sim_reconcile)

lemma run_inv:
  "pg_inv db \<Longrightarrow> pg_inv (snd (run_pg cooldown c now db))"
  "store_inv st \<Longrightarrow> store_inv (snd (run_memory c now st))"
  by (cases c; simp add: run_pg_def run_memory_def replies_def inv_intros)+

lemma run_sim:
  assumes "mailbox_sim db st" and "call_ok c now db"
  shows "rel_sum (=) reply_sim (fst (run_pg cooldown c now db)) (fst (run_memory c now st))"
    and "mailbox_sim (snd (run_pg cooldown c now db)) (snd (run_memory c now st))"
  using run_simulates [OF assms, of cooldown] run_inv assms(1) by (simp_all add: simulates_def mailbox_sim_def)

subsection \<open>Histories of calls\<close>

fun memory_history :: "(mailbox_call \<times> time) list \<Rightarrow> mailbox_store \<Rightarrow> (error + mailbox_reply) list \<times> mailbox_store" where
  "memory_history [] st = ([], st)"
| "memory_history ((c, now) # cs) st =
     (let (a, st1) = run_memory c now st; (as, st2) = memory_history cs st1 in (a # as, st2))"

fun pg_history :: "duration \<Rightarrow> (mailbox_call \<times> time) list \<Rightarrow> pg_db \<Rightarrow> (error + mailbox_reply) list \<times> pg_db" where
  "pg_history cooldown [] db = ([], db)"
| "pg_history cooldown ((c, now) # cs) db =
     (let (a, db1) = run_pg cooldown c now db; (as, db2) = pg_history cooldown cs db1 in (a # as, db2))"

fun calls_ok :: "duration \<Rightarrow> (mailbox_call \<times> time) list \<Rightarrow> pg_db \<Rightarrow> bool" where
  "calls_ok cooldown [] db = True"
| "calls_ok cooldown ((c, now) # cs) db \<longleftrightarrow> call_ok c now db \<and> calls_ok cooldown cs (snd (run_pg cooldown c now db))"

lemma init_sim: "mailbox_sim (init_pg_db tenants inbound uuids) (init_mailbox_store uuids)"
proof -
  have "mailbox_view (init_pg_db tenants inbound uuids) = init_mailbox_store uuids"
    by (simp add: mailbox_view_def init_pg_db_def init_mailbox_store_def)
  then show ?thesis
    by (simp add: mailbox_sim_def init_pg_db_inv init_mailbox_store_inv store_sim_def option.rel_refl)
qed

end
