(* ===== verification/Pg_Props.thy ===== *)
theory Pg_Props
  imports Pg_Refine
begin

text \<open>
  The properties of the PostgreSQL mailbox, with concrete databases on which they apply.
\<close>

declare split_paired_All [simp del] split_paired_Ex [simp del] One_nat_def [simp del]

subsection \<open>A small database\<close>

definition pg_demo_key :: session_key where "pg_demo_key = (''tenant'', ''session'')"

definition pg_demo_inbound :: string where "pg_demo_inbound = ''00000000-0000-0000-0000-00000000000a''"

definition pg_demo_empty :: pg_db where
  "pg_demo_empty = init_pg_db [''tenant''] (\<lambda>_. Some ''ACCEPTED'') (\<lambda>_. ''uuid'')"

definition pg_demo_calls :: "(mailbox_call \<times> time) list" where
  "pg_demo_calls = [(Accept pg_demo_key pg_demo_inbound 0 None None, 10), (Claim pg_demo_key ''w1'' 100, 20),
     (Recover pg_demo_key, 200), (Claim pg_demo_key ''w2'' 100, 210)]"

definition pg_demo_running :: pg_db where
  "pg_demo_running = snd (pg_claim pg_demo_key ''w1'' 100 (\<lambda>_. 20)
     (snd (pg_accept pg_demo_key pg_demo_inbound 0 None None (\<lambda>_. 10) pg_demo_empty)))"

definition pg_demo_waiting :: pg_db where
  "pg_demo_waiting = snd (pg_accept pg_demo_key pg_demo_inbound 0 (Some 500) None (\<lambda>_. 10) pg_demo_empty)"

definition pg_demo_lease :: mailbox_lease where
  "pg_demo_lease = \<lparr>ml_tenant_id = ''tenant'', ml_session_id = ''session'', ml_inbound_id = pg_demo_inbound, ml_sequence = 1,
     ml_owner_id = ''w1'', ml_epoch = 1, ml_expires_at = 120, ml_attempt = 1, ml_retry_count = 0, ml_priority = 0\<rparr>"

definition pg_demo_reclaimed :: pg_db where
  "pg_demo_reclaimed = snd (pg_claim pg_demo_key ''w2'' 100 (\<lambda>_. 200) pg_demo_running)"

definition pg_demo_live :: pg_db where
  "pg_demo_live = pg_demo_running\<lparr>db_sessions := (\<lambda>_. Some \<lparr>sr_app_id = ''app'', sr_principal_id = ''user'',
     sr_state = [], sr_version = 0, sr_next_sequence = 1, sr_lease_epoch = 1, sr_lease_owner = Some ''w1'',
     sr_lease_expires_at = Some 900, sr_updated_at = 0\<rparr>)\<rparr>"

lemma pg_demo_reachable:
  "reachable_from pg_step pg_demo_empty pg_demo_running"
  "reachable_from pg_step pg_demo_empty pg_demo_waiting"
  "reachable_from pg_step pg_demo_empty pg_demo_reclaimed"
proof -
  note here = reachable_from.here [of pg_step pg_demo_empty]
  show r: "reachable_from pg_step pg_demo_empty pg_demo_running"
    unfolding pg_demo_running_def by (rule reachable_from.there [OF reachable_from.there [OF here ps_accept] ps_claim])
  show "reachable_from pg_step pg_demo_empty pg_demo_waiting"
    unfolding pg_demo_waiting_def by (rule reachable_from.there [OF here ps_accept])
  show "reachable_from pg_step pg_demo_empty pg_demo_reclaimed"
    unfolding pg_demo_reclaimed_def by (rule reachable_from.there [OF r ps_claim])
qed

lemma pg_demo_inv: "pg_inv pg_demo_running" "pg_inv pg_demo_waiting" "pg_inv pg_demo_reclaimed" "pg_inv pg_demo_live"
proof -
  have e: "pg_inv pg_demo_empty" unfolding pg_demo_empty_def by (rule init_pg_db_inv)
  show r: "pg_inv pg_demo_running" "pg_inv pg_demo_waiting" "pg_inv pg_demo_reclaimed"
    using pg_mailbox.reachable_inv [OF pg_demo_reachable(1) e] pg_mailbox.reachable_inv [OF pg_demo_reachable(2) e]
      pg_mailbox.reachable_inv [OF pg_demo_reachable(3) e] by simp_all
  show "pg_inv pg_demo_live" unfolding pg_demo_live_def by (rule pg_inv_sessions [OF r(1)])
qed

lemma pg_demo_eval:
  "pg_epoch pg_demo_reclaimed (ml_key pg_demo_lease) = 2"
  "head_waits pg_demo_key 22 pg_demo_waiting"
  "case pg_get pg_demo_key pg_demo_waiting of None \<Rightarrow> False | Some m \<Rightarrow> mb_status m \<noteq> RUNNING"
  "session_live (db_sessions pg_demo_live pg_demo_key) 300"
  "calls_ok 30 pg_demo_calls pg_demo_empty"
  "case fst (pg_accept pg_demo_key pg_demo_inbound 0 None None (\<lambda>_. 10) pg_demo_empty) of Inl _ \<Rightarrow> False | Inr _ \<Rightarrow> True"
  "require_uuid (''{'' @ pg_demo_inbound @ ''}'') = Inr pg_demo_inbound" "require_uuid pg_demo_inbound = Inr pg_demo_inbound"
  by code_simp+

subsection \<open>Properties\<close>

text \<open>
  C13. The PostgreSQL mailbox refines the in-memory mailbox. For every history of \<^verbatim>\<open>accept\<close>, \<^verbatim>\<open>claim\<close>,
  \<^verbatim>\<open>claim_session\<close>, \<^verbatim>\<open>renew\<close>, \<^verbatim>\<open>commit\<close>, the releases, \<^verbatim>\<open>recover\<close> and \<^verbatim>\<open>reconcile\<close> whose calls satisfy
  \<open>call_ok\<close>, the two implementations give the same errors and the same replies, and end in related
  states: equal items, equal wake-ups up to their \<^verbatim>\<open>created_at\<close>, and equal mailboxes up to the retry time of
  a mailbox that is queued or idle and the last update of one that is running.
\<close>

theorem postgres_refines_memory:
  assumes "mailbox_sim db st" and "calls_ok cooldown cs db"
  shows "list_all2 (rel_sum (=) reply_sim) (fst (pg_history cooldown cs db)) (fst (memory_history cs st))
       \<and> mailbox_sim (snd (pg_history cooldown cs db)) (snd (memory_history cs st))"
  using assms
proof (induction cs arbitrary: db st)
  case (Cons x cs)
  obtain c now where x: "x = (c, now)" by fastforce
  from Cons.prems have ok: "call_ok c now db" "calls_ok cooldown cs (snd (run_pg cooldown c now db))" by (simp_all add: x)
  note s = run_sim [OF Cons.prems(1) ok(1), of cooldown]
  show ?case using Cons.IH [OF s(2) ok(2)] s(1) by (simp add: x Let_def split_def)
qed simp

theorem postgres_refines_memory_witness:
  "calls_ok 30 pg_demo_calls pg_demo_empty
   \<and> mailbox_sim (snd (pg_history 30 pg_demo_calls pg_demo_empty)) (snd (memory_history pg_demo_calls (init_mailbox_store (\<lambda>_. ''uuid''))))"
  using postgres_refines_memory [OF init_sim] pg_demo_eval(5) unfolding pg_demo_empty_def by blast

text \<open>
  C22. The transactions of the mailbox store do not violate a constraint of the mailbox tables by themselves. Take any
  database that histories of these transactions reach, interleaved with transactions of other writers that keep the
  invariant of the mailbox tables (\<open>environment_ok\<close>). There \<^verbatim>\<open>accept\<close> fails in the database only for an unknown tenant, a
  session id, priority or trace outside the column's range, or an inbound id without a row; \<^verbatim>\<open>claim\<close> only for an owner that is
  too long or empty or when the head is waiting; a release only for a priority outside the column's range; \<^verbatim>\<open>renew\<close>
  and \<^verbatim>\<open>commit\<close> do not, and \<^verbatim>\<open>recover\<close> and \<^verbatim>\<open>reconcile\<close> return. This is about the constraints, keys and arguments that the
  tables are modelled with: text is without NUL characters, and the times and counters that the statements compute
  are unbounded, so that the errors for values beyond \<^verbatim>\<open>timestamptz\<close> and \<^verbatim>\<open>integer\<close> there are outside the statement.
\<close>

theorem pg_constraints_never_violated:
  assumes "reachable_from pg_step (init_pg_db tenants inbound uuids) db"
  shows "(\<forall>k i p r tr clk e db'. pg_accept k i p r tr clk db = (Inl e, db') \<longrightarrow> database_error e \<longrightarrow>
            fst k \<notin> set (db_tenants db) \<or> \<not> bounded_text 256 (snd k) \<or> \<not> in_int4 p
          \<or> \<not> bounded_text 512 (str_or tr i) \<or> (\<exists>u. uuid_of i = Some u \<and> db_inbound db (fst k, u) = None))
       \<and> (\<forall>k owner lf clk e db'. pg_claim k owner lf clk db = (Inl e, db') \<longrightarrow> database_error e \<longrightarrow>
            \<not> bounded_text 256 owner \<or> e = indeterminate_datatype \<and> head_waits k (clk 2) db)
       \<and> (\<forall>l lf now e db'. pg_renew l lf now db = (Inl e, db') \<longrightarrow> \<not> database_error e)
       \<and> (\<forall>l clk e db'. pg_commit l clk db = (Inl e, db') \<longrightarrow> e = lease_not_current)
       \<and> (\<forall>l r p inc emit clk e db'. pg_release l r p inc emit clk db = (Inl e, db') \<longrightarrow> database_error e \<longrightarrow>
            (\<exists>q. p = Some q \<and> \<not> in_int4 q))
       \<and> (\<forall>k clk. \<exists>x. fst (pg_recover k clk db) = Inr x)
       \<and> (\<forall>c k clk. \<exists>x. fst (pg_reconcile c k clk db) = Inr x)"
proof -
  have i: "pg_inv db" using pg_mailbox.reachable_inv [OF assms init_pg_db_inv] .
  show ?thesis
    by (intro conjI allI impI, erule (1) pg_accept_errors [OF i], erule (1) pg_claim_errors [OF i, THEN conjunct2],
      erule pg_renew_errors [OF i], erule pg_commit_errors [OF i, THEN conjunct1], erule (1) pg_release_errors [OF i],
      rule pg_recover_total [OF i], rule pg_reconcile_total [OF i])
qed

theorem pg_constraints_never_violated_witness:
  "reachable_from pg_step pg_demo_empty pg_demo_running
   \<and> (\<exists>x. fst (pg_recover pg_demo_key (\<lambda>_. 200) pg_demo_running) = Inr x)"
  using pg_constraints_never_violated [OF pg_demo_reachable(1) [unfolded pg_demo_empty_def]] pg_demo_reachable(1) by blast

text \<open>
  C34. The batch functions return. Take any database that histories of the transactions of the mailbox store reach,
  interleaved with transactions of other writers that keep the invariant of the mailbox tables (\<open>environment_ok\<close>), and the
  replay cooldown that the constructor accepted. Then the three batch functions return for every limit between 1 and 1000, whatever
  rows are locked and whatever other transactions do to the session rows meanwhile, and report at most as many sessions
  as the limit allows.
\<close>

theorem pg_batches_return:
  assumes "reachable_from pg_step (init_pg_db tenants inbound uuids) db" and "1 \<le> n" and "n \<le> 1000"
    and "init_pg_mailbox cooldown = Inr cs"
  shows "(\<exists>c \<le> nat n. fst (pg_sweep_expired_leases n busy race clk tx db) = Inr c)
       \<and> (\<exists>c \<le> nat n. fst (pg_schedule_retries n busy clk tx db) = Inr c)
       \<and> (\<exists>c \<le> nat n. fst (pg_reconcile_sessions n cs busy race clk tx db) = Inr c)"
proof -
  have "pg_inv db" using pg_mailbox.reachable_inv [OF assms(1) init_pg_db_inv] .
  moreover have "5 \<le> cs" "cs \<le> 86400" using assms(4) by (auto simp: init_pg_mailbox_def split: if_splits)
  ultimately show ?thesis using pg_batches_total assms(2,3) by blast
qed

theorem pg_batches_return_witness:
  "reachable_from pg_step pg_demo_empty pg_demo_running
   \<and> (\<exists>c \<le> nat 10. fst (pg_sweep_expired_leases 10 (\<lambda>_. False) (\<lambda>_ r. r) (\<lambda>_ _. 200) 200 pg_demo_running) = Inr c)"
proof -
  have "init_pg_mailbox 30 = Inr 30" by (simp add: init_pg_mailbox_def)
  from pg_batches_return [OF pg_demo_reachable(1) [unfolded pg_demo_empty_def] _ _ this, of 10]
  show ?thesis using pg_demo_reachable(1) by simp
qed

lemma pg_not_held:
  assumes "\<not> pg_lease_held db l now"
  shows "assert_owned l now db = Inl lease_not_current"
  using assms by (auto simp: pg_lease_held_def lease_held_def assert_owned_def split: option.splits)

text \<open>
  A worker whose lease carries an epoch below the epoch of the mailbox row is fenced in the database for good:
  in no later state can it commit, renew or release, and its attempts change nothing.
\<close>

theorem pg_stale_lease_is_fenced:
  assumes "pg_inv db" and "ml_epoch l < pg_epoch db (ml_key l)" and "reachable_from pg_step db db'"
  shows "pg_commit l clk db' = (Inl lease_not_current, db')
       \<and> (\<exists>e. pg_renew l lf now db' = (Inl e, db'))
       \<and> (\<exists>e. pg_release l r p inc emit clk db' = (Inl e, db'))"
proof -
  have n: "\<not> pg_lease_held db' l t" for t
    using pg_mailbox.stale_token_never_holds [OF assms(3,1,2)] .
  have c: "pg_commit l clk db' = (Inl lease_not_current, db')"
    using pg_not_held [OF n] by (simp add: pg_commit_def)
  have "\<not> owns (Some m) (l\<lparr>ml_inbound_id := u\<rparr>) now" if "pg_get (ml_key l) db' = Some m" for m u
    using pg_mailbox.stale_token_never_holds [OF assms(3,1), of "l\<lparr>ml_inbound_id := u\<rparr>" now] assms(2) that
    by (simp add: pg_lease_held_def lease_held_def)
  then have "renew_row l lf now db' = Inr (None, db') \<or> (\<exists>e. renew_row l lf now db' = Inl e)"
    by (auto simp: renew_row_def split: option.splits)
  then have "\<exists>e. pg_renew l lf now db' = (Inl e, db')"
    by (cases "validate_lease_for lf") (auto simp: pg_renew_def)
  moreover have "\<exists>e. pg_release l r p inc emit clk db' = (Inl e, db')"
    using pg_not_held [OF n] by (auto simp: pg_release_def split: option.splits)
  ultimately show ?thesis using c by blast
qed

theorem pg_stale_lease_is_fenced_witness:
  "ml_epoch pg_demo_lease < pg_epoch pg_demo_reclaimed (ml_key pg_demo_lease)
   \<and> pg_commit pg_demo_lease (\<lambda>_. 210) pg_demo_reclaimed = (Inl lease_not_current, pg_demo_reclaimed)"
proof -
  have e: "ml_epoch pg_demo_lease < pg_epoch pg_demo_reclaimed (ml_key pg_demo_lease)"
    unfolding pg_demo_eval(1) by (simp add: pg_demo_lease_def)
  show ?thesis using pg_stale_lease_is_fenced [OF pg_demo_inv(3) e reachable_from.here] e by blast
qed

lemma sweep_live:
  assumes "pg_inv db" and "session_live (race k (db_sessions db k)) (clk k 2)"
  shows "pg_get k (snd (pg_sweep_expired_leases n busy race clk tx db)) = pg_get k db"
proof (cases "\<not> (n < 1 \<or> 1000 < n) \<and> (\<exists>c t. rows_loop (sweep_body race clk tx) (sweep_selected (nat n) busy clk db) 0 db = Inr (c, t))")
  case True
  then obtain c t where r: "rows_loop (sweep_body race clk tx) (sweep_selected (nat n) busy clk db) 0 db = Inr (c, t)" by blast
  have v: "\<forall>r \<in> set (sweep_selected (nat n) busy clk db). still_running r (pg_obs (fst r) db)"
    using sweep_selected_rows(3) [OF assms(1)] by blast
  have "fst (pg_obs k t) = fst (pg_obs k db)"
  proof (cases "k \<in> fst ` set (sweep_selected (nat n) busy clk db)")
    case True
    then obtain rec where rec: "rec \<in> set (sweep_selected (nat n) busy clk db)" "fst rec = k" by blast
    from pg_sweep.rows_at [OF assms(1) sweep_selected_rows(1) [OF assms(1)] v r rec(1)] rec(2)
    obtain u c v where u: "pg_obs k u = pg_obs k db" "sweep_body race clk tx rec u = Inr (c, v)" "pg_obs k t = pg_obs k v" by blast
    have "db_sessions u k = db_sessions db k" using u(1) by (simp add: pg_obs_def)
    then have "v = lock_session race k u"
      using u(2) assms(2) rec(2) by (cases rec) (simp add: sweep_body_def Let_def lock_session_def)
    then show ?thesis using u(1,3) by (simp add: pg_obs_def)
  next
    case False
    then show ?thesis using pg_sweep.rows_frame [OF r] by simp
  qed
  then show ?thesis using True r by (auto simp: pg_sweep_expired_leases_def sweep_rows_loop pg_obs_def)
next
  case False
  then show ?thesis by (auto simp: pg_sweep_expired_leases_def sweep_rows_loop transaction_def split: sum.splits)
qed

lemma reconcile_sessions_live:
  assumes "pg_inv db" and "session_live (race k (db_sessions db k)) (clk k 2)"
  shows "pg_get k (snd (pg_reconcile_sessions n cs busy race clk tx db)) = pg_get k db"
proof (cases "\<not> (n < 1 \<or> 1000 < n) \<and> \<not> (cs < 5 \<or> 86400 < cs)
    \<and> (\<exists>c t. rows_loop (reconcile_body race clk tx) (reconcile_selected (nat n) busy clk db) 0 db = Inr (c, t))")
  case True
  then obtain c t where r: "rows_loop (reconcile_body race clk tx) (reconcile_selected (nat n) busy clk db) 0 db = Inr (c, t)" by blast
  have v: "\<forall>r \<in> set (reconcile_selected (nat n) busy clk db). still_joined r (pg_obs (fst r) db)"
    using reconcile_selected_rows(3) [OF assms(1)] by blast
  have "fst (pg_obs k t) = fst (pg_obs k db)"
  proof (cases "k \<in> fst ` set (reconcile_selected (nat n) busy clk db)")
    case True
    then obtain rec where rec: "rec \<in> set (reconcile_selected (nat n) busy clk db)" "fst rec = k" by blast
    from pg_reconciliation.rows_at [OF assms(1) reconcile_selected_rows(1) [OF assms(1)] v r rec(1)] rec(2)
    obtain u c v where u: "pg_obs k u = pg_obs k db" "reconcile_body race clk tx rec u = Inr (c, v)" "pg_obs k t = pg_obs k v" by blast
    have "db_sessions u k = db_sessions db k" using u(1) by (simp add: pg_obs_def)
    then have "v = lock_session race k u"
      using u(2) assms(2) rec(2) by (cases rec) (simp add: reconcile_body_def Let_def lock_session_def)
    then show ?thesis using u(1,3) by (simp add: pg_obs_def)
  next
    case False
    then show ?thesis using pg_reconciliation.rows_frame [OF r] by simp
  qed
  then show ?thesis using True r by (auto simp: pg_reconcile_sessions_def reconcile_rows_loop pg_obs_def)
next
  case False
  then show ?thesis by (auto simp: pg_reconcile_sessions_def reconcile_rows_loop transaction_def split: sum.splits)
qed

text \<open>
  C21. A worker that still holds the lease of the session row keeps its mailbox from recovery. If the session row shows a lease
  that is in force when the sweep of expired leases or the reconciliation batch locks it, that function leaves the mailbox row
  alone, even if the lease of the mailbox has expired or another transaction renewed the session between
  the selection and the lock; \<^verbatim>\<open>recover\<close> and \<^verbatim>\<open>reconcile\<close> of the single session leave it alone in the same way. The
  scheduling of retries does not look at the session row and is not meant here.
\<close>

theorem live_session_protects_mailbox:
  assumes "pg_inv db" and "session_live (race k (db_sessions db k)) (clk k 2)"
  shows "pg_get k (snd (pg_sweep_expired_leases n busy race clk tx db)) = pg_get k db
       \<and> pg_get k (snd (pg_reconcile_sessions n cs busy race clk tx db)) = pg_get k db
       \<and> (race k (db_sessions db k) = db_sessions db k \<longrightarrow> sclk 0 \<le> clk k 2 \<longrightarrow> sclk 1 \<le> clk k 2 \<longrightarrow>
            pg_recover k sclk db = (Inr None, db) \<and> pg_reconcile c k sclk db = (Inr (pg_get k db), db))"
proof (intro conjI impI)
  assume e: "race k (db_sessions db k) = db_sessions db k" and t: "sclk 0 \<le> clk k 2" "sclk 1 \<le> clk k 2"
  have l: "session_live (db_sessions db k) (sclk i)" if "sclk i \<le> clk k 2" for i
    using assms(2) that e by (auto simp: session_live_def later_than_def split: option.splits)
  show "pg_recover k sclk db = (Inr None, db)"
    using l [OF t(2)] by (auto simp: pg_recover_def split: option.splits)
  show "pg_reconcile c k sclk db = (Inr (pg_get k db), db)"
    using l [OF t(1)] by (auto simp: pg_reconcile_def split: option.splits)
qed (use sweep_live [where race = race and clk = clk, OF assms] reconcile_sessions_live [where race = race and clk = clk, OF assms] in auto)

theorem live_session_protects_mailbox_witness:
  "session_live (db_sessions pg_demo_live pg_demo_key) 300
   \<and> pg_get pg_demo_key (snd (pg_sweep_expired_leases 10 (\<lambda>_. False) (\<lambda>_ r. r) (\<lambda>_ _. 300) 300 pg_demo_live)) = pg_get pg_demo_key pg_demo_live
   \<and> pg_recover pg_demo_key (\<lambda>_. 300) pg_demo_live = (Inr None, pg_demo_live)"
  using live_session_protects_mailbox [OF pg_demo_inv(4), where race = "\<lambda>_ r. r" and clk = "\<lambda>_ _. 300" and sclk = "\<lambda>_. 300"]
    pg_demo_eval(4) by simp

text \<open>
  C35. A claim of a session whose next item waits for its retry time fails in the database: the statement that would
  store the waiting state does not use its third parameter and the server rejects it, so \<^verbatim>\<open>claim\<close> raises where the
  in-memory mailbox answers that there is nothing to claim. Nothing is changed.
\<close>

theorem pg_claim_of_waiting_head_raises:
  assumes "pg_inv db" and "0 < lf" and "mono clk" and "head_waits k (clk 2) db"
    and "pg_get k db = Some m" and "mb_status m \<noteq> RUNNING"
  shows "pg_claim k owner lf clk db = (Inl indeterminate_datatype, db)"
proof -
  note d = pg_invD(3) [OF assms(1,5)]
  obtain it where it: "pg_item k (mb_resolved_sequence m + 1) db = Some it" "later_than (it_retry_at it) (clk 2)"
    using assms(4,5) by (auto simp: head_waits_def split: option.splits)
  have "mb_resolved_sequence m + 1 \<le> mb_accepted_sequence m"
    using pg_invD(8) [OF assms(1,5), of "mb_resolved_sequence m + 1" it] it(1) by simp
  moreover have "clk 1 \<le> clk 2" using assms(3) by (simp add: monoD)
  then have "later_than (it_retry_at it) (clk 1)" using it(2) by (auto simp: later_than_def split: option.splits)
  ultimately show ?thesis
    using assms(2,5,6) d it by (simp add: pg_claim_def validate_lease_for_def claim_locked_def mailbox_wf_def)
qed

theorem pg_claim_of_waiting_head_raises_witness:
  "head_waits pg_demo_key 22 pg_demo_waiting
   \<and> pg_claim pg_demo_key ''w1'' 100 (\<lambda>i. 20 + int i) pg_demo_waiting = (Inl indeterminate_datatype, pg_demo_waiting)"
proof -
  obtain m where m: "pg_get pg_demo_key pg_demo_waiting = Some m" "mb_status m \<noteq> RUNNING"
    using pg_demo_eval(3) by (auto split: option.splits)
  have w: "head_waits pg_demo_key ((\<lambda>i. 20 + int i) 2) pg_demo_waiting" using pg_demo_eval(2) by simp
  have "mono (\<lambda>i. 20 + int i)" by (simp add: mono_def)
  from pg_claim_of_waiting_head_raises [OF pg_demo_inv(2) _ this w m] pg_demo_eval(2) show ?thesis by simp
qed

lemma pg_accept_stored:
  assumes "pg_inv db" and "pg_accept k i p r tr clk db = (Inr m, db1)" and "require_uuid i = Inr u"
  shows "pg_get k db1 = Some m" and "list_ex (\<lambda>(n, it). it_inbound_id it = u) (db_items db1 k)"
proof -
  obtain db0 m0 where d: "insert_mailbox k (clk 0) db = Inr db0" "pg_get k db0 = Some m0"
    and c: "(if list_ex (\<lambda>(n, it). it_inbound_id it = u) (db_items db0 k) then Inr (m0, db0)
        else pg_accept_new k u (str_or tr i) p r clk m0 db0) = Inr (m, db1)"
    using assms(2,3) by (auto simp: pg_accept_def transaction_def split: option.splits sum.splits)
  have "pg_get k db1 = Some m \<and> list_ex (\<lambda>(n, it). it_inbound_id it = u) (db_items db1 k)"
  proof (cases "list_ex (\<lambda>(n, it). it_inbound_id it = u) (db_items db0 k)")
    case True
    then show ?thesis using c d by simp
  next
    case False
    let ?n = "mb_accepted_sequence m0 + 1"
    obtain it db2 where i: "insert_item k ?n it db0 = Inr db2" "it_inbound_id it = u"
      and db1: "pg_get k db1 = Some m" "db_items db1 k = db_items db2 k"
      using c False by (auto simp: pg_accept_new_def Let_def update_mailbox_Inr emit_ready_outbox_def insert_ready_event_def
          pg_get_def split: sum.splits prod.splits if_splits)
    have "map_of (db_items db2 k) ?n = Some it"
      using i(1) by (auto simp: insert_item_def update_item_def update_conv' split: if_splits)
    then show ?thesis using db1 i(2) by (auto simp: list_ex_iff dest!: map_of_SomeD)
  qed
  then show "pg_get k db1 = Some m" "list_ex (\<lambda>(n, it). it_inbound_id it = u) (db_items db1 k)" by simp_all
qed

text \<open>
  Accepting a message again changes nothing. After a successful \<^verbatim>\<open>accept\<close>, a second one for the same message, in any
  notation of its UUID and with any priority, retry time and trace, returns the mailbox as it is and leaves the
  database unchanged.
\<close>

theorem pg_accept_is_idempotent:
  assumes "pg_inv db" and "pg_accept k i p r tr clk db = (Inr m, db1)" and "require_uuid i' = require_uuid i" and "0 \<le> p'"
  shows "pg_accept k i' p' r' tr' clk' db1 = (Inr m, db1)"
proof -
  obtain u where u: "require_uuid i = Inr u" using assms(2) by (auto simp: pg_accept_def split: option.splits sum.splits)
  have "validate_priority p' = None" using assms(4) by (simp add: validate_priority_def)
  then show ?thesis using pg_accept_stored [OF assms(1,2) u] assms(3) u by (simp add: pg_accept_def insert_mailbox_def)
qed

theorem pg_accept_is_idempotent_witness:
  "require_uuid (''{'' @ pg_demo_inbound @ ''}'') = require_uuid pg_demo_inbound
   \<and> (\<exists>m db. pg_accept pg_demo_key pg_demo_inbound 0 None None (\<lambda>_. 10) pg_demo_empty = (Inr m, db)
        \<and> pg_accept pg_demo_key (''{'' @ pg_demo_inbound @ ''}'') 7 (Some 90) None (\<lambda>_. 20) db = (Inr m, db))"
proof -
  have i: "pg_inv pg_demo_empty" unfolding pg_demo_empty_def by (rule init_pg_db_inv)
  have e: "require_uuid (''{'' @ pg_demo_inbound @ ''}'') = require_uuid pg_demo_inbound" unfolding pg_demo_eval(7,8) ..
  obtain m db where a: "pg_accept pg_demo_key pg_demo_inbound 0 None None (\<lambda>_. 10) pg_demo_empty = (Inr m, db)"
    using pg_demo_eval(6) by (cases "pg_accept pg_demo_key pg_demo_inbound 0 None None (\<lambda>_. 10) pg_demo_empty") (auto split: sum.splits)
  show ?thesis using pg_accept_is_idempotent [OF i a e, of 7 "Some 90" None "\<lambda>_. 20"] a e by auto
qed

text \<open>
  Reading back what \<^verbatim>\<open>_require_uuid\<close> printed gives the same text, also in the \<^verbatim>\<open>urn:uuid:\<close> notation, in braces
  and without hyphens; the printed text has 36 characters.
\<close>

theorem uuid_notations_agree:
  assumes "require_uuid s = Inr u"
  shows "length u = 36 \<and> require_uuid u = Inr u \<and> require_uuid (''urn:uuid:'' @ u) = Inr u
     \<and> require_uuid (''{'' @ u @ ''}'') = Inr u \<and> require_uuid (filter (\<lambda>c. c \<noteq> CHR ''-'') u) = Inr u"
proof -
  obtain h where h: "set h \<subseteq> set hex_lowers" "length h = 32" "u = hyphenate h"
    using assms by (auto simp: require_uuid_Inr elim: uuid_of_Some)
  note U = uuid_of_digits [OF h(1,2)] and fh = filter_hyphenate [OF h(1,2), folded h(3)]
  have u: "uuid_of u = Some u" using assms uuid_of_idem by (simp add: require_uuid_Inr)
  have ch: "c \<noteq> CHR '':''" "c \<notin> set ''{}''" if "c \<in> set u" for c using hyphenate_chars [OF h(1)] that h(3) by blast+
  have ne: "u \<noteq> []" using h(3) hyphenate_nonempty by simp
  have sc: "strip_chars ''{}'' u = u" using ch(2) ne by (intro strip_id) simp_all
  have r: "remove_from 0 pat u = u" if "CHR '':'' \<in> set pat" for pat using ch(1) that by (intro remove_from_id) blast+
  have "remove_all_of ''uuid:'' (remove_all_of ''urn:'' (''urn:uuid:'' @ u)) = u"
    using r [of "''urn:''"] r [of "''uuid:''"] by (simp add: remove_all_of_def numeral_eq_Suc)
  then have a: "uuid_of (''urn:uuid:'' @ u) = Some u" using U sc fh h(3) by simp
  have r2: "remove_all_of ''uuid:'' (remove_all_of ''urn:'' (''{'' @ u @ ''}'')) = ''{'' @ u @ ''}''"
    using ch(1) by (intro remove_all_id) auto
  have "dropWhile (\<lambda>c. c \<in> set ''{}'') (u @ ''}'') = u @ ''}''" "dropWhile (\<lambda>c. c \<in> set ''{}'') (rev u) = rev u"
    using ne ch(2) [OF hd_in_set [OF ne]] ch(2) [OF last_in_set [OF ne]] by (simp_all add: dropWhile_eq_self_iff hd_rev)
  then have "strip_chars ''{}'' (''{'' @ u @ ''}'') = u" by (simp add: strip_chars_def)
  then have b: "uuid_of (''{'' @ u @ ''}'') = Some u" using U [of "''{'' @ u @ ''}''"] fh h(3) unfolding r2 by simp
  have hc: "c \<noteq> CHR '':''" "c \<notin> set ''{}''" "c \<noteq> CHR ''-''" if "c \<in> set h" for c
    using that h(1) hex_lowers_not_special [of c] by blast+
  have hne: "h \<noteq> []" using h(2) by auto
  have "strip_chars ''{}'' h = h" using hne hc(2) by (intro strip_id) simp_all
  moreover have "filter (\<lambda>c. c \<noteq> CHR ''-'') h = h" using hc(3) by (simp add: filter_id_conv)
  moreover have "remove_all_of ''uuid:'' (remove_all_of ''urn:'' h) = h" using hc(1) by (intro remove_all_id) blast
  ultimately have d: "uuid_of h = Some u" using U h(3) by simp
  have "length u = 36" using h(2) by (simp add: h(3) hyphenate_def)
  then show ?thesis using u a b d fh by (simp add: require_uuid_Inr)
qed

theorem uuid_notations_agree_witness:
  "require_uuid ''{0000000000000000000000000000000A}'' = Inr pg_demo_inbound
   \<and> require_uuid (''urn:uuid:'' @ pg_demo_inbound) = Inr pg_demo_inbound"
proof -
  have e: "require_uuid ''{0000000000000000000000000000000A}'' = Inr pg_demo_inbound" by code_simp
  show ?thesis using uuid_notations_agree [OF e] e by blast
qed

end
