(* ===== verification/Py_Bytes.thy ===== *)
theory Py_Bytes
  imports Prelude "HOL-Library.Word"
begin

text \<open>
  Byte strings and the functions of the Python standard library on them that the service uses:
  \<^verbatim>\<open>str.encode\<close> and \<^verbatim>\<open>bytes.decode\<close> (UTF-8), \<^verbatim>\<open>hashlib.sha256\<close>, \<^verbatim>\<open>hmac.new(key, msg, sha256)\<close> and the URL-safe
  alphabet of \<^verbatim>\<open>base64\<close>. A byte is an \<open>8 word\<close>; SHA-256 works on \<open>32 word\<close> with its wrap-around addition. Text that
  the service reads from outside is a list of code points (\<open>nat list\<close>); text of the service itself is a \<open>string\<close>.
\<close>

unbundle bit_operations_syntax

type_synonym byte = "8 word"
type_synonym bytes = "byte list"

subsection \<open>UTF-8\<close>

definition code_points :: "string \<Rightarrow> nat list" where
  "code_points s = map of_char s"

definition utf8_char :: "nat \<Rightarrow> bytes" where
  "utf8_char n =
     (if n < 128 then [word_of_nat n]
      else if n < 2048 then [word_of_nat (192 + n div 64), word_of_nat (128 + n mod 64)]
      else if n < 65536
      then [word_of_nat (224 + n div 4096), word_of_nat (128 + n div 64 mod 64), word_of_nat (128 + n mod 64)]
      else [word_of_nat (240 + n div 262144), word_of_nat (128 + n div 4096 mod 64),
            word_of_nat (128 + n div 64 mod 64), word_of_nat (128 + n mod 64)])"

text \<open>\<^verbatim>\<open>str.encode()\<close> refuses a text with a surrogate; a \<open>string\<close> has none.\<close>

definition surrogate :: "nat \<Rightarrow> bool" where
  "surrogate n = (0xD800 \<le> n \<and> n \<le> 0xDFFF)"

definition utf8_points :: "nat list \<Rightarrow> bytes option" where
  "utf8_points ns = (if list_ex surrogate ns then None else Some (concat (map utf8_char ns)))"

definition utf8_encode :: "string \<Rightarrow> bytes" where
  "utf8_encode s = concat (map utf8_char (code_points s))"

text \<open>A continuation byte, and the ranges that exclude overlong forms, surrogates and numbers above \<^verbatim>\<open>0x10FFFF\<close>.\<close>

definition continuation :: "byte \<Rightarrow> nat option" where
  "continuation b = (if 128 \<le> b \<and> b < 192 then Some (unat b - 128) else None)"

fun utf8_decode :: "bytes \<Rightarrow> nat list option" where
  "utf8_decode [] = Some []"
| "utf8_decode (b # bs) =
     (if b < 128 then map_option (Cons (unat b)) (utf8_decode bs)
      else if b < 194 then None
      else if b < 224 then
        (case bs of
           c1 # rest \<Rightarrow>
             (case continuation c1 of
                Some d1 \<Rightarrow> map_option (Cons ((unat b - 192) * 64 + d1)) (utf8_decode rest)
              | None \<Rightarrow> None)
         | _ \<Rightarrow> None)
      else if b < 240 then
        (case bs of
           c1 # c2 # rest \<Rightarrow>
             (case (continuation c1, continuation c2) of
                (Some d1, Some d2) \<Rightarrow>
                  (let n = (unat b - 224) * 4096 + d1 * 64 + d2
                   in if n < 2048 \<or> (55296 \<le> n \<and> n < 57344) then None
                      else map_option (Cons n) (utf8_decode rest))
              | _ \<Rightarrow> None)
         | _ \<Rightarrow> None)
      else if b < 245 then
        (case bs of
           c1 # c2 # c3 # rest \<Rightarrow>
             (case (continuation c1, continuation c2, continuation c3) of
                (Some d1, Some d2, Some d3) \<Rightarrow>
                  (let n = (unat b - 240) * 262144 + d1 * 4096 + d2 * 64 + d3
                   in if n < 65536 \<or> 1114112 \<le> n then None
                      else map_option (Cons n) (utf8_decode rest))
              | _ \<Rightarrow> None)
         | _ \<Rightarrow> None)
      else None)"

subsection \<open>SHA-256\<close>

type_synonym word32 = "32 word"

text \<open>
  The constants are the first 32 bits of the fractional parts of the cube roots of the first 64 primes, and of the square
  roots of the first eight: \<open>floor_root e n b 0\<close> is the integer part of the \<open>e\<close>-th root of \<open>n\<close>, found bit by bit from bit
  \<open>b - 1\<close> down.
\<close>

fun floor_root :: "nat \<Rightarrow> nat \<Rightarrow> nat \<Rightarrow> nat \<Rightarrow> nat" where
  "floor_root e n 0 acc = acc"
| "floor_root e n (Suc b) acc = floor_root e n b (if (acc + 2 ^ b) ^ e \<le> n then acc + 2 ^ b else acc)"

definition small_primes :: "nat list" where
  "small_primes = filter (\<lambda>n. list_all (\<lambda>d. n mod d \<noteq> 0) [2..<n]) [2..<312]"

definition sha256_k :: "word32 list" where
  "sha256_k = map (\<lambda>p. word_of_nat (floor_root 3 (p * 2 ^ 96) 36 0)) small_primes"

definition sha256_h :: "word32 list" where
  "sha256_h = map (\<lambda>p. word_of_nat (floor_root 2 (p * 2 ^ 64) 36 0)) (take 8 small_primes)"

definition sigma0 :: "word32 \<Rightarrow> word32" where
  "sigma0 x = word_rotr 7 x XOR word_rotr 18 x XOR drop_bit 3 x"

definition sigma1 :: "word32 \<Rightarrow> word32" where
  "sigma1 x = word_rotr 17 x XOR word_rotr 19 x XOR drop_bit 10 x"

definition big_sigma0 :: "word32 \<Rightarrow> word32" where
  "big_sigma0 x = word_rotr 2 x XOR word_rotr 13 x XOR word_rotr 22 x"

definition big_sigma1 :: "word32 \<Rightarrow> word32" where
  "big_sigma1 x = word_rotr 6 x XOR word_rotr 11 x XOR word_rotr 25 x"

definition choose_bits :: "word32 \<Rightarrow> word32 \<Rightarrow> word32 \<Rightarrow> word32" where
  "choose_bits e f g = (e AND f) XOR ((NOT e) AND g)"

definition majority_bits :: "word32 \<Rightarrow> word32 \<Rightarrow> word32 \<Rightarrow> word32" where
  "majority_bits a b c = (a AND b) XOR (a AND c) XOR (b AND c)"

text \<open>The message schedule, kept newest first.\<close>

fun sha256_schedule :: "nat \<Rightarrow> word32 list \<Rightarrow> word32 list" where
  "sha256_schedule 0 ws = rev ws"
| "sha256_schedule (Suc n) ws =
     sha256_schedule n ((sigma1 (ws ! 1) + ws ! 6 + sigma0 (ws ! 14) + ws ! 15) # ws)"

fun sha256_rounds :: "(word32 \<times> word32) list \<Rightarrow> word32 list \<Rightarrow> word32 list" where
  "sha256_rounds ((k, w) # kws) [a, b, c, d, e, f, g, h] =
     (let t1 = h + big_sigma1 e + choose_bits e f g + k + w;
          t2 = big_sigma0 a + majority_bits a b c
      in sha256_rounds kws [t1 + t2, a, b, c, d + t1, e, f, g])"
| "sha256_rounds _ st = st"

definition word32_of_bytes :: "bytes \<Rightarrow> word32" where
  "word32_of_bytes bs = fold (\<lambda>b acc. push_bit 8 acc OR ucast b) bs 0"

definition bytes_of_word32 :: "word32 \<Rightarrow> bytes" where
  "bytes_of_word32 w = [ucast (drop_bit 24 w), ucast (drop_bit 16 w), ucast (drop_bit 8 w), ucast w]"

fun chunks :: "nat \<Rightarrow> nat \<Rightarrow> 'a list \<Rightarrow> 'a list list" where
  "chunks 0 n xs = []"
| "chunks (Suc k) n xs = take n xs # chunks k n (drop n xs)"

definition sha256_block :: "bytes \<Rightarrow> word32 list \<Rightarrow> word32 list" where
  "sha256_block block st =
     (let ws = sha256_schedule 48 (rev (map word32_of_bytes (chunks 16 4 block)))
      in map2 (+) st (sha256_rounds (zip sha256_k ws) st))"

definition sha256_pad :: "bytes \<Rightarrow> bytes" where
  "sha256_pad m =
     (let n = length m
      in m @ 0x80 # replicate ((119 - n mod 64) mod 64) 0
         @ map (\<lambda>i. word_of_nat ((8 * n) div 256 ^ i)) [7, 6, 5, 4, 3, 2, 1, 0])"

definition sha256 :: "bytes \<Rightarrow> bytes" where
  "sha256 m =
     (let p = sha256_pad m
      in concat (map bytes_of_word32 (fold sha256_block (chunks (length p div 64) 64 p) sha256_h)))"

definition hmac_sha256 :: "bytes \<Rightarrow> bytes \<Rightarrow> bytes" where
  "hmac_sha256 key msg =
     (let k0 = (if 64 < length key then sha256 key else key);
          k = k0 @ replicate (64 - length k0) 0
      in sha256 (map (\<lambda>b. b XOR 0x5c) k @ sha256 (map (\<lambda>b. b XOR 0x36) k @ msg)))"

definition hexdigit :: "nat \<Rightarrow> char" where
  "hexdigit n = ''0123456789abcdef'' ! n"

definition hexdigest :: "bytes \<Rightarrow> string" where
  "hexdigest bs = concat (map (\<lambda>b. [hexdigit (unat b div 16), hexdigit (unat b mod 16)]) bs)"

subsection \<open>Base64 with the URL-safe alphabet, without padding\<close>

definition base64_alphabet :: string where
  "base64_alphabet = ''ABCDEFGHIJKLMNOPQRSTUVWXYZabcdefghijklmnopqrstuvwxyz0123456789-_''"

definition base64_digit :: "nat \<Rightarrow> char" where
  "base64_digit n = base64_alphabet ! n"

fun base64_encode :: "bytes \<Rightarrow> string" where
  "base64_encode [] = []"
| "base64_encode [a] = (let n = unat a * 16 in [base64_digit (n div 64), base64_digit (n mod 64)])"
| "base64_encode [a, b] =
     (let n = (unat a * 256 + unat b) * 4
      in [base64_digit (n div 4096), base64_digit (n div 64 mod 64), base64_digit (n mod 64)])"
| "base64_encode (a # b # c # rest) =
     (let n = unat a * 65536 + unat b * 256 + unat c
      in base64_digit (n div 262144) # base64_digit (n div 4096 mod 64) # base64_digit (n div 64 mod 64)
         # base64_digit (n mod 64) # base64_encode rest)"

definition base64_value :: "char \<Rightarrow> nat option" where
  "base64_value c = map_of (zip base64_alphabet [0..<64]) c"

text \<open>Four digits give three bytes; what is left over gives one or two, and a single digit is an error. The
  bits of the last digit that belong to no byte are dropped.\<close>

fun base64_groups :: "nat list \<Rightarrow> bytes option" where
  "base64_groups [] = Some []"
| "base64_groups [a] = None"
| "base64_groups [a, b] = Some [word_of_nat ((a * 64 + b) div 16)]"
| "base64_groups [a, b, c] =
     (let n = (a * 4096 + b * 64 + c) div 4 in Some [word_of_nat (n div 256), word_of_nat (n mod 256)])"
| "base64_groups (a # b # c # d # rest) =
     (let n = a * 262144 + b * 4096 + c * 64 + d
      in map_option (\<lambda>bs. word_of_nat (n div 65536) # word_of_nat (n div 256 mod 256) # word_of_nat (n mod 256) # bs)
           (base64_groups rest))"

definition base64_decode :: "string \<Rightarrow> bytes option" where
  "base64_decode s = Option.bind (those (map base64_value s)) base64_groups"

subsection \<open>Laws of the codecs\<close>

subsection \<open>Base64 reads what it wrote\<close>

lemma base64_value_digit: "n < 64 \<Longrightarrow> base64_value (base64_digit n) = Some n"
proof -
  have "\<forall>n \<in> set [0..<64]. base64_value (base64_digit n) = Some n" by code_simp
  then show "n < 64 \<Longrightarrow> base64_value (base64_digit n) = Some n" by simp
qed

lemma base64_digit_alphabet: "n < 64 \<Longrightarrow> base64_digit n \<in> set base64_alphabet"
  using base64_value_digit [of n] by (auto simp: base64_value_def dest!: map_of_SomeD set_zip_leftD)

lemma unat_byte: "unat (b :: byte) < 256"
  using unsigned_less [of b] by simp

lemma byte_of_unat: "word_of_nat (unat b) = (b :: byte)"
  by simp

fun base64_digits :: "bytes \<Rightarrow> nat list" where
  "base64_digits [] = []"
| "base64_digits [a] = (let n = unat a * 16 in [n div 64, n mod 64])"
| "base64_digits [a, b] = (let n = (unat a * 256 + unat b) * 4 in [n div 4096, n div 64 mod 64, n mod 64])"
| "base64_digits (a # b # c # rest) =
     (let n = unat a * 65536 + unat b * 256 + unat c
      in n div 262144 # n div 4096 mod 64 # n div 64 mod 64 # n mod 64 # base64_digits rest)"

lemma base64_digits_less: "n \<in> set (base64_digits bs) \<Longrightarrow> n < 64"
proof (induction bs rule: base64_digits.induct)
  case (2 a)
  then show ?case using unat_byte [of a] by (auto simp: Let_def)
next
  case (3 a b)
  then show ?case using unat_byte [of a] unat_byte [of b] by (auto simp: Let_def)
next
  case (4 a b c rest)
  have "(unat a * 65536 + unat b * 256 + unat c) div 262144 < 64"
    using unat_byte [of a] unat_byte [of b] unat_byte [of c] by simp
  then show ?case using 4 by (auto simp: Let_def)
qed simp

lemma base64_encode_digits: "base64_encode bs = map base64_digit (base64_digits bs)"
  by (induction bs rule: base64_digits.induct) (simp_all add: Let_def)

lemma split_digits:
  "(n :: nat) div 262144 * 262144 + n div 4096 mod 64 * 4096 + n div 64 mod 64 * 64 + n mod 64 = n"
  "(n :: nat) div 4096 * 4096 + n div 64 mod 64 * 64 + n mod 64 = n"
proof -
  have d: "n div 4096 = n div 64 div 64" "n div 262144 = n div 64 div 64 div 64" by (simp_all add: div_mult2_eq [symmetric])
  have h: "a * 262144 + b * 4096 + c * 64 + d = ((a * 64 + b) * 64 + c) * 64 + d" "b * 4096 + c * 64 + d = (b * 64 + c) * 64 + d"
    for a b c d :: nat by simp_all
  show "n div 262144 * 262144 + n div 4096 mod 64 * 4096 + n div 64 mod 64 * 64 + n mod 64 = n"
    by (simp only: d h(1) div_mult_mod_eq)
  show "n div 4096 * 4096 + n div 64 mod 64 * 64 + n mod 64 = n" by (simp only: d h(2) div_mult_mod_eq)
qed

lemma join_bytes:
  assumes "a < 256" and "b < 256" and "(c :: nat) < 256"
  shows "(a * 65536 + b * 256 + c) div 65536 = a" "(a * 65536 + b * 256 + c) div 256 mod 256 = b"
    "(a * 65536 + b * 256 + c) mod 256 = c"
proof -
  have e: "a * 65536 + b * 256 + c = (a * 256 + b) * 256 + c" by simp
  have d: "((a * 256 + b) * 256 + c) div 256 = a * 256 + b" using assms by (intro div_nat_eqI) simp_all
  show "(a * 65536 + b * 256 + c) div 65536 = a" using assms by (intro div_nat_eqI) simp_all
  show "(a * 65536 + b * 256 + c) div 256 mod 256 = b" unfolding e d mod_mult_self3 using assms by simp
  show "(a * 65536 + b * 256 + c) mod 256 = c" unfolding e mod_mult_self3 using assms by simp
qed

lemma base64_groups_digits: "base64_groups (base64_digits bs) = Some bs"
proof (induction bs rule: base64_digits.induct)
  case (2 a)
  have "(unat a * 16 div 64 * 64 + unat a * 16 mod 64) div 16 = unat a" by presburger
  then show ?case unfolding base64_digits.simps Let_def base64_groups.simps by (simp only: byte_of_unat option.inject list.inject)
next
  case (3 a b)
  let ?n = "(unat a * 256 + unat b) * 4"
  note split_digits(2) [of ?n]
  moreover have "?n div 4 div 256 = unat a" "?n div 4 mod 256 = unat b" using unat_byte [of b] by simp_all
  ultimately show ?case unfolding base64_digits.simps Let_def base64_groups.simps by (simp only: byte_of_unat option.inject list.inject)
next
  case (4 a b c rest)
  let ?n = "unat a * 65536 + unat b * 256 + unat c"
  note split_digits(1) [of ?n]
  moreover note join_bytes [OF unat_byte unat_byte unat_byte, of a b c]
  ultimately show ?case using 4 unfolding base64_digits.simps Let_def base64_groups.simps by (simp only: byte_of_unat option.map)
qed simp

lemma those_map_Some: "(\<And>x. x \<in> set xs \<Longrightarrow> f (g x) = Some x) \<Longrightarrow> those (map f (map g xs)) = Some xs"
  by (induction xs) simp_all

lemma base64_roundtrip: "base64_decode (base64_encode bs) = Some bs"
proof -
  have "those (map base64_value (map base64_digit (base64_digits bs))) = Some (base64_digits bs)"
    using base64_value_digit base64_digits_less by (intro those_map_Some) blast
  then show ?thesis by (simp only: base64_decode_def base64_encode_digits base64_groups_digits Option.bind.simps)
qed

lemma base64_chars: "set (base64_encode bs) \<subseteq> set base64_alphabet"
  unfolding base64_encode_digits using base64_digits_less base64_digit_alphabet by fastforce

lemma base64_encode_Nil [simp]: "base64_encode bs = [] \<longleftrightarrow> bs = []"
  by (cases bs rule: base64_digits.cases) (simp_all add: Let_def)

subsection \<open>ASCII text in UTF-8\<close>

definition ascii :: "string \<Rightarrow> bool" where
  "ascii s = list_all (\<lambda>c. (of_char c :: nat) < 128) s"

lemma ascii_simps [simp]:
  "ascii []" "ascii (c # s) \<longleftrightarrow> (of_char c :: nat) < 128 \<and> ascii s" "ascii (s @ t) \<longleftrightarrow> ascii s \<and> ascii t"
  by (simp_all add: ascii_def)

lemma utf8_ascii: "ascii s \<Longrightarrow> utf8_decode (utf8_encode s) = Some (code_points s)"
proof (induction s)
  case (Cons c s)
  let ?n = "of_char c :: nat"
  have n: "?n < 128" "utf8_decode (utf8_encode s) = Some (code_points s)" using Cons by simp_all
  have "unat (word_of_nat ?n :: byte) = ?n" using n(1) by (simp add: unat_of_nat)
  moreover then have "(word_of_nat ?n :: byte) < 128" using n(1) by (simp add: word_less_nat_alt)
  ultimately show ?case using n by (simp add: utf8_encode_def code_points_def utf8_char_def)
qed (simp add: utf8_encode_def code_points_def)

lemma utf8_points_string: "utf8_points (code_points s) = Some (utf8_encode s)"
proof -
  have "\<not> surrogate (of_char c)" for c :: char
  proof -
    have "(of_char c :: nat) < 256" by (rule nat_of_char_less_256)
    then show ?thesis unfolding surrogate_def by linarith
  qed
  then show ?thesis by (auto simp: utf8_points_def utf8_encode_def code_points_def list_ex_iff)
qed

lemma ascii_utf8: "ascii s \<Longrightarrow> utf8_encode s = map word_of_nat (code_points s)"
  by (induction s) (simp_all add: utf8_encode_def code_points_def utf8_char_def)

end
