(* ===== verification/Py_Calendar.thy ===== *)
theory Py_Calendar
  imports Prelude
begin

text \<open>
  Decimal text and the text of an instant, as Python writes them: \<^verbatim>\<open>str(int)\<close>, \<^verbatim>\<open>'%04d'\<close> and
  \<^verbatim>\<open>datetime.isoformat\<close> of a time in UTC. The calendar is the proleptic Gregorian one of \<^verbatim>\<open>datetime\<close>, counted in
  days since 1 January of year 1 (\<^verbatim>\<open>_ord2ymd\<close> of the standard library).
\<close>

subsection \<open>Decimal text\<close>

definition digit_char :: "nat \<Rightarrow> char" where
  "digit_char n = ''0123456789'' ! n"

fun nat_text :: "nat \<Rightarrow> string" where
  "nat_text n = (if n < 10 then [digit_char n] else nat_text (n div 10) @ [digit_char (n mod 10)])"

declare nat_text.simps [simp del]

definition int_text :: "int \<Rightarrow> string" where
  "int_text i = (if i < 0 then CHR ''-'' # nat_text (nat (- i)) else nat_text (nat i))"

definition padded_text :: "nat \<Rightarrow> nat \<Rightarrow> string" where
  "padded_text w n = (let s = nat_text n in replicate (w - length s) CHR ''0'' @ s)"

subsection \<open>Dates\<close>

definition days_in_month :: "bool \<Rightarrow> nat \<Rightarrow> nat" where
  "days_in_month leap month =
     (if month = 2 \<and> leap then 29 else [0, 31, 28, 31, 30, 31, 30, 31, 31, 30, 31, 30, 31] ! month)"

definition days_before_month :: "bool \<Rightarrow> nat \<Rightarrow> nat" where
  "days_before_month leap month =
     [0, 0, 31, 59, 90, 120, 151, 181, 212, 243, 273, 304, 334] ! month + (if 2 < month \<and> leap then 1 else 0)"

text \<open>Year, month and day of a day number that counts from 1.\<close>

definition ord2ymd :: "nat \<Rightarrow> nat \<times> nat \<times> nat" where
  "ord2ymd ordinal =
     (let n = ordinal - 1;
          n400 = n div 146097; n = n mod 146097;
          year = n400 * 400 + 1;
          n100 = n div 36524; n = n mod 36524;
          n4 = n div 1461; n = n mod 1461;
          n1 = n div 365; n = n mod 365;
          year = year + n100 * 100 + n4 * 4 + n1
      in if n1 = 4 \<or> n100 = 4 then (year - 1, 12, 31)
         else
           (let leap = (n1 = 3 \<and> (n4 \<noteq> 24 \<or> n100 = 3));
                month = (n + 50) div 32;
                preceding = days_before_month leap month
            in if n < preceding
               then (let month = month - 1; preceding = preceding - days_in_month leap month
                     in (year, month, n - preceding + 1))
               else (year, month, n - preceding + 1)))"

text \<open>The first day of the epoch is number 719163.\<close>

definition iso_text :: "char \<Rightarrow> time \<Rightarrow> string" where
  "iso_text separator t =
     (let day = t div seconds 86400; rest = nat (t mod seconds 86400);
          (year, month, date) = ord2ymd (nat (day + 719163));
          sec = rest div 1000000; micro = rest mod 1000000
      in padded_text 4 year @ ''-'' @ padded_text 2 month @ ''-'' @ padded_text 2 date @ [separator]
         @ padded_text 2 (sec div 3600) @ '':'' @ padded_text 2 (sec div 60 mod 60) @ '':'' @ padded_text 2 (sec mod 60)
         @ (if micro = 0 then [] else ''.'' @ padded_text 6 micro) @ ''+00:00'')"

end
