(* ===== verification/Py_Json.thy ===== *)
theory Py_Json
  imports Py_Bytes Py_Calendar "HOL-Library.List_Lexorder" "HOL-Library.Char_ord"
begin

text \<open>
  \<^verbatim>\<open>json.dumps(value, sort_keys=True, separators=(',', ':'), default=str)\<close> and \<^verbatim>\<open>json.loads\<close> of the Python standard
  library. What is read may contain any code point and floating-point numbers, which stay text here. The limit on the
  depth of recursion is not modelled.
\<close>

subsection \<open>Writing\<close>

definition hex4 :: "nat \<Rightarrow> string" where
  "hex4 n = [hexdigit (n div 4096 mod 16), hexdigit (n div 256 mod 16), hexdigit (n div 16 mod 16), hexdigit (n mod 16)]"

definition json_char :: "char \<Rightarrow> string" where
  "json_char c =
     (let n = (of_char c :: nat)
      in if n = 34 then [CHR 0x5C, CHR 0x22]
         else if n = 92 then [CHR 0x5C, CHR 0x5C]
         else if n = 10 then [CHR 0x5C, CHR ''n'']
         else if n = 13 then [CHR 0x5C, CHR ''r'']
         else if n = 9 then [CHR 0x5C, CHR ''t'']
         else if n = 12 then [CHR 0x5C, CHR ''f'']
         else if n = 8 then [CHR 0x5C, CHR ''b'']
         else if 32 \<le> n \<and> n \<le> 126 then [c]
         else CHR 0x5C # CHR ''u'' # hex4 n)"

definition json_string :: "string \<Rightarrow> string" where
  "json_string s = [CHR 0x22] @ concat (map json_char s) @ [CHR 0x22]"

fun comma_separated :: "string list \<Rightarrow> string" where
  "comma_separated [] = []"
| "comma_separated [x] = x"
| "comma_separated (x # xs) = x @ '','' @ comma_separated xs"

fun json_dumps :: "jval \<Rightarrow> string" where
  "json_dumps JNull = ''null''"
| "json_dumps (JBool b) = (if b then ''true'' else ''false'')"
| "json_dumps (JInt i) = int_text i"
| "json_dumps (JStr s) = json_string s"
| "json_dumps (JTime t) = json_string (iso_text CHR '' '' t)"
| "json_dumps (JList vs) = ''['' @ comma_separated (map json_dumps vs) @ '']''"
| "json_dumps (JObj kvs) =
     ''{'' @ comma_separated (map (\<lambda>(k, v). json_string k @ '':'' @ v)
              (sort_key fst (map (\<lambda>(k, v). (k, json_dumps v)) kvs))) @ ''}''"

subsection \<open>Reading\<close>

datatype loaded =
    LNull
  | LBool bool
  | LInt int
  | LFloat "nat list"
  | LStr "nat list"
  | LList "loaded list"
  | LObj "(nat list \<times> loaded) list"

definition skip_space :: "nat list \<Rightarrow> nat list" where
  "skip_space = dropWhile (\<lambda>c. c \<in> {32, 9, 10, 13})"

definition hex_value :: "nat \<Rightarrow> nat option" where
  "hex_value c =
     (if 48 \<le> c \<and> c \<le> 57 then Some (c - 48)
      else if 97 \<le> c \<and> c \<le> 102 then Some (c - 87)
      else if 65 \<le> c \<and> c \<le> 70 then Some (c - 55) else None)"

text \<open>The four digits of a \<^verbatim>\<open>\uXXXX\<close> escape and what follows them.\<close>

definition read_hex4 :: "nat list \<Rightarrow> (nat \<times> nat list) option" where
  "read_hex4 s =
     (case s of
        a # b # c # d # r \<Rightarrow>
          (case (hex_value a, hex_value b, hex_value c, hex_value d) of
             (Some a, Some b, Some c, Some d) \<Rightarrow> Some (((a * 16 + b) * 16 + c) * 16 + d, r)
           | _ \<Rightarrow> None)
      | _ \<Rightarrow> None)"

definition escape_value :: "nat \<Rightarrow> nat option" where
  "escape_value e =
     (if e \<in> {34, 92, 47} then Some e
      else if e = 98 then Some 8 else if e = 102 then Some 12 else if e = 110 then Some 10
      else if e = 114 then Some 13 else if e = 116 then Some 9 else None)"

text \<open>One character of a string literal: its code point and the rest. A high surrogate takes a low one with it.\<close>

definition scan_char :: "nat list \<Rightarrow> (nat \<times> nat list) option" where
  "scan_char s =
     (case s of
        [] \<Rightarrow> None
      | c # r \<Rightarrow>
          if c < 32 then None
          else if c \<noteq> 92 then Some (c, r)
          else case r of
            [] \<Rightarrow> None
          | e # r1 \<Rightarrow>
              if e \<noteq> 117 then map_option (\<lambda>v. (v, r1)) (escape_value e)
              else case read_hex4 r1 of
                None \<Rightarrow> None
              | Some (u, r2) \<Rightarrow>
                  if 55296 \<le> u \<and> u \<le> 56319 \<and> take 2 r2 = [92, 117]
                  then case read_hex4 (drop 2 r2) of
                         None \<Rightarrow> None
                       | Some (v, r3) \<Rightarrow>
                           if 56320 \<le> v \<and> v \<le> 57343
                           then Some (65536 + ((u - 55296) * 1024 + (v - 56320)), r3)
                           else Some (u, r2)
                  else Some (u, r2))"

text \<open>A string literal after its opening quote.\<close>

fun scan_string :: "nat \<Rightarrow> nat list \<Rightarrow> (nat list \<times> nat list) option" where
  "scan_string 0 s = None"
| "scan_string (Suc n) s =
     (case s of
        [] \<Rightarrow> None
      | c # r \<Rightarrow>
          if c = 34 then Some ([], r)
          else case scan_char s of
                 None \<Rightarrow> None
               | Some (u, r) \<Rightarrow> map_option (\<lambda>(t, r). (u # t, r)) (scan_string n r))"

definition is_digit :: "nat \<Rightarrow> bool" where
  "is_digit c = (48 \<le> c \<and> c \<le> 57)"

definition digits_value :: "nat list \<Rightarrow> int" where
  "digits_value ds = foldl (\<lambda>acc d. acc * 10 + (int d - 48)) 0 ds"

text \<open>The digits before the point; a leading zero stands alone.\<close>

definition int_digits :: "nat list \<Rightarrow> nat list" where
  "int_digits s = (case s of c # r \<Rightarrow> if c = 48 then [48] else takeWhile is_digit s | [] \<Rightarrow> [])"

text \<open>A number, with the limit of 4300 digits on integers.\<close>

definition scan_number :: "nat list \<Rightarrow> (loaded \<times> nat list) option" where
  "scan_number s =
     (let negative = (take 1 s = [45]);
          s1 = (if negative then drop 1 s else s);
          ds = int_digits s1;
          s2 = drop (length ds) s1;
          fraction = (let fs = takeWhile is_digit (drop 1 s2) in if take 1 s2 = [46] \<and> fs \<noteq> [] then 46 # fs else []);
          s3 = drop (length fraction) s2;
          exponent = (case s3 of
             e # r \<Rightarrow>
               if e = 101 \<or> e = 69
               then (let sign = (if take 1 r = [43] \<or> take 1 r = [45] then take 1 r else []);
                         es = takeWhile is_digit (drop (length sign) r)
                     in if es = [] then [] else e # sign @ es)
               else []
           | [] \<Rightarrow> []);
          s4 = drop (length exponent) s3
      in if ds = [] then None
         else if fraction = [] \<and> exponent = []
         then if 4300 < length ds then None
              else Some (LInt (if negative then - digits_value ds else digits_value ds), s4)
         else Some (LFloat ((if negative then [45] else []) @ ds @ fraction @ exponent), s4))"

definition has_prefix :: "string \<Rightarrow> nat list \<Rightarrow> bool" where
  "has_prefix p s = (take (length p) s = code_points p)"

definition scan_literal :: "nat list \<Rightarrow> (loaded \<times> nat list) option" where
  "scan_literal s =
     (if has_prefix ''null'' s then Some (LNull, drop 4 s)
      else if has_prefix ''true'' s then Some (LBool True, drop 4 s)
      else if has_prefix ''false'' s then Some (LBool False, drop 5 s)
      else if has_prefix ''NaN'' s then Some (LFloat (code_points ''NaN''), drop 3 s)
      else if has_prefix ''Infinity'' s then Some (LFloat (code_points ''Infinity''), drop 8 s)
      else if has_prefix ''-Infinity'' s then Some (LFloat (code_points ''-Infinity''), drop 9 s)
      else scan_number s)"

text \<open>
  Values, the members of an object (at the opening quote of a key) and the elements of an array. The first argument
  bounds the recursion; every recursive call has consumed a character.
\<close>

fun scan_value :: "nat \<Rightarrow> nat list \<Rightarrow> (loaded \<times> nat list) option"
  and scan_members :: "nat \<Rightarrow> (nat list \<times> loaded) list \<Rightarrow> nat list \<Rightarrow> (loaded \<times> nat list) option"
  and scan_elements :: "nat \<Rightarrow> loaded list \<Rightarrow> nat list \<Rightarrow> (loaded \<times> nat list) option"
where
  "scan_value 0 s = None"
| "scan_value (Suc n) s =
     (case s of
        [] \<Rightarrow> None
      | c # r \<Rightarrow>
          if c = 34 then map_option (\<lambda>(t, r). (LStr t, r)) (scan_string (length r) r)
          else if c = 123 then
            (let r1 = skip_space r
             in if take 1 r1 = [125] then Some (LObj [], drop 1 r1) else scan_members n [] r1)
          else if c = 91 then
            (let r1 = skip_space r
             in if take 1 r1 = [93] then Some (LList [], drop 1 r1) else scan_elements n [] r1)
          else scan_literal s)"
| "scan_members 0 acc s = None"
| "scan_members (Suc n) acc s =
     (case s of
        [] \<Rightarrow> None
      | c # r \<Rightarrow>
          if c \<noteq> 34 then None
          else case scan_string (length r) r of
            None \<Rightarrow> None
          | Some (k, r1) \<Rightarrow>
              (case skip_space r1 of
                 [] \<Rightarrow> None
               | c2 # r2 \<Rightarrow>
                   if c2 \<noteq> 58 then None
                   else case scan_value n (skip_space r2) of
                     None \<Rightarrow> None
                   | Some (v, r3) \<Rightarrow>
                       (let acc1 = AList.update k v acc
                        in case skip_space r3 of
                             [] \<Rightarrow> None
                           | c4 # r4 \<Rightarrow>
                               if c4 = 125 then Some (LObj acc1, r4)
                               else if c4 = 44 then scan_members n acc1 (skip_space r4) else None)))"
| "scan_elements 0 acc s = None"
| "scan_elements (Suc n) acc s =
     (case scan_value n s of
        None \<Rightarrow> None
      | Some (v, r) \<Rightarrow>
          (case skip_space r of
             [] \<Rightarrow> None
           | c # r1 \<Rightarrow>
               if c = 93 then Some (LList (acc @ [v]), r1)
               else if c = 44 then scan_elements n (acc @ [v]) (skip_space r1) else None))"

definition json_loads :: "nat list \<Rightarrow> loaded option" where
  "json_loads s =
     (case scan_value (2 * length s + 1) (skip_space s) of
        None \<Rightarrow> None
      | Some (v, r) \<Rightarrow> if skip_space r = [] then Some v else None)"

end
