(* ===== verification/Py_Json_Roundtrip.thy ===== *)
theory Py_Json_Roundtrip
  imports Py_Json
begin

text \<open>
  \<^verbatim>\<open>json.loads (json.dumps v)\<close> gives back \<open>v\<close>: the printer is read by the scanner, string by string, number by number and
  then by induction on the value, for values whose integers stay below the digit limit of the interpreter and whose
  objects have no duplicate key. The fuel of \<open>json_loads\<close> is enough for everything \<open>json_dumps\<close> prints.
\<close>

subsection \<open>Reading what was written\<close>

lemma code_points_simps [simp]:
  "code_points [] = []" "code_points (c # s) = of_char c # code_points s" "code_points (s @ t) = code_points s @ code_points t"
  "length (code_points s) = length s" "code_points s = [] \<longleftrightarrow> s = []"
  by (simp_all add: code_points_def)

lemma code_points_inj [simp]: "code_points s = code_points t \<longleftrightarrow> s = t"
  unfolding code_points_def by (rule inj_map_eq_map) (simp add: inj_def)

lemma hex_value_digit: "n < 16 \<Longrightarrow> hex_value (of_char (hexdigit n)) = Some n"
proof -
  have "\<forall>n \<in> set [0..<16]. hex_value (of_char (hexdigit n)) = Some n" by code_simp
  then show "n < 16 \<Longrightarrow> hex_value (of_char (hexdigit n)) = Some n" by simp
qed

lemma read_hex4: 
  assumes "n < 256"
  shows "read_hex4 (code_points (hex4 n) @ r) = Some (n, r)"
proof -
  have "n div 256 = 0" "n div 4096 = 0" using assms by simp_all
  then show ?thesis using assms by (simp add: read_hex4_def hex4_def hex_value_digit)
qed

lemma scan_json_char: "scan_char (code_points (json_char c) @ r) = Some (of_char c, r)"
proof -
  have "\<not> 55296 \<le> (of_char c :: nat)" using nat_of_char_less_256 [of c] by linarith
  then show ?thesis using read_hex4 [OF nat_of_char_less_256, of c r]
    by (auto simp: scan_char_def json_char_def Let_def escape_value_def)
qed

lemma json_char_first: "\<exists>d t. code_points (json_char c) = d # t \<and> d \<noteq> 34"
  by (auto simp: json_char_def Let_def)

lemma scan_json_string:
  "length s < n \<Longrightarrow> scan_string n (code_points (concat (map json_char s)) @ 34 # r) = Some (code_points s, r)"
proof (induction s arbitrary: n)
  case Nil
  then show ?case by (cases n) simp_all
next
  case (Cons c s)
  then obtain k where n: "n = Suc k" "length s < k" by (cases n) auto
  let ?rest = "code_points (concat (map json_char s)) @ 34 # r"
  obtain d t where d: "code_points (json_char c) = d # t" "d \<noteq> 34" using json_char_first by blast
  have "scan_char (d # t @ ?rest) = Some (of_char c, ?rest)" using scan_json_char [of c ?rest] by (simp add: d)
  then show ?case using Cons.IH [OF n(2)] by (simp add: n d)
qed

lemma json_char_length: "1 \<le> length (json_char c)"
  by (simp add: json_char_def Let_def)

lemma json_string_length: "length s \<le> length (concat (map json_char s))"
proof (induction s)
  case (Cons c s)
  then show ?case using json_char_length [of c] by simp
qed simp

lemma scan_quoted:
  "scan_string (length (code_points (concat (map json_char s)) @ 34 # r)) (code_points (concat (map json_char s)) @ 34 # r) = Some (code_points s, r)"
  using json_string_length [of s] by (intro scan_json_string) simp

subsubsection \<open>Numbers\<close>

lemma digit_char_point: "n < 10 \<Longrightarrow> (of_char (digit_char n) :: nat) = 48 + n"
proof -
  have "\<forall>n \<in> set [0..<10]. (of_char (digit_char n) :: nat) = 48 + n" by code_simp
  then show "n < 10 \<Longrightarrow> (of_char (digit_char n) :: nat) = 48 + n" by simp
qed

lemma nat_text_digits: "list_all is_digit (code_points (nat_text n)) \<and> nat_text n \<noteq> []"
proof (induction n rule: nat_text.induct)
  case (1 n)
  then show ?case by (cases "n < 10") (simp_all add: nat_text.simps [of n] digit_char_point is_digit_def)
qed

lemma nat_text_value: "digits_value (code_points (nat_text n)) = int n"
proof (induction n rule: nat_text.induct)
  case (1 n)
  then show ?case
    by (cases "n < 10") (simp_all add: nat_text.simps [of n] digits_value_def digit_char_point zmod_int zdiv_int)
qed

lemma nat_text_no_leading_zero: "0 < n \<Longrightarrow> hd (code_points (nat_text n)) \<noteq> 48"
proof (induction n rule: nat_text.induct)
  case (1 n)
  show ?case
  proof (cases "n < 10")
    case False
    then have "0 < n div 10" by simp
    moreover have "code_points (nat_text (n div 10)) \<noteq> []" using nat_text_digits [of "n div 10"] by simp
    ultimately show ?thesis using 1 False by (simp add: nat_text.simps [of n])
  qed (use 1 in \<open>simp add: nat_text.simps [of n] digit_char_point\<close>)
qed

definition follows_number :: "nat list \<Rightarrow> bool" where
  "follows_number r = (case r of [] \<Rightarrow> True | c # _ \<Rightarrow> \<not> is_digit c \<and> c \<noteq> 46 \<and> c \<noteq> 101 \<and> c \<noteq> 69)"

lemma int_digits_nat_text:
  assumes "follows_number r"
  shows "int_digits (code_points (nat_text n) @ r) = code_points (nat_text n)"
proof (cases "n = 0")
  case True
  then show ?thesis by (simp add: int_digits_def nat_text.simps digit_char_point)
next
  case False
  have a: "list_all is_digit (code_points (nat_text n))" "nat_text n \<noteq> []" using nat_text_digits by blast+
  have "takeWhile is_digit r = []" using assms by (cases r) (simp_all add: follows_number_def)
  then have "takeWhile is_digit (code_points (nat_text n) @ r) = code_points (nat_text n)"
    using a(1) by (simp add: takeWhile_append2 list_all_iff)
  then show ?thesis using a(2) nat_text_no_leading_zero [of n] False
    by (cases "code_points (nat_text n)") (simp_all add: int_digits_def)
qed

lemma scan_int_text:
  assumes "follows_number r" and "length (nat_text (nat \<bar>i\<bar>)) \<le> 4300"
  shows "scan_number (code_points (int_text i) @ r) = Some (LInt i, r)"
proof -
  let ?ds = "code_points (nat_text (nat \<bar>i\<bar>))"
  have ds: "int_digits (?ds @ r) = ?ds" by (rule int_digits_nat_text [OF assms(1)])
  have ne: "?ds \<noteq> []" using nat_text_digits by simp
  have "hd ?ds \<noteq> 45" using nat_text_digits [of "nat \<bar>i\<bar>"] by (cases ?ds) (auto simp: is_digit_def)
  then have first: "take 1 (?ds @ r) \<noteq> [45]" using ne by (cases ?ds) simp_all
  have f: "take 1 r \<noteq> [46]" "r = [] \<or> (\<exists>c t. r = c # t \<and> c \<noteq> 101 \<and> c \<noteq> 69)"
    using assms(1) by (cases r; simp add: follows_number_def)+
  show ?thesis
  proof (cases "i < 0")
    case True
    then have "int_text i = CHR ''-'' # nat_text (nat \<bar>i\<bar>)" by (simp add: int_text_def)
    then show ?thesis using ds ne assms(2) f nat_text_value [of "nat \<bar>i\<bar>"] True
      by (auto simp: scan_number_def Let_def split: list.splits)
  next
    case False
    then have t: "int_text i = nat_text (nat \<bar>i\<bar>)" by (simp add: int_text_def)
    show ?thesis unfolding t using ds ne first assms(2) f nat_text_value [of "nat \<bar>i\<bar>"] False
      by (auto simp: scan_number_def Let_def split: list.splits)
  qed
qed

subsubsection \<open>Values\<close>

fun loaded_of :: "jval \<Rightarrow> loaded" where
  "loaded_of JNull = LNull"
| "loaded_of (JBool b) = LBool b"
| "loaded_of (JInt i) = LInt i"
| "loaded_of (JStr s) = LStr (code_points s)"
| "loaded_of (JTime t) = LStr (code_points (iso_text CHR '' '' t))"
| "loaded_of (JList vs) = LList (map loaded_of vs)"
| "loaded_of (JObj kvs) = LObj (map (\<lambda>(k, v). (code_points k, v)) (sort_key fst (map (\<lambda>(k, v). (k, loaded_of v)) kvs)))"

fun json_ok :: "jval \<Rightarrow> bool" where
  "json_ok (JInt i) = (length (nat_text (nat \<bar>i\<bar>)) \<le> 4300)"
| "json_ok (JList vs) = list_all json_ok vs"
| "json_ok (JObj kvs) = (distinct (map fst kvs) \<and> list_all (\<lambda>(k, v). json_ok v) kvs)"
| "json_ok _ = True"

definition pair_text :: "string \<times> jval \<Rightarrow> string" where
  "pair_text kv = json_string (fst kv) @ '':'' @ json_dumps (snd kv)"

lemma insort_key_snd:
  "insort_key fst (k, f v) (map (\<lambda>(k, v). (k, f v)) xs) = map (\<lambda>(k, v). (k, f v)) (insort_key fst (k, v) xs)"
  by (induction xs) auto

lemma sort_key_snd: "sort_key fst (map (\<lambda>(k, v). (k, f v)) xs) = map (\<lambda>(k, v). (k, f v)) (sort_key fst xs)"
  by (induction xs) (auto simp: insort_key_snd)

lemma json_dumps_obj: "json_dumps (JObj kvs) = ''{'' @ comma_separated (map pair_text (sort_key fst kvs)) @ ''}''"
  unfolding json_dumps.simps sort_key_snd by (simp add: comp_def case_prod_unfold pair_text_def [abs_def])

lemma loaded_of_obj: "loaded_of (JObj kvs) = LObj (map (\<lambda>(k, v). (code_points k, loaded_of v)) (sort_key fst kvs))"
  unfolding loaded_of.simps sort_key_snd by (simp add: comp_def case_prod_unfold)

definition solid :: "nat list \<Rightarrow> bool" where
  "solid s = (case s of [] \<Rightarrow> False | c # _ \<Rightarrow> c \<notin> {32, 9, 10, 13, 93, 125})"

lemma solid_append: "solid s \<Longrightarrow> solid (s @ t)"
  by (cases s) (simp_all add: solid_def)

lemma solid_skip: "solid s \<Longrightarrow> skip_space (s @ t) = s @ t"
  by (cases s) (simp_all add: solid_def skip_space_def)

lemma solid_json_string: "solid (code_points (json_string s))"
  by (simp add: solid_def json_string_def)

lemma solid_int_text: "solid (code_points (int_text i))"
proof -
  have "solid (code_points (nat_text n))" for n
    using nat_text_digits [of n] by (cases "nat_text n") (auto simp: solid_def is_digit_def)
  then show ?thesis by (simp add: int_text_def) (simp add: solid_def)
qed

lemma solid_dumps: "solid (code_points (json_dumps v))"
  by (cases v) (simp_all add: solid_json_string solid_int_text del: json_dumps.simps(7) add: json_dumps_obj, simp_all add: solid_def)

lemma solid_pair: "solid (code_points (pair_text kv))"
  by (simp add: pair_text_def solid_append solid_json_string)

lemma comma_separated_Cons: "xs \<noteq> [] \<Longrightarrow> comma_separated (x # xs) = x @ '','' @ comma_separated xs"
  by (cases xs) simp_all

lemma solid_separated: "xs \<noteq> [] \<Longrightarrow> \<forall>x \<in> set xs. solid (code_points x) \<Longrightarrow> solid (code_points (comma_separated xs))"
  by (cases xs; cases "tl xs") (simp_all add: solid_append)

lemma follows_simps [simp]:
  "follows_number []" "follows_number (93 # r)" "follows_number (44 # r)" "follows_number (125 # r)"
  by (simp_all add: follows_number_def is_digit_def)

definition scans :: "jval \<Rightarrow> bool" where
  "scans v \<longleftrightarrow> (\<forall>n r. 2 * length (json_dumps v) \<le> n \<longrightarrow> follows_number r \<longrightarrow>
     scan_value n (code_points (json_dumps v) @ r) = Some (loaded_of v, r))"

lemma scansD:
  "scans v \<Longrightarrow> 2 * length (json_dumps v) \<le> n \<Longrightarrow> follows_number r
     \<Longrightarrow> scan_value n (code_points (json_dumps v) @ r) = Some (loaded_of v, r)"
  by (simp add: scans_def)

lemma skip_space_simps [simp]:
  "skip_space (93 # r) = 93 # r" "skip_space (44 # r) = 44 # r" "skip_space (125 # r) = 125 # r" "skip_space (58 # r) = 58 # r"
  "skip_space [] = []"
  by (simp_all add: skip_space_def)

lemma solid_length: "solid (code_points s) \<Longrightarrow> 1 \<le> length s"
  by (cases s) (simp_all add: solid_def)

lemma scan_elements_dumps:
  assumes "vs \<noteq> []" and "\<forall>v \<in> set vs. scans v" and "2 * length (comma_separated (map json_dumps vs)) + 2 \<le> n"
  shows "scan_elements n acc (code_points (comma_separated (map json_dumps vs)) @ 93 # r) = Some (LList (acc @ map loaded_of vs), r)"
  using assms
proof (induction vs arbitrary: n acc)
  case (Cons v vs)
  obtain m where n: "n = Suc m" using Cons.prems(3) by (cases n) auto
  show ?case
  proof (cases "vs = []")
    case True
    then show ?thesis using scansD [of v m "93 # r"] Cons.prems(2,3) by (simp add: n)
  next
    case False
    let ?rest = "comma_separated (map json_dumps vs)"
    have t: "comma_separated (map json_dumps (v # vs)) = json_dumps v @ '','' @ ?rest"
      using False by (simp add: comma_separated_Cons)
    have l: "1 \<le> length (json_dumps v)" using solid_length [OF solid_dumps] .
    have "scan_value m (code_points (json_dumps v) @ 44 # code_points ?rest @ 93 # r) = Some (loaded_of v, 44 # code_points ?rest @ 93 # r)"
      using Cons.prems(2,3) by (intro scansD) (simp_all add: t n del: comma_separated.simps list.map)
    moreover have "solid (code_points ?rest)" using False by (intro solid_separated) (auto simp: solid_dumps)
    then have "skip_space (code_points ?rest @ 93 # r) = code_points ?rest @ 93 # r" by (rule solid_skip)
    moreover have "scan_elements m (acc @ [loaded_of v]) (code_points ?rest @ 93 # r) = Some (LList ((acc @ [loaded_of v]) @ map loaded_of vs), r)"
      using Cons.prems(2,3) False l by (intro Cons.IH) (simp_all add: t n del: comma_separated.simps list.map)
    ultimately show ?thesis unfolding t by (simp add: n)
  qed
qed simp

lemma scan_members_dumps:
  assumes "kvs \<noteq> []" and "\<forall>kv \<in> set kvs. scans (snd kv)" and "2 * length (comma_separated (map pair_text kvs)) + 2 \<le> n"
    and "distinct (map fst kvs)" and "\<forall>kv \<in> set kvs. code_points (fst kv) \<notin> set (map fst acc)"
  shows "scan_members n acc (code_points (comma_separated (map pair_text kvs)) @ 125 # r)
       = Some (LObj (acc @ map (\<lambda>(k, v). (code_points k, loaded_of v)) kvs), r)"
  using assms
proof (induction kvs arbitrary: n acc)
  case (Cons kv kvs)
  obtain k v where kv: "kv = (k, v)" by fastforce
  obtain m where n: "n = Suc m" using Cons.prems(3) by (cases n) auto
  define q where "q = code_points (concat (map json_char k))"
  have p: "code_points (pair_text kv) = 34 # q @ 34 # 58 # code_points (json_dumps v)"
    by (simp add: pair_text_def kv json_string_def q_def)
  have s: "scan_string (length (q @ 34 # t)) (q @ 34 # t) = Some (code_points k, t)" for t
    unfolding q_def by (rule scan_quoted)
  have vs: "skip_space (code_points (json_dumps v) @ t) = code_points (json_dumps v) @ t" for t
    by (rule solid_skip [OF solid_dumps])
  have upd: "AList.update (code_points k) (loaded_of v) acc = acc @ [(code_points k, loaded_of v)]"
    using Cons.prems(5) by (simp add: kv keys_update_fresh)
  have lp: "length (pair_text kv) = length q + 3 + length (json_dumps v)"
    using arg_cong [OF p, of length] by simp
  show ?case
  proof (cases "kvs = []")
    case True
    have "scan_value m (code_points (json_dumps v) @ 125 # r) = Some (loaded_of v, 125 # r)"
      using Cons.prems(2,3) True lp by (intro scansD) (simp_all add: n kv)
    then show ?thesis using s vs upd by (simp add: n True p [unfolded kv] kv del: length_append list.size)
  next
    case False
    let ?rest = "comma_separated (map pair_text kvs)"
    have t: "comma_separated (map pair_text (kv # kvs)) = pair_text kv @ '','' @ ?rest"
      using False by (simp add: comma_separated_Cons)
    have f: "2 * (length q + 4 + length (json_dumps v) + length ?rest) + 1 \<le> m"
      using Cons.prems(3) lp unfolding t n by simp
    have "scan_value m (code_points (json_dumps v) @ 44 # code_points ?rest @ 125 # r) = Some (loaded_of v, 44 # code_points ?rest @ 125 # r)"
      using Cons.prems(2) f by (intro scansD) (simp_all add: kv)
    moreover have "solid (code_points ?rest)" using False by (intro solid_separated) (auto simp: solid_pair)
    then have "skip_space (code_points ?rest @ 125 # r) = code_points ?rest @ 125 # r" by (rule solid_skip)
    moreover have "scan_members m (acc @ [(code_points k, loaded_of v)]) (code_points ?rest @ 125 # r)
        = Some (LObj ((acc @ [(code_points k, loaded_of v)]) @ map (\<lambda>(k, v). (code_points k, loaded_of v)) kvs), r)"
      using Cons.prems(2,4,5) False f by (intro Cons.IH) (auto simp: kv image_iff)
    ultimately show ?thesis using s vs upd unfolding t by (simp add: n p [unfolded kv] kv del: length_append list.size)
  qed
qed simp

lemma scan_literal_int:
  assumes "follows_number r" and "length (nat_text (nat \<bar>i\<bar>)) \<le> 4300"
  shows "scan_literal (code_points (int_text i) @ r) = Some (LInt i, r)"
proof -
  have d: "\<exists>c t. code_points (nat_text n) = c # t \<and> 48 \<le> c \<and> c \<le> 57" for n
    using nat_text_digits [of n] by (cases "code_points (nat_text n)") (auto simp: is_digit_def)
  obtain c t where c: "code_points (int_text i) = c # t" "(48 \<le> c \<and> c \<le> 57) \<or> (c = 45 \<and> (\<exists>d u. t = d # u \<and> 48 \<le> d \<and> d \<le> 57))"
    using d [of "nat i"] d [of "nat (- i)"] by (cases "i < 0") (auto simp: int_text_def)
  then have "\<not> has_prefix p (code_points (int_text i) @ r)"
    if "p \<in> {''null'', ''true'', ''false'', ''NaN'', ''Infinity'', ''-Infinity''}" for p
    using that by (auto simp: has_prefix_def)
  then show ?thesis using scan_int_text [OF assms] by (simp add: scan_literal_def)
qed

lemma scans_all: "json_ok v \<Longrightarrow> scans v"
proof (induction v)
  case JNull
  show ?case unfolding scans_def by (intro allI impI, case_tac n) (simp_all add: scan_literal_def has_prefix_def)
next
  case (JBool b)
  show ?case unfolding scans_def
    by (cases b; intro allI impI; case_tac n) (simp_all add: scan_literal_def has_prefix_def)
next
  case (JInt i)
  have "\<exists>c t. code_points (int_text i) = c # t \<and> c \<noteq> 34 \<and> c \<noteq> 123 \<and> c \<noteq> 91"
  proof -
    have "\<exists>c t. code_points (nat_text n) = c # t \<and> 48 \<le> c \<and> c \<le> 57" for n
      using nat_text_digits [of n] by (cases "code_points (nat_text n)") (auto simp: is_digit_def)
    from this [of "nat i"] this [of "nat (- i)"] show ?thesis by (cases "i < 0") (auto simp: int_text_def)
  qed
  then obtain c t where c: "code_points (int_text i) = c # t" "c \<noteq> 34" "c \<noteq> 123" "c \<noteq> 91" by blast
  show ?case unfolding scans_def
  proof (intro allI impI)
    fix n r assume a: "2 * length (json_dumps (JInt i)) \<le> n" "follows_number r"
    then obtain m where n: "n = Suc m" using arg_cong [OF c(1), of length] by (cases n) auto
    have "scan_literal (c # t @ r) = Some (LInt i, r)" using scan_literal_int [OF a(2), of i] JInt c(1) by simp
    then show "scan_value n (code_points (json_dumps (JInt i)) @ r) = Some (loaded_of (JInt i), r)" using c by (simp add: n)
  qed
next
  case (JStr s)
  show ?case unfolding scans_def
    by (intro allI impI, case_tac n) (simp_all add: json_string_def scan_quoted [simplified])
next
  case (JTime t)
  show ?case unfolding scans_def
    by (intro allI impI, case_tac n) (simp_all add: json_string_def scan_quoted [simplified])
next
  case (JList vs)
  then have vs: "\<forall>v \<in> set vs. scans v" by (simp add: list_all_iff)
  show ?case unfolding scans_def
  proof (intro allI impI)
    fix n r assume a: "2 * length (json_dumps (JList vs)) \<le> n"
    then obtain m where n: "n = Suc m" by (cases n) auto
    show "scan_value n (code_points (json_dumps (JList vs)) @ r) = Some (loaded_of (JList vs), r)"
    proof (cases "vs = []")
      case False
      let ?t = "comma_separated (map json_dumps vs)"
      have s: "solid (code_points ?t)" using False by (intro solid_separated) (auto simp: solid_dumps)
      have "scan_elements m [] (code_points ?t @ 93 # r) = Some (LList ([] @ map loaded_of vs), r)"
        using a by (intro scan_elements_dumps [OF False vs]) (simp add: n)
      moreover have "take 1 (code_points ?t @ 93 # r) \<noteq> [93]" using s by (cases "code_points ?t") (simp_all add: solid_def)
      ultimately show ?thesis using solid_skip [OF s] by (simp add: n)
    qed (simp add: n)
  qed
next
  case (JObj kvs)
  let ?s = "sort_key fst kvs"
  have vs: "\<forall>kv \<in> set ?s. scans (snd kv)" using JObj by (auto simp: list_all_iff)
  have ds: "distinct (map fst ?s)" using JObj.prems distinct_map [of fst kvs] distinct_map [of fst ?s] by simp
  show ?case unfolding scans_def json_dumps_obj loaded_of_obj
  proof (intro allI impI)
    fix n r assume a: "2 * length (''{'' @ comma_separated (map pair_text ?s) @ ''}'') \<le> n"
    then obtain m where n: "n = Suc m" by (cases n) auto
    show "scan_value n (code_points (''{'' @ comma_separated (map pair_text ?s) @ ''}'') @ r)
        = Some (LObj (map (\<lambda>(k, v). (code_points k, loaded_of v)) ?s), r)"
    proof (cases "?s = []")
      case True
      then show ?thesis by (simp add: n)
    next
      case False
      let ?t = "comma_separated (map pair_text ?s)"
      have s: "solid (code_points ?t)" using False by (intro solid_separated) (auto simp: solid_pair)
      have "scan_members m [] (code_points ?t @ 125 # r) = Some (LObj ([] @ map (\<lambda>(k, v). (code_points k, loaded_of v)) ?s), r)"
        using a ds by (intro scan_members_dumps [OF False vs]) (simp_all add: n)
      moreover have "take 1 (code_points ?t @ 125 # r) \<noteq> [125]" using s by (cases "code_points ?t") (simp_all add: solid_def)
      ultimately show ?thesis using solid_skip [OF s] by (simp add: n)
    qed
  qed
qed

lemma json_roundtrip:
  assumes "json_ok v"
  shows "json_loads (code_points (json_dumps v)) = Some (loaded_of v)"
proof -
  have "scan_value (2 * length (json_dumps v) + 1) (code_points (json_dumps v) @ []) = Some (loaded_of v, [])"
    using scans_all [OF assms] by (intro scansD) simp_all
  moreover have "skip_space (code_points (json_dumps v)) = code_points (json_dumps v)"
    using solid_skip [OF solid_dumps, of v "[]"] by simp
  ultimately show ?thesis by (simp add: json_loads_def)
qed

lemma json_dumps_inj: "json_ok v \<Longrightarrow> json_ok w \<Longrightarrow> json_dumps v = json_dumps w \<Longrightarrow> loaded_of v = loaded_of w"
  using json_roundtrip [of v] json_roundtrip [of w] by simp

lemma ascii_json_string: "ascii (json_string s)"
proof -
  have h: "ascii (hex4 n)" for n
  proof -
    have "\<forall>n \<in> set [0..<16]. (of_char (hexdigit n) :: nat) < 128" by code_simp
    then show ?thesis by (simp add: hex4_def)
  qed
  have "ascii (json_char c)" for c using h [of "of_char c"] by (simp add: json_char_def Let_def)
  then have "ascii (concat (map json_char s))" by (induction s) simp_all
  then show ?thesis by (simp add: json_string_def)
qed

lemma ascii_int_text: "ascii (int_text i)"
proof -
  have "ascii (nat_text n)" for n
  proof (induction n rule: nat_text.induct)
    case (1 n)
    then show ?case by (cases "n < 10") (simp_all add: nat_text.simps [of n] digit_char_point)
  qed
  then show ?thesis by (simp add: int_text_def)
qed

lemma ascii_separated: "\<forall>x \<in> set xs. ascii x \<Longrightarrow> ascii (comma_separated xs)"
  by (induction xs rule: comma_separated.induct) simp_all

lemma ascii_dumps: "ascii (json_dumps v)"
proof (induction v)
  case (JObj kvs)
  then have "\<forall>x \<in> set (map pair_text (sort_key fst kvs)). ascii x" by (auto simp: pair_text_def ascii_json_string)
  then show ?case unfolding json_dumps_obj using ascii_separated [of "map pair_text (sort_key fst kvs)"] by simp
qed (auto simp: ascii_json_string ascii_int_text intro!: ascii_separated)

end
