(* ===== verification/Tool_Confirmation.thy ===== *)
theory Tool_Confirmation
  imports Py_Json_Roundtrip Models "HOL-Library.Multiset"
begin

text \<open>
  The confirmation tokens of \<^verbatim>\<open>src/trpc_service/tool/confirmation.py\<close>: a JSON payload with the scope of one tool call,
  signed with HMAC-SHA256, and a ledger that lets each token through once. The ledger is a protocol of the source, so
  the service takes its \<^verbatim>\<open>issue\<close> or \<^verbatim>\<open>consume\<close> as an argument; the in-memory ledger is here, the one on PostgreSQL in
  \<open>Pg_Tools\<close>. A token identifier is the list of its code points, because the service reads it out of a JSON text.
  Integers have at most 4300 digits, the limit of the interpreter for their conversion to text.
\<close>

record confirmation_scope =
  cs_tenant_id :: string
  cs_principal_id :: string
  cs_session_id :: string
  cs_tool_name :: string
  cs_arguments_hash :: string

text \<open>\<^verbatim>\<open>asdict(scope)\<close>.\<close>

definition scope_fields :: "confirmation_scope \<Rightarrow> (string \<times> string) list" where
  "scope_fields sc =
     [(''tenant_id'', cs_tenant_id sc), (''principal_id'', cs_principal_id sc), (''session_id'', cs_session_id sc),
      (''tool_name'', cs_tool_name sc), (''arguments_hash'', cs_arguments_hash sc)]"

text \<open>\<^verbatim>\<open>int(time.time())\<close>.\<close>

definition whole_seconds :: "time \<Rightarrow> int" where
  "whole_seconds now = now div 1000000"

type_synonym token_id = "nat list"

subsection \<open>The in-memory ledger\<close>

type_synonym memory_tokens = "token_id \<Rightarrow> (int \<times> bool) option"

definition memory_issue :: "token_id \<Rightarrow> int \<Rightarrow> confirmation_scope \<Rightarrow> memory_tokens \<Rightarrow> (unit, memory_tokens) outcome" where
  "memory_issue token expires_at sc tokens = return_in (tokens(token \<mapsto> (expires_at, False))) ()"

definition memory_consume :: "time \<Rightarrow> token_id \<Rightarrow> confirmation_scope \<Rightarrow> memory_tokens \<Rightarrow> (bool, memory_tokens) outcome" where
  "memory_consume now token sc tokens =
     (case tokens token of
        None \<Rightarrow> return_in tokens False
      | Some (expires_at, consumed) \<Rightarrow>
          if consumed \<or> expires_at < whole_seconds now then return_in tokens False
          else return_in (tokens(token \<mapsto> (expires_at, True))) True)"

subsection \<open>The token service\<close>

definition arguments_hash :: "json \<Rightarrow> string" where
  "arguments_hash arguments = hexdigest (sha256 (utf8_encode (json_dumps (JObj arguments))))"

definition encode_part :: "bytes \<Rightarrow> string" where
  "encode_part value = base64_encode value"

definition decode_part :: "string \<Rightarrow> error + bytes" where
  "decode_part value =
     (if value = [] \<or> \<not> set value \<subseteq> set base64_alphabet then Inl (ValueError ''invalid base64'')
      else (case base64_decode value of
              None \<Rightarrow> Inl (ValueError ''Invalid base64-encoded string'')
            | Some bs \<Rightarrow> Inr bs))"

text \<open>The service: its signing key and the lifetime of a token in seconds.\<close>

record confirmation_service =
  sv_key :: bytes
  sv_ttl_seconds :: int

definition init_confirmation_service :: "bytes \<Rightarrow> int \<Rightarrow> error + confirmation_service" where
  "init_confirmation_service key ttl_seconds =
     (if length key < 32 then Inl (ValueError ''confirmation signing key must contain at least 32 bytes'')
      else Inr \<lparr>sv_key = key, sv_ttl_seconds = ttl_seconds\<rparr>)"

definition token_payload :: "string \<Rightarrow> int \<Rightarrow> confirmation_scope \<Rightarrow> jval" where
  "token_payload jti expires sc =
     JObj ([(''v'', JInt 1), (''jti'', JStr jti), (''exp'', JInt expires)] @ map (\<lambda>(k, v). (k, JStr v)) (scope_fields sc))"

definition signature_of :: "confirmation_service \<Rightarrow> string \<Rightarrow> string" where
  "signature_of sv encoded = encode_part (hmac_sha256 (sv_key sv) (utf8_encode encoded))"

definition token_text :: "confirmation_service \<Rightarrow> string \<Rightarrow> int \<Rightarrow> confirmation_scope \<Rightarrow> string" where
  "token_text sv jti expires sc =
     (let encoded = encode_part (utf8_encode (json_dumps (token_payload jti expires sc)))
      in encoded @ ''.'' @ signature_of sv encoded)"

definition issue_token ::
    "confirmation_service \<Rightarrow> (token_id \<Rightarrow> int \<Rightarrow> confirmation_scope \<Rightarrow> 'l \<Rightarrow> (unit, 'l) outcome)
       \<Rightarrow> string \<Rightarrow> time \<Rightarrow> confirmation_scope \<Rightarrow> 'l \<Rightarrow> (string, 'l) outcome"
where
  "issue_token sv ledger_issue jti now sc l =
     (let expires = whole_seconds now + sv_ttl_seconds sv
      in case ledger_issue (code_points jti) expires sc l of
           (Inl e, l') \<Rightarrow> raise_in l' e
         | (Inr _, l') \<Rightarrow> return_in l' (token_text sv jti expires sc))"

definition invalid_token :: error where
  "invalid_token = ConfirmationError ''confirmation token is invalid''"

text \<open>The first \<^verbatim>\<open>try\<close> block: every exception it catches becomes the same \<^verbatim>\<open>ConfirmationError\<close>. Comparing the digests raises
  a \<^verbatim>\<open>TypeError\<close> when the supplied one is not ASCII; a digest that is not ASCII is also different.\<close>

definition read_token :: "confirmation_service \<Rightarrow> string \<Rightarrow> (token_id \<times> loaded) list option" where
  "read_token sv token =
     (let encoded = takeWhile (\<lambda>c. c \<noteq> CHR ''.'') token;
          supplied = drop (Suc (length encoded)) token
      in if 16384 < length token then None
         else if CHR ''.'' \<notin> set token then None
         else if encoded = [] \<or> supplied = [] \<or> CHR ''.'' \<in> set supplied then None
         else if signature_of sv encoded \<noteq> supplied then None
         else (case decode_part encoded of
                 Inl _ \<Rightarrow> None
               | Inr bs \<Rightarrow>
                   (case utf8_decode bs of
                      None \<Rightarrow> None
                    | Some text \<Rightarrow>
                        (case json_loads text of Some (LObj payload) \<Rightarrow> Some payload | _ \<Rightarrow> None))))"

definition payload_get :: "(token_id \<times> loaded) list \<Rightarrow> string \<Rightarrow> loaded option" where
  "payload_get payload k = map_of payload (code_points k)"

definition scope_matches :: "(token_id \<times> loaded) list \<Rightarrow> confirmation_scope \<Rightarrow> bool" where
  "scope_matches payload sc =
     list_all (\<lambda>(k, v). payload_get payload k = Some (LStr (code_points v))) (scope_fields sc)"

text \<open>The exceptions of the ledger that the second \<^verbatim>\<open>try\<close> block turns into a \<^verbatim>\<open>ConfirmationError\<close>.\<close>

definition confirmation_catch :: "error \<Rightarrow> error" where
  "confirmation_catch e = (case e of TypeError _ \<Rightarrow> invalid_token | ValueError _ \<Rightarrow> invalid_token | _ \<Rightarrow> e)"

definition consume_token ::
    "confirmation_service \<Rightarrow> (token_id \<Rightarrow> confirmation_scope \<Rightarrow> 'l \<Rightarrow> (bool, 'l) outcome)
       \<Rightarrow> time \<Rightarrow> string \<Rightarrow> confirmation_scope \<Rightarrow> 'l \<Rightarrow> (unit, 'l) outcome"
where
  "consume_token sv ledger_consume now token expected l =
     (case read_token sv token of
        None \<Rightarrow> raise_in l invalid_token
      | Some payload \<Rightarrow>
          (case payload_get payload ''exp'' of
             Some (LInt expires) \<Rightarrow>
               if expires < whole_seconds now then raise_in l (ConfirmationError ''confirmation token expired'')
               else if \<not> scope_matches payload expected
               then raise_in l (ConfirmationError ''confirmation token scope mismatch'')
               else (case payload_get payload ''jti'' of
                       Some (LStr jti) \<Rightarrow>
                         if jti = [] then raise_in l invalid_token
                         else (case ledger_consume jti expected l of
                                 (Inl e, l') \<Rightarrow> raise_in l' (confirmation_catch e)
                               | (Inr True, l') \<Rightarrow> return_in l' ()
                               | (Inr False, l') \<Rightarrow> raise_in l' (ConfirmationError ''confirmation token was already used''))
                     | _ \<Rightarrow> raise_in l invalid_token)
           | _ \<Rightarrow> raise_in l invalid_token))"

subsection \<open>Histories of the service\<close>

text \<open>
  A call of \<^verbatim>\<open>issue\<close> with the identifier \<^verbatim>\<open>uuid4\<close> gives it, or of \<^verbatim>\<open>consume\<close> with the times the service and the ledger read.
  \<open>accepted\<close> counts how often a history lets a token through; \<open>fresh_ids\<close> says that \<^verbatim>\<open>uuid4\<close> never gives an
  identifier the ledger knows.
\<close>

datatype confirmation_call =
    IssueCall string time confirmation_scope
  | ConsumeCall time time string confirmation_scope

fun confirmation_step ::
    "confirmation_service \<Rightarrow> (token_id \<Rightarrow> int \<Rightarrow> confirmation_scope \<Rightarrow> 'l \<Rightarrow> (unit, 'l) outcome)
       \<Rightarrow> (time \<Rightarrow> token_id \<Rightarrow> confirmation_scope \<Rightarrow> 'l \<Rightarrow> (bool, 'l) outcome) \<Rightarrow> confirmation_call \<Rightarrow> 'l \<Rightarrow> 'l"
where
  "confirmation_step sv issue consume (IssueCall jti now sc) l = snd (issue_token sv issue jti now sc l)"
| "confirmation_step sv issue consume (ConsumeCall now now' token sc) l =
     snd (consume_token sv (consume now') now token sc l)"

fun lets_through ::
    "confirmation_service \<Rightarrow> (time \<Rightarrow> token_id \<Rightarrow> confirmation_scope \<Rightarrow> 'l \<Rightarrow> (bool, 'l) outcome)
       \<Rightarrow> string \<Rightarrow> confirmation_call \<Rightarrow> 'l \<Rightarrow> bool"
where
  "lets_through sv consume token (ConsumeCall now now' token' sc) l =
     (token' = token \<and> fst (consume_token sv (consume now') now token sc l) = Inr ())"
| "lets_through sv consume token _ l = False"

fun accepted ::
    "confirmation_service \<Rightarrow> (token_id \<Rightarrow> int \<Rightarrow> confirmation_scope \<Rightarrow> 'l \<Rightarrow> (unit, 'l) outcome)
       \<Rightarrow> (time \<Rightarrow> token_id \<Rightarrow> confirmation_scope \<Rightarrow> 'l \<Rightarrow> (bool, 'l) outcome) \<Rightarrow> string
       \<Rightarrow> confirmation_call list \<Rightarrow> 'l \<Rightarrow> nat"
where
  "accepted sv issue consume token [] l = 0"
| "accepted sv issue consume token (c # cs) l =
     (if lets_through sv consume token c l then 1 else 0)
     + accepted sv issue consume token cs (confirmation_step sv issue consume c l)"

fun fresh_ids ::
    "confirmation_service \<Rightarrow> (token_id \<Rightarrow> int \<Rightarrow> confirmation_scope \<Rightarrow> 'l \<Rightarrow> (unit, 'l) outcome)
       \<Rightarrow> (time \<Rightarrow> token_id \<Rightarrow> confirmation_scope \<Rightarrow> 'l \<Rightarrow> (bool, 'l) outcome) \<Rightarrow> ('l \<Rightarrow> token_id \<Rightarrow> bool)
       \<Rightarrow> confirmation_call list \<Rightarrow> 'l \<Rightarrow> bool"
where
  "fresh_ids sv issue consume known [] l = True"
| "fresh_ids sv issue consume known (c # cs) l =
     ((case c of IssueCall jti now sc \<Rightarrow> \<not> known l (code_points jti) | _ \<Rightarrow> True)
      \<and> fresh_ids sv issue consume known cs (confirmation_step sv issue consume c l))"

definition memory_known :: "memory_tokens \<Rightarrow> token_id \<Rightarrow> bool" where
  "memory_known tokens t = (tokens t \<noteq> None)"

definition memory_spent :: "memory_tokens \<Rightarrow> token_id \<Rightarrow> string \<Rightarrow> bool" where
  "memory_spent tokens t tenant = (\<exists>e. tokens t = Some (e, True))"

subsection \<open>Reading back what was signed\<close>

lemma sha256_rounds_length: "length (sha256_rounds kws st) = length st"
  by (induction kws st rule: sha256_rounds.induct) (simp_all add: Let_def)

lemma sha256_fold_length: "length (fold sha256_block bs st) = length st"
  by (induction bs arbitrary: st) (simp_all add: sha256_block_def Let_def sha256_rounds_length)

lemma sha256_h_length: "length sha256_h = 8"
proof -
  let ?p = "\<lambda>n. list_all (\<lambda>d. n mod d \<noteq> 0) [2..<n]"
  have split: "[2..<312] = [2..<20] @ [20..<312 :: nat]" using upt_add_eq_append [of 2 20 292] by (simp del: upt_rec_numeral)
  have "length (filter ?p [2..<20]) = 8" by simp
  moreover have "length xs = 8 \<Longrightarrow> length (take 8 (xs @ ys)) = 8" for xs ys :: "nat list" by simp
  ultimately show ?thesis unfolding sha256_h_def small_primes_def split filter_append length_map by blast
qed

lemma sha256_length: "length (sha256 m) = 32"
proof -
  have "length (concat (map bytes_of_word32 ws)) = 4 * length ws" for ws :: "word32 list"
    by (induction ws) (simp_all add: bytes_of_word32_def)
  then show ?thesis by (simp add: sha256_def Let_def sha256_fold_length sha256_h_length)
qed

lemma hmac_length: "length (hmac_sha256 key m) = 32"
  by (simp add: hmac_sha256_def Let_def sha256_length)

lemma alphabet_no_dot: "CHR ''.'' \<notin> set base64_alphabet"
  by (simp add: base64_alphabet_def)

lemma signature_text: "signature_of sv e \<noteq> []" "CHR ''.'' \<notin> set (signature_of sv e)"
proof -
  have "hmac_sha256 (sv_key sv) (utf8_encode e) \<noteq> []" using hmac_length [of "sv_key sv"] by (metis length_0_conv zero_neq_numeral)
  then show "signature_of sv e \<noteq> []" by (simp add: signature_of_def encode_part_def)
  show "CHR ''.'' \<notin> set (signature_of sv e)"
    unfolding signature_of_def encode_part_def using base64_chars alphabet_no_dot by blast
qed

lemma takeWhile_dot: "CHR ''.'' \<notin> set s \<Longrightarrow> takeWhile (\<lambda>c. c \<noteq> CHR ''.'') (s @ ''.'' @ t) = s"
  by (induction s) auto

lemma read_token_text:
  assumes "json_ok v" and "loaded_of v = LObj payload"
    and "encoded = encode_part (utf8_encode (json_dumps v))"
    and "length (encoded @ ''.'' @ signature_of sv encoded) \<le> 16384"
  shows "read_token sv (encoded @ ''.'' @ signature_of sv encoded) = Some payload"
proof -
  have dumps: "json_dumps v \<noteq> []" using solid_dumps [of v] by (auto simp: solid_def)
  have ne: "utf8_encode (json_dumps v) \<noteq> []"
    using dumps ascii_utf8 [OF ascii_dumps, of v] by (simp add: code_points_def)
  have e: "encoded \<noteq> []" "set encoded \<subseteq> set base64_alphabet" "CHR ''.'' \<notin> set encoded"
    using ne base64_chars alphabet_no_dot by (auto simp: assms(3) encode_part_def)
  have dec: "decode_part encoded = Inr (utf8_encode (json_dumps v))"
    using e by (simp add: decode_part_def) (simp add: assms(3) encode_part_def base64_roundtrip)
  show ?thesis
    using e signature_text [of sv encoded] assms(2,4)
    by (simp add: read_token_def Let_def takeWhile_dot [of encoded, simplified] dec utf8_ascii [OF ascii_dumps] json_roundtrip [OF assms(1)])
qed

lemma map_of_sort_key: "distinct (map fst xs) \<Longrightarrow> map_of (sort_key fst xs) = map_of xs"
proof (rule map_of_eqI)
  assume d: "distinct (map fst xs)"
  show "set (map fst (sort_key fst xs)) = set (map fst xs)" by simp
  show "\<forall>k \<in> set (map fst (sort_key fst xs)). map_of (sort_key fst xs) k = map_of xs k"
  proof
    fix k assume "k \<in> set (map fst (sort_key fst xs))"
    then obtain v where "(k, v) \<in> set xs" by auto
    moreover have "distinct (map fst (sort_key fst xs))" using d distinct_map [of fst xs] distinct_map [of fst "sort_key fst xs"] by simp
    ultimately show "map_of (sort_key fst xs) k = map_of xs k" using d by (simp add: map_of_is_SomeI)
  qed
qed

lemma payload_get_object:
  assumes "distinct (map fst kvs)" and "loaded_of (JObj kvs) = LObj payload"
  shows "payload_get payload k = map_option loaded_of (map_of kvs k)"
proof -
  have "map_of (map (\<lambda>(k, v). (code_points k, loaded_of v)) xs) (code_points k) = map_option loaded_of (map_of xs k)" for xs
    by (induction xs) (auto simp: code_points_inj)
  then show ?thesis using assms map_of_sort_key [OF assms(1)] unfolding loaded_of_obj by (auto simp: payload_get_def)
qed

lemma token_payload_keys:
  "token_payload jti expires sc = JObj kvs \<Longrightarrow> distinct (map fst kvs)"
  by (auto simp: token_payload_def scope_fields_def)

lemma scope_matches_payload:
  assumes "loaded_of (token_payload jti expires sc) = LObj payload"
  shows "payload_get payload ''exp'' = Some (LInt expires)" "payload_get payload ''jti'' = Some (LStr (code_points jti))"
    "scope_matches payload expected \<longleftrightarrow> expected = sc"
proof -
  obtain kvs where kvs: "token_payload jti expires sc = JObj kvs" by (simp add: token_payload_def)
  have g: "payload_get payload k = map_option loaded_of (map_of kvs k)" for k
    using payload_get_object [OF token_payload_keys [OF kvs]] assms kvs by simp
  show "payload_get payload ''exp'' = Some (LInt expires)" "payload_get payload ''jti'' = Some (LStr (code_points jti))"
    using kvs unfolding g by (auto simp: token_payload_def)
  have m: "map_of kvs ''tenant_id'' = Some (JStr (cs_tenant_id sc))" "map_of kvs ''principal_id'' = Some (JStr (cs_principal_id sc))"
      "map_of kvs ''session_id'' = Some (JStr (cs_session_id sc))" "map_of kvs ''tool_name'' = Some (JStr (cs_tool_name sc))"
      "map_of kvs ''arguments_hash'' = Some (JStr (cs_arguments_hash sc))"
    using kvs by (auto simp: token_payload_def scope_fields_def)
  show "scope_matches payload expected \<longleftrightarrow> expected = sc"
    unfolding scope_matches_def scope_fields_def list.pred_inject prod.case g m
    by (cases expected, cases sc) (auto simp: code_points_inj)
qed

lemma nat_text_short: "n < 10 ^ k \<Longrightarrow> 0 < k \<Longrightarrow> length (nat_text n) \<le> k"
proof (induction k arbitrary: n)
  case (Suc k)
  show ?case
  proof (cases "n < 10")
    case False
    with Suc.prems have "n div 10 < 10 ^ k" "0 < k" by (auto simp: div_less_iff_less_mult mult.commute intro: Nat.gr0I)
    with Suc.IH have "length (nat_text (n div 10)) \<le> k" by blast
    with False show ?thesis by (simp add: nat_text.simps [of n])
  qed (simp add: nat_text.simps [of n])
qed simp

lemma token_payload_ok: "\<bar>expires\<bar> < 10 ^ 18 \<Longrightarrow> json_ok (token_payload jti expires sc)"
proof -
  assume "\<bar>expires\<bar> < 10 ^ 18"
  then have "nat \<bar>expires\<bar> < 10 ^ 18" by (simp add: nat_less_iff)
  then have "length (nat_text (nat \<bar>expires\<bar>)) \<le> 18" by (rule nat_text_short) simp
  moreover have "length (nat_text 1) \<le> 1" by (rule nat_text_short) simp_all
  ultimately show ?thesis by (simp add: token_payload_def scope_fields_def)
qed

text \<open>A token of the service, presented to the service: every outcome.\<close>

lemma consume_token_text:
  assumes "\<bar>expires\<bar> < 10 ^ 18" and "length (token_text sv jti expires sc) \<le> 16384"
  shows "consume_token sv ledger_consume now (token_text sv jti expires sc) expected l =
    (if expires < whole_seconds now then raise_in l (ConfirmationError ''confirmation token expired'')
     else if expected \<noteq> sc then raise_in l (ConfirmationError ''confirmation token scope mismatch'')
     else if jti = [] then raise_in l invalid_token
     else (case ledger_consume (code_points jti) sc l of
             (Inl e, l') \<Rightarrow> raise_in l' (confirmation_catch e)
           | (Inr True, l') \<Rightarrow> return_in l' ()
           | (Inr False, l') \<Rightarrow> raise_in l' (ConfirmationError ''confirmation token was already used'')))"
proof -
  obtain payload where p: "loaded_of (token_payload jti expires sc) = LObj payload" by (simp add: token_payload_def)
  have "read_token sv (token_text sv jti expires sc) = Some payload"
    using read_token_text [OF token_payload_ok [OF assms(1)] p refl] assms(2) by (simp add: token_text_def Let_def)
  then show ?thesis by (simp add: consume_token_def scope_matches_payload [OF p] code_points_def)
qed

subsection \<open>The length of a token\<close>

lemma base64_length: "3 * length (base64_encode bs) \<le> 4 * length bs + 2"
  by (induction bs rule: base64_digits.induct) (simp_all add: Let_def)

lemma json_string_bound: "length (json_string s) \<le> 6 * length s + 2"
proof -
  have "length (json_char c) \<le> 6" for c by (simp add: json_char_def hex4_def Let_def)
  then have "length (concat (map json_char s)) \<le> 6 * length s"
    by (induction s) (simp_all add: add_mono)
  then show ?thesis by (simp add: json_string_def)
qed

lemma comma_separated_length: "length (comma_separated xs) \<le> sum_list (map (\<lambda>x. Suc (length x)) xs)"
  by (induction xs rule: comma_separated.induct) simp_all

lemma sum_list_sort_key: "sum_list (map f (sort_key k xs)) = (sum_list (map f xs) :: nat)"
proof -
  have "sum_list (map f ys) = sum_mset (image_mset f (mset ys))" for ys by (simp add: sum_mset_sum_list [symmetric])
  then show ?thesis by simp
qed

lemma json_object_length: "length (json_dumps (JObj kvs)) \<le> 2 + sum_list (map (\<lambda>kv. Suc (length (pair_text kv))) kvs)"
proof -
  have "length (comma_separated (map pair_text (sort_key fst kvs))) \<le> sum_list (map (\<lambda>kv. Suc (length (pair_text kv))) (sort_key fst kvs))"
    using comma_separated_length [of "map pair_text (sort_key fst kvs)"] by (simp add: comp_def)
  then show ?thesis unfolding json_dumps_obj sum_list_sort_key by simp
qed

lemma utf8_dumps_length: "length (utf8_encode (json_dumps v)) = length (json_dumps v)"
  by (simp add: ascii_utf8 [OF ascii_dumps] code_points_def)

text \<open>The token of a scope within the bounds of \<^verbatim>\<open>TenantContext\<close> and with a tool name of at most 1000 characters fits into
  what \<^verbatim>\<open>consume\<close> accepts.\<close>

definition scope_fits :: "confirmation_scope \<Rightarrow> bool" where
  "scope_fits sc =
     (length (cs_tenant_id sc) \<le> 128 \<and> length (cs_principal_id sc) \<le> 256 \<and> length (cs_session_id sc) \<le> 256
      \<and> length (cs_tool_name sc) \<le> 1000 \<and> length (cs_arguments_hash sc) \<le> 64)"

lemma issued_token_fits:
  assumes "scope_fits sc" and "length jti \<le> 36" and "\<bar>expires\<bar> < 10 ^ 18"
  shows "length (token_text sv jti expires sc) \<le> 16384"
proof -
  let ?e = "utf8_encode (json_dumps (token_payload jti expires sc))"
  have "nat \<bar>expires\<bar> < 10 ^ 18" using assms(3) by (simp add: nat_less_iff)
  then have "length (nat_text (nat \<bar>expires\<bar>)) \<le> 18" by (rule nat_text_short) simp
  then have i: "length (int_text expires) \<le> 19" "length (int_text 1) \<le> 19"
    using nat_text_short [of 1 1] by (auto simp: int_text_def split: if_splits)
  have p: "length (pair_text (k, JStr v)) \<le> 6 * length k + 6 * length v + 5" for k v
    using json_string_bound [of k] json_string_bound [of v] by (simp add: pair_text_def)
  have q: "length (pair_text (k, JInt n)) \<le> 6 * length k + 3 + length (int_text n)" for k n
    using json_string_bound [of k] by (simp add: pair_text_def)
  have "length ?e \<le> 11500"
    unfolding utf8_dumps_length token_payload_def scope_fields_def list.map prod.case append.simps
    using assms(1,2) i q [of "''v''" 1] p [of "''jti''" jti] q [of "''exp''" expires] p [of "''tenant_id''" "cs_tenant_id sc"]
      p [of "''principal_id''" "cs_principal_id sc"] p [of "''session_id''" "cs_session_id sc"]
      p [of "''tool_name''" "cs_tool_name sc"] p [of "''arguments_hash''" "cs_arguments_hash sc"]
    by (intro order_trans [OF json_object_length]) (simp add: scope_fits_def)
  moreover have "3 * length (encode_part ?e) \<le> 4 * length ?e + 2" unfolding encode_part_def by (rule base64_length)
  moreover have "3 * length (signature_of sv (encode_part ?e)) \<le> 130"
    using base64_length [of "hmac_sha256 (sv_key sv) (utf8_encode (encode_part ?e))"] by (simp add: signature_of_def encode_part_def hmac_length)
  ultimately show ?thesis unfolding token_text_def Let_def length_append by simp
qed

lemma arguments_hash_length: "length (arguments_hash a) = 64"
proof -
  have "length (hexdigest bs) = 2 * length bs" for bs by (induction bs) (simp_all add: hexdigest_def)
  then show ?thesis by (simp add: arguments_hash_def sha256_length)
qed

subsection \<open>The contract of a ledger\<close>

text \<open>
  What the service needs of a ledger to let a token through only once: a successful \<^verbatim>\<open>consume\<close> leaves the identifier
  spent for the tenant, a spent identifier is refused, and neither a \<^verbatim>\<open>consume\<close> nor the \<^verbatim>\<open>issue\<close> of an unknown
  identifier makes it usable again.
\<close>

locale confirmation_ledger =
  fixes issue :: "token_id \<Rightarrow> int \<Rightarrow> confirmation_scope \<Rightarrow> 'l \<Rightarrow> (unit, 'l) outcome"
    and consume :: "time \<Rightarrow> token_id \<Rightarrow> confirmation_scope \<Rightarrow> 'l \<Rightarrow> (bool, 'l) outcome"
    and known :: "'l \<Rightarrow> token_id \<Rightarrow> bool"
    and spent :: "'l \<Rightarrow> token_id \<Rightarrow> string \<Rightarrow> bool"
  assumes consume_spends: "consume now t sc l = (Inr True, l') \<Longrightarrow> spent l' t (cs_tenant_id sc)"
    and spent_refused: "spent l t (cs_tenant_id sc) \<Longrightarrow> consume now t sc l \<noteq> (Inr True, l')"
    and spent_consume: "spent l t n \<Longrightarrow> spent (snd (consume now t' sc l)) t n"
    and spent_issue: "spent l t n \<Longrightarrow> \<not> known l t' \<Longrightarrow> spent (snd (issue t' e sc l)) t n"
begin

lemma let_through_payload:
  assumes "fst (consume_token sv (consume now') now token sc l) = Inr ()"
  obtains payload jti l' where "read_token sv token = Some payload" "scope_matches payload sc"
    "payload_get payload ''jti'' = Some (LStr jti)" "consume now' jti sc l = (Inr True, l')"
    "snd (consume_token sv (consume now') now token sc l) = l'"
  using assms unfolding consume_token_def
  by (auto split: option.splits loaded.splits if_splits prod.splits sum.splits bool.splits)

lemma spent_step:
  assumes "spent l t n" and "fresh_ids sv issue consume known (c # cs) l"
  shows "spent (confirmation_step sv issue consume c l) t n"
proof (cases c)
  case (IssueCall jti now sc)
  with assms(2) have "\<not> known l (code_points jti)" by simp
  from spent_issue [OF assms(1) this] show ?thesis
    by (simp add: IssueCall issue_token_def Let_def split: prod.split sum.split) (metis snd_conv)
next
  case (ConsumeCall now now' token sc)
  have "spent (snd (consume now' jti sc l)) t n" for jti by (rule spent_consume [OF assms(1)])
  then show ?thesis using assms(1) unfolding ConsumeCall confirmation_step.simps consume_token_def
    by (auto split: option.split loaded.split prod.split sum.split bool.split) (metis snd_conv)+
qed

lemma same_tenant: "scope_matches payload sc \<Longrightarrow> scope_matches payload sc' \<Longrightarrow> cs_tenant_id sc = cs_tenant_id sc'"
  by (simp add: scope_matches_def scope_fields_def)

lemma spent_never_accepted:
  assumes "read_token sv token = Some payload" and "payload_get payload ''jti'' = Some (LStr jti)"
    and "scope_matches payload sc" and "spent l jti (cs_tenant_id sc)" and "fresh_ids sv issue consume known cs l"
  shows "accepted sv issue consume token cs l = 0"
  using assms(4,5)
proof (induction cs arbitrary: l)
  case (Cons c cs)
  have "\<not> lets_through sv consume token c l"
  proof
    assume lt: "lets_through sv consume token c l"
    then obtain now now' sc' where c: "c = ConsumeCall now now' token sc'" by (cases c) auto
    from lt c obtain jti' l' payload' where *: "read_token sv token = Some payload'" "scope_matches payload' sc'"
        "payload_get payload' ''jti'' = Some (LStr jti')" "consume now' jti' sc' l = (Inr True, l')"
      by (auto elim: let_through_payload)
    have p: "payload' = payload" using *(1) assms(1) by simp
    have "jti' = jti" using *(3) assms(2) p by simp
    moreover have "cs_tenant_id sc' = cs_tenant_id sc" using *(2) assms(3) unfolding p by (rule same_tenant)
    ultimately show False using spent_refused [of l jti sc'] *(4) Cons.prems(1) by simp
  qed
  moreover have "spent (confirmation_step sv issue consume c l) jti (cs_tenant_id sc)" by (rule spent_step [OF Cons.prems])
  ultimately show ?case using Cons.IH Cons.prems(2) by simp
qed simp

lemma accepted_at_most_once:
  assumes "fresh_ids sv issue consume known cs l"
  shows "accepted sv issue consume token cs l \<le> 1"
  using assms
proof (induction cs arbitrary: l)
  case (Cons c cs)
  show ?case
  proof (cases "lets_through sv consume token c l")
    case True
    then obtain now now' sc where c: "c = ConsumeCall now now' token sc" by (cases c) auto
    from True c obtain jti l' payload where *: "read_token sv token = Some payload" "scope_matches payload sc"
        "payload_get payload ''jti'' = Some (LStr jti)" "consume now' jti sc l = (Inr True, l')"
        "confirmation_step sv issue consume c l = l'"
      by (auto elim: let_through_payload)
    then have "accepted sv issue consume token cs (confirmation_step sv issue consume c l) = 0"
      using Cons.prems by (intro spent_never_accepted [OF *(1,3,2)]) (auto intro: consume_spends)
    then show ?thesis by simp
  qed (use Cons in simp)
qed simp

end

interpretation memory_ledger: confirmation_ledger memory_issue memory_consume memory_known memory_spent
  by unfold_locales (auto simp: memory_issue_def memory_consume_def memory_known_def memory_spent_def split: option.splits if_splits)

subsection \<open>The arguments behind a scope\<close>

lemma hexdigest_inj: "hexdigest bs = hexdigest cs \<Longrightarrow> bs = cs"
proof -
  have d: "hexdigit m = hexdigit n \<Longrightarrow> m < 16 \<Longrightarrow> n < 16 \<Longrightarrow> m = n" for m n
  proof -
    have "distinct ''0123456789abcdef''" "length ''0123456789abcdef'' = 16" by simp_all
    then show "hexdigit m = hexdigit n \<Longrightarrow> m < 16 \<Longrightarrow> n < 16 \<Longrightarrow> m = n"
      unfolding hexdigit_def using nth_eq_iff_index_eq [of "''0123456789abcdef''" m n] by simp
  qed
  have b: "unat a div 16 < 16" "unat a mod 16 < 16" for a :: byte using unat_byte [of a] by auto
  show "hexdigest bs = hexdigest cs \<Longrightarrow> bs = cs"
  proof (induction bs arbitrary: cs)
    case Nil
    then show ?case by (cases cs) (simp_all add: hexdigest_def)
  next
    case (Cons a bs)
    then obtain c cs' where cs: "cs = c # cs'" by (cases cs) (simp_all add: hexdigest_def)
    with Cons.prems have h: "hexdigit (unat a div 16) = hexdigit (unat c div 16)"
        "hexdigit (unat a mod 16) = hexdigit (unat c mod 16)" "hexdigest bs = hexdigest cs'"
      by (simp_all add: hexdigest_def)
    have "unat a div 16 = unat c div 16" "unat a mod 16 = unat c mod 16" by (rule d [OF h(1) b(1) b(1)], rule d [OF h(2) b(2) b(2)])
    then have "unat a = unat c" by (metis div_mult_mod_eq)
    then have "a = c" by (rule unsigned_word_eqI)
    with Cons.IH [OF h(3)] cs show ?case by simp
  qed
qed

lemma utf8_encode_dumps_inj: "utf8_encode (json_dumps v) = utf8_encode (json_dumps w) \<Longrightarrow> json_dumps v = json_dumps w"
proof -
  assume e: "utf8_encode (json_dumps v) = utf8_encode (json_dumps w)"
  have "Some (code_points (json_dumps v)) = Some (code_points (json_dumps w))"
    using utf8_ascii [OF ascii_dumps, of v] utf8_ascii [OF ascii_dumps, of w] unfolding e by (rule trans [OF sym])
  then show ?thesis unfolding option.inject code_points_inj .
qed

lemma arguments_hash_collision:
  assumes "json_ok (JObj a)" and "json_ok (JObj b)" and "arguments_hash a = arguments_hash b"
  shows "loaded_of (JObj a) = loaded_of (JObj b)
    \<or> (\<exists>x y. x \<noteq> y \<and> sha256 x = sha256 y \<and> x = utf8_encode (json_dumps (JObj a)) \<and> y = utf8_encode (json_dumps (JObj b)))"
proof (cases "json_dumps (JObj a) = json_dumps (JObj b)")
  case True
  then show ?thesis using json_dumps_inj [OF assms(1,2)] by simp
next
  case False
  then have "utf8_encode (json_dumps (JObj a)) \<noteq> utf8_encode (json_dumps (JObj b))" using utf8_encode_dumps_inj by blast
  moreover have "sha256 (utf8_encode (json_dumps (JObj a))) = sha256 (utf8_encode (json_dumps (JObj b)))"
    using assms(3) unfolding arguments_hash_def by (rule hexdigest_inj)
  ultimately show ?thesis by blast
qed

end
