(* ===== verification/Redaction.thy ===== *)
theory Redaction
  imports Uuid
begin

text \<open>
  The redaction of \<^verbatim>\<open>src/trpc_service/log/redaction.py\<close>. The three regular expressions are written out: the key
  pattern is a list of alternatives anchored at the end of the key, so a key matches when it ends in one of them, up to
  case and up to one trailing line feed (Python's \<^verbatim>\<open>$\<close>); the two text patterns are matched from left to right at
  every word boundary. None of them needs backtracking, because each repetition stops at a character that the next
  part of the pattern does not start with.
\<close>

definition REDACTED :: string where
  "REDACTED = ''[REDACTED]''"

subsection \<open>Characters\<close>

definition lower_char :: "char \<Rightarrow> char" where
  "lower_char c = (if 65 \<le> (of_char c :: nat) \<and> (of_char c :: nat) \<le> 90 then char_of (of_char c + 32 :: nat) else c)"

definition lower_text :: "string \<Rightarrow> string" where
  "lower_text s = map lower_char s"

definition is_space :: "char \<Rightarrow> bool" where
  "is_space c = (c \<in> set py_whitespace)"

text \<open>\<^verbatim>\<open>\\w\<close> on the first 256 code points.\<close>

definition is_word :: "char \<Rightarrow> bool" where
  "is_word c =
     (let n = of_char c :: nat
      in 48 \<le> n \<and> n \<le> 57 \<or> 65 \<le> n \<and> n \<le> 90 \<or> n = 95 \<or> 97 \<le> n \<and> n \<le> 122
         \<or> n \<in> {0xAA, 0xB2, 0xB3, 0xB5, 0xB9, 0xBA, 0xBC, 0xBD, 0xBE} \<or> 0xC0 \<le> n \<and> n \<noteq> 0xD7 \<and> n \<noteq> 0xF7)"

definition bearer_char :: "char \<Rightarrow> bool" where
  "bearer_char c =
     (let n = of_char c :: nat
      in 48 \<le> n \<and> n \<le> 57 \<or> 65 \<le> n \<and> n \<le> 90 \<or> 97 \<le> n \<and> n \<le> 122 \<or> c \<in> set ''._~+/=-'')"

definition starts_with :: "string \<Rightarrow> string \<Rightarrow> bool" where
  "starts_with p s = (take (length p) s = p)"

definition ends_with :: "string \<Rightarrow> string \<Rightarrow> bool" where
  "ends_with p s = starts_with (rev p) (rev s)"

fun contains :: "string \<Rightarrow> string \<Rightarrow> bool" where
  "contains p [] = (p = [])"
| "contains p (c # s) = (starts_with p (c # s) \<or> contains p s)"

subsection \<open>Sensitive keys\<close>

definition sensitive_suffixes :: "string list" where
  "sensitive_suffixes =
     [''authorization'', ''cookie'', ''password'', ''passwd'', ''secret'', ''token'',
      ''api_key'', ''api-key'', ''apikey'', ''credential'',
      ''private_key'', ''private-key'', ''privatekey'', ''client_secret'', ''client-secret'', ''clientsecret'',
      ''database_dsn'', ''database-dsn'', ''databasedsn'', ''message'', ''message_body'', ''prompt'', ''completion'',
      ''tool_args'', ''tool-args'', ''toolargs'', ''tool_result'', ''tool-result'', ''toolresult'',
      ''request_body'', ''request-body'', ''requestbody'', ''request_content'', ''request-content'', ''requestcontent'',
      ''response_body'', ''response-body'', ''responsebody'', ''response_content'', ''response-content'', ''responsecontent'',
      ''input'', ''output'', ''state'']"

definition sensitive_markers :: "string list" where
  "sensitive_markers =
     [''gen_ai.prompt'', ''gen_ai.completion'', ''llm.request'', ''llm.response'', ''.llm_request'', ''.llm_response'',
      ''trpc.runner.input'', ''trpc.runner.output'', ''tool.arguments'', ''tool.response'', ''.tool_call_args'',
      ''.tool_response'', ''.state.begin'', ''.state.end'', ''.state.partial'', ''.stream_function_calls.raw'',
      ''.stream_function_calls.post_planner'', ''exception.message'', ''exception.stacktrace'', ''url.full'', ''http.url'']"

text \<open>\<^verbatim>\<open>key.rsplit(".", 1)[-1]\<close>.\<close>

definition after_last_dot :: "string \<Rightarrow> string" where
  "after_last_dot key = rev (takeWhile (\<lambda>c. c \<noteq> CHR ''.'') (rev key))"

definition sensitive_key_search :: "string \<Rightarrow> bool" where
  "sensitive_key_search s =
     (let t = lower_text s
      in list_ex (\<lambda>p. ends_with p t \<or> ends_with (p @ [CHR 0x0A]) t) sensitive_suffixes)"

definition is_sensitive_key :: "string \<Rightarrow> bool" where
  "is_sensitive_key key =
     (sensitive_key_search (after_last_dot key) \<or> list_ex (\<lambda>m. contains m (lower_text key)) sensitive_markers)"

subsection \<open>Inline credentials\<close>

text \<open>A match at the head of the text: the length of the match and what replaces it.\<close>

definition bearer_match :: "string \<Rightarrow> (nat \<times> string) option" where
  "bearer_match s =
     (if starts_with ''bearer'' (lower_text (take 6 s)) then
        (let sp = takeWhile is_space (drop 6 s);
             cr = takeWhile bearer_char (drop (6 + length sp) s)
         in if sp = [] \<or> cr = [] then None else Some (6 + length sp + length cr, ''Bearer '' @ REDACTED))
      else None)"

definition assignment_words :: "string list" where
  "assignment_words = [''password'', ''passwd'', ''secret'', ''token'', ''api_key'', ''api-key'', ''apikey'']"

definition value_char :: "char \<Rightarrow> bool" where
  "value_char c = (\<not> is_space c \<and> c \<noteq> CHR '','' \<and> c \<noteq> CHR '';'')"

definition assignment_match :: "string \<Rightarrow> (nat \<times> string) option" where
  "assignment_match s =
     (case find (\<lambda>w. lower_text (take (length w) s) = w) assignment_words of
        None \<Rightarrow> None
      | Some w \<Rightarrow>
          (let n = length w;
               sp1 = takeWhile is_space (drop n s);
               m = n + length sp1;
               sp2 = takeWhile is_space (drop (Suc m) s);
               v = takeWhile value_char (drop (Suc m + length sp2) s)
           in if take 1 (drop m s) \<in> {'':'', ''=''} \<and> v \<noteq> []
              then Some (Suc m + length sp2 + length v, take n s @ ''='' @ REDACTED) else None))"

text \<open>\<^verbatim>\<open>re.sub\<close>: the flag says that the previous character is a word character, the counter skips the rest of a match.
  Both patterns start with a word character, so \<^verbatim>\<open>\\b\<close> asks that the previous one is none.\<close>

fun replace_from :: "(string \<Rightarrow> (nat \<times> string) option) \<Rightarrow> nat \<Rightarrow> bool \<Rightarrow> string \<Rightarrow> string" where
  "replace_from pat n w [] = []"
| "replace_from pat (Suc n) w (c # s) = replace_from pat n (is_word c) s"
| "replace_from pat 0 w (c # s) =
     (case (if w then None else pat (c # s)) of
        Some (n, r) \<Rightarrow> r @ replace_from pat (n - 1) (is_word c) s
      | None \<Rightarrow> c # replace_from pat 0 (is_word c) s)"

definition replace_matches :: "(string \<Rightarrow> (nat \<times> string) option) \<Rightarrow> string \<Rightarrow> string" where
  "replace_matches pat s = replace_from pat 0 False s"

definition sanitize_text :: "string \<Rightarrow> string" where
  "sanitize_text value = replace_matches assignment_match (replace_matches bearer_match value)"

subsection \<open>Structured data\<close>

fun redact_under :: "string option \<Rightarrow> jval \<Rightarrow> jval" where
  "redact_under key (JObj kvs) =
     (if case key of None \<Rightarrow> False | Some k \<Rightarrow> is_sensitive_key k then JStr REDACTED
      else JObj (map (\<lambda>(k, v). (k, redact_under (Some k) v)) kvs))"
| "redact_under key (JList vs) =
     (if case key of None \<Rightarrow> False | Some k \<Rightarrow> is_sensitive_key k then JStr REDACTED
      else JList (map (redact_under None) vs))"
| "redact_under key (JStr s) =
     (if case key of None \<Rightarrow> False | Some k \<Rightarrow> is_sensitive_key k then JStr REDACTED
      else JStr (sanitize_text s))"
| "redact_under key v =
     (if case key of None \<Rightarrow> False | Some k \<Rightarrow> is_sensitive_key k then JStr REDACTED else v)"

definition redact :: "json \<Rightarrow> json" where
  "redact arguments = map (\<lambda>(k, v). (k, redact_under (Some k) v)) arguments"

subsection \<open>What redaction removes\<close>

text \<open>The pairs of all objects inside a value.\<close>

fun pairs_of :: "jval \<Rightarrow> (string \<times> jval) list" where
  "pairs_of (JObj kvs) = kvs @ concat (map (\<lambda>(k, v). pairs_of v) kvs)"
| "pairs_of (JList vs) = concat (map pairs_of vs)"
| "pairs_of _ = []"

lemma redact_under_sensitive: "is_sensitive_key k \<Longrightarrow> redact_under (Some k) v = JStr REDACTED"
  by (cases v) simp_all

lemma pairs_of_redact:
  "(k, v) \<in> set (pairs_of (redact_under key w)) \<Longrightarrow> is_sensitive_key k \<Longrightarrow> v = JStr REDACTED"
proof (induction key w rule: redact_under.induct)
  case (1 key kvs)
  show ?case
  proof (cases "case key of None \<Rightarrow> False | Some k \<Rightarrow> is_sensitive_key k")
    case False
    with "1.prems" consider (here) u where "(k, u) \<in> set kvs" "v = redact_under (Some k) u"
      | (below) k' u where "(k', u) \<in> set kvs" "(k, v) \<in> set (pairs_of (redact_under (Some k') u))"
      by (auto simp: case_prod_unfold)
    then show ?thesis
    proof cases
      case here
      with "1.prems" show ?thesis by (simp add: redact_under_sensitive)
    next
      case below
      with "1.IH" [OF False, of "(k', u)" k' u] "1.prems" show ?thesis by simp
    qed
  qed (use "1.prems" in simp)
next
  case (2 key vs)
  then show ?case by (auto split: if_splits)
qed (auto split: if_splits)

lemma redact_hides_pairs:
  "(k, v) \<in> set (pairs_of (JObj (redact arguments))) \<Longrightarrow> is_sensitive_key k \<Longrightarrow> v = JStr REDACTED"
  using pairs_of_redact [of k v None "JObj arguments"] by (simp add: redact_def)

text \<open>Redaction keeps the keys and their order.\<close>

lemma redact_keys: "map fst (redact arguments) = map fst arguments"
  by (simp add: redact_def case_prod_unfold comp_def)

end
