(* ===== verification/Py_Text.thy ===== *)
theory Py_Text
  imports Py_Json Uuid
begin

text \<open>
  The conversions \<^verbatim>\<open>str(value)\<close>, \<^verbatim>\<open>repr(value)\<close> and \<^verbatim>\<open>int(value)\<close> of the Python standard library on JSON-like values, and the
  truth value of such a value. A character is one of the first 256 code points.
\<close>

text \<open>Python's truth value of a JSON value.\<close>

fun truthy :: "jval \<Rightarrow> bool" where
  "truthy JNull = False"
| "truthy (JBool b) = b"
| "truthy (JInt i) = (i \<noteq> 0)"
| "truthy (JStr s) = (s \<noteq> [])"
| "truthy (JTime t) = True"
| "truthy (JList vs) = (vs \<noteq> [])"
| "truthy (JObj kvs) = (kvs \<noteq> [])"

subsection \<open>Text of a value\<close>

definition repr_char :: "char \<Rightarrow> char \<Rightarrow> string" where
  "repr_char quote c =
     (let n = of_char c :: nat
      in if c = quote \<or> n = 92 then [CHR 0x5C, c]
         else if n = 9 then [CHR 0x5C, CHR ''t'']
         else if n = 10 then [CHR 0x5C, CHR ''n'']
         else if n = 13 then [CHR 0x5C, CHR ''r'']
         else if n < 32 \<or> 127 \<le> n \<and> n \<le> 160 \<or> n = 173
         then [CHR 0x5C, CHR ''x'', hexdigit (n div 16), hexdigit (n mod 16)]
         else [c])"

definition repr_string :: "string \<Rightarrow> string" where
  "repr_string s =
     (let quote = (if CHR 0x27 \<in> set s \<and> CHR 0x22 \<notin> set s then CHR 0x22 else CHR 0x27)
      in [quote] @ concat (map (repr_char quote) s) @ [quote])"

fun comma_list :: "string list \<Rightarrow> string" where
  "comma_list [] = []"
| "comma_list [x] = x"
| "comma_list (x # xs) = x @ '', '' @ comma_list xs"

text \<open>An instant in UTC; seconds and microseconds are left out when they are zero.\<close>

definition repr_time :: "time \<Rightarrow> string" where
  "repr_time t =
     (let day = t div seconds 86400; rest = nat (t mod seconds 86400);
          (year, month, date) = ord2ymd (nat (day + 719163));
          sec = rest div 1000000; micro = rest mod 1000000;
          tail = (if micro \<noteq> 0 then [sec mod 60, micro] else if sec mod 60 \<noteq> 0 then [sec mod 60] else [])
      in ''datetime.datetime('' @ comma_list (map nat_text ([year, month, date, sec div 3600, sec div 60 mod 60] @ tail))
         @ '', tzinfo=datetime.timezone.utc)'')"

fun py_repr :: "jval \<Rightarrow> string" where
  "py_repr JNull = ''None''"
| "py_repr (JBool b) = (if b then ''True'' else ''False'')"
| "py_repr (JInt i) = int_text i"
| "py_repr (JStr s) = repr_string s"
| "py_repr (JTime t) = repr_time t"
| "py_repr (JList vs) = ''['' @ comma_list (map py_repr vs) @ '']''"
| "py_repr (JObj kvs) = ''{'' @ comma_list (map (\<lambda>(k, v). repr_string k @ '': '' @ py_repr v) kvs) @ ''}''"

definition py_str :: "jval \<Rightarrow> string" where
  "py_str v = (case v of JStr s \<Rightarrow> s | JTime t \<Rightarrow> iso_text CHR '' '' t | _ \<Rightarrow> py_repr v)"

subsection \<open>Number of a value\<close>

text \<open>Digits with single underscores between them; the flag says that the last character was a digit.\<close>

fun decimal_digits :: "bool \<Rightarrow> string \<Rightarrow> nat list option" where
  "decimal_digits after_digit [] = (if after_digit then Some [] else None)"
| "decimal_digits after_digit (c # cs) =
     (let n = of_char c :: nat
      in if 48 \<le> n \<and> n \<le> 57 then map_option (Cons (n - 48)) (decimal_digits True cs)
         else if c = CHR ''_'' \<and> after_digit then decimal_digits False cs
         else None)"

definition py_int_text :: "string \<Rightarrow> error + int" where
  "py_int_text s =
     (let s1 = strip_chars py_whitespace s;
          negative = (take 1 s1 = ''-'');
          s2 = (if take 1 s1 = ''-'' \<or> take 1 s1 = ''+'' then drop 1 s1 else s1)
      in case decimal_digits False s2 of
           None \<Rightarrow> Inl (ValueError ''invalid literal for int() with base 10'')
         | Some ds \<Rightarrow>
             if 4300 < length ds then Inl (ValueError ''Exceeds the limit (4300 digits) for integer string conversion'')
             else (let n = int (fold (\<lambda>d acc. acc * 10 + d) ds 0) in Inr (if negative then - n else n)))"

definition py_int :: "jval \<Rightarrow> error + int" where
  "py_int v =
     (case v of
        JInt i \<Rightarrow> Inr i
      | JBool b \<Rightarrow> Inr (if b then 1 else 0)
      | JStr s \<Rightarrow> py_int_text s
      | _ \<Rightarrow> Inl (TypeError ''int() argument must be a string, a bytes-like object or a real number''))"

end
