(* ===== verification/Tool_Governance.thy ===== *)
theory Tool_Governance
  imports Tool_Confirmation Redaction Py_Text
begin

text \<open>
  The governance pipeline of \<^verbatim>\<open>src/trpc_service/tool/governance.py\<close>: identity, allow list, safety scan, confirmation,
  budget, in this order, with an audit record of every decision. The pipeline is built from four protocols of the
  source (scanner, confirmation ledger, budget ledger, audit sink); they are the fields of \<open>pipeline\<close>, and the
  state type \<open>'s\<close> is whatever they work on. The rules of the SDK's safety guard are not part of the repository: \<open>guard\<close>
  is a function of script, language and tool name, of which the code only compares the decision with two members.
\<close>

datatype decision = ALLOW | DENY | NEEDS_CONFIRMATION

definition decision_value :: "decision \<Rightarrow> string" where
  "decision_value d =
     (case d of ALLOW \<Rightarrow> ''allow'' | DENY \<Rightarrow> ''deny'' | NEEDS_CONFIRMATION \<Rightarrow> ''needs_confirmation'')"

datatype sdk_decision = SDK_DENY | SDK_NEEDS_HUMAN_REVIEW | SDK_OTHER

type_synonym safety_guard = "string \<Rightarrow> string \<Rightarrow> string \<Rightarrow> sdk_decision"

subsection \<open>The in-memory budget ledger\<close>

type_synonym memory_budget = "string \<Rightarrow> int option"

definition memory_spend :: "memory_budget \<Rightarrow> string \<Rightarrow> int" where
  "memory_spend b tenant = (case b tenant of None \<Rightarrow> 0 | Some n \<Rightarrow> n)"

definition memory_reserve :: "string \<Rightarrow> int \<Rightarrow> int \<Rightarrow> int \<Rightarrow> memory_budget \<Rightarrow> (bool, memory_budget) outcome" where
  "memory_reserve tenant token_units cost_units monthly_limit b =
     (let current = memory_spend b tenant
      in if monthly_limit < current + cost_units then return_in b False
         else return_in (b(tenant \<mapsto> current + cost_units)) True)"

subsection \<open>The safety scanner\<close>

definition scan_fields :: "string list" where
  "scan_fields = [''script'', ''code'', ''command'', ''cmd'', ''python_code'', ''bash_code'', ''code_blocks'']"

text \<open>The inner loop; \<open>None\<close> is the early \<^verbatim>\<open>return Decision.DENY\<close>.\<close>

fun scan_scripts :: "safety_guard \<Rightarrow> string \<Rightarrow> string \<Rightarrow> jval list \<Rightarrow> decision \<Rightarrow> decision option" where
  "scan_scripts guard tool_name language [] result = Some result"
| "scan_scripts guard tool_name language (JStr script # vs) result =
     (case guard script language tool_name of
        SDK_DENY \<Rightarrow> None
      | SDK_NEEDS_HUMAN_REVIEW \<Rightarrow> scan_scripts guard tool_name language vs NEEDS_CONFIRMATION
      | SDK_OTHER \<Rightarrow> scan_scripts guard tool_name language vs result)"
| "scan_scripts guard tool_name language (v # vs) result = scan_scripts guard tool_name language vs result"

definition field_values :: "json \<Rightarrow> string \<Rightarrow> jval list" where
  "field_values arguments field =
     (case map_of arguments field of
        None \<Rightarrow> []
      | Some value \<Rightarrow> if \<not> truthy value then [] else (case value of JList vs \<Rightarrow> vs | _ \<Rightarrow> [value]))"

definition field_language :: "string \<Rightarrow> string" where
  "field_language field = (if field = ''python_code'' then ''python'' else ''bash'')"

fun scan_from :: "safety_guard \<Rightarrow> string \<Rightarrow> json \<Rightarrow> string list \<Rightarrow> decision \<Rightarrow> decision" where
  "scan_from guard tool_name arguments [] result = result"
| "scan_from guard tool_name arguments (field # rest) result =
     (case scan_scripts guard tool_name (field_language field) (field_values arguments field) result of
        None \<Rightarrow> DENY
      | Some result' \<Rightarrow> scan_from guard tool_name arguments rest result')"

definition scan :: "safety_guard \<Rightarrow> string \<Rightarrow> json \<Rightarrow> decision" where
  "scan guard tool_name arguments = scan_from guard tool_name arguments scan_fields ALLOW"

subsection \<open>The pipeline\<close>

record governance_result =
  gr_decision :: decision
  gr_reason :: string
  gr_audit_arguments :: json

record 's pipeline =
  gp_scan :: "string \<Rightarrow> json \<Rightarrow> decision"
  gp_confirmations :: confirmation_service
  gp_consume :: "time \<Rightarrow> token_id \<Rightarrow> confirmation_scope \<Rightarrow> 's \<Rightarrow> (bool, 's) outcome"
  gp_reserve :: "time \<Rightarrow> string \<Rightarrow> int \<Rightarrow> int \<Rightarrow> int \<Rightarrow> 's \<Rightarrow> (bool, 's) outcome"
  gp_audit :: "(tenant_context \<Rightarrow> tenant_config \<Rightarrow> string \<Rightarrow> decision \<Rightarrow> string \<Rightarrow> 's \<Rightarrow> (unit, 's) outcome) option"

definition result_of ::
    "'s pipeline \<Rightarrow> tenant_context \<Rightarrow> tenant_config \<Rightarrow> string \<Rightarrow> decision \<Rightarrow> string \<Rightarrow> json \<Rightarrow> 's
       \<Rightarrow> (governance_result, 's) outcome"
where
  "result_of gp context config tool_name decision reason audit_arguments s =
     (let r = \<lparr>gr_decision = decision, gr_reason = reason, gr_audit_arguments = audit_arguments\<rparr>
      in case gp_audit gp of
           None \<Rightarrow> return_in s r
         | Some record_audit \<Rightarrow>
             (case record_audit context config tool_name decision reason s of
                (Inl e, s') \<Rightarrow> raise_in s' e
              | (Inr _, s') \<Rightarrow> return_in s' r))"

definition call_scope :: "tenant_context \<Rightarrow> string \<Rightarrow> json \<Rightarrow> confirmation_scope" where
  "call_scope context tool_name arguments =
     \<lparr>cs_tenant_id = tc_tenant_id context, cs_principal_id = tc_principal_id context,
      cs_session_id = tc_session_id context, cs_tool_name = tool_name, cs_arguments_hash = arguments_hash arguments\<rparr>"

text \<open>The last two steps, once the confirmation is settled.\<close>

definition reserve_budget ::
    "'s pipeline \<Rightarrow> time \<Rightarrow> tenant_context \<Rightarrow> tenant_config \<Rightarrow> string \<Rightarrow> json \<Rightarrow> int \<Rightarrow> int \<Rightarrow> 's
       \<Rightarrow> (governance_result, 's) outcome"
where
  "reserve_budget gp now context config tool_name safe_arguments estimated_tokens estimated_cost s =
     (case gp_reserve gp now (tc_tenant_id context) estimated_tokens estimated_cost
             (bp_monthly_cost_units (cf_budget config)) s of
        (Inl e, s') \<Rightarrow> raise_in s' e
      | (Inr False, s') \<Rightarrow> result_of gp context config tool_name DENY ''budget_exhausted'' safe_arguments s'
      | (Inr True, s') \<Rightarrow> result_of gp context config tool_name ALLOW ''policy_passed'' safe_arguments s')"

definition requires_confirmation :: "'s pipeline \<Rightarrow> tenant_config \<Rightarrow> string \<Rightarrow> json \<Rightarrow> bool" where
  "requires_confirmation gp config tool_name arguments =
     (gp_scan gp tool_name arguments = NEEDS_CONFIRMATION \<or> tool_name \<in> tp_require_confirmation (cf_tools config))"

definition evaluate ::
    "'s pipeline \<Rightarrow> time \<Rightarrow> time \<Rightarrow> time \<Rightarrow> tenant_context \<Rightarrow> tenant_config \<Rightarrow> string \<Rightarrow> json \<Rightarrow> int \<Rightarrow> int
       \<Rightarrow> string option \<Rightarrow> 's \<Rightarrow> (governance_result, 's) outcome"
where
  "evaluate gp now1 now2 now3 context config tool_name arguments estimated_tokens estimated_cost confirmation_token s =
     (let safe_arguments = redact arguments
      in if tc_tenant_id context \<noteq> cf_tenant_id config \<or> tc_app_id context \<noteq> cf_app_id config
         then result_of gp context config tool_name DENY ''identity_mismatch'' safe_arguments s
         else if tool_name \<notin> tp_allow (cf_tools config)
         then result_of gp context config tool_name DENY ''tool_not_allowed'' safe_arguments s
         else if gp_scan gp tool_name arguments = DENY
         then result_of gp context config tool_name DENY ''safety_policy'' safe_arguments s
         else if requires_confirmation gp config tool_name arguments
         then (if str_or confirmation_token [] = []
               then result_of gp context config tool_name NEEDS_CONFIRMATION ''confirmation_required'' safe_arguments s
               else (case consume_token (gp_confirmations gp) (gp_consume gp now2) now1 (str_or confirmation_token [])
                            (call_scope context tool_name arguments) s of
                       (Inl e, s') \<Rightarrow> raise_in s' e
                     | (Inr _, s') \<Rightarrow>
                         reserve_budget gp now3 context config tool_name safe_arguments estimated_tokens estimated_cost s'))
         else reserve_budget gp now3 context config tool_name safe_arguments estimated_tokens estimated_cost s)"

subsection \<open>The scanner as one pass over all scripts\<close>

text \<open>What the scanner decides, without the loops: it collects the guard's decision on every script and takes the strictest.\<close>

definition script_verdicts :: "safety_guard \<Rightarrow> string \<Rightarrow> json \<Rightarrow> string \<Rightarrow> sdk_decision list" where
  "script_verdicts guard tool_name arguments field =
     concat (map (\<lambda>v. case v of JStr script \<Rightarrow> [guard script (field_language field) tool_name] | _ \<Rightarrow> [])
       (field_values arguments field))"

definition strictest :: "sdk_decision list \<Rightarrow> decision" where
  "strictest vs =
     (if SDK_DENY \<in> set vs then DENY
      else if SDK_NEEDS_HUMAN_REVIEW \<in> set vs then NEEDS_CONFIRMATION else ALLOW)"

lemma scan_scripts_strictest:
  "scan_scripts guard tool_name language vs result =
     (let verdicts = concat (map (\<lambda>v. case v of JStr script \<Rightarrow> [guard script language tool_name] | _ \<Rightarrow> []) vs)
      in if SDK_DENY \<in> set verdicts then None
         else Some (if SDK_NEEDS_HUMAN_REVIEW \<in> set verdicts then NEEDS_CONFIRMATION else result))"
proof (induction vs arbitrary: result)
  case (Cons v vs)
  then show ?case
  proof (cases v)
    case (JStr script)
    then show ?thesis by (cases "guard script language tool_name") (simp_all add: Cons.IH Let_def)
  qed (simp_all add: Let_def)
qed simp

lemma scan_from_strictest:
  "scan_from guard tool_name arguments rest result =
     (let verdicts = concat (map (script_verdicts guard tool_name arguments) rest)
      in if SDK_DENY \<in> set verdicts then DENY
         else if SDK_NEEDS_HUMAN_REVIEW \<in> set verdicts then NEEDS_CONFIRMATION else result)"
proof (induction rest arbitrary: result)
  case (Cons field rest)
  have "scan_scripts guard tool_name (field_language field) (field_values arguments field) result =
      (if SDK_DENY \<in> set (script_verdicts guard tool_name arguments field) then None
       else Some (if SDK_NEEDS_HUMAN_REVIEW \<in> set (script_verdicts guard tool_name arguments field)
                  then NEEDS_CONFIRMATION else result))"
    unfolding scan_scripts_strictest script_verdicts_def Let_def ..
  then show ?case by (simp add: Cons.IH Let_def)
qed simp

subsection \<open>The contract of a budget ledger\<close>

text \<open>
  A reservation that is granted adds its cost to the account of the tenant and stays within the limit it was made with;
  anything else leaves all accounts alone. The account is chosen by the time and the tenant: one per tenant in memory,
  one per tenant and month in the database.
\<close>

record budget_request =
  rq_time :: time
  rq_tenant :: string
  rq_tokens :: int
  rq_cost :: int
  rq_limit :: int

definition reserve_request ::
    "(time \<Rightarrow> string \<Rightarrow> int \<Rightarrow> int \<Rightarrow> int \<Rightarrow> 's \<Rightarrow> (bool, 's) outcome) \<Rightarrow> budget_request \<Rightarrow> 's \<Rightarrow> (bool, 's) outcome"
where
  "reserve_request reserve r s = reserve (rq_time r) (rq_tenant r) (rq_tokens r) (rq_cost r) (rq_limit r) s"

fun reserve_all ::
    "(time \<Rightarrow> string \<Rightarrow> int \<Rightarrow> int \<Rightarrow> int \<Rightarrow> 's \<Rightarrow> (bool, 's) outcome) \<Rightarrow> budget_request list \<Rightarrow> 's \<Rightarrow> 's"
where
  "reserve_all reserve [] s = s"
| "reserve_all reserve (r # rs) s = reserve_all reserve rs (snd (reserve_request reserve r s))"

fun granted_cost ::
    "(time \<Rightarrow> string \<Rightarrow> int \<Rightarrow> int \<Rightarrow> int \<Rightarrow> 's \<Rightarrow> (bool, 's) outcome) \<Rightarrow> (budget_request \<Rightarrow> bool)
       \<Rightarrow> budget_request list \<Rightarrow> 's \<Rightarrow> int"
where
  "granted_cost reserve P [] s = 0"
| "granted_cost reserve P (r # rs) s =
     (if P r \<and> fst (reserve_request reserve r s) = Inr True then rq_cost r else 0)
     + granted_cost reserve P rs (snd (reserve_request reserve r s))"

definition on_account :: "(time \<Rightarrow> string \<Rightarrow> 'k) \<Rightarrow> 'k \<Rightarrow> budget_request \<Rightarrow> bool" where
  "on_account account k r = (account (rq_time r) (rq_tenant r) = k)"

locale budget_ledger =
  fixes reserve :: "time \<Rightarrow> string \<Rightarrow> int \<Rightarrow> int \<Rightarrow> int \<Rightarrow> 's \<Rightarrow> (bool, 's) outcome"
    and account :: "time \<Rightarrow> string \<Rightarrow> 'k"
    and spent :: "'s \<Rightarrow> 'k \<Rightarrow> int"
  assumes reserve_granted: "reserve now tenant tokens cost limit s = (Inr True, s') \<Longrightarrow>
      spent s' k = spent s k + (if k = account now tenant then cost else 0)
      \<and> spent s' (account now tenant) \<le> limit"
    and reserve_refused: "reserve now tenant tokens cost limit s = (x, s') \<Longrightarrow> x \<noteq> Inr True \<Longrightarrow> spent s' k = spent s k"
begin

lemma reserve_request_spent:
  assumes "reserve_request reserve r s = (x, s')"
  shows "spent s' k = spent s k + (if on_account account k r \<and> x = Inr True then rq_cost r else 0)"
    and "x = Inr True \<Longrightarrow> on_account account k r \<Longrightarrow> spent s' k \<le> rq_limit r"
  using assms reserve_granted [of "rq_time r" "rq_tenant r" "rq_tokens r" "rq_cost r" "rq_limit r" s s' k]
    reserve_refused [of "rq_time r" "rq_tenant r" "rq_tokens r" "rq_cost r" "rq_limit r" s x s' k]
  by (auto simp: reserve_request_def on_account_def) blast

lemma spent_is_granted: "spent (reserve_all reserve rs s) k = spent s k + granted_cost reserve (on_account account k) rs s"
proof (induction rs arbitrary: s)
  case (Cons r rs)
  obtain x s' where r: "reserve_request reserve r s = (x, s')" by fastforce
  with reserve_request_spent(1) [OF r, of k] Cons.IH [of s'] show ?case by simp
qed simp

lemma spent_within_limit:
  assumes "\<forall>r \<in> set rs. on_account account k r \<longrightarrow> rq_limit r \<le> limit" and "spent s k \<le> limit"
  shows "spent (reserve_all reserve rs s) k \<le> limit"
  using assms
proof (induction rs arbitrary: s)
  case (Cons r rs)
  obtain x s' where r: "reserve_request reserve r s = (x, s')" by fastforce
  have "spent s' k \<le> limit"
  proof (cases "x = Inr True \<and> on_account account k r")
    case True
    with reserve_request_spent(2) [OF r] Cons.prems(1) show ?thesis by force
  qed (use reserve_request_spent(1) [OF r, of k] Cons.prems(2) in auto)
  with Cons r show ?case by simp
qed simp

end

interpretation memory_budget_ledger: budget_ledger "\<lambda>_. memory_reserve" "\<lambda>_ tenant. tenant" memory_spend
  by unfold_locales (auto simp: memory_reserve_def memory_spend_def Let_def split: if_splits)

subsection \<open>The contract of the pipeline\<close>

text \<open>
  Confirmations and audit records do not touch the budget, and a reservation that is not granted leaves it alone. Then
  only an allowed call is charged, and an allowed call has passed every check.
\<close>

locale governance = budget_ledger "gp_reserve gp" account spent
  for gp :: "'s pipeline" and account :: "time \<Rightarrow> string \<Rightarrow> 'k" and spent :: "'s \<Rightarrow> 'k \<Rightarrow> int" +
  assumes consume_keeps_spent: "spent (snd (gp_consume gp now t sc s)) k = spent s k"
    and audit_keeps_spent: "gp_audit gp = Some a \<Longrightarrow> spent (snd (a context config tool d reason s)) k = spent s k"
begin

lemma result_of_spent: "spent (snd (result_of gp context config tool d reason safe s)) k = spent s k"
  by (simp add: result_of_def Let_def audit_keeps_spent [symmetric] split: option.split prod.split sum.split)
     (metis audit_keeps_spent snd_conv)

lemma result_of_decision:
  "fst (result_of gp context config tool d reason safe s) = Inr r \<Longrightarrow>
     gr_decision r = d \<and> gr_reason r = reason \<and> gr_audit_arguments r = safe"
  by (auto simp: result_of_def Let_def split: option.splits prod.splits sum.splits)

lemma consume_token_spent: "spent (snd (consume_token sv (gp_consume gp now') now token sc s)) k = spent s k"
proof -
  have "spent (snd (gp_consume gp now' jti sc s)) k = spent s k" for jti by (rule consume_keeps_spent)
  then show ?thesis unfolding consume_token_def
    by (auto split: option.split loaded.split prod.split sum.split bool.split) (metis snd_conv)+
qed

lemma reserve_budget_spent:
  assumes "reserve_budget gp now context config tool safe tokens cost s = (Inr r, s')"
  shows "gr_decision r \<noteq> ALLOW \<Longrightarrow> spent s' k = spent s k"
    and "gr_decision r = ALLOW \<Longrightarrow> spent s' k = spent s k + (if k = account now (tc_tenant_id context) then cost else 0)"
    and "gr_decision r = ALLOW \<Longrightarrow> spent s' (account now (tc_tenant_id context)) \<le> bp_monthly_cost_units (cf_budget config)"
proof -
  let ?limit = "bp_monthly_cost_units (cf_budget config)"
  obtain x s1 where rs: "gp_reserve gp now (tc_tenant_id context) tokens cost ?limit s = (x, s1)" by fastforce
  have x: "x = Inr True \<or> x = Inr False" using assms unfolding reserve_budget_def rs
    by (cases x) (auto split: bool.splits)
  define reason where "reason = (if x = Inr True then ''policy_passed'' else ''budget_exhausted'')"
  define d where "d = (if x = Inr True then ALLOW else DENY)"
  have res: "result_of gp context config tool d reason safe s1 = (Inr r, s')"
    using assms x unfolding reserve_budget_def rs d_def reason_def by auto
  then have d: "gr_decision r = d" using result_of_decision by (metis fst_conv)
  have s': "spent s' k = spent s1 k" for k using result_of_spent res by (metis snd_conv)
  show "gr_decision r \<noteq> ALLOW \<Longrightarrow> spent s' k = spent s k"
    using d reserve_refused [OF rs] s' by (auto simp: d_def split: if_splits)
  assume "gr_decision r = ALLOW"
  then have "x = Inr True" using d by (auto simp: d_def split: if_splits)
  with rs have g: "gp_reserve gp now (tc_tenant_id context) tokens cost ?limit s = (Inr True, s1)" by simp
  show "spent s' k = spent s k + (if k = account now (tc_tenant_id context) then cost else 0)"
    unfolding s' by (rule conjunct1 [OF reserve_granted [OF g]])
  show "spent s' (account now (tc_tenant_id context)) \<le> ?limit"
    unfolding s' by (rule conjunct2 [OF reserve_granted [OF g]])
qed

text \<open>The only path to the reservation.\<close>

lemma evaluate_cases:
  assumes "evaluate gp now1 now2 now3 context config tool arguments tokens cost confirmation_token s = (Inr r, s')"
  obtains (stopped) "gr_decision r \<noteq> ALLOW" "\<And>k. spent s' k = spent s k"
  | (reserved) s1 where "tc_tenant_id context = cf_tenant_id config" "tc_app_id context = cf_app_id config"
      "tool \<in> tp_allow (cf_tools config)" "gp_scan gp tool arguments \<noteq> DENY"
      "if requires_confirmation gp config tool arguments
       then \<exists>token. confirmation_token = Some token \<and>
         consume_token (gp_confirmations gp) (gp_consume gp now2) now1 token (call_scope context tool arguments) s = (Inr (), s1)
       else s1 = s"
      "\<And>k. spent s1 k = spent s k"
      "reserve_budget gp now3 context config tool (redact arguments) tokens cost s1 = (Inr r, s')"
proof -
  have stop: thesis if "result_of gp context config tool d reason (redact arguments) s = (Inr r, s')" and "d \<noteq> ALLOW" for d reason
  proof (rule stopped)
    show "gr_decision r \<noteq> ALLOW" using that result_of_decision by (metis fst_conv)
    show "spent s' k = spent s k" for k using that(1) result_of_spent by (metis snd_conv)
  qed
  let ?sc = "call_scope context tool arguments"
  let ?reserved = "\<lambda>s1. reserve_budget gp now3 context config tool (redact arguments) tokens cost s1 = (Inr r, s')"
  have spent1: "spent s1 k = spent s k"
    if "consume_token (gp_confirmations gp) (gp_consume gp now2) now1 token ?sc s = (y, s1)" for token y s1 k
    using consume_token_spent that by (metis snd_conv)
  consider (early) d reason where "d \<noteq> ALLOW" "result_of gp context config tool d reason (redact arguments) s = (Inr r, s')"
    | (plain) "tc_tenant_id context = cf_tenant_id config" "tc_app_id context = cf_app_id config"
      "tool \<in> tp_allow (cf_tools config)" "gp_scan gp tool arguments \<noteq> DENY"
      "\<not> requires_confirmation gp config tool arguments" "?reserved s"
    | (confirmed) token s1 where "tc_tenant_id context = cf_tenant_id config" "tc_app_id context = cf_app_id config"
      "tool \<in> tp_allow (cf_tools config)" "gp_scan gp tool arguments \<noteq> DENY"
      "requires_confirmation gp config tool arguments" "confirmation_token = Some token"
      "consume_token (gp_confirmations gp) (gp_consume gp now2) now1 token ?sc s = (Inr (), s1)" "?reserved s1"
    using assms unfolding evaluate_def Let_def str_or_def
    by (auto split: if_splits option.splits prod.splits sum.splits)
  then show thesis
  proof cases
    case early
    then show thesis by (rule stop [rotated])
  next
    case plain
    then show thesis by (intro reserved [of s]) simp_all
  next
    case confirmed
    then show thesis by (intro reserved [of s1]) (simp_all add: spent1)
  qed
qed

end

end
