(* ===== verification/Tool_Execution.thy ===== *)
theory Tool_Execution
  imports Tool_Confirmation
begin

text \<open>
  The tool executor of \<^verbatim>\<open>src/trpc_service/tool/execution.py\<close>: a stable key for every tool call of a turn, and a ledger
  that remembers what became of it, so that a tool that must not run twice is not run twice. The ledger is a protocol of
  the source; \<^verbatim>\<open>begin\<close> and \<^verbatim>\<open>finish\<close> are arguments of \<open>execute\<close>. The in-memory ledger is here, the one on PostgreSQL in
  \<open>Pg_Tools\<close>. Python's \<^verbatim>\<open>None\<close> is \<open>JNull\<close>. A fencing token is a JSON value because the PostgreSQL ledger tells
  \<^verbatim>\<open>True\<close> from \<^verbatim>\<open>1\<close>.

  \<open>execute\<close> is the method as one worker runs it. Several workers, on several machines, run it at the same time and may
  die at any point: \<open>tool_step\<close> is the method cut at its await points, one step for the transaction of \<^verbatim>\<open>begin\<close>, one
  for the start of the tool, one for the rest.
\<close>

datatype execution_status = STARTED | SUCCEEDED | EXEC_FAILED | EXEC_AMBIGUOUS

definition execution_status_value :: "execution_status \<Rightarrow> string" where
  "execution_status_value st =
     (case st of STARTED \<Rightarrow> ''started'' | SUCCEEDED \<Rightarrow> ''succeeded'' | EXEC_FAILED \<Rightarrow> ''failed''
      | EXEC_AMBIGUOUS \<Rightarrow> ''ambiguous'')"

record execution_record =
  xr_execution_key :: string
  xr_status :: execution_status
  xr_result :: jval
  xr_fresh :: bool
  xr_replay_terminal :: bool

definition new_execution_record :: "string \<Rightarrow> execution_status \<Rightarrow> execution_record" where
  "new_execution_record key st =
     \<lparr>xr_execution_key = key, xr_status = st, xr_result = JNull, xr_fresh = False, xr_replay_terminal = False\<rparr>"

text \<open>The arguments of \<^verbatim>\<open>begin\<close> and \<^verbatim>\<open>finish\<close>.\<close>

record execution_request =
  er_execution_key :: string
  er_tenant_id :: string
  er_turn_id :: string
  er_tool_name :: string
  er_risk :: tool_risk
  er_arguments_hash :: string
  er_owner_id :: "string option"
  er_fencing_token :: jval

subsection \<open>The in-memory ledger\<close>

type_synonym memory_executions = "string \<Rightarrow> execution_record option"

definition memory_begin :: "execution_request \<Rightarrow> memory_executions \<Rightarrow> (execution_record, memory_executions) outcome" where
  "memory_begin req records =
     (let key = er_execution_key req
      in case records key of
           Some existing \<Rightarrow>
             if xr_status existing = SUCCEEDED \<and> xr_result existing = JNull \<and> er_risk req = IDEMPOTENT
             then return_in records ((new_execution_record key (xr_status existing))\<lparr>xr_replay_terminal := True\<rparr>)
             else return_in records existing
         | None \<Rightarrow>
             return_in (records(key \<mapsto> new_execution_record key STARTED))
               ((new_execution_record key STARTED)\<lparr>xr_fresh := True\<rparr>))"

definition memory_finish ::
    "execution_request \<Rightarrow> execution_status \<Rightarrow> jval \<Rightarrow> memory_executions \<Rightarrow> (unit, memory_executions) outcome"
where
  "memory_finish req status result records =
     (let key = er_execution_key req
      in return_in (records(key \<mapsto> (new_execution_record key status)\<lparr>xr_result := result\<rparr>)) ())"

subsection \<open>The executor\<close>

definition init_tool_executor :: "bytes \<Rightarrow> rat \<Rightarrow> error + (bytes \<times> rat)" where
  "init_tool_executor key fault_stage_delay_seconds =
     (if length key < 32 then Inl (ValueError ''tool execution key must contain at least 32 bytes'')
      else if \<not> (0 \<le> fault_stage_delay_seconds \<and> fault_stage_delay_seconds \<le> 5)
      then Inl (ValueError ''fault-stage delay must be between 0 and 5 seconds'')
      else Inr (key, fault_stage_delay_seconds))"

definition key_for :: "bytes \<Rightarrow> tenant_context \<Rightarrow> string \<Rightarrow> string \<Rightarrow> json \<Rightarrow> string" where
  "key_for key context turn_id tool_name arguments =
     hexdigest (hmac_sha256 key (utf8_encode (json_dumps
       (JList [JStr (tc_tenant_id context), JStr (tc_session_id context), JStr turn_id, JStr tool_name,
               JStr (arguments_hash arguments)]))))"

definition request_of ::
    "bytes \<Rightarrow> tenant_context \<Rightarrow> string \<Rightarrow> string \<Rightarrow> json \<Rightarrow> tool_risk \<Rightarrow> string option \<Rightarrow> jval \<Rightarrow> execution_request"
where
  "request_of key context turn_id tool_name arguments risk owner_id fencing_token =
     \<lparr>er_execution_key = key_for key context turn_id tool_name arguments, er_tenant_id = tc_tenant_id context,
      er_turn_id = turn_id, er_tool_name = tool_name, er_risk = risk, er_arguments_hash = arguments_hash arguments,
      er_owner_id = owner_id, er_fencing_token = fencing_token\<rparr>"

text \<open>What the code does with the record of \<^verbatim>\<open>begin\<close>: answer from it, refuse, or run the tool; the flag of \<open>Run\<close> is the
  local variable \<^verbatim>\<open>replay_terminal\<close>.\<close>

datatype plan = Answer jval | Refuse error | Run bool

definition plan_of :: "execution_record \<Rightarrow> tool_risk \<Rightarrow> plan" where
  "plan_of found risk =
     (if xr_status found = SUCCEEDED \<and> xr_result found \<noteq> JNull then Answer (xr_result found)
      else if xr_status found = SUCCEEDED \<and> risk \<noteq> IDEMPOTENT
      then Refuse (HumanReviewRequired ''tool succeeded previously; result is unavailable'')
      else if \<not> xr_fresh found \<and> xr_status found \<in> {STARTED, EXEC_AMBIGUOUS} \<and> risk \<noteq> IDEMPOTENT
      then Refuse (HumanReviewRequired ''non-idempotent tool outcome is unknown'')
      else Run (xr_status found = SUCCEEDED \<and> xr_replay_terminal found))"

text \<open>What follows the call of the tool, which either raised or returned.\<close>

definition settle ::
    "(execution_request \<Rightarrow> execution_status \<Rightarrow> jval \<Rightarrow> 's \<Rightarrow> (unit, 's) outcome)
       \<Rightarrow> execution_request \<Rightarrow> bool \<Rightarrow> error + jval \<Rightarrow> 's \<Rightarrow> (jval, 's) outcome"
where
  "settle finish req replay_terminal called s =
     (case called of
        Inl e \<Rightarrow>
          if replay_terminal then raise_in s e
          else (let status = (if er_risk req = IDEMPOTENT then EXEC_FAILED else EXEC_AMBIGUOUS)
                in case finish req status JNull s of
                     (Inl e', s') \<Rightarrow> raise_in s' e'
                   | (Inr _, s') \<Rightarrow>
                       if status = EXEC_AMBIGUOUS
                       then raise_in s' (HumanReviewRequired ''non-idempotent tool outcome is unknown'')
                       else raise_in s' e)
      | Inr result \<Rightarrow>
          if replay_terminal then return_in s result
          else (case finish req SUCCEEDED result s of
                  (Inl e, s') \<Rightarrow> raise_in s' e
                | (Inr _, s') \<Rightarrow> return_in s' result))"

text \<open>
  The whole method. \<open>checkpoint\<close> is the fault stage marker, which only the fault injection runtime installs; \<open>call\<close> runs
  the tool, and the state it returns is the ledger as the call leaves it, with whatever others did meanwhile.
\<close>

definition execute ::
    "(execution_request \<Rightarrow> 's \<Rightarrow> (execution_record, 's) outcome)
       \<Rightarrow> (execution_request \<Rightarrow> execution_status \<Rightarrow> jval \<Rightarrow> 's \<Rightarrow> (unit, 's) outcome)
       \<Rightarrow> (execution_request \<Rightarrow> 's \<Rightarrow> (unit, 's) outcome) option
       \<Rightarrow> execution_request \<Rightarrow> ('s \<Rightarrow> (jval, 's) outcome) \<Rightarrow> 's \<Rightarrow> (jval, 's) outcome"
where
  "execute begin_op finish_op checkpoint req call s =
     (case begin_op req s of
        (Inl e, s1) \<Rightarrow> raise_in s1 e
      | (Inr found, s1) \<Rightarrow>
          (case plan_of found (er_risk req) of
             Answer v \<Rightarrow> return_in s1 v
           | Refuse e \<Rightarrow> raise_in s1 e
           | Run replay_terminal \<Rightarrow>
               (case (case checkpoint of None \<Rightarrow> return_in s1 () | Some mark \<Rightarrow> mark req s1) of
                  (Inl e, s2) \<Rightarrow> raise_in s2 e
                | (Inr _, s2) \<Rightarrow>
                    (case call s2 of (called, s3) \<Rightarrow> settle finish_op req replay_terminal called s3))))"

subsection \<open>Many workers\<close>

text \<open>
  Where a worker is: it has run \<^verbatim>\<open>begin\<close> and holds a plan to run the tool (\<open>Begun\<close>), or the tool has been started (\<open>Called\<close>).
  \<open>sy_invoked\<close> is the log of the tool starts. The step relation takes the operations of the ledger, with an
  argument for what they observe of their surroundings (clocks, races), the requests the workers make and
  what the rest of the system may do to the ledger's state.
\<close>

datatype worker = Begun execution_request bool | Called execution_request bool

record 's tool_system =
  sy_ledger :: 's
  sy_workers :: "nat \<Rightarrow> worker option"
  sy_invoked :: "execution_request list"

inductive tool_step ::
    "('o \<Rightarrow> execution_request \<Rightarrow> 's \<Rightarrow> (execution_record, 's) outcome)
       \<Rightarrow> ('o \<Rightarrow> execution_request \<Rightarrow> execution_status \<Rightarrow> jval \<Rightarrow> 's \<Rightarrow> (unit, 's) outcome)
       \<Rightarrow> ('s \<Rightarrow> 's \<Rightarrow> bool) \<Rightarrow> (execution_request \<Rightarrow> bool) \<Rightarrow> 's tool_system \<Rightarrow> 's tool_system \<Rightarrow> bool"
  for begin_op finish_op env requested
where
  start: "requested req \<Longrightarrow> sy_workers sy w = None \<Longrightarrow> begin_op obs req (sy_ledger sy) = (Inr found, l)
    \<Longrightarrow> plan_of found (er_risk req) = Run replay
    \<Longrightarrow> tool_step begin_op finish_op env requested sy
          (sy\<lparr>sy_ledger := l, sy_workers := (sy_workers sy)(w \<mapsto> Begun req replay)\<rparr>)"
| turn_away: "requested req \<Longrightarrow> begin_op obs req (sy_ledger sy) = (x, l)
    \<Longrightarrow> (\<forall>found. x = Inr found \<longrightarrow> (\<forall>replay. plan_of found (er_risk req) \<noteq> Run replay))
    \<Longrightarrow> tool_step begin_op finish_op env requested sy (sy\<lparr>sy_ledger := l\<rparr>)"
| invoke: "sy_workers sy w = Some (Begun req replay)
    \<Longrightarrow> tool_step begin_op finish_op env requested sy
          (sy\<lparr>sy_workers := (sy_workers sy)(w \<mapsto> Called req replay), sy_invoked := sy_invoked sy @ [req]\<rparr>)"
| settled: "sy_workers sy w = Some (Called req replay)
    \<Longrightarrow> tool_step begin_op finish_op env requested sy
          (sy\<lparr>sy_ledger := snd (settle (finish_op obs) req replay called (sy_ledger sy)),
              sy_workers := (sy_workers sy)(w := None)\<rparr>)"
| crash: "tool_step begin_op finish_op env requested sy (sy\<lparr>sy_workers := (sy_workers sy)(w := None)\<rparr>)"
| elsewhere: "env (sy_ledger sy) l \<Longrightarrow> tool_step begin_op finish_op env requested sy (sy\<lparr>sy_ledger := l\<rparr>)"

inductive_cases tool_stepE: "tool_step begin_op finish_op env requested sy sy'"

definition idle_system :: "'s \<Rightarrow> 's tool_system" where
  "idle_system l = \<lparr>sy_ledger = l, sy_workers = Map.empty, sy_invoked = []\<rparr>"

definition invocations :: "(execution_request \<Rightarrow> 'k) \<Rightarrow> 'k \<Rightarrow> 's tool_system \<Rightarrow> nat" where
  "invocations ident k sy = length (filter (\<lambda>req. ident req = k) (sy_invoked sy))"

text \<open>The invariant behind the main theorem: at most one worker is about to start the tool, and none once it was started.\<close>

definition begun :: "(execution_request \<Rightarrow> 'k) \<Rightarrow> 'k \<Rightarrow> 's tool_system \<Rightarrow> nat \<Rightarrow> bool" where
  "begun ident k sy w = (\<exists>req replay. sy_workers sy w = Some (Begun req replay) \<and> ident req = k)"

definition once :: "(execution_request \<Rightarrow> 'k) \<Rightarrow> ('s \<Rightarrow> 'k \<Rightarrow> execution_status option) \<Rightarrow> 'k \<Rightarrow> 's tool_system \<Rightarrow> bool" where
  "once ident status k sy =
     (status (sy_ledger sy) k \<noteq> Some EXEC_FAILED
      \<and> (\<forall>w. begun ident k sy w \<longrightarrow> status (sy_ledger sy) k \<noteq> None \<and> invocations ident k sy = 0
           \<and> (\<forall>w'. begun ident k sy w' \<longrightarrow> w' = w))
      \<and> (\<forall>w req replay. (sy_workers sy w = Some (Begun req replay) \<or> sy_workers sy w = Some (Called req replay))
           \<longrightarrow> er_risk req \<noteq> IDEMPOTENT \<or> ident req \<noteq> k)
      \<and> (0 < invocations ident k sy \<longrightarrow> status (sy_ledger sy) k \<noteq> None)
      \<and> invocations ident k sy \<le> 1)"

text \<open>One worker alone, from \<^verbatim>\<open>begin\<close> to the end, is a path of the step relation.\<close>

lemma execute_is_a_path:
  assumes "requested req" and "\<And>l. fst (call l) = called \<and> snd (call l) = l"
  shows "reachable_from (tool_step begin_op finish_op env requested)
    (idle_system l) \<lparr>sy_ledger = snd (execute (begin_op obs) (finish_op obs) None req call l), sy_workers = Map.empty,
      sy_invoked = (case begin_op obs req l of
          (Inr found, _) \<Rightarrow> (case plan_of found (er_risk req) of Run _ \<Rightarrow> [req] | _ \<Rightarrow> [])
        | _ \<Rightarrow> [])\<rparr>"
proof -
  let ?step = "tool_step begin_op finish_op env requested"
  have call: "call l = (called, l)" for l using assms(2) by (metis prod.collapse)
  obtain x l1 where b: "begin_op obs req l = (x, l1)" by fastforce
  show ?thesis
  proof (cases "\<exists>found replay. x = Inr found \<and> plan_of found (er_risk req) = Run replay")
    case True
    then obtain found replay where x: "x = Inr found" "plan_of found (er_risk req) = Run replay" by blast
    let ?s1 = "\<lparr>sy_ledger = l1, sy_workers = [0 \<mapsto> Begun req replay], sy_invoked = []\<rparr>"
    let ?s2 = "\<lparr>sy_ledger = l1, sy_workers = [0 \<mapsto> Called req replay], sy_invoked = [req]\<rparr>"
    let ?s3 = "\<lparr>sy_ledger = snd (settle (finish_op obs) req replay called l1), sy_workers = Map.empty, sy_invoked = [req]\<rparr>"
    have "?step (idle_system l) ?s1"
      using tool_step.start [of requested req "idle_system l" 0 begin_op obs found l1 replay] assms(1) b x by (simp add: idle_system_def)
    moreover have "?step ?s1 ?s2" using tool_step.invoke [of ?s1 0 req replay] by simp
    moreover have "?step ?s2 ?s3" using tool_step.settled [of ?s2 0 req replay begin_op finish_op env requested obs called] by simp
    ultimately have "reachable_from ?step (idle_system l) ?s3" by (blast intro: reachable_from.intros)
    then show ?thesis by (simp add: execute_def b x call)
  next
    case False
    then have "?step (idle_system l) \<lparr>sy_ledger = l1, sy_workers = Map.empty, sy_invoked = []\<rparr>"
      using tool_step.turn_away [of requested req begin_op obs "idle_system l" x l1] assms(1) b by (simp add: idle_system_def)
    then show ?thesis using False b
      by (auto simp: execute_def intro: reachable_from_step split: sum.split plan.split)
  qed
qed

subsection \<open>The contract of an execution ledger\<close>

text \<open>
  \<open>status l k\<close> is the recorded status of an execution. A ledger promises: a call that is not idempotent is told to run only if
  nothing is recorded yet, or a failure; what is recorded stays recorded; a failure appears only where \<^verbatim>\<open>finish\<close> writes it.
\<close>

locale execution_ledger =
  fixes begin_op :: "'o \<Rightarrow> execution_request \<Rightarrow> 's \<Rightarrow> (execution_record, 's) outcome"
    and finish_op :: "'o \<Rightarrow> execution_request \<Rightarrow> execution_status \<Rightarrow> jval \<Rightarrow> 's \<Rightarrow> (unit, 's) outcome"
    and env :: "'s \<Rightarrow> 's \<Rightarrow> bool"
    and ident :: "execution_request \<Rightarrow> 'k"
    and status :: "'s \<Rightarrow> 'k \<Rightarrow> execution_status option"
    and inv :: "'s \<Rightarrow> bool"
  assumes begin_runs: "inv l \<Longrightarrow> begin_op obs req l = (Inr found, l') \<Longrightarrow> plan_of found (er_risk req) = Run replay
      \<Longrightarrow> er_risk req \<noteq> IDEMPOTENT
      \<Longrightarrow> status l (ident req) = Some EXEC_FAILED \<or> (status l (ident req) = None \<and> status l' (ident req) = Some STARTED)"
    and begin_keeps: "begin_op obs req l = (x, l') \<Longrightarrow> status l k \<noteq> None \<Longrightarrow> status l' k \<noteq> None"
    and begin_fails_nothing: "begin_op obs req l = (x, l') \<Longrightarrow> status l' k = Some EXEC_FAILED \<Longrightarrow> status l k = Some EXEC_FAILED"
    and finish_writes: "finish_op obs req st v l = (y, l') \<Longrightarrow>
      status l' k = status l k \<or> (k = ident req \<and> status l' k = Some st)"
    and env_keeps: "env l l' \<Longrightarrow> status l' k = status l k"
    and begin_inv: "inv l \<Longrightarrow> inv (snd (begin_op obs req l))"
    and finish_inv: "inv l \<Longrightarrow> inv (snd (finish_op obs req st v l))"
    and env_inv: "env l l' \<Longrightarrow> inv l \<Longrightarrow> inv l'"
begin

abbreviation safe_requests :: "(execution_request \<Rightarrow> bool) \<Rightarrow> 'k \<Rightarrow> bool" where
  "safe_requests requested k \<equiv> (\<forall>req. requested req \<and> ident req = k \<longrightarrow> er_risk req \<noteq> IDEMPOTENT)"

abbreviation once_here :: "'k \<Rightarrow> 's tool_system \<Rightarrow> bool" where
  "once_here \<equiv> once ident status"

lemma once_workers:
  assumes "once_here k sy" and "sy_workers sy w = Some (Begun req replay) \<or> sy_workers sy w = Some (Called req replay)"
  shows "er_risk req \<noteq> IDEMPOTENT \<or> ident req \<noteq> k"
  using assms unfolding once_def by blast

lemma once_fewer:
  assumes "once_here k sy" and "\<And>w x. sy_workers sy' w = Some x \<Longrightarrow> sy_workers sy w = Some x"
    and "sy_invoked sy' = sy_invoked sy" and "status (sy_ledger sy') k \<noteq> Some EXEC_FAILED"
    and "status (sy_ledger sy) k \<noteq> None \<Longrightarrow> status (sy_ledger sy') k \<noteq> None"
  shows "once_here k sy'"
proof -
  have b: "begun ident k sy' w \<Longrightarrow> begun ident k sy w" for w using assms(2) by (auto simp: begun_def)
  have i: "invocations ident k sy' = invocations ident k sy" by (simp add: invocations_def assms(3))
  have w: "er_risk req \<noteq> IDEMPOTENT \<or> ident req \<noteq> k"
    if "sy_workers sy' w = Some (Begun req replay) \<or> sy_workers sy' w = Some (Called req replay)" for w req replay
    using that assms(2) once_workers [OF assms(1)] by blast
  show ?thesis using assms(1,4,5) b i w unfolding once_def by metis
qed

lemma settle_status:
  assumes "er_risk req \<noteq> IDEMPOTENT \<or> ident req \<noteq> k" and "status l k \<noteq> Some EXEC_FAILED"
  shows "status (snd (settle (finish_op obs) req replay called l)) k \<noteq> Some EXEC_FAILED"
    and "status l k \<noteq> None \<Longrightarrow> status (snd (settle (finish_op obs) req replay called l)) k \<noteq> None"
proof -
  have f: "status (snd (finish_op obs req st v l)) k = status l k \<or> (k = ident req \<and> status (snd (finish_op obs req st v l)) k = Some st)" for st v
    using finish_writes [of obs req st v l _ "snd (finish_op obs req st v l)" k] by (metis prod.collapse)
  have "\<exists>st v. snd (settle (finish_op obs) req replay called l) = snd (finish_op obs req st v l) \<and> (ident req = k \<longrightarrow> st \<noteq> EXEC_FAILED)
      \<or> snd (settle (finish_op obs) req replay called l) = l"
    using assms(1) by (cases called) (auto simp: settle_def Let_def split: prod.split sum.split, (metis execution_status.distinct snd_conv)+)
  then show "status (snd (settle (finish_op obs) req replay called l)) k \<noteq> Some EXEC_FAILED"
    "status l k \<noteq> None \<Longrightarrow> status (snd (settle (finish_op obs) req replay called l)) k \<noteq> None"
    using f assms(2) by (metis option.inject option.distinct(1))+
qed

lemma once_start:
  assumes "once_here k sy" and "safe_requests requested k" and "requested req" and "sy_workers sy w = None"
    and inv: "inv (sy_ledger sy)"
    and begun: "begin_op obs req (sy_ledger sy) = (Inr found, l)" and plan: "plan_of found (er_risk req) = Run replay"
  shows "once_here k (sy\<lparr>sy_ledger := l, sy_workers := (sy_workers sy)(w \<mapsto> Begun req replay)\<rparr>)"
proof (cases "ident req = k")
  case True
  then have "er_risk req \<noteq> IDEMPOTENT" using assms(2,3) by blast
  with begin_runs [OF inv begun plan] True assms(1) have st: "status (sy_ledger sy) k = None" "status l k = Some STARTED"
    by (auto simp: once_def)
  then have none: "\<not> begun ident k sy w'" "invocations ident k sy = 0" for w'
    using assms(1) by (auto simp: once_def)
  have "begun ident k (sy\<lparr>sy_ledger := l, sy_workers := (sy_workers sy)(w \<mapsto> Begun req replay)\<rparr>) w' \<longleftrightarrow> w' = w" for w'
    using none(1) [of w'] True by (auto simp: begun_def)
  then show ?thesis using assms(1) st none(2) \<open>er_risk req \<noteq> IDEMPOTENT\<close>
    by (auto simp: once_def invocations_def)
next
  case False
  have b: "begun ident k (sy\<lparr>sy_ledger := l, sy_workers := (sy_workers sy)(w \<mapsto> Begun req replay)\<rparr>) w' \<longleftrightarrow> begun ident k sy w'" for w'
    using False assms(4) by (auto simp: begun_def)
  show ?thesis using assms(1) begin_keeps [OF begun] begin_fails_nothing [OF begun] False b
    unfolding once_def invocations_def by auto
qed

lemma once_step:
  assumes "tool_step begin_op finish_op env requested sy sy'" and "once_here k sy" and "safe_requests requested k"
    and "inv (sy_ledger sy)"
  shows "once_here k sy'"
  using assms(1)
proof (cases rule: tool_step.cases)
  case (start req w obs found l replay)
  then show ?thesis using once_start [OF assms(2,3)] assms(4) by simp
next
  case (turn_away req obs x l)
  show ?thesis unfolding turn_away(1)
    by (rule once_fewer [OF assms(2)])
       (use assms(2) begin_keeps [OF turn_away(3), of k] begin_fails_nothing [OF turn_away(3), of k] in \<open>auto simp: once_def\<close>)
next
  case (invoke w req replay)
  show ?thesis
  proof (cases "ident req = k")
    case True
    with invoke have w: "begun ident k sy w" by (auto simp: begun_def)
    then have "status (sy_ledger sy) k \<noteq> None" "invocations ident k sy = 0" "begun ident k sy w' \<Longrightarrow> w' = w" for w'
      using assms(2) by (auto simp: once_def)
    moreover have "begun ident k sy' w' \<longleftrightarrow> begun ident k sy w' \<and> w' \<noteq> w" for w' by (auto simp: begun_def invoke(1))
    moreover have "invocations ident k sy' = Suc (invocations ident k sy)" using True by (simp add: invocations_def invoke(1))
    moreover have "\<not> begun ident k sy' w'" for w' using calculation by blast
    moreover have "er_risk r \<noteq> IDEMPOTENT \<or> ident r \<noteq> k"
      if "sy_workers sy' w' = Some (Begun r p) \<or> sy_workers sy' w' = Some (Called r p)" for w' r p
      using that invoke(2) once_workers [OF assms(2)] by (auto simp: invoke(1) split: if_splits)
    ultimately show ?thesis using assms(2) unfolding once_def by (simp add: invoke(1))
  next
    case False
    have "begun ident k sy' w' \<longleftrightarrow> begun ident k sy w'" for w' using False invoke(2) by (auto simp: begun_def invoke(1))
    moreover have "invocations ident k sy' = invocations ident k sy" using False by (simp add: invocations_def invoke(1))
    moreover have "er_risk r \<noteq> IDEMPOTENT \<or> ident r \<noteq> k"
      if "sy_workers sy' w' = Some (Begun r p) \<or> sy_workers sy' w' = Some (Called r p)" for w' r p
      using that False once_workers [OF assms(2)] by (auto simp: invoke(1) split: if_splits)
    ultimately show ?thesis using assms(2) unfolding once_def by (simp add: invoke(1))
  qed
next
  case (settled w req replay obs called)
  have safe: "er_risk req \<noteq> IDEMPOTENT \<or> ident req \<noteq> k" using once_workers [OF assms(2)] settled(2) by blast
  show ?thesis unfolding settled(1)
  proof (rule once_fewer [OF assms(2)])
    have "status (sy_ledger sy) k \<noteq> Some EXEC_FAILED" using assms(2) by (simp add: once_def)
    note settle_status [OF safe this, of obs replay called]
    then show "status (sy_ledger (sy\<lparr>sy_ledger := snd (settle (finish_op obs) req replay called (sy_ledger sy)),
          sy_workers := (sy_workers sy)(w := None)\<rparr>)) k \<noteq> Some EXEC_FAILED"
      "status (sy_ledger sy) k \<noteq> None \<Longrightarrow> status (sy_ledger (sy\<lparr>sy_ledger := snd (settle (finish_op obs) req replay called (sy_ledger sy)),
          sy_workers := (sy_workers sy)(w := None)\<rparr>)) k \<noteq> None" by simp_all
  qed (simp_all split: if_splits)
next
  case (crash w)
  show ?thesis unfolding crash
    by (rule once_fewer [OF assms(2)]) (use assms(2) in \<open>auto simp: once_def split: if_splits\<close>)
next
  case (elsewhere l)
  show ?thesis unfolding elsewhere(1)
    by (rule once_fewer [OF assms(2)]) (use assms(2) env_keeps [OF elsewhere(2), of k] in \<open>auto simp: once_def\<close>)
qed

lemma inv_step:
  assumes "tool_step begin_op finish_op env requested sy sy'" and "inv (sy_ledger sy)"
  shows "inv (sy_ledger sy')"
  using assms
proof (cases rule: tool_step.cases)
  case (start req w obs found l replay)
  then show ?thesis using begin_inv [OF assms(2), of obs req] by simp
next
  case (turn_away req obs x l)
  then show ?thesis using begin_inv [OF assms(2), of obs req] by simp
next
  case (settled w req replay obs called)
  have "inv (snd (finish_op obs req st v (sy_ledger sy)))" for st v by (rule finish_inv [OF assms(2)])
  then have "inv (snd (settle (finish_op obs) req replay called (sy_ledger sy)))"
    using assms(2) by (cases called) (auto simp: settle_def Let_def split: prod.split sum.split, (metis snd_conv)+)
  then show ?thesis by (simp add: settled(1))
qed (use assms(2) env_inv in auto)

lemma runs_at_most_once:
  assumes "reachable_from (tool_step begin_op finish_op env requested) (idle_system l) sy"
    and "status l k = None" and "safe_requests requested k" and "inv l"
  shows "invocations ident k sy \<le> 1"
proof -
  have "once_here k sy \<and> inv (sy_ledger sy)" using assms(1)
  proof (induction rule: reachable_from.induct)
    case here
    show ?case using assms(2,4) by (simp add: once_def idle_system_def begun_def invocations_def)
  next
    case (there s t)
    then show ?case using once_step inv_step assms(3) by blast
  qed
  then show ?thesis by (simp add: once_def)
qed

end

text \<open>The in-memory ledger; it never stores a record that is marked fresh.\<close>

definition memory_status :: "memory_executions \<Rightarrow> string \<Rightarrow> execution_status option" where
  "memory_status records k = map_option xr_status (records k)"

definition memory_not_fresh :: "memory_executions \<Rightarrow> bool" where
  "memory_not_fresh records = (\<forall>k r. records k = Some r \<longrightarrow> \<not> xr_fresh r)"

interpretation memory_execution: execution_ledger "\<lambda>_ :: unit. memory_begin" "\<lambda>_ :: unit. memory_finish" "(=)"
  er_execution_key memory_status memory_not_fresh
proof unfold_locales
  fix req l found l' replay
  assume a: "memory_not_fresh l" "memory_begin req l = (Inr found, l')" "plan_of found (er_risk req) = Run replay" "er_risk req \<noteq> IDEMPOTENT"
  show "memory_status l (er_execution_key req) = Some EXEC_FAILED
    \<or> memory_status l (er_execution_key req) = None \<and> memory_status l' (er_execution_key req) = Some STARTED"
  proof (cases "l (er_execution_key req)")
    case None
    with a show ?thesis by (auto simp: memory_begin_def memory_status_def new_execution_record_def Let_def)
  next
    case (Some e)
    with a have "found = e" "\<not> xr_fresh e" by (auto simp: memory_begin_def memory_not_fresh_def Let_def)
    with a(3,4) Some show ?thesis by (cases "xr_status e") (auto simp: plan_of_def memory_status_def split: if_splits)
  qed
qed (auto simp: memory_begin_def memory_finish_def memory_status_def memory_not_fresh_def new_execution_record_def Let_def split: option.splits if_splits)

end
