(* ===== verification/Pg_Tools.thy ===== *)
theory Pg_Tools
  imports Pg_Mailbox Tool_Governance Tool_Execution
begin

text \<open>
  The PostgreSQL ledgers of \<^verbatim>\<open>src/trpc_service/tool/postgres.py\<close>: monthly budgets, confirmation challenges, tool
  executions and the audit log, over the tables of \<^verbatim>\<open>0001_production_runtime.py\<close>, \<^verbatim>\<open>0003_tenant_budget_usage.py\<close> and
  \<^verbatim>\<open>0010_consistency_guards.py\<close>. The database is that of the mailbox store, with the tables these ledgers use added. A
  table is a function of its primary key; \<^verbatim>\<open>confirmation_challenges\<close> is one of its unique pair of tenant and token hash,
  and its \<^verbatim>\<open>challenge_id\<close>, which the code only compares with \<^verbatim>\<open>None\<close>, is left out, as are columns that are never read
  and have a default. A \<^verbatim>\<open>bigint\<close> that comes from a caller is an integer with its range checked.

  The month of a budget account is \<^verbatim>\<open>date_trunc('month',now())::date\<close>, which depends on the time zone of the database
  session: \<open>month_of\<close> is an argument. A transaction of \<^verbatim>\<open>begin\<close> may read the ledger before a concurrent insert commits and
  meet it afterwards; \<open>early\<close> says that this happened to its first \<^verbatim>\<open>SELECT\<close>.
\<close>

subsection \<open>Tables\<close>

record turn_row =
  tn_session_id :: string
  tn_status :: string
  tn_fencing_token :: nat

record execution_row =
  te_turn_id :: string
  te_tool_name :: string
  te_classification :: string
  te_arguments_hash :: string
  te_status :: string
  te_completed_at :: "time option"
  te_lease_owner :: string
  te_lease_epoch :: nat

record challenge_row =
  ch_principal_id :: string
  ch_session_id :: string
  ch_tool_name :: string
  ch_arguments_hash :: string
  ch_expires_at :: time
  ch_consumed_at :: "time option"

record budget_row =
  bu_token_units :: int
  bu_cost_units :: int
  bu_updated_at :: time

record audit_row =
  au_tenant_id :: string
  au_user_id :: string
  au_session_id :: string
  au_tool_name :: string
  au_decision :: string
  au_trace_id :: string
  au_config_version :: nat
  au_policy_version :: nat
  au_metadata_json :: string

record tool_db = pg_db +
  db_turns :: "(string \<times> string) \<Rightarrow> turn_row option"
  db_executions :: "(string \<times> string) \<Rightarrow> execution_row option"
  db_challenges :: "(string \<times> string) \<Rightarrow> challenge_row option"
  db_budget :: "(string \<times> int) \<Rightarrow> budget_row option"
  db_audit :: "audit_row list"

definition in_int8 :: "int \<Rightarrow> bool" where
  "in_int8 p = (- (2 ^ 63) \<le> p \<and> p < 2 ^ 63)"

subsection \<open>Budgets\<close>

text \<open>
  One statement: the insert happens only if the cost alone is within the limit; on a conflict the update happens only if
  the sum is. \<open>Inr None\<close> is no row returned.
\<close>

definition upsert_usage ::
    "string \<times> int \<Rightarrow> int \<Rightarrow> int \<Rightarrow> int \<Rightarrow> time \<Rightarrow> tool_db \<Rightarrow> error + (tool_db option)"
where
  "upsert_usage k token_units cost_units monthly_limit now db =
     (if monthly_limit < cost_units then Inr None
      else (case db_budget db k of
              None \<Rightarrow>
                if fst k \<notin> set (db_tenants db) then Inl foreign_key_violation
                else Inr (Some (db\<lparr>db_budget := (db_budget db)(k \<mapsto>
                       \<lparr>bu_token_units = token_units, bu_cost_units = cost_units, bu_updated_at = now\<rparr>)\<rparr>))
            | Some u \<Rightarrow>
                if \<not> in_int8 (bu_cost_units u + cost_units) then Inl data_error
                else if monthly_limit < bu_cost_units u + cost_units then Inr None
                else if \<not> in_int8 (bu_token_units u + token_units) then Inl data_error
                else Inr (Some (db\<lparr>db_budget := (db_budget db)(k \<mapsto>
                       \<lparr>bu_token_units = bu_token_units u + token_units,
                        bu_cost_units = bu_cost_units u + cost_units, bu_updated_at = now\<rparr>)\<rparr>))))"

definition pg_reserve ::
    "(time \<Rightarrow> int) \<Rightarrow> time \<Rightarrow> string \<Rightarrow> int \<Rightarrow> int \<Rightarrow> int \<Rightarrow> tool_db \<Rightarrow> (bool, tool_db) outcome"
where
  "pg_reserve month_of now tenant_id token_units cost_units monthly_limit db =
     (if token_units < 0 \<or> cost_units < 0 then raise_in db (ValueError ''budget reservation cannot be negative'')
      else transaction db
        (if \<not> (in_int8 token_units \<and> in_int8 cost_units \<and> in_int8 monthly_limit) then Inl data_error
         else (case upsert_usage (tenant_id, month_of now) token_units cost_units monthly_limit now db of
                 Inl e \<Rightarrow> Inl e
               | Inr None \<Rightarrow> Inr (False, db)
               | Inr (Some db') \<Rightarrow> Inr (True, db'))))"

subsection \<open>Confirmation challenges\<close>

text \<open>\<^verbatim>\<open>datetime.fromtimestamp\<close> accepts the years 1 to 9999.\<close>

definition timestamp_ok :: "int \<Rightarrow> bool" where
  "timestamp_ok s = (- 62135596800 \<le> s \<and> s \<le> 253402300799)"

definition token_hash :: "token_id \<Rightarrow> string option" where
  "token_hash t = map_option (\<lambda>bs. hexdigest (sha256 bs)) (utf8_points t)"

definition unicode_error :: error where
  "unicode_error = ValueError ''surrogates not allowed''"

definition pg_issue :: "token_id \<Rightarrow> int \<Rightarrow> confirmation_scope \<Rightarrow> tool_db \<Rightarrow> (unit, tool_db) outcome" where
  "pg_issue t expires_at sc db =
     (case token_hash t of
        None \<Rightarrow> raise_in db unicode_error
      | Some h \<Rightarrow>
          if \<not> timestamp_ok expires_at then raise_in db (ValueError ''year is out of range'')
          else transaction db
            (let k = (cs_tenant_id sc, h)
             in if db_challenges db k \<noteq> None then Inl unique_violation
                else if fst k \<notin> set (db_tenants db) then Inl foreign_key_violation
                else Inr ((), db\<lparr>db_challenges := (db_challenges db)(k \<mapsto>
                       \<lparr>ch_principal_id = cs_principal_id sc, ch_session_id = cs_session_id sc,
                        ch_tool_name = cs_tool_name sc, ch_arguments_hash = cs_arguments_hash sc,
                        ch_expires_at = seconds expires_at, ch_consumed_at = None\<rparr>)\<rparr>)))"

definition challenge_hit :: "time \<Rightarrow> confirmation_scope \<Rightarrow> challenge_row \<Rightarrow> bool" where
  "challenge_hit now sc ch =
     (ch_principal_id ch = cs_principal_id sc \<and> ch_session_id ch = cs_session_id sc \<and> ch_tool_name ch = cs_tool_name sc
      \<and> ch_arguments_hash ch = cs_arguments_hash sc \<and> ch_consumed_at ch = None \<and> now \<le> ch_expires_at ch)"

definition pg_consume :: "time \<Rightarrow> token_id \<Rightarrow> confirmation_scope \<Rightarrow> tool_db \<Rightarrow> (bool, tool_db) outcome" where
  "pg_consume now t sc db =
     transaction db
       (case token_hash t of
          None \<Rightarrow> Inl unicode_error
        | Some h \<Rightarrow>
            (case db_challenges db (cs_tenant_id sc, h) of
               None \<Rightarrow> Inr (False, db)
             | Some ch \<Rightarrow>
                 if challenge_hit now sc ch
                 then Inr (True, db\<lparr>db_challenges := (db_challenges db)((cs_tenant_id sc, h) \<mapsto> ch\<lparr>ch_consumed_at := Some now\<rparr>)\<rparr>)
                 else Inr (False, db)))"

subsection \<open>Tool executions\<close>

definition execution_status_of :: "string \<Rightarrow> error + execution_status" where
  "execution_status_of value =
     (if value = ''started'' then Inr STARTED
      else if value = ''succeeded'' then Inr SUCCEEDED
      else if value = ''failed'' then Inr EXEC_FAILED
      else if value = ''ambiguous'' then Inr EXEC_AMBIGUOUS
      else Inl (RuntimeError ''tool execution has an invalid status''))"

definition risk_value :: "tool_risk \<Rightarrow> string" where
  "risk_value r =
     (case r of IDEMPOTENT \<Rightarrow> ''idempotent'' | NON_IDEMPOTENT \<Rightarrow> ''non_idempotent'' | UNKNOWN_RISK \<Rightarrow> ''unknown'')"

definition turn_not_current :: error where
  "turn_not_current = ToolExecutionConflict ''tool execution session lease is no longer current''"

text \<open>The session and turn rows are locked, so the two reads of each agree; \<open>now\<close> is the clock of the last one.\<close>

definition assert_active_turn :: "string \<Rightarrow> string \<Rightarrow> string \<Rightarrow> int \<Rightarrow> time \<Rightarrow> tool_db \<Rightarrow> error + unit" where
  "assert_active_turn tenant_id turn_id owner_id fencing_token now db =
     (case db_turns db (tenant_id, turn_id) of
        None \<Rightarrow> Inl turn_not_current
      | Some turn \<Rightarrow>
          (case db_sessions db (tenant_id, tn_session_id turn) of
             None \<Rightarrow> Inl turn_not_current
           | Some session \<Rightarrow>
               if tn_status turn \<noteq> ''processing'' \<or> int (tn_fencing_token turn) \<noteq> fencing_token
                  \<or> sr_lease_owner session \<noteq> Some owner_id \<or> int (sr_lease_epoch session) \<noteq> fencing_token
                  \<or> \<not> later_than (sr_lease_expires_at session) now
               then Inl turn_not_current else Inr ()))"

definition require_fencing :: "string option \<Rightarrow> jval \<Rightarrow> error + (string \<times> int)" where
  "require_fencing owner_id fencing_token =
     (case owner_id of
        None \<Rightarrow> Inl (ValueError ''tool execution owner_id is required for fencing'')
      | Some owner \<Rightarrow>
          if strip_chars py_whitespace owner = [] then Inl (ValueError ''tool execution owner_id is required for fencing'')
          else (case fencing_token of
                  JInt n \<Rightarrow>
                    if n < 1 then Inl (ValueError ''tool execution fencing_token must be a positive integer'')
                    else Inr (owner, n)
                | _ \<Rightarrow> Inl (ValueError ''tool execution fencing_token must be a positive integer'')))"

abbreviation execution_id :: "execution_request \<Rightarrow> string \<times> string" where
  "execution_id req \<equiv> (er_tenant_id req, er_execution_key req)"

text \<open>The update that takes over the fence; the first of the two also asks that the fence is a different one.\<close>

definition take_fence :: "bool \<Rightarrow> string \<times> string \<Rightarrow> string \<Rightarrow> int \<Rightarrow> tool_db \<Rightarrow> tool_db option" where
  "take_fence distinct_only k owner_id fencing_token db =
     (case db_executions db k of
        None \<Rightarrow> None
      | Some x \<Rightarrow>
          if te_status x \<in> {''started'', ''failed'', ''ambiguous''}
             \<and> (distinct_only \<longrightarrow> te_lease_owner x \<noteq> owner_id \<or> int (te_lease_epoch x) \<noteq> fencing_token)
          then Some (db\<lparr>db_executions := (db_executions db)(k \<mapsto>
                 x\<lparr>te_lease_owner := owner_id, te_lease_epoch := nat fencing_token, te_status := ''started'',
                   te_completed_at := None\<rparr>)\<rparr>)
          else None)"

text \<open>The rules for a row that is already there; both places in \<^verbatim>\<open>begin\<close> apply them, with a different message.\<close>

definition begin_existing ::
    "string \<Rightarrow> bool \<Rightarrow> execution_request \<Rightarrow> string \<Rightarrow> int \<Rightarrow> time \<Rightarrow> execution_row \<Rightarrow> tool_db
       \<Rightarrow> error + (execution_record \<times> tool_db)"
where
  "begin_existing crossed distinct_only req owner_id fencing_token now existing db =
     (let key = er_execution_key req;
          active = assert_active_turn (er_tenant_id req) (te_turn_id existing) owner_id fencing_token now db
      in case execution_status_of (te_status existing) of
           Inl e \<Rightarrow> Inl e
         | Inr status \<Rightarrow>
             if status = SUCCEEDED then
               if er_risk req = IDEMPOTENT then
                 (case active of
                    Inl e \<Rightarrow> Inl e
                  | Inr _ \<Rightarrow> Inr ((new_execution_record key status)\<lparr>xr_replay_terminal := True\<rparr>, db))
               else Inr (new_execution_record key status, db)
             else
               (case active of
                  Inl e \<Rightarrow> Inl e
                | Inr _ \<Rightarrow>
                    if te_lease_owner existing = owner_id \<and> int (te_lease_epoch existing) = fencing_token
                    then Inr (new_execution_record key status, db)
                    else if er_risk req \<noteq> IDEMPOTENT then Inl (ToolExecutionConflict crossed)
                    else (case take_fence distinct_only (execution_id req) owner_id fencing_token db of
                            None \<Rightarrow> Inl (ToolExecutionConflict ''tool execution was changed while taking its fence'')
                          | Some db' \<Rightarrow> Inr ((new_execution_record key STARTED)\<lparr>xr_fresh := True\<rparr>, db'))))"

definition insert_execution :: "execution_request \<Rightarrow> string \<Rightarrow> string \<Rightarrow> int \<Rightarrow> tool_db \<Rightarrow> error + tool_db" where
  "insert_execution req turn_id owner_id fencing_token db =
     (if er_tenant_id req \<notin> set (db_tenants db) \<or> db_turns db (er_tenant_id req, turn_id) = None
      then Inl foreign_key_violation
      else Inr (db\<lparr>db_executions := (db_executions db)(execution_id req \<mapsto>
             \<lparr>te_turn_id = turn_id, te_tool_name = er_tool_name req, te_classification = risk_value (er_risk req),
              te_arguments_hash = er_arguments_hash req, te_status = ''started'', te_completed_at = None,
              te_lease_owner = owner_id, te_lease_epoch = nat fencing_token\<rparr>)\<rparr>))"

definition pg_begin :: "(nat \<Rightarrow> time) \<Rightarrow> bool \<Rightarrow> execution_request \<Rightarrow> tool_db \<Rightarrow> (execution_record, tool_db) outcome" where
  "pg_begin clk early req db =
     (case require_fencing (er_owner_id req) (er_fencing_token req) of
        Inl e \<Rightarrow> raise_in db e
      | Inr (owner_id, fencing_token) \<Rightarrow>
          (case uuid_of (er_turn_id req) of
             None \<Rightarrow> raise_in db (ValueError ''badly formed hexadecimal UUID string'')
           | Some turn_id \<Rightarrow>
               transaction db
                 (case (if early then None else db_executions db (execution_id req)) of
                    Some existing \<Rightarrow>
                      begin_existing ''non-idempotent tool execution crossed a session fence'' True req owner_id
                        fencing_token (clk 0) existing db
                  | None \<Rightarrow>
                      (case assert_active_turn (er_tenant_id req) turn_id owner_id fencing_token (clk 0) db of
                         Inl e \<Rightarrow> Inl e
                       | Inr _ \<Rightarrow>
                           (case db_executions db (execution_id req) of
                              Some existing \<Rightarrow>
                                begin_existing ''tool execution fencing token is no longer current'' False req owner_id
                                  fencing_token (clk 1) existing db
                            | None \<Rightarrow>
                                (case insert_execution req turn_id owner_id fencing_token db of
                                   Inl e \<Rightarrow> Inl e
                                 | Inr db' \<Rightarrow>
                                     Inr ((new_execution_record (er_execution_key req) STARTED)\<lparr>xr_fresh := True\<rparr>, db')))))))"

definition not_owned :: error where
  "not_owned = RuntimeError ''tool execution does not exist or is no longer owned''"

definition pg_finish ::
    "(nat \<Rightarrow> time) \<Rightarrow> execution_request \<Rightarrow> execution_status \<Rightarrow> jval \<Rightarrow> tool_db \<Rightarrow> (unit, tool_db) outcome"
where
  "pg_finish clk req status result db =
     (if status = STARTED then raise_in db (ValueError ''tool execution finish requires a terminal status'')
      else (case require_fencing (er_owner_id req) (er_fencing_token req) of
              Inl e \<Rightarrow> raise_in db e
            | Inr (owner_id, fencing_token) \<Rightarrow>
                transaction db
                  (case db_executions db (execution_id req) of
                     None \<Rightarrow> Inl not_owned
                   | Some existing \<Rightarrow>
                       (case execution_status_of (te_status existing) of
                          Inl e \<Rightarrow> Inl e
                        | Inr current \<Rightarrow>
                            if current \<noteq> STARTED then Inl not_owned
                            else if te_lease_owner existing \<noteq> owner_id \<or> int (te_lease_epoch existing) \<noteq> fencing_token
                            then Inl (ToolExecutionConflict ''tool execution finish crossed a session fence'')
                            else (case assert_active_turn (er_tenant_id req) (te_turn_id existing) owner_id fencing_token (clk 0) db of
                                    Inl e \<Rightarrow> Inl e
                                  | Inr _ \<Rightarrow>
                                      (case assert_active_turn (er_tenant_id req) (te_turn_id existing) owner_id
                                              fencing_token (clk 1) db of
                                         Inl _ \<Rightarrow> Inl not_owned
                                       | Inr _ \<Rightarrow>
                                           Inr ((), db\<lparr>db_executions := (db_executions db)(execution_id req \<mapsto>
                                             existing\<lparr>te_status := execution_status_value status,
                                                      te_completed_at := Some (clk 1)\<rparr>)\<rparr>)))))))"

subsection \<open>The audit log and the production pipeline\<close>

definition pg_record_audit ::
    "tenant_context \<Rightarrow> tenant_config \<Rightarrow> string \<Rightarrow> decision \<Rightarrow> string \<Rightarrow> tool_db \<Rightarrow> (unit, tool_db) outcome"
where
  "pg_record_audit context config tool_name decision reason db =
     transaction db
       (if tc_tenant_id context \<notin> set (db_tenants db) then Inl foreign_key_violation
        else Inr ((), db\<lparr>db_audit := db_audit db @
               [\<lparr>au_tenant_id = tc_tenant_id context, au_user_id = tc_principal_id context,
                 au_session_id = tc_session_id context, au_tool_name = tool_name,
                 au_decision = decision_value decision, au_trace_id = tc_trace_id context,
                 au_config_version = cf_version config, au_policy_version = cf_policy_version config,
                 au_metadata_json = json_dumps (JObj [(''reason'', JStr reason)])\<rparr>]\<rparr>))"

definition production_pipeline ::
    "(time \<Rightarrow> int) \<Rightarrow> safety_guard \<Rightarrow> confirmation_service \<Rightarrow> tool_db pipeline"
where
  "production_pipeline month_of guard sv =
     \<lparr>gp_scan = scan guard, gp_confirmations = sv, gp_consume = pg_consume, gp_reserve = pg_reserve month_of,
      gp_audit = Some pg_record_audit\<rparr>"

subsection \<open>The ledgers keep their contracts\<close>

definition pg_spent :: "tool_db \<Rightarrow> token_id \<Rightarrow> string \<Rightarrow> bool" where
  "pg_spent db t tenant_id =
     (\<exists>h ch. token_hash t = Some h \<and> db_challenges db (tenant_id, h) = Some ch \<and> ch_consumed_at ch \<noteq> None)"

definition pg_spend :: "tool_db \<Rightarrow> string \<times> int \<Rightarrow> int" where
  "pg_spend db k = (case db_budget db k of None \<Rightarrow> 0 | Some u \<Rightarrow> bu_cost_units u)"

definition month_account :: "(time \<Rightarrow> int) \<Rightarrow> time \<Rightarrow> string \<Rightarrow> string \<times> int" where
  "month_account month_of now tenant_id = (tenant_id, month_of now)"

definition pg_status :: "tool_db \<Rightarrow> string \<times> string \<Rightarrow> execution_status option" where
  "pg_status db k =
     (case db_executions db k of
        None \<Rightarrow> None
      | Some x \<Rightarrow> (case execution_status_of (te_status x) of Inl _ \<Rightarrow> None | Inr st \<Rightarrow> Some st))"

definition ledger_untouched :: "tool_db \<Rightarrow> tool_db \<Rightarrow> bool" where
  "ledger_untouched db db' = (db_executions db' = db_executions db)"

lemma transaction_cases:
  "transaction db body = (x, db') \<longleftrightarrow> (\<exists>e. body = Inl e \<and> x = Inl e \<and> db' = db) \<or> (\<exists>a. body = Inr (a, db') \<and> x = Inr a)"
  by (auto simp: transaction_def split: sum.splits prod.splits)

lemma status_values [simp]:
  "execution_status_of (execution_status_value st) = Inr st"
  "execution_status_of ''started'' = Inr STARTED"
  by (cases st) (simp_all add: execution_status_of_def execution_status_value_def)

interpretation pg_confirmations: confirmation_ledger pg_issue pg_consume "\<lambda>_ _. False" pg_spent
proof unfold_locales
  fix now t sc l l'
  assume "pg_consume now t sc l = (Inr True, l')"
  then show "pg_spent l' t (cs_tenant_id sc)"
    by (auto simp: pg_consume_def transaction_cases pg_spent_def split: option.splits if_splits)
next
  fix l t and sc :: confirmation_scope and now l'
  assume "pg_spent l t (cs_tenant_id sc)"
  then show "pg_consume now t sc l \<noteq> (Inr True, l')"
    by (auto simp: pg_consume_def transaction_def pg_spent_def challenge_hit_def)
next
  fix l t n now t' sc
  assume "pg_spent l t n"
  then show "pg_spent (snd (pg_consume now t' sc l)) t n"
    by (auto simp: pg_consume_def transaction_def pg_spent_def split: option.split)
next
  fix l t n t' e sc
  assume "pg_spent l t n"
  then show "pg_spent (snd (pg_issue t' e sc l)) t n"
    by (auto simp: pg_issue_def transaction_def pg_spent_def Let_def split: option.split) (metis option.distinct(1))
qed

interpretation pg_budget: budget_ledger "pg_reserve month_of" "month_account month_of" pg_spend for month_of
proof unfold_locales
  fix now tenant tokens cost limit s s' k
  assume "pg_reserve month_of now tenant tokens cost limit s = (Inr True, s')"
  then show "pg_spend s' k = pg_spend s k + (if k = month_account month_of now tenant then cost else 0)
      \<and> pg_spend s' (month_account month_of now tenant) \<le> limit"
    by (auto simp: pg_reserve_def transaction_cases upsert_usage_def pg_spend_def month_account_def split: option.splits if_splits)
next
  fix now tenant tokens cost limit s x s' k
  assume "pg_reserve month_of now tenant tokens cost limit s = (x, s')" "x \<noteq> Inr True"
  then show "pg_spend s' k = pg_spend s k"
    by (auto simp: pg_reserve_def transaction_cases split: if_splits sum.splits option.splits)
qed

interpretation pg_governance: governance "production_pipeline month_of guard sv" "month_account month_of" pg_spend
  for month_of guard sv
proof (intro governance.intro governance_axioms.intro)
  show "budget_ledger (gp_reserve (production_pipeline month_of guard sv)) (month_account month_of) pg_spend"
    using pg_budget.budget_ledger_axioms [of month_of] by (simp add: production_pipeline_def)
  show "pg_spend (snd (gp_consume (production_pipeline month_of guard sv) now t sc s)) k = pg_spend s k" for now t sc s k
    by (simp add: production_pipeline_def pg_consume_def transaction_def pg_spend_def split: option.split)
  show "pg_spend (snd (a ctx config tool d reason s)) k = pg_spend s k"
    if "gp_audit (production_pipeline month_of guard sv) = Some a" for a ctx config tool d reason s k
  proof -
    have "a = pg_record_audit" using that by (simp add: production_pipeline_def)
    then show ?thesis by (simp add: pg_record_audit_def transaction_def pg_spend_def del: json_dumps.simps)
  qed
qed

text \<open>What a transaction on the execution ledger can do to a row.\<close>

lemma open_status:
  "v \<in> {''started'', ''failed'', ''ambiguous''} \<Longrightarrow> \<exists>st. execution_status_of v = Inr st \<and> st \<noteq> SUCCEEDED"
  by (elim insertE emptyE) (simp_all add: execution_status_of_def)

lemma pg_status_row:
  "db_executions db k = Some x \<Longrightarrow> execution_status_of (te_status x) = Inr st \<Longrightarrow> pg_status db k = Some st"
  by (simp add: pg_status_def)

lemma pg_status_None: "db_executions db k = None \<Longrightarrow> pg_status db k = None"
  by (simp add: pg_status_def)

lemma pg_status_write:
  "db_executions db' = (db_executions db)(k \<mapsto> x) \<Longrightarrow> execution_status_of (te_status x) = Inr st
     \<Longrightarrow> pg_status db' = (pg_status db)(k \<mapsto> st)"
  by (simp add: pg_status_def fun_eq_iff)

lemma take_fence_effect:
  assumes "take_fence b k owner_id fencing_token db = Some db'"
  shows "pg_status db k \<notin> {None, Some SUCCEEDED}" "pg_status db' = (pg_status db)(k \<mapsto> STARTED)"
proof -
  obtain x where x: "db_executions db k = Some x" "te_status x \<in> {''started'', ''failed'', ''ambiguous''}"
    and db': "db' = db\<lparr>db_executions := (db_executions db)(k \<mapsto>
                 x\<lparr>te_lease_owner := owner_id, te_lease_epoch := nat fencing_token, te_status := ''started'',
                   te_completed_at := None\<rparr>)\<rparr>"
    using assms unfolding take_fence_def by (simp split: option.splits if_split_asm)
  from open_status [OF x(2)] pg_status_row [OF x(1)] show "pg_status db k \<notin> {None, Some SUCCEEDED}" by auto
  have "db_executions db' = (db_executions db)(k \<mapsto> x\<lparr>te_lease_owner := owner_id, te_lease_epoch := nat fencing_token,
      te_status := ''started'', te_completed_at := None\<rparr>)" by (simp add: db')
  then show "pg_status db' = (pg_status db)(k \<mapsto> STARTED)" by (rule pg_status_write) simp
qed

lemma begin_existing_effect:
  assumes "begin_existing crossed b req owner_id fencing_token now existing db = Inr (found, db')"
    and "db_executions db (execution_id req) = Some existing"
  shows "db' = db \<and> pg_status db (execution_id req) = Some (xr_status found) \<and> \<not> xr_fresh found
    \<or> er_risk req = IDEMPOTENT \<and> pg_status db (execution_id req) \<notin> {None, Some SUCCEEDED}
      \<and> pg_status db' = (pg_status db)(execution_id req \<mapsto> STARTED)"
proof -
  obtain st where st: "execution_status_of (te_status existing) = Inr st"
    using assms(1) by (cases "execution_status_of (te_status existing)") (simp_all add: begin_existing_def Let_def)
  note row = pg_status_row [OF assms(2) st]
  show ?thesis
  proof (cases "db' = db \<and> xr_status found = st \<and> \<not> xr_fresh found")
    case False
    then have "er_risk req = IDEMPOTENT \<and> (\<exists>b. take_fence b (execution_id req) owner_id fencing_token db = Some db')"
      using assms(1) unfolding begin_existing_def Let_def st sum.case
      by (auto simp: new_execution_record_def split: sum.splits if_split_asm option.splits)
    then show ?thesis using take_fence_effect by blast
  qed (use row in simp)
qed

lemma pg_begin_effect:
  assumes "pg_begin clk early req db = (x, db')"
  shows "(\<exists>e. x = Inl e) \<and> db' = db
    \<or> (\<exists>found. x = Inr found \<and>
        (db' = db \<and> pg_status db (execution_id req) = Some (xr_status found) \<and> \<not> xr_fresh found
         \<or> er_risk req = IDEMPOTENT \<and> pg_status db (execution_id req) \<notin> {None, Some SUCCEEDED}
            \<and> pg_status db' = (pg_status db)(execution_id req \<mapsto> STARTED)
         \<or> db_executions db (execution_id req) = None \<and> pg_status db' = (pg_status db)(execution_id req \<mapsto> STARTED)))"
proof -
  have ins: "pg_status db1 = (pg_status db)(execution_id req \<mapsto> STARTED)"
    if "insert_execution req turn_id owner_id fencing_token db = Inr db1" for turn_id owner_id fencing_token db1
    using that by (auto simp: insert_execution_def pg_status_def fun_eq_iff split: if_splits)
  show ?thesis
  proof (cases x)
    case (Inl e)
    with assms show ?thesis by (auto simp: pg_begin_def transaction_cases split: sum.splits option.splits)
  next
    case (Inr found)
    then consider (old) crossed b owner_id fencing_token now existing where
        "db_executions db (execution_id req) = Some existing"
        "begin_existing crossed b req owner_id fencing_token now existing db = Inr (found, db')"
      | (new) turn_id owner_id fencing_token where "db_executions db (execution_id req) = None"
        "insert_execution req turn_id owner_id fencing_token db = Inr db'"
      using assms unfolding pg_begin_def
      by (auto simp: transaction_cases split: sum.splits option.splits if_splits prod.splits)
    then show ?thesis
    proof cases
      case old
      from begin_existing_effect [OF old(2,1)] show ?thesis using Inr by blast
    next
      case new
      with ins show ?thesis using Inr by blast
    qed
  qed
qed

lemma pg_finish_effect:
  assumes "pg_finish clk req st v db = (y, db')"
  shows "db' = db \<or> y = Inr () \<and> pg_status db (execution_id req) = Some STARTED \<and> pg_status db' = (pg_status db)(execution_id req \<mapsto> st)"
  using assms unfolding pg_finish_def
  by (auto simp: transaction_cases pg_status_def fun_eq_iff split: sum.splits option.splits if_splits prod.splits)

interpretation pg_executions: execution_ledger
  "\<lambda>(clk, early). pg_begin clk early" "\<lambda>(clk, early). pg_finish clk" ledger_untouched execution_id pg_status "\<lambda>_. True"
proof unfold_locales
  fix l :: tool_db and obs :: "(nat \<Rightarrow> time) \<times> bool" and req found l' replay
  assume a: "(case obs of (clk, early) \<Rightarrow> pg_begin clk early) req l = (Inr found, l')"
    "plan_of found (er_risk req) = Run replay" "er_risk req \<noteq> IDEMPOTENT"
  obtain clk early where o: "obs = (clk, early)" by fastforce
  from pg_begin_effect [of clk early req l "Inr found" l'] a o
  show "pg_status l (execution_id req) = Some EXEC_FAILED
    \<or> pg_status l (execution_id req) = None \<and> pg_status l' (execution_id req) = Some STARTED"
    by (cases "xr_status found") (auto simp: plan_of_def pg_status_None split: if_splits)
next
  fix obs :: "(nat \<Rightarrow> time) \<times> bool" and req l x l' k
  assume a: "(case obs of (clk, early) \<Rightarrow> pg_begin clk early) req l = (x, l')"
  obtain clk early where o: "obs = (clk, early)" by fastforce
  show "pg_status l k \<noteq> None \<Longrightarrow> pg_status l' k \<noteq> None"
    using pg_begin_effect [of clk early req l x l'] a o by auto
  show "pg_status l' k = Some EXEC_FAILED \<Longrightarrow> pg_status l k = Some EXEC_FAILED"
    using pg_begin_effect [of clk early req l x l'] a o by (auto split: if_splits)
next
  fix obs :: "(nat \<Rightarrow> time) \<times> bool" and req st v l y l' k
  assume a: "(case obs of (clk, early) \<Rightarrow> pg_finish clk) req st v l = (y, l')"
  obtain clk early where o: "obs = (clk, early)" by fastforce
  show "pg_status l' k = pg_status l k \<or> k = execution_id req \<and> pg_status l' k = Some st"
    using pg_finish_effect [of clk req st v l y l'] a o by (cases "k = execution_id req") auto
qed (simp_all add: ledger_untouched_def pg_status_def)

text \<open>A recorded success is final.\<close>

lemma pg_success_final:
  assumes "reachable_from (tool_step (\<lambda>(clk, early). pg_begin clk early) (\<lambda>(clk, early). pg_finish clk) ledger_untouched requested) sy sy'"
    and "pg_status (sy_ledger sy) k = Some SUCCEEDED"
  shows "pg_status (sy_ledger sy') k = Some SUCCEEDED"
  using assms
proof (induction rule: reachable_from.induct)
  case (there s t)
  have begun: "pg_status l k = Some SUCCEEDED"
    if "pg_begin clk early req (sy_ledger s) = (x, l)" for clk early req x l
    using pg_begin_effect [OF that] there(3,4) by (cases "k = execution_id req") (auto dest: pg_status_None)
  have finish: "pg_status (snd (pg_finish clk req st v (sy_ledger s))) k = Some SUCCEEDED" for clk req st v
    using pg_finish_effect [of clk req st v "sy_ledger s" "fst (pg_finish clk req st v (sy_ledger s))" "snd (pg_finish clk req st v (sy_ledger s))"]
      there by auto
  from there(2) show ?case
  proof (cases rule: tool_step.cases)
    case (settled w req replay obs called)
    obtain clk early where "obs = (clk, early)" by fastforce
    with settled finish there show ?thesis
      by (cases called) (auto simp: settle_def Let_def split: prod.splits sum.splits, (metis snd_conv)+)
  next
    case (elsewhere l)
    with there show ?thesis by (simp add: ledger_untouched_def pg_status_def)
  qed (use there begun in \<open>auto split: prod.splits\<close>)
qed simp

subsection \<open>One execution, and the retry of a failed one\<close>

lemma assert_active_turn_cong:
  assumes "db_turns db' = db_turns db" and "db_sessions db' = db_sessions db"
  shows "assert_active_turn t u w f now db' = assert_active_turn t u w f now db"
  unfolding assert_active_turn_def assms ..

lemma require_fencing_positive: "require_fencing owner token = Inr (owner_id, fencing_token) \<Longrightarrow> 1 \<le> fencing_token"
  by (auto simp: require_fencing_def split: option.splits if_splits jval.splits)

definition recorded_row :: "execution_status \<Rightarrow> tool_db \<Rightarrow> execution_request \<Rightarrow> execution_row \<Rightarrow> string \<Rightarrow> string \<Rightarrow> int \<Rightarrow> bool" where
  "recorded_row st db req x turn_id owner_id fencing_token =
     (db_executions db (execution_id req) = Some x \<and> te_turn_id x = turn_id \<and> te_lease_owner x = owner_id
      \<and> int (te_lease_epoch x) = fencing_token \<and> execution_status_of (te_status x) = Inr st)"

definition same_leases :: "tool_db \<Rightarrow> tool_db \<Rightarrow> bool" where
  "same_leases db db' = (db_turns db' = db_turns db \<and> db_sessions db' = db_sessions db)"

lemma first_begin:
  assumes "require_fencing (er_owner_id req) (er_fencing_token req) = Inr (owner_id, fencing_token)"
    and "uuid_of (er_turn_id req) = Some turn_id" and "er_tenant_id req \<in> set (db_tenants db)"
    and "db_executions db (execution_id req) = None"
    and "assert_active_turn (er_tenant_id req) turn_id owner_id fencing_token (clk 0) db = Inr ()"
  shows "\<exists>db' x. pg_begin clk early req db = (Inr ((new_execution_record (er_execution_key req) STARTED)\<lparr>xr_fresh := True\<rparr>), db')
    \<and> recorded_row STARTED db' req x turn_id owner_id fencing_token \<and> same_leases db db'"
proof -
  have turn: "db_turns db (er_tenant_id req, turn_id) \<noteq> None"
    using assms(5) by (auto simp: assert_active_turn_def split: option.splits)
  then have "\<exists>db'. insert_execution req turn_id owner_id fencing_token db = Inr db'
      \<and> (\<exists>x. recorded_row STARTED db' req x turn_id owner_id fencing_token) \<and> same_leases db db'"
    using assms(3) require_fencing_positive [OF assms(1)] by (simp add: insert_execution_def recorded_row_def same_leases_def)
  then show ?thesis using assms by (auto simp: pg_begin_def transaction_def)
qed

lemma started_finish:
  assumes "require_fencing (er_owner_id req) (er_fencing_token req) = Inr (owner_id, fencing_token)"
    and "recorded_row STARTED db req x turn_id owner_id fencing_token" and "st \<noteq> STARTED"
    and "\<forall>i < 2. assert_active_turn (er_tenant_id req) turn_id owner_id fencing_token (clk i) db = Inr ()"
  shows "\<exists>db' x'. pg_finish clk req st v db = (Inr (), db') \<and> recorded_row st db' req x' turn_id owner_id fencing_token
    \<and> same_leases db db'"
proof -
  have "(0 :: nat) < 2" "(1 :: nat) < 2" by simp_all
  then have "assert_active_turn (er_tenant_id req) turn_id owner_id fencing_token (clk 0) db = Inr ()"
      "assert_active_turn (er_tenant_id req) turn_id owner_id fencing_token (clk 1) db = Inr ()" using assms(4) by blast+
  with assms(1-3) show ?thesis by (simp add: pg_finish_def transaction_def recorded_row_def same_leases_def)
qed

text \<open>A first run, with the lease held throughout: the result of the tool is passed on and recorded.\<close>

lemma first_run:
  assumes "require_fencing (er_owner_id req) (er_fencing_token req) = Inr (owner_id, fencing_token)"
    and "uuid_of (er_turn_id req) = Some turn_id" and "er_tenant_id req \<in> set (db_tenants db)"
    and "db_executions db (execution_id req) = None"
    and active: "\<forall>now \<in> {clk1 0, clk2 0, clk2 1}. assert_active_turn (er_tenant_id req) turn_id owner_id fencing_token now db = Inr ()"
  shows "\<exists>db' x. execute (pg_begin clk1 early) (pg_finish clk2) None req (\<lambda>s. (Inr v, s)) db = (Inr v, db')
      \<and> recorded_row SUCCEEDED db' req x turn_id owner_id fencing_token \<and> same_leases db db'"
    and "er_risk req = IDEMPOTENT \<Longrightarrow>
      \<exists>db' x. execute (pg_begin clk1 early) (pg_finish clk2) None req (\<lambda>s. (Inl e, s)) db = (Inl e, db')
      \<and> recorded_row EXEC_FAILED db' req x turn_id owner_id fencing_token \<and> same_leases db db'"
proof -
  obtain db1 x where b: "pg_begin clk1 early req db = (Inr ((new_execution_record (er_execution_key req) STARTED)\<lparr>xr_fresh := True\<rparr>), db1)"
    and row: "recorded_row STARTED db1 req x turn_id owner_id fencing_token" and same: "same_leases db db1"
    using first_begin [OF assms(1-4)] active by blast
  have act: "\<forall>i < 2. assert_active_turn (er_tenant_id req) turn_id owner_id fencing_token (clk2 i) db1 = Inr ()"
    using active same assert_active_turn_cong [of db1 db] by (auto simp: same_leases_def less_2_cases_iff)
  have plan: "plan_of ((new_execution_record (er_execution_key req) STARTED)\<lparr>xr_fresh := True\<rparr>) (er_risk req) = Run False"
    by (simp add: plan_of_def new_execution_record_def)
  have fin: "\<exists>db' x'. pg_finish clk2 req st w db1 = (Inr (), db') \<and> recorded_row st db' req x' turn_id owner_id fencing_token
      \<and> same_leases db db'" if "st \<noteq> STARTED" for st w
    using started_finish [OF assms(1) row that act] same by (force simp: same_leases_def)
  show "\<exists>db' x. execute (pg_begin clk1 early) (pg_finish clk2) None req (\<lambda>s. (Inr v, s)) db = (Inr v, db')
      \<and> recorded_row SUCCEEDED db' req x turn_id owner_id fencing_token \<and> same_leases db db'"
    using fin [of SUCCEEDED v] b plan by (auto simp: execute_def settle_def)
  show "er_risk req = IDEMPOTENT \<Longrightarrow>
      \<exists>db' x. execute (pg_begin clk1 early) (pg_finish clk2) None req (\<lambda>s. (Inl e, s)) db = (Inl e, db')
      \<and> recorded_row EXEC_FAILED db' req x turn_id owner_id fencing_token \<and> same_leases db db'"
    using fin [of EXEC_FAILED JNull] b plan by (auto simp: execute_def settle_def)
qed

lemma failed_row_retry:
  assumes "require_fencing (er_owner_id req) (er_fencing_token req) = Inr (owner_id, fencing_token)"
    and "uuid_of (er_turn_id req) = Some turn" and "er_risk req = IDEMPOTENT"
    and "recorded_row EXEC_FAILED db req x turn_id owner_id fencing_token"
    and "assert_active_turn (er_tenant_id req) turn_id owner_id fencing_token (clk 0) db = Inr ()"
  shows "execute (pg_begin clk False) (pg_finish clk') None req (\<lambda>s. (Inr v, s)) db = (Inl not_owned, db)"
proof -
  have "pg_begin clk False req db = (Inr (new_execution_record (er_execution_key req) EXEC_FAILED), db)"
    using assms by (simp add: pg_begin_def begin_existing_def transaction_def recorded_row_def)
  moreover have "pg_finish clk' req SUCCEEDED v db = (Inl not_owned, db)"
    using assms(1,4) by (simp add: pg_finish_def transaction_def recorded_row_def)
  ultimately show ?thesis by (simp add: execute_def settle_def plan_of_def new_execution_record_def)
qed

end
