(* ===== verification/Tool_Integration.thy ===== *)
theory Tool_Integration
  imports Tool_Governance Tool_Execution Py_Text
begin

text \<open>
  \<^verbatim>\<open>GovernedTool\<close> of \<^verbatim>\<open>src/trpc_service/tool/integration.py\<close>: the boundary between the agent SDK and a tool. It reads the
  identity of the turn out of the invocation's metadata, asks the governance pipeline, and hands the call to the executor
  only if the pipeline allows it. The tool itself is the argument \<open>call\<close> of the executor.
\<close>

subsection \<open>Reading the metadata\<close>

definition required_metadata :: "string list" where
  "required_metadata =
     [''tenant_id'', ''app_id'', ''config_version'', ''binding_id'', ''principal_id'', ''session_id'', ''request_id'', ''trace_id'']"

definition metadata_missing :: "json \<Rightarrow> string \<Rightarrow> bool" where
  "metadata_missing metadata name =
     (case map_of metadata name of None \<Rightarrow> True | Some v \<Rightarrow> v = JNull \<or> v = JStr [])"

definition metadata_text :: "json \<Rightarrow> string \<Rightarrow> string" where
  "metadata_text metadata name = (case map_of metadata name of None \<Rightarrow> [] | Some v \<Rightarrow> py_str v)"

text \<open>The field bounds that \<^verbatim>\<open>TenantContext\<close> declares; a violation is a \<^verbatim>\<open>ValidationError\<close>, a subclass of \<^verbatim>\<open>ValueError\<close>.\<close>

definition tenant_context_ok :: "int \<Rightarrow> tenant_context \<Rightarrow> bool" where
  "tenant_context_ok config_version c =
     (1 \<le> config_version
      \<and> (\<forall>(s, n) \<in> set [(tc_tenant_id c, 128), (tc_app_id c, 128), (tc_channel_binding_id c, 256), (tc_principal_id c, 256),
                         (tc_session_id c, 256), (tc_request_id c, 128), (tc_trace_id c, 64)].
           1 \<le> length s \<and> length s \<le> n))"

definition tenant_context_of :: "json \<Rightarrow> error + tenant_context" where
  "tenant_context_of metadata =
     (let missing = filter (metadata_missing metadata) required_metadata
      in if missing \<noteq> []
         then Inl (ValueError (''tool context is missing tenant metadata: '' @ comma_list missing))
         else (case py_int (the (map_of metadata ''config_version'')) of
                 Inl e \<Rightarrow> Inl e
               | Inr version \<Rightarrow>
                   (let c = \<lparr>tc_tenant_id = metadata_text metadata ''tenant_id'',
                             tc_app_id = metadata_text metadata ''app_id'',
                             tc_config_version = nat version,
                             tc_channel_binding_id = metadata_text metadata ''binding_id'',
                             tc_principal_id = metadata_text metadata ''principal_id'',
                             tc_session_id = metadata_text metadata ''session_id'',
                             tc_request_id = metadata_text metadata ''request_id'',
                             tc_trace_id = metadata_text metadata ''trace_id''\<rparr>
                    in if tenant_context_ok version c then Inr c else Inl (ValueError ''validation error for TenantContext''))))"

definition confirmation_token_of :: "json \<Rightarrow> string \<Rightarrow> string option" where
  "confirmation_token_of metadata tool_name =
     (case map_of metadata ''tool_confirmation_tokens'' of
        Some (JObj tokens) \<Rightarrow> (case map_of tokens tool_name of Some (JStr token) \<Rightarrow> Some token | _ \<Rightarrow> None)
      | _ \<Rightarrow> None)"

text \<open>In Python a \<^verbatim>\<open>bool\<close> is an \<^verbatim>\<open>int\<close>, so \<^verbatim>\<open>True\<close> passes the check on the epoch.\<close>

definition lease_identity :: "json \<Rightarrow> error + (string option \<times> jval)" where
  "lease_identity metadata =
     (let get = (\<lambda>k. case map_of metadata k of None \<Rightarrow> JNull | Some v \<Rightarrow> v);
          owner = get ''lease_owner'';
          epoch = get ''lease_epoch'';
          invalid = Inl (ValueError ''tool context has an invalid lease identity'')
      in if owner = JNull \<and> epoch = JNull then Inr (None, JNull)
         else (case owner of
                 JStr s \<Rightarrow>
                   if s = [] then invalid
                   else (case epoch of
                           JInt n \<Rightarrow> if n < 1 then invalid else Inr (Some s, epoch)
                         | JBool b \<Rightarrow> if b then Inr (Some s, epoch) else invalid
                         | _ \<Rightarrow> invalid)
               | _ \<Rightarrow> invalid))"

subsection \<open>The governed call\<close>

record governed_tool =
  gt_name :: string
  gt_config :: tenant_config

definition init_governed_tool :: "bool \<Rightarrow> string \<Rightarrow> tenant_config \<Rightarrow> error + governed_tool" where
  "init_governed_tool is_progress_streaming name config =
     (if is_progress_streaming then Inl (ValueError ''progress-streaming tools need a governed streaming adapter'')
      else Inr \<lparr>gt_name = name, gt_config = config\<rparr>)"

definition tool_risk_of :: "tenant_config \<Rightarrow> string \<Rightarrow> tool_risk" where
  "tool_risk_of config name =
     (case map_of (tp_classifications (cf_tools config)) name of None \<Rightarrow> UNKNOWN_RISK | Some r \<Rightarrow> r)"

definition turn_id_of :: "json \<Rightarrow> tenant_context \<Rightarrow> string" where
  "turn_id_of metadata context =
     (case map_of metadata ''turn_id'' of
        None \<Rightarrow> tc_request_id context
      | Some v \<Rightarrow> if truthy v then py_str v else tc_request_id context)"

text \<open>The executor: its key, its ledger and its fault stage marker.\<close>

record 's executor =
  ex_key :: bytes
  ex_begin :: "execution_request \<Rightarrow> 's \<Rightarrow> (execution_record, 's) outcome"
  ex_finish :: "execution_request \<Rightarrow> execution_status \<Rightarrow> jval \<Rightarrow> 's \<Rightarrow> (unit, 's) outcome"
  ex_checkpoint :: "(execution_request \<Rightarrow> 's \<Rightarrow> (unit, 's) outcome) option"

definition run_governed ::
    "governed_tool \<Rightarrow> 's pipeline \<Rightarrow> 's executor \<Rightarrow> time \<Rightarrow> time \<Rightarrow> time \<Rightarrow> json \<Rightarrow> json
       \<Rightarrow> ('s \<Rightarrow> (jval, 's) outcome) \<Rightarrow> 's \<Rightarrow> (jval, 's) outcome"
where
  "run_governed gt gp ex now1 now2 now3 metadata args call s =
     (case tenant_context_of metadata of
        Inl e \<Rightarrow> raise_in s e
      | Inr context \<Rightarrow>
          (case evaluate gp now1 now2 now3 context (gt_config gt) (gt_name gt) args 0 1
                  (confirmation_token_of metadata (gt_name gt)) s of
             (Inl e, s1) \<Rightarrow> raise_in s1 e
           | (Inr result, s1) \<Rightarrow>
               if gr_decision result \<noteq> ALLOW
               then return_in s1 (JObj [(''error'', JStr (gr_reason result)),
                                        (''status'', JStr (decision_value (gr_decision result)))])
               else (case lease_identity metadata of
                       Inl e \<Rightarrow> raise_in s1 e
                     | Inr (owner_id, epoch) \<Rightarrow>
                         execute (ex_begin ex) (ex_finish ex) (ex_checkpoint ex)
                           (request_of (ex_key ex) context (turn_id_of metadata context) (gt_name gt) args
                              (tool_risk_of (gt_config gt) (gt_name gt)) owner_id epoch)
                           call s1)))"

subsection \<open>The tool runs only behind the pipeline\<close>

text \<open>
  The tool is the argument \<open>call\<close>: as long as the pipeline has not allowed the call and the lease identity is not read,
  nothing depends on it.
\<close>

lemma run_governed_depends:
  assumes "run_governed gt gp ex now1 now2 now3 metadata args call s \<noteq> run_governed gt gp ex now1 now2 now3 metadata args call' s"
  obtains ctx result s1 owner_id epoch where "tenant_context_of metadata = Inr ctx"
    "evaluate gp now1 now2 now3 ctx (gt_config gt) (gt_name gt) args 0 1 (confirmation_token_of metadata (gt_name gt)) s = (Inr result, s1)"
    "gr_decision result = ALLOW" "lease_identity metadata = Inr (owner_id, epoch)"
  using assms unfolding run_governed_def
  by (auto split: sum.splits prod.splits if_splits)

end
