(* ===== verification/Tool_Props.thy ===== *)
theory Tool_Props
  imports Pg_Tools Tool_Integration
begin

text \<open>
  What the tool boundary guarantees, with the production ledgers: a tool that must not run twice runs once, a confirmation
  is used once and for the arguments it was given for, a budget is never exceeded, and no tool runs unless the policy
  allows it.
\<close>

subsection \<open>Sample data\<close>

definition tool_demo_context :: tenant_context where
  "tool_demo_context =
     \<lparr>tc_tenant_id = ''t'', tc_app_id = ''a'', tc_config_version = 1, tc_channel_binding_id = ''b'', tc_principal_id = ''p'',
      tc_session_id = ''s'', tc_request_id = ''r'', tc_trace_id = ''x''\<rparr>"

definition tool_demo_turn :: string where
  "tool_demo_turn = ''11111111-1111-1111-1111-111111111111''"

definition tool_demo_config :: tenant_config where
  "tool_demo_config =
     \<lparr>cf_tenant_id = ''t'', cf_app_id = ''a'', cf_version = 1,
      cf_model = \<lparr>mp_provider = [], mp_model = [], mp_api_key_ref = None, mp_base_url = None, mp_timeout_seconds = 60,
        mp_temperature = None, mp_top_p = None, mp_stop_sequences = [], mp_reasoning_effort = None,
        mp_thinking_budget_tokens = None, mp_fallback_model = None\<rparr>,
      cf_tools = \<lparr>tp_allow = {''pay''}, tp_require_confirmation = {}, tp_classifications = []\<rparr>,
      cf_budget = \<lparr>bp_max_tokens_per_turn = 1, bp_monthly_cost_units = 5, bp_max_parallel_turns = 1\<rparr>,
      cf_audit = \<lparr>ap_retention_days = 1, ap_record_content = False\<rparr>,
      cf_media = \<lparr>me_enabled = False, me_max_items_per_turn = 1, me_max_bytes_per_item = 1, me_max_total_bytes = 1,
        me_max_pdf_pages = 1, me_max_extracted_chars = 1, me_inline_images = False\<rparr>,
      cf_storage = \<lparr>st_profile_id = [], st_session_backend = [], st_memory_backend = [], st_artifact_backend = [],
        st_knowledge_backend = []\<rparr>,
      cf_instructions = [], cf_policy_version = 1, cf_created_at = 0\<rparr>"

definition tool_demo_db :: tool_db where
  "tool_demo_db =
     \<lparr>db_tenants = [''t''], db_inbound = Map.empty,
      db_sessions = [(''t'', ''s'') \<mapsto>
        \<lparr>sr_app_id = ''a'', sr_principal_id = ''p'', sr_state = [], sr_version = 0, sr_next_sequence = 1, sr_lease_epoch = 1,
         sr_lease_owner = Some ''w'', sr_lease_expires_at = Some 100, sr_updated_at = 0\<rparr>],
      db_mailboxes = [], db_items = \<lambda>_. [], db_resolved_at = \<lambda>_ _. None, db_outbox = [], db_uuid = \<lambda>_. [], db_uuids_drawn = 0,
      db_turns = [(''t'', tool_demo_turn) \<mapsto> \<lparr>tn_session_id = ''s'', tn_status = ''processing'', tn_fencing_token = 1\<rparr>],
      db_executions = Map.empty, db_challenges = Map.empty, db_budget = Map.empty, db_audit = []\<rparr>"

definition tool_demo_request :: "tool_risk \<Rightarrow> execution_request" where
  "tool_demo_request risk =
     \<lparr>er_execution_key = ''k'', er_tenant_id = ''t'', er_turn_id = tool_demo_turn, er_tool_name = ''pay'', er_risk = risk,
      er_arguments_hash = ''h'', er_owner_id = Some ''w'', er_fencing_token = JInt 1\<rparr>"

definition tool_demo_key :: bytes where
  "tool_demo_key = replicate 32 0"

lemma tool_demo_uuid: "uuid_of tool_demo_turn = Some tool_demo_turn"
  by code_simp

lemma tool_demo_fencing: "require_fencing (Some ''w'') (JInt 1) = Inr (''w'', 1)"
  by (simp add: require_fencing_def strip_chars_def py_whitespace_def)

lemma tool_demo_active: "now < 100 \<Longrightarrow> assert_active_turn ''t'' tool_demo_turn ''w'' 1 now tool_demo_db = Inr ()"
  by (simp add: assert_active_turn_def tool_demo_db_def)

lemma tool_demo_begin:
  "pg_begin (\<lambda>_. 0) False (tool_demo_request risk) tool_demo_db =
     (Inr ((new_execution_record ''k'' STARTED)\<lparr>xr_fresh := True\<rparr>),
      tool_demo_db\<lparr>db_executions := [(''t'', ''k'') \<mapsto>
        \<lparr>te_turn_id = tool_demo_turn, te_tool_name = ''pay'', te_classification = risk_value risk, te_arguments_hash = ''h'',
         te_status = ''started'', te_completed_at = None, te_lease_owner = ''w'', te_lease_epoch = 1\<rparr>]\<rparr>)"
proof -
  have e: "db_executions tool_demo_db = Map.empty" "db_tenants tool_demo_db = [''t'']"
      "db_turns tool_demo_db (''t'', tool_demo_turn) \<noteq> None" by (simp_all add: tool_demo_db_def)
  show ?thesis
    by (simp add: pg_begin_def tool_demo_request_def tool_demo_fencing tool_demo_uuid tool_demo_active insert_execution_def e transaction_def)
qed

subsection \<open>Executions\<close>

text \<open>
  C5. A tool whose classification is not \<^verbatim>\<open>idempotent\<close> is started at most once for one execution key. Any number of workers
  call the executor on the PostgreSQL ledger, their transactions and tool runs interleave in any order, workers die at any
  point, first reads race with concurrent inserts, and the rest of the system changes sessions, turns and all other
  tables as it likes (leases expire and move between workers); only the ledger table belongs to the executors. The key
  has no row at the start, and every request for it is classified as not idempotent.
\<close>

theorem non_idempotent_tool_runs_once:
  assumes "reachable_from
      (tool_step (\<lambda>(clk, early). pg_begin clk early) (\<lambda>(clk, early). pg_finish clk) ledger_untouched requested)
      (idle_system db) sy"
    and "pg_status db k = None"
    and "\<forall>req. requested req \<and> (er_tenant_id req, er_execution_key req) = k \<longrightarrow> er_risk req \<noteq> IDEMPOTENT"
  shows "invocations (\<lambda>req. (er_tenant_id req, er_execution_key req)) k sy \<le> 1"
  using pg_executions.runs_at_most_once [OF assms(1,2,3)] by simp

lemma tool_demo_path:
  "reachable_from
     (tool_step (\<lambda>(clk, early). pg_begin clk early) (\<lambda>(clk, early). pg_finish clk) ledger_untouched
       (\<lambda>req. req = tool_demo_request NON_IDEMPOTENT))
     (idle_system tool_demo_db)
     \<lparr>sy_ledger = snd (execute (pg_begin (\<lambda>_. 0) False) (pg_finish (\<lambda>_. 0)) None (tool_demo_request NON_IDEMPOTENT)
        (\<lambda>s. (Inr JNull, s)) tool_demo_db), sy_workers = Map.empty, sy_invoked = [tool_demo_request NON_IDEMPOTENT]\<rparr>"
proof -
  have "plan_of ((new_execution_record ''k'' STARTED)\<lparr>xr_fresh := True\<rparr>) risk = Run False" for risk
    by (simp add: plan_of_def new_execution_record_def)
  then show ?thesis
    using execute_is_a_path [of "\<lambda>req. req = tool_demo_request NON_IDEMPOTENT" "tool_demo_request NON_IDEMPOTENT" "\<lambda>s. (Inr JNull, s)" "Inr JNull"
        "\<lambda>(clk, early). pg_begin clk early" "\<lambda>(clk, early). pg_finish clk" ledger_untouched tool_demo_db "(\<lambda>_. 0, False)"]
    by (simp add: tool_demo_begin)
qed

theorem non_idempotent_tool_runs_once_witness:
  "invocations (\<lambda>req. (er_tenant_id req, er_execution_key req)) (''t'', ''k'')
     \<lparr>sy_ledger = snd (execute (pg_begin (\<lambda>_. 0) False) (pg_finish (\<lambda>_. 0)) None (tool_demo_request NON_IDEMPOTENT)
        (\<lambda>s. (Inr JNull, s)) tool_demo_db), sy_workers = Map.empty, sy_invoked = [tool_demo_request NON_IDEMPOTENT]\<rparr> \<le> 1"
  by (rule non_idempotent_tool_runs_once [OF tool_demo_path])
     (simp_all add: tool_demo_request_def pg_status_def tool_demo_db_def)

text \<open>
  C36. A failed idempotent call cannot be repeated successfully under the same lease. The first run records the failure
  and passes the exception of the tool on. When the agent repeats the call in the same turn, \<^verbatim>\<open>begin\<close> hands the failed row
  back, the tool runs again and succeeds, and then \<^verbatim>\<open>finish\<close> raises \<^verbatim>\<open>RuntimeError\<close> because the row is not
  \<^verbatim>\<open>started\<close>: the result is lost and the row stays \<^verbatim>\<open>failed\<close>.
\<close>

theorem failed_idempotent_retry_is_lost:
  assumes "require_fencing (er_owner_id req) (er_fencing_token req) = Inr (owner_id, fencing_token)"
    and "uuid_of (er_turn_id req) = Some turn_id"
    and "er_tenant_id req \<in> set (db_tenants db)"
    and "db_executions db (er_tenant_id req, er_execution_key req) = None"
    and "er_risk req = IDEMPOTENT"
    and "\<forall>now \<in> {clk1 0, clk2 0, clk2 1, clk3 0}.
      assert_active_turn (er_tenant_id req) turn_id owner_id fencing_token now db = Inr ()"
  shows "\<exists>db'. execute (pg_begin clk1 False) (pg_finish clk2) None req (\<lambda>s. (Inl e, s)) db = (Inl e, db')
    \<and> execute (pg_begin clk3 False) (pg_finish clk4) None req (\<lambda>s. (Inr v, s)) db'
        = (Inl (RuntimeError ''tool execution does not exist or is no longer owned''), db')
    \<and> pg_status db' (er_tenant_id req, er_execution_key req) = Some EXEC_FAILED"
proof -
  obtain db' x where first: "execute (pg_begin clk1 False) (pg_finish clk2) None req (\<lambda>s. (Inl e, s)) db = (Inl e, db')"
    and row: "recorded_row EXEC_FAILED db' req x turn_id owner_id fencing_token"
    and same: "db_turns db' = db_turns db" "db_sessions db' = db_sessions db"
    using first_run(2) [OF assms(1-4) _ assms(5), of clk1 clk2 False e] assms(6) by (auto simp: same_leases_def)
  have "assert_active_turn (er_tenant_id req) turn_id owner_id fencing_token (clk3 0) db' = Inr ()"
    using assms(6) assert_active_turn_cong [OF same] by simp
  then have "execute (pg_begin clk3 False) (pg_finish clk4) None req (\<lambda>s. (Inr v, s)) db' = (Inl not_owned, db')"
    by (rule failed_row_retry [OF assms(1,2,5) row])
  moreover have "pg_status db' (er_tenant_id req, er_execution_key req) = Some EXEC_FAILED"
    using row unfolding recorded_row_def by (blast intro: pg_status_row)
  ultimately show ?thesis using first unfolding not_owned_def by blast
qed

theorem failed_idempotent_retry_is_lost_witness:
  "\<exists>db'. execute (pg_begin (\<lambda>_. 0) False) (pg_finish (\<lambda>_. 0)) None (tool_demo_request IDEMPOTENT)
      (\<lambda>s. (Inl (ProviderError ''timeout''), s)) tool_demo_db = (Inl (ProviderError ''timeout''), db')
    \<and> execute (pg_begin (\<lambda>_. 0) False) (pg_finish (\<lambda>_. 0)) None (tool_demo_request IDEMPOTENT) (\<lambda>s. (Inr (JInt 1), s)) db'
        = (Inl (RuntimeError ''tool execution does not exist or is no longer owned''), db')
    \<and> pg_status db' (''t'', ''k'') = Some EXEC_FAILED"
proof -
  have r: "er_tenant_id (tool_demo_request IDEMPOTENT) = ''t''" "er_execution_key (tool_demo_request IDEMPOTENT) = ''k''"
    "er_turn_id (tool_demo_request IDEMPOTENT) = tool_demo_turn" "er_owner_id (tool_demo_request IDEMPOTENT) = Some ''w''"
    "er_fencing_token (tool_demo_request IDEMPOTENT) = JInt 1" "er_risk (tool_demo_request IDEMPOTENT) = IDEMPOTENT"
    by (simp_all add: tool_demo_request_def)
  have d: "db_tenants tool_demo_db = [''t'']" "db_executions tool_demo_db = Map.empty" by (simp_all add: tool_demo_db_def)
  show ?thesis
    by (rule failed_idempotent_retry_is_lost [of "tool_demo_request IDEMPOTENT", unfolded r, of "''w''" 1 tool_demo_turn])
       (simp_all add: d tool_demo_fencing tool_demo_uuid tool_demo_active)
qed

subsection \<open>Budgets\<close>

text \<open>
  C8. The budget of a month is never exceeded. Whatever reservations are made, in any order and for any tenants, the
  recorded cost of a tenant's month is the recorded cost at the start plus the costs of the reservations that were granted,
  and it stays within the monthly limit.
\<close>

theorem budget_never_exceeded:
  assumes "\<forall>r \<in> set rs. (rq_tenant r, month_of (rq_time r)) = (tenant_id, month) \<longrightarrow> rq_limit r \<le> monthly_limit"
    and "pg_spend db (tenant_id, month) \<le> monthly_limit"
  shows "pg_spend (reserve_all (pg_reserve month_of) rs db) (tenant_id, month) \<le> monthly_limit
    \<and> pg_spend (reserve_all (pg_reserve month_of) rs db) (tenant_id, month) =
      pg_spend db (tenant_id, month)
      + granted_cost (pg_reserve month_of) (\<lambda>r. (rq_tenant r, month_of (rq_time r)) = (tenant_id, month)) rs db"
proof (rule conjI)
  have on: "on_account (month_account month_of) k r \<longleftrightarrow> (rq_tenant r, month_of (rq_time r)) = k" for k r
    by (simp add: on_account_def month_account_def)
  show "pg_spend (reserve_all (pg_reserve month_of) rs db) (tenant_id, month) \<le> monthly_limit"
    using pg_budget.spent_within_limit [of rs month_of "(tenant_id, month)" monthly_limit db] assms unfolding on by blast
  have "on_account (month_account month_of) (tenant_id, month) = (\<lambda>r. (rq_tenant r, month_of (rq_time r)) = (tenant_id, month))"
    by (rule ext) (rule on)
  then show "pg_spend (reserve_all (pg_reserve month_of) rs db) (tenant_id, month) =
      pg_spend db (tenant_id, month)
      + granted_cost (pg_reserve month_of) (\<lambda>r. (rq_tenant r, month_of (rq_time r)) = (tenant_id, month)) rs db"
    using pg_budget.spent_is_granted [of month_of rs db "(tenant_id, month)"] by simp
qed

theorem budget_never_exceeded_witness:
  "pg_spend (reserve_all (pg_reserve (\<lambda>_. 0))
     [\<lparr>rq_time = 1, rq_tenant = ''t'', rq_tokens = 0, rq_cost = 3, rq_limit = 5\<rparr>,
      \<lparr>rq_time = 2, rq_tenant = ''t'', rq_tokens = 0, rq_cost = 3, rq_limit = 5\<rparr>] tool_demo_db) (''t'', 0) \<le> 5
   \<and> granted_cost (pg_reserve (\<lambda>_. 0)) (\<lambda>r. (rq_tenant r, (\<lambda>_. 0) (rq_time r)) = (''t'', 0))
     [\<lparr>rq_time = 1, rq_tenant = ''t'', rq_tokens = 0, rq_cost = 3, rq_limit = 5\<rparr>,
      \<lparr>rq_time = 2, rq_tenant = ''t'', rq_tokens = 0, rq_cost = 3, rq_limit = 5\<rparr>] tool_demo_db = 3"
proof -
  have "pg_spend tool_demo_db (''t'', 0) \<le> 5" by (simp add: pg_spend_def tool_demo_db_def)
  then have "pg_spend (reserve_all (pg_reserve (\<lambda>_. 0))
     [\<lparr>rq_time = 1, rq_tenant = ''t'', rq_tokens = 0, rq_cost = 3, rq_limit = 5\<rparr>,
      \<lparr>rq_time = 2, rq_tenant = ''t'', rq_tokens = 0, rq_cost = 3, rq_limit = 5\<rparr>] tool_demo_db) (''t'', 0) \<le> 5"
    by (intro conjunct1 [OF budget_never_exceeded]) simp_all
  then show ?thesis
    by (simp add: reserve_request_def pg_reserve_def upsert_usage_def transaction_def in_int8_def tool_demo_db_def)
qed

subsection \<open>Governance\<close>

text \<open>
  Only a call that is allowed is charged, and an allowed call has passed every check. When the production pipeline
  returns a decision other than \<^verbatim>\<open>allow\<close>, no budget account has changed. When it allows the call, tenant and app
  of the context are those of the configuration, the tool is on the allow list, the scanner has not denied it, a
  confirmation that was required has been consumed for exactly this call, and the account of the month has grown by
  the estimated cost and is within the monthly limit, all other accounts being unchanged.
\<close>

theorem only_allowed_calls_are_charged:
  assumes "evaluate (production_pipeline month_of guard sv) now1 now2 now3 ctx config tool_name arguments tokens cost token db = (Inr r, db')"
  shows "if gr_decision r \<noteq> ALLOW then pg_spend db' = pg_spend db
    else tc_tenant_id ctx = cf_tenant_id config \<and> tc_app_id ctx = cf_app_id config
      \<and> tool_name \<in> tp_allow (cf_tools config) \<and> scan guard tool_name arguments \<noteq> DENY
      \<and> (scan guard tool_name arguments \<noteq> NEEDS_CONFIRMATION \<and> tool_name \<notin> tp_require_confirmation (cf_tools config)
         \<or> (\<exists>t. token = Some t \<and> fst (consume_token sv (pg_consume now2) now1 t (call_scope ctx tool_name arguments) db) = Inr ()))
      \<and> pg_spend db' = (pg_spend db)((tc_tenant_id ctx, month_of now3) := pg_spend db (tc_tenant_id ctx, month_of now3) + cost)
      \<and> pg_spend db' (tc_tenant_id ctx, month_of now3) \<le> bp_monthly_cost_units (cf_budget config)"
  using assms
proof (cases rule: pg_governance.evaluate_cases)
  case stopped
  then show ?thesis by auto
next
  case (reserved db1)
  note spent = pg_governance.reserve_budget_spent [OF reserved(7)]
  show ?thesis
  proof (cases "gr_decision r = ALLOW")
    case True
    have "pg_spend db' = (pg_spend db)((tc_tenant_id ctx, month_of now3) := pg_spend db (tc_tenant_id ctx, month_of now3) + cost)"
      using spent(2) [OF True] reserved(6) by (auto simp: fun_eq_iff month_account_def)
    moreover have "pg_spend db' (tc_tenant_id ctx, month_of now3) \<le> bp_monthly_cost_units (cf_budget config)"
      using spent(3) [OF True] by (simp add: month_account_def)
    ultimately show ?thesis using True reserved(1-5)
      by (auto simp: production_pipeline_def requires_confirmation_def split: if_splits)
  next
    case False
    then show ?thesis using spent(1) reserved(6) by (auto simp: fun_eq_iff)
  qed
qed

definition tool_demo_service :: confirmation_service where
  "tool_demo_service = \<lparr>sv_key = tool_demo_key, sv_ttl_seconds = 300\<rparr>"

abbreviation tool_demo_pipeline :: "tool_db pipeline" where
  "tool_demo_pipeline \<equiv> production_pipeline (\<lambda>_. 0) (\<lambda>_ _ _. SDK_OTHER) tool_demo_service"

definition tool_demo_charged :: tool_db where
  "tool_demo_charged = snd (pg_record_audit tool_demo_context tool_demo_config ''pay'' ALLOW ''policy_passed''
     (tool_demo_db\<lparr>db_budget := [(''t'', 0) \<mapsto> \<lparr>bu_token_units = 0, bu_cost_units = 1, bu_updated_at = 0\<rparr>]\<rparr>))"

lemma tool_demo_evaluate:
  "evaluate tool_demo_pipeline 0 0 0 tool_demo_context tool_demo_config ''pay'' [] 0 1 None tool_demo_db
     = (Inr \<lparr>gr_decision = ALLOW, gr_reason = ''policy_passed'', gr_audit_arguments = []\<rparr>, tool_demo_charged)"
proof -
  let ?db = "tool_demo_db\<lparr>db_budget := [(''t'', 0) \<mapsto> \<lparr>bu_token_units = 0, bu_cost_units = 1, bu_updated_at = 0\<rparr>]\<rparr>"
  have r: "pg_reserve (\<lambda>_. 0) 0 ''t'' 0 1 5 tool_demo_db = (Inr True, ?db)"
    by (simp add: pg_reserve_def upsert_usage_def transaction_def in_int8_def tool_demo_db_def)
  have "fst (pg_record_audit tool_demo_context tool_demo_config ''pay'' ALLOW ''policy_passed'' ?db) = Inr ()"
    by (simp add: pg_record_audit_def transaction_def tool_demo_context_def tool_demo_db_def del: json_dumps.simps)
  then have a: "pg_record_audit tool_demo_context tool_demo_config ''pay'' ALLOW ''policy_passed'' ?db = (Inr (), tool_demo_charged)"
    unfolding tool_demo_charged_def by (metis prod.collapse)
  have sc: "scan (\<lambda>_ _ _. SDK_OTHER) ''pay'' [] = ALLOW" by (simp add: scan_def scan_fields_def field_values_def)
  have c: "tc_tenant_id tool_demo_context = ''t''" "tc_app_id tool_demo_context = ''a''" "cf_tenant_id tool_demo_config = ''t''"
      "cf_app_id tool_demo_config = ''a''" "tp_allow (cf_tools tool_demo_config) = {''pay''}"
      "tp_require_confirmation (cf_tools tool_demo_config) = {}" "bp_monthly_cost_units (cf_budget tool_demo_config) = 5"
    by (simp_all add: tool_demo_context_def tool_demo_config_def)
  show ?thesis
    using r a by (simp add: evaluate_def requires_confirmation_def reserve_budget_def result_of_def production_pipeline_def sc c redact_def)
qed

theorem only_allowed_calls_are_charged_witness:
  "gr_decision \<lparr>gr_decision = ALLOW, gr_reason = ''policy_passed'', gr_audit_arguments = []\<rparr> = ALLOW
    \<and> ''pay'' \<in> tp_allow (cf_tools tool_demo_config) \<and> pg_spend tool_demo_charged (''t'', 0) = pg_spend tool_demo_db (''t'', 0) + 1
    \<and> pg_spend tool_demo_charged (''t'', 0) \<le> 5"
proof -
  have c: "tc_tenant_id tool_demo_context = ''t''" "cf_tenant_id tool_demo_config = ''t''"
      "bp_monthly_cost_units (cf_budget tool_demo_config) = 5"
    by (simp_all add: tool_demo_context_def tool_demo_config_def)
  from only_allowed_calls_are_charged [OF tool_demo_evaluate, unfolded c] show ?thesis by auto
qed

text \<open>
  C6. No tool runs unless the policy allows it. If the outcome of a governed call depends at all on what the tool does,
  the metadata names a complete tenant context, the pipeline has allowed this tool with these arguments for this
  context, the tool is on the allow list, the scanner has not denied the arguments, and the call has been charged one
  unit within the monthly limit.
\<close>

theorem tool_runs_only_if_allowed:
  assumes "run_governed gt (production_pipeline month_of guard sv) ex now1 now2 now3 metadata args call db
    \<noteq> run_governed gt (production_pipeline month_of guard sv) ex now1 now2 now3 metadata args call' db"
  shows "\<exists>ctx r db'. tenant_context_of metadata = Inr ctx
    \<and> evaluate (production_pipeline month_of guard sv) now1 now2 now3 ctx (gt_config gt) (gt_name gt) args 0 1
        (confirmation_token_of metadata (gt_name gt)) db = (Inr r, db') \<and> gr_decision r = ALLOW
    \<and> tc_tenant_id ctx = cf_tenant_id (gt_config gt) \<and> tc_app_id ctx = cf_app_id (gt_config gt)
    \<and> gt_name gt \<in> tp_allow (cf_tools (gt_config gt)) \<and> scan guard (gt_name gt) args \<noteq> DENY
    \<and> pg_spend db' (tc_tenant_id ctx, month_of now3) = pg_spend db (tc_tenant_id ctx, month_of now3) + 1
    \<and> pg_spend db' (tc_tenant_id ctx, month_of now3) \<le> bp_monthly_cost_units (cf_budget (gt_config gt))"
  using assms
proof (rule run_governed_depends)
  fix ctx r db1 owner_id epoch
  assume c: "tenant_context_of metadata = Inr ctx" and allow: "gr_decision r = ALLOW"
    and ev: "evaluate (production_pipeline month_of guard sv) now1 now2 now3 ctx (gt_config gt) (gt_name gt) args 0 1
      (confirmation_token_of metadata (gt_name gt)) db = (Inr r, db1)"
  from ev show ?thesis
  proof (cases rule: pg_governance.evaluate_cases)
    case stopped
    with allow show ?thesis by simp
  next
    case (reserved db2)
    note spent = pg_governance.reserve_budget_spent(2,3) [OF reserved(7) allow]
    show ?thesis using c allow ev reserved(1-4,6) spent
      by (intro exI [of _ ctx] exI [of _ r] exI [of _ db1]) (simp add: month_account_def production_pipeline_def)
  qed
qed

definition tool_demo_metadata :: json where
  "tool_demo_metadata =
     [(''tenant_id'', JStr ''t''), (''app_id'', JStr ''a''), (''config_version'', JInt 1), (''binding_id'', JStr ''b''),
      (''principal_id'', JStr ''p''), (''session_id'', JStr ''s''), (''request_id'', JStr ''r''), (''trace_id'', JStr ''x''),
      (''turn_id'', JStr tool_demo_turn), (''lease_owner'', JStr ''w''), (''lease_epoch'', JInt 1)]"

definition tool_demo_executor :: "tool_db executor" where
  "tool_demo_executor =
     \<lparr>ex_key = tool_demo_key, ex_begin = pg_begin (\<lambda>_. 0) False, ex_finish = pg_finish (\<lambda>_. 0), ex_checkpoint = None\<rparr>"

abbreviation tool_demo_tool :: governed_tool where
  "tool_demo_tool \<equiv> \<lparr>gt_name = ''pay'', gt_config = tool_demo_config\<rparr>"

lemma tool_demo_run:
  "fst (run_governed tool_demo_tool tool_demo_pipeline tool_demo_executor 0 0 0 tool_demo_metadata [] (\<lambda>s. (Inr v, s)) tool_demo_db) = Inr v"
proof -
  have m: "tenant_context_of tool_demo_metadata = Inr tool_demo_context" by code_simp
  have l: "lease_identity tool_demo_metadata = Inr (Some ''w'', JInt 1)" by code_simp
  have t: "confirmation_token_of tool_demo_metadata ''pay'' = None" "turn_id_of tool_demo_metadata tool_demo_context = tool_demo_turn"
    by code_simp+
  let ?req = "request_of tool_demo_key tool_demo_context tool_demo_turn ''pay'' [] (tool_risk_of tool_demo_config ''pay'') (Some ''w'') (JInt 1)"
  have r: "er_owner_id ?req = Some ''w''" "er_fencing_token ?req = JInt 1" "er_turn_id ?req = tool_demo_turn" "er_tenant_id ?req = ''t''"
    by (simp_all add: request_of_def tool_demo_context_def)
  have d: "db_tenants tool_demo_charged = [''t'']" "db_executions tool_demo_charged = Map.empty"
    "db_turns tool_demo_charged = db_turns tool_demo_db" "db_sessions tool_demo_charged = db_sessions tool_demo_db"
    by (simp_all add: tool_demo_charged_def pg_record_audit_def transaction_def tool_demo_context_def tool_demo_db_def del: json_dumps.simps)
  have "assert_active_turn ''t'' tool_demo_turn ''w'' 1 0 tool_demo_charged = Inr ()"
    using assert_active_turn_cong [OF d(3,4)] tool_demo_active [of 0] by simp
  then have "\<exists>db' x. execute (pg_begin (\<lambda>_. 0) False) (pg_finish (\<lambda>_. 0)) None ?req (\<lambda>s. (Inr v, s)) tool_demo_charged = (Inr v, db')
      \<and> recorded_row SUCCEEDED db' ?req x tool_demo_turn ''w'' 1 \<and> same_leases tool_demo_charged db'"
    by (intro first_run(1)) (simp_all add: r d tool_demo_fencing tool_demo_uuid)
  then show ?thesis
    by (auto simp: run_governed_def m l t tool_demo_evaluate tool_demo_executor_def)
qed

theorem tool_runs_only_if_allowed_witness:
  "\<exists>ctx r db'. tenant_context_of tool_demo_metadata = Inr ctx
    \<and> evaluate tool_demo_pipeline 0 0 0 ctx tool_demo_config ''pay'' [] 0 1
        (confirmation_token_of tool_demo_metadata ''pay'') tool_demo_db = (Inr r, db') \<and> gr_decision r = ALLOW
    \<and> tc_tenant_id ctx = cf_tenant_id tool_demo_config \<and> tc_app_id ctx = cf_app_id tool_demo_config
    \<and> ''pay'' \<in> tp_allow (cf_tools tool_demo_config) \<and> scan (\<lambda>_ _ _. SDK_OTHER) ''pay'' [] \<noteq> DENY
    \<and> pg_spend db' (tc_tenant_id ctx, 0) = pg_spend tool_demo_db (tc_tenant_id ctx, 0) + 1
    \<and> pg_spend db' (tc_tenant_id ctx, 0) \<le> bp_monthly_cost_units (cf_budget tool_demo_config)"
proof -
  have "run_governed tool_demo_tool tool_demo_pipeline tool_demo_executor 0 0 0 tool_demo_metadata [] (\<lambda>s. (Inr (JInt 1), s)) tool_demo_db
      \<noteq> run_governed tool_demo_tool tool_demo_pipeline tool_demo_executor 0 0 0 tool_demo_metadata [] (\<lambda>s. (Inr (JInt 2), s)) tool_demo_db"
    using tool_demo_run [of "JInt 1"] tool_demo_run [of "JInt 2"] by (metis Inr_inject jval.inject(2) one_eq_numeral_iff semiring_norm(83))
  from tool_runs_only_if_allowed [OF this] show ?thesis by simp
qed

text \<open>
  C37. The safety scanner takes the strictest decision. Its nested loops with the early return compute the same as one look
  at the guard's decisions on all scripts of all seven argument fields: \<^verbatim>\<open>deny\<close> if the guard denies one of them, otherwise
  \<^verbatim>\<open>needs_confirmation\<close> if it wants a human to review one of them, otherwise \<^verbatim>\<open>allow\<close>.
\<close>

theorem scan_takes_strictest_decision:
  "scan guard tool_name arguments = strictest (concat (map (script_verdicts guard tool_name arguments) scan_fields))"
  unfolding scan_def scan_from_strictest Let_def strictest_def ..

text \<open>
  C38. Redaction hides every sensitive value: in the redacted arguments, at any depth inside objects and lists, a key that
  \<^verbatim>\<open>is_sensitive_key\<close> recognises has the value \<^verbatim>\<open>[REDACTED]\<close>.
\<close>

theorem redaction_hides_sensitive_values:
  assumes "(key, value) \<in> set (pairs_of (JObj (redact arguments)))" and "is_sensitive_key key"
  shows "value = JStr REDACTED"
  using redact_hides_pairs [OF assms] .

theorem redaction_hides_sensitive_values_witness:
  "the (map_of (pairs_of (JObj (redact [(''user'', JList [JObj [(''api_key'', JInt 7)]])]))) ''api_key'') = JStr REDACTED"
  by (rule redaction_hides_sensitive_values [of "''api_key''" _ "[(''user'', JList [JObj [(''api_key'', JInt 7)]])]"]) code_simp+

subsection \<open>Confirmations\<close>

text \<open>
  C23. A confirmation token works once and only for its scope. The token that \<^verbatim>\<open>issue\<close> returns is accepted by \<^verbatim>\<open>consume\<close> for
  the scope it was issued for, as long as it has not expired; presented again it is refused as already used; presented
  for any other scope it is refused as a mismatch and the ledger is unchanged. The scope stays within the bounds of
  \<^verbatim>\<open>TenantContext\<close> and a tool name of 1000 characters, and the identifier is new to the tenant.
\<close>

theorem confirmation_token_roundtrip:
  fixes now :: time
  assumes "scope_fits sc" and "jti \<noteq> []" and "length jti \<le> 36"
    and "cs_tenant_id sc \<in> set (db_tenants db)"
    and "db_challenges db (cs_tenant_id sc, hexdigest (sha256 (utf8_encode jti))) = None"
    and "expires = whole_seconds now + sv_ttl_seconds sv" and "timestamp_ok expires"
    and "whole_seconds now1 \<le> expires" and "now2 \<le> seconds expires"
  shows "\<exists>token db1 db2. issue_token sv pg_issue jti now sc db = (Inr token, db1)
    \<and> consume_token sv (pg_consume now2) now1 token sc db1 = (Inr (), db2)
    \<and> consume_token sv (pg_consume now2) now1 token sc db2 = (Inl (ConfirmationError ''confirmation token was already used''), db2)
    \<and> (\<forall>other. other \<noteq> sc \<longrightarrow> consume_token sv (pg_consume now2) now1 token other db1
         = (Inl (ConfirmationError ''confirmation token scope mismatch''), db1))"
proof -
  let ?token = "token_text sv jti expires sc" and ?h = "hexdigest (sha256 (utf8_encode jti))"
  have small: "\<bar>expires\<bar> < 10 ^ 18" using assms(7) by (auto simp: timestamp_ok_def abs_less_iff)
  note consume = consume_token_text [OF small issued_token_fits [OF assms(1,3) small]]
  have h: "token_hash (code_points jti) = Some ?h" by (simp add: token_hash_def utf8_points_string)
  define ch where "ch = \<lparr>ch_principal_id = cs_principal_id sc, ch_session_id = cs_session_id sc, ch_tool_name = cs_tool_name sc,
    ch_arguments_hash = cs_arguments_hash sc, ch_expires_at = seconds expires, ch_consumed_at = None\<rparr>"
  define db1 where "db1 = db\<lparr>db_challenges := (db_challenges db)((cs_tenant_id sc, ?h) \<mapsto> ch)\<rparr>"
  define db2 where "db2 = db1\<lparr>db_challenges := (db_challenges db1)((cs_tenant_id sc, ?h) \<mapsto> ch\<lparr>ch_consumed_at := Some now2\<rparr>)\<rparr>"
  have hit: "challenge_hit now2 sc ch" "\<not> challenge_hit now2 sc (ch\<lparr>ch_consumed_at := Some now2\<rparr>)"
    using assms(9) by (simp_all add: challenge_hit_def ch_def)
  have rows: "db_challenges db1 (cs_tenant_id sc, ?h) = Some ch"
    "db_challenges db2 (cs_tenant_id sc, ?h) = Some (ch\<lparr>ch_consumed_at := Some now2\<rparr>)" by (simp_all add: db1_def db2_def)
  have c: "pg_consume now2 (code_points jti) sc db1 = (Inr True, db2)" "pg_consume now2 (code_points jti) sc db2 = (Inr False, db2)"
    using h hit rows by (simp_all add: pg_consume_def transaction_def db2_def)
  have "pg_issue (code_points jti) expires sc db = (Inr (), db1)"
    using assms(4,5,7) h by (simp add: pg_issue_def transaction_def db1_def ch_def)
  then have "issue_token sv pg_issue jti now sc db = (Inr ?token, db1)" by (simp add: issue_token_def assms(6) [symmetric])
  moreover have "consume_token sv (pg_consume now2) now1 ?token sc db1 = (Inr (), db2)"
    "consume_token sv (pg_consume now2) now1 ?token sc db2 = (Inl (ConfirmationError ''confirmation token was already used''), db2)"
    using assms(2,8) c unfolding consume by simp_all
  moreover have "consume_token sv (pg_consume now2) now1 ?token other db1
      = (Inl (ConfirmationError ''confirmation token scope mismatch''), db1)" if "other \<noteq> sc" for other
    using that assms(8) unfolding consume by simp
  ultimately show ?thesis by blast
qed

definition tool_demo_scope :: confirmation_scope where
  "tool_demo_scope = \<lparr>cs_tenant_id = ''t'', cs_principal_id = ''p'', cs_session_id = ''s'', cs_tool_name = ''pay'', cs_arguments_hash = ''h''\<rparr>"

theorem confirmation_token_roundtrip_witness:
  "\<exists>token db1 db2. issue_token tool_demo_service pg_issue ''j'' 0 tool_demo_scope tool_demo_db = (Inr token, db1)
    \<and> consume_token tool_demo_service (pg_consume 20) 10 token tool_demo_scope db1 = (Inr (), db2)
    \<and> consume_token tool_demo_service (pg_consume 20) 10 token tool_demo_scope db2
        = (Inl (ConfirmationError ''confirmation token was already used''), db2)"
proof -
  have f: "scope_fits tool_demo_scope" "cs_tenant_id tool_demo_scope = ''t''" by (simp_all add: scope_fits_def tool_demo_scope_def)
  have d: "db_tenants tool_demo_db = [''t'']" "db_challenges tool_demo_db = Map.empty" by (simp_all add: tool_demo_db_def)
  have "\<exists>token db1 db2. issue_token tool_demo_service pg_issue ''j'' 0 tool_demo_scope tool_demo_db = (Inr token, db1)
    \<and> consume_token tool_demo_service (pg_consume 20) 10 token tool_demo_scope db1 = (Inr (), db2)
    \<and> consume_token tool_demo_service (pg_consume 20) 10 token tool_demo_scope db2
        = (Inl (ConfirmationError ''confirmation token was already used''), db2)
    \<and> (\<forall>other. other \<noteq> tool_demo_scope \<longrightarrow> consume_token tool_demo_service (pg_consume 20) 10 token other db1
         = (Inl (ConfirmationError ''confirmation token scope mismatch''), db1))"
    by (rule confirmation_token_roundtrip [of _ _ _ 300])
       (simp_all add: f d whole_seconds_def tool_demo_service_def timestamp_ok_def seconds_def)
  then show ?thesis by blast
qed

text \<open>
  C7. A token is let through at most once. In every history of calls of \<^verbatim>\<open>issue\<close> and \<^verbatim>\<open>consume\<close> on the PostgreSQL ledger, with
  any tokens, scopes, identifiers and clock readings, from any state of the ledger, the calls of \<^verbatim>\<open>consume\<close> that
  present one token are accepted at most once.
\<close>

theorem confirmation_token_single_use:
  "accepted sv pg_issue pg_consume token calls db \<le> 1"
proof (rule pg_confirmations.accepted_at_most_once)
  show "fresh_ids sv pg_issue pg_consume (\<lambda>_ _. False) calls db"
    by (induction calls arbitrary: db) (simp_all split: confirmation_call.split)
qed

text \<open>
  C24. A confirmation is bound to the arguments. If a token that was issued for one call of a tool is accepted for another
  call, by whatever ledger, then tenant, principal, session and tool are the same, and the arguments are the same JSON
  values, unless the two canonical texts are different and collide under SHA-256.
\<close>

theorem confirmation_binds_arguments:
  assumes "consume_token sv ledger_consume now (token_text sv jti expires (call_scope ctx tool_name a))
      (call_scope ctx' tool_name' b) l = (Inr (), l')"
    and "scope_fits (call_scope ctx tool_name a)" and "length jti \<le> 36" and "\<bar>expires\<bar> < 10 ^ 18"
    and "json_ok (JObj a)" and "json_ok (JObj b)"
  shows "tc_tenant_id ctx' = tc_tenant_id ctx \<and> tc_principal_id ctx' = tc_principal_id ctx
    \<and> tc_session_id ctx' = tc_session_id ctx \<and> tool_name' = tool_name
    \<and> (loaded_of (JObj a) = loaded_of (JObj b)
       \<or> (\<exists>x y. x \<noteq> y \<and> sha256 x = sha256 y \<and> x = utf8_encode (json_dumps (JObj a)) \<and> y = utf8_encode (json_dumps (JObj b))))"
proof -
  have "call_scope ctx' tool_name' b = call_scope ctx tool_name a"
    using assms(1) unfolding consume_token_text [OF assms(4) issued_token_fits [OF assms(2,3,4)]]
    by (auto split: if_splits)
  then have eq: "tc_tenant_id ctx' = tc_tenant_id ctx" "tc_principal_id ctx' = tc_principal_id ctx"
      "tc_session_id ctx' = tc_session_id ctx" "tool_name' = tool_name" "arguments_hash a = arguments_hash b"
    by (simp_all add: call_scope_def)
  from arguments_hash_collision [OF assms(5,6) eq(5)] eq(1-4) show ?thesis by blast
qed

text \<open>
  A token issued for one call and presented for another: the second call has another trace id and gives the same arguments in
  another order, and the token is accepted.
\<close>

definition demo_arguments :: "(string \<times> jval) list" where
  "demo_arguments = [(''amount'', JInt 5), (''to'', JStr ''bob'')]"

definition demo_reordered :: "(string \<times> jval) list" where
  "demo_reordered = [(''to'', JStr ''bob''), (''amount'', JInt 5)]"

lemma demo_arguments_hash: "arguments_hash demo_reordered = arguments_hash demo_arguments"
proof -
  have "json_dumps (JObj demo_reordered) = json_dumps (JObj demo_arguments)" by code_simp
  then show ?thesis by (simp add: arguments_hash_def)
qed

theorem confirmation_binds_arguments_witness:
  "demo_reordered \<noteq> demo_arguments
    \<and> consume_token tool_demo_service (memory_consume 0) 0
        (token_text tool_demo_service ''j'' 300 (call_scope tool_demo_context ''pay'' demo_arguments))
        (call_scope (tool_demo_context\<lparr>tc_trace_id := ''other''\<rparr>) ''pay'' demo_reordered) [code_points ''j'' \<mapsto> (300, False)]
      = (Inr (), [code_points ''j'' \<mapsto> (300, True)])
    \<and> (loaded_of (JObj demo_arguments) = loaded_of (JObj demo_reordered)
       \<or> (\<exists>x y. x \<noteq> y \<and> sha256 x = sha256 y \<and> x = utf8_encode (json_dumps (JObj demo_arguments))
            \<and> y = utf8_encode (json_dumps (JObj demo_reordered))))"
proof -
  let ?ctx = "tool_demo_context\<lparr>tc_trace_id := ''other''\<rparr>"
  let ?a = "call_scope tool_demo_context ''pay'' demo_arguments" and ?b = "call_scope ?ctx ''pay'' demo_reordered"
  have fits: "scope_fits ?a" by (simp add: scope_fits_def call_scope_def tool_demo_context_def arguments_hash_length)
  have same: "?b = ?a" by (simp add: call_scope_def demo_arguments_hash)
  have c: "consume_token tool_demo_service (memory_consume 0) 0 (token_text tool_demo_service ''j'' 300 ?a) ?b [code_points ''j'' \<mapsto> (300, False)]
      = (Inr (), [code_points ''j'' \<mapsto> (300, True)])"
    unfolding same by (simp add: consume_token_text [OF _ issued_token_fits [OF fits]] whole_seconds_def memory_consume_def)
  have ok: "json_ok (JObj demo_arguments)" "json_ok (JObj demo_reordered)" by code_simp+
  from confirmation_binds_arguments [OF c fits _ _ ok] c show ?thesis by (simp add: demo_arguments_def demo_reordered_def)
qed

end
