(* ===== verification/Py_Rational.thy ===== *)
theory Py_Rational
  imports Prelude Complex_Main
begin

text \<open>
  Two functions of the Python standard library on numbers that are not whole, which are rationals here: \<^verbatim>\<open>round\<close> to the nearest
  integer, half to even, and \<^verbatim>\<open>timedelta(seconds=x)\<close>, which rounds to microseconds in the same way.
\<close>

definition round_half_even :: "rat \<Rightarrow> int" where
  "round_half_even q =
     (let f = \<lfloor>q\<rfloor>; d = q - of_int f
      in if d < 1 / 2 then f else if 1 / 2 < d then f + 1 else if even f then f else f + 1)"

definition timedelta_seconds :: "rat \<Rightarrow> duration" where
  "timedelta_seconds x = round_half_even (x * 1000000)"

lemma round_half_even_mono: "x \<le> y \<Longrightarrow> round_half_even x \<le> round_half_even y"
proof -
  assume xy: "x \<le> y"
  then have f: "\<lfloor>x\<rfloor> \<le> \<lfloor>y\<rfloor>" by (rule floor_mono)
  have up: "round_half_even x \<le> \<lfloor>x\<rfloor> + 1" and low: "\<lfloor>y\<rfloor> \<le> round_half_even y"
    by (auto simp: round_half_even_def Let_def)
  show ?thesis
  proof (cases "\<lfloor>x\<rfloor> = \<lfloor>y\<rfloor>")
    case True
    then show ?thesis using xy by (auto simp: round_half_even_def Let_def)
  next
    case False
    then show ?thesis using f up low by linarith
  qed
qed

lemma round_half_even_of_int [simp]: "round_half_even (of_int i) = i"
  by (simp add: round_half_even_def)

lemma timedelta_seconds_mono: "x \<le> y \<Longrightarrow> timedelta_seconds x \<le> timedelta_seconds y"
  unfolding timedelta_seconds_def by (rule round_half_even_mono) simp

lemma timedelta_seconds_of_int [simp]: "timedelta_seconds (of_int i) = seconds i"
proof -
  have "timedelta_seconds (of_int i) = round_half_even (of_int (i * 1000000))" by (simp add: timedelta_seconds_def)
  then show ?thesis unfolding round_half_even_of_int by (simp add: seconds_def)
qed

end
