(* ===== verification/Channel_Dispatcher.thy ===== *)
theory Channel_Dispatcher
  imports Repository Py_Rational
begin

text \<open>
  The outbound dispatcher of \<^verbatim>\<open>src/trpc_service/channels/dispatcher.py\<close>, on the in-memory repository: it claims outbox records,
  resolves the binding, starts a delivery attempt, calls the channel's provider and records what came back. Parsing a
  payload (\<^verbatim>\<open>OutboundEnvelope.model_validate\<close>, pydantic), the provider behind \<^verbatim>\<open>adapter.send\<close> and the random jitter are
  arguments; \<open>send\<close> also returns the repository as others leave it while the provider is busy. Both repositories of the
  service have \<^verbatim>\<open>begin_delivery\<close> and \<^verbatim>\<open>finish_delivery\<close>, so \<^verbatim>\<open>_supports_atomic_delivery\<close> holds and the branch for
  repositories without them is left out, as are metrics, spans and log records. A Python float of seconds is a rational.
\<close>

record channel_dispatcher =
  cd_owner_id :: string
  cd_event_type :: string
  cd_max_attempts :: int
  cd_batch_limit :: int
  cd_lease_seconds :: rat
  cd_adapters :: "channel set"
  cd_binding_ready :: "(channel_binding \<Rightarrow> bool) option"

definition init_channel_dispatcher :: "channel_dispatcher \<Rightarrow> error + channel_dispatcher" where
  "init_channel_dispatcher cd =
     (if cd_batch_limit cd < 1 then Inl (ValueError ''batch_limit must be positive'')
      else if cd_lease_seconds cd \<le> 0 then Inl (ValueError ''lease_seconds must be positive'')
      else Inr cd)"

type_synonym provider =
  "outbound_envelope \<Rightarrow> channel_binding \<Rightarrow> runtime_repository \<Rightarrow> (delivery_receipt, runtime_repository) outcome"

subsection \<open>Delays\<close>

text \<open>\<^verbatim>\<open>timedelta(seconds=...)\<close> raises when the result has more than nine digits of days.\<close>

definition timedelta_of :: "rat \<Rightarrow> error + duration" where
  "timedelta_of x =
     (let d = timedelta_seconds x
      in if \<bar>d div 86400000000\<bar> \<le> 999999999 then Inr d
         else Inl (OverflowError ''days must have magnitude <= 999999999''))"

definition retry_delay_for :: "(rat \<Rightarrow> rat) \<Rightarrow> delivery_receipt \<Rightarrow> nat \<Rightarrow> error + duration" where
  "retry_delay_for jitter receipt attempts =
     (case dr_retry_after_seconds receipt of
        Some s \<Rightarrow> timedelta_of s
      | None \<Rightarrow>
          (let retry_after = jitter (min (2 ^ attempts) 60)
           in if retry_after < 0 then Inl (ValueError ''retry jitter must return a finite non-negative delay'')
              else timedelta_of (min retry_after 60)))"

subsection \<open>Receipts\<close>

definition ambiguous_receipt :: "string \<Rightarrow> string \<Rightarrow> delivery_receipt" where
  "ambiguous_receipt outbound_id provider_code =
     \<lparr>dr_outbound_id = outbound_id, dr_status = AMBIGUOUS, dr_provider_message_id = None,
      dr_provider_code = Some provider_code, dr_retryable = False, dr_retry_after_seconds = None, dr_attempts = 1\<rparr>"

definition normalize_receipt :: "delivery_receipt \<Rightarrow> outbound_envelope \<Rightarrow> delivery_receipt" where
  "normalize_receipt receipt envelope =
     (if dr_outbound_id receipt = oe_outbound_id envelope then receipt
      else receipt\<lparr>dr_outbound_id := oe_outbound_id envelope, dr_status := AMBIGUOUS,
                   dr_provider_code := Some ''receipt_mismatch'', dr_retryable := False\<rparr>)"

text \<open>What the dispatcher makes of the provider's answer: an exception is an ambiguous outcome, and a failure that may be
  retried is final once the attempts are used up.\<close>

definition answer_receipt :: "outbound_envelope \<Rightarrow> error + delivery_receipt \<Rightarrow> delivery_receipt" where
  "answer_receipt envelope answer =
     (case answer of
        Inl _ \<Rightarrow> ambiguous_receipt (oe_outbound_id envelope) ''transport_unknown''
      | Inr raw \<Rightarrow> normalize_receipt raw envelope)"

definition is_retrying :: "channel_dispatcher \<Rightarrow> nat \<Rightarrow> delivery_receipt \<Rightarrow> bool" where
  "is_retrying cd attempt_number receipt =
     (dr_status receipt = FAILED \<and> dr_retryable receipt \<and> int attempt_number < cd_max_attempts cd)"

definition final_receipt :: "channel_dispatcher \<Rightarrow> nat \<Rightarrow> delivery_receipt \<Rightarrow> delivery_receipt" where
  "final_receipt cd attempt_number receipt =
     (if dr_status receipt = FAILED \<and> dr_retryable receipt \<and> \<not> is_retrying cd attempt_number receipt
      then receipt\<lparr>dr_retryable := False\<rparr> else receipt)"

subsection \<open>One record\<close>

definition dispatch_atomic ::
    "channel_dispatcher \<Rightarrow> provider \<Rightarrow> (rat \<Rightarrow> rat) \<Rightarrow> time \<Rightarrow> outbox_record \<Rightarrow> outbound_envelope \<Rightarrow> channel_binding
       \<Rightarrow> runtime_repository \<Rightarrow> (delivery_receipt \<times> bool \<times> bool, runtime_repository) outcome"
where
  "dispatch_atomic cd send jitter now r envelope binding rp =
     (case begin_delivery r (cd_owner_id cd) rp of
        (Inl e, rp1) \<Rightarrow> raise_in rp1 e
      | (Inr attempt, rp1) \<Rightarrow>
          if da_tenant_id attempt \<noteq> ob_tenant_id r \<or> da_owner_id attempt \<noteq> cd_owner_id cd
             \<or> da_outbound_id attempt \<noteq> oe_outbound_id envelope
          then raise_in rp1 (ValueError ''repository returned a mismatched delivery attempt'')
          else
            (case send envelope binding rp1 of
               (answer, rp2) \<Rightarrow>
                 (let received = answer_receipt envelope answer;
                      n = da_attempt_number attempt;
                      retrying = is_retrying cd n received;
                      receipt = final_receipt cd n received
                  in case retry_delay_for jitter receipt n of
                       Inl e \<Rightarrow> raise_in rp2 e
                     | Inr delay \<Rightarrow>
                         (case finish_delivery r (cd_owner_id cd) n receipt delay now rp2 of
                            (Inl _, rp3) \<Rightarrow> return_in rp3 (receipt, retrying, False)
                          | (Inr _, rp3) \<Rightarrow> return_in rp3 (receipt, retrying, True)))))"

definition resolve_in_progress ::
    "channel_dispatcher \<Rightarrow> time \<Rightarrow> outbox_record \<Rightarrow> outbound_envelope \<Rightarrow> nat \<Rightarrow> runtime_repository
       \<Rightarrow> (delivery_receipt \<times> bool, runtime_repository) outcome"
where
  "resolve_in_progress cd now r envelope attempt_number rp =
     (let receipt = ambiguous_receipt (oe_outbound_id envelope) ''delivery_in_progress''
      in if 0 < attempt_number
         then (case finish_delivery r (cd_owner_id cd) attempt_number receipt 0 now rp of
                 (Inl e, rp1) \<Rightarrow> raise_in rp1 e
               | (Inr _, rp1) \<Rightarrow> return_in rp1 (receipt, True))
         else (case dead_letter_outbox r (cd_owner_id cd) ''delivery_in_progress'' (record_delivery receipt rp) of
                 (Inl _, rp1) \<Rightarrow> return_in rp1 (receipt, False)
               | (Inr _, rp1) \<Rightarrow> return_in rp1 (receipt, True)))"

definition retry_or_dead_letter ::
    "channel_dispatcher \<Rightarrow> time \<Rightarrow> outbox_record \<Rightarrow> string \<Rightarrow> duration \<Rightarrow> runtime_repository \<Rightarrow> (unit, runtime_repository) outcome"
where
  "retry_or_dead_letter cd now r reason delay rp =
     (if cd_max_attempts cd \<le> int (ob_attempts r) then dead_letter_outbox r (cd_owner_id cd) reason rp
      else release_outbox (ob_outbox_id r) (cd_owner_id cd) delay now rp)"

definition dead_letter_record ::
    "channel_dispatcher \<Rightarrow> outbox_record \<Rightarrow> string \<Rightarrow> runtime_repository \<Rightarrow> bool \<times> runtime_repository"
where
  "dead_letter_record cd r reason rp =
     (case dead_letter_outbox r (cd_owner_id cd) reason rp of (Inl _, rp1) \<Rightarrow> (False, rp1) | (Inr _, rp1) \<Rightarrow> (True, rp1))"

definition route_matches :: "outbox_record \<Rightarrow> outbound_envelope \<Rightarrow> binding_route option \<Rightarrow> bool" where
  "route_matches r envelope route =
     (case route of
        None \<Rightarrow> False
      | Some rt \<Rightarrow>
          cb_binding_id (br_binding rt) = oe_binding_id envelope \<and> cb_tenant_id (br_binding rt) = ob_tenant_id r
          \<and> cb_tenant_id (br_binding rt) = oe_tenant_id envelope \<and> cb_channel (br_binding rt) = oe_channel envelope)"

text \<open>The \<^verbatim>\<open>try\<close> block of \<^verbatim>\<open>_dispatch_record\<close>; \<open>clk 0\<close> is the clock of the repository call that returns a record, \<open>clk 1\<close> that of
  the result.\<close>

definition then_return_false :: "(unit, 's) outcome \<Rightarrow> (bool, 's) outcome" where
  "then_return_false out = (case out of (Inl e, s) \<Rightarrow> raise_in s e | (Inr _, s) \<Rightarrow> return_in s False)"

definition deliver_record ::
    "channel_dispatcher \<Rightarrow> provider \<Rightarrow> (rat \<Rightarrow> rat) \<Rightarrow> (nat \<Rightarrow> time) \<Rightarrow> outbox_record \<Rightarrow> outbound_envelope
       \<Rightarrow> runtime_repository \<Rightarrow> (bool, runtime_repository) outcome"
where
  "deliver_record cd send jitter clk r envelope rp =
     (let route = resolve_binding (oe_binding_id envelope) rp
      in if \<not> route_matches r envelope route
         then then_return_false (retry_or_dead_letter cd (clk 0) r ''binding_unavailable'' (seconds 300) rp)
         else if oe_channel envelope \<notin> cd_adapters cd
         then then_return_false (retry_or_dead_letter cd (clk 0) r ''adapter_unavailable'' (seconds 300) rp)
         else if case cd_binding_ready cd of None \<Rightarrow> False | Some ready \<Rightarrow> \<not> ready (br_binding (the route))
         then then_return_false (release_outbox (ob_outbox_id r) (cd_owner_id cd) (milliseconds 100) (clk 0) rp)
         else (case dispatch_atomic cd send jitter (clk 1) r envelope (br_binding (the route)) rp of
                 (Inr (receipt, retrying, persisted), rp1) \<Rightarrow> return_in rp1 (persisted \<and> \<not> retrying)
               | (Inl e, rp1) \<Rightarrow>
                   (case e of
                      DeliveryInProgress n \<Rightarrow>
                        (case resolve_in_progress cd (clk 1) r envelope n rp1 of
                           (Inl e', rp2) \<Rightarrow> raise_in rp2 e'
                         | (Inr (receipt, persisted), rp2) \<Rightarrow> return_in rp2 persisted)
                    | _ \<Rightarrow> return_in rp1 False)))"

text \<open>The handler for an exception of the \<^verbatim>\<open>try\<close> block, whatever raised it, and the whole method.\<close>

definition degraded_record :: "channel_dispatcher \<Rightarrow> outbox_record \<Rightarrow> outbound_envelope \<Rightarrow> runtime_repository \<Rightarrow> bool \<times> runtime_repository" where [simp]:
  "degraded_record cd r envelope rp =
     (False, snd (dead_letter_outbox r (cd_owner_id cd) ''dispatcher_unknown''
               (record_delivery (ambiguous_receipt (oe_outbound_id envelope) ''dispatcher_unknown'') rp)))"

definition dispatch_record ::
    "channel_dispatcher \<Rightarrow> (json \<Rightarrow> outbound_envelope option) \<Rightarrow> provider \<Rightarrow> (rat \<Rightarrow> rat) \<Rightarrow> (nat \<Rightarrow> time) \<Rightarrow> outbox_record
       \<Rightarrow> runtime_repository \<Rightarrow> bool \<times> runtime_repository"
where
  "dispatch_record cd validate send jitter clk r rp =
     (case validate (ob_payload r) of
        None \<Rightarrow> dead_letter_record cd r ''invalid_outbound_payload'' rp
      | Some envelope \<Rightarrow>
          (case deliver_record cd send jitter clk r envelope rp of
             (Inr processed, rp1) \<Rightarrow> (processed, rp1)
           | (Inl e, rp1) \<Rightarrow> degraded_record cd r envelope rp1))"

subsection \<open>One cycle\<close>

definition release_pending :: "channel_dispatcher \<Rightarrow> time \<Rightarrow> outbox_record list \<Rightarrow> runtime_repository \<Rightarrow> runtime_repository" where
  "release_pending cd now rs rp = fold (\<lambda>r s. snd (release_outbox (ob_outbox_id r) (cd_owner_id cd) 0 now s)) rs rp"

text \<open>\<open>stop i\<close> says whether the stop event is set before the record with index \<open>i\<close>; \<open>clk i\<close> are the clock readings for it.\<close>

fun dispatch_records ::
    "channel_dispatcher \<Rightarrow> (json \<Rightarrow> outbound_envelope option) \<Rightarrow> provider \<Rightarrow> (rat \<Rightarrow> rat) \<Rightarrow> (nat \<Rightarrow> nat \<Rightarrow> time) \<Rightarrow> (nat \<Rightarrow> bool)
       \<Rightarrow> nat \<Rightarrow> outbox_record list \<Rightarrow> nat \<Rightarrow> runtime_repository \<Rightarrow> nat \<times> runtime_repository"
where
  "dispatch_records cd validate send jitter clk stop i [] completed rp = (completed, rp)"
| "dispatch_records cd validate send jitter clk stop i (r # rs) completed rp =
     (if stop i then (completed, release_pending cd (clk i 0) (r # rs) rp)
      else (case dispatch_record cd validate send jitter (clk i) r rp of
              (processed, rp1) \<Rightarrow>
                dispatch_records cd validate send jitter clk stop (Suc i) rs (if processed then Suc completed else completed) rp1))"

definition dispatch_once ::
    "channel_dispatcher \<Rightarrow> (json \<Rightarrow> outbound_envelope option) \<Rightarrow> provider \<Rightarrow> (rat \<Rightarrow> rat) \<Rightarrow> time \<Rightarrow> (nat \<Rightarrow> nat \<Rightarrow> time)
       \<Rightarrow> (nat \<Rightarrow> bool) \<Rightarrow> runtime_repository \<Rightarrow> nat \<times> runtime_repository"
where
  "dispatch_once cd validate send jitter now clk stop rp =
     (case claim_outbox (cd_event_type cd) (cd_owner_id cd) (cd_batch_limit cd) (timedelta_seconds (cd_lease_seconds cd)) now rp of
        (records, rp1) \<Rightarrow> dispatch_records cd validate send jitter clk stop 0 records 0 rp1)"

subsection \<open>Many dispatchers\<close>

text \<open>
  A dispatcher that has started an attempt is about to call the provider (\<open>Started\<close>), waits for it (\<open>Waiting\<close>) or has its
  answer (\<open>Answered\<close>, with the receipt it is going to store). \<open>dy_sent\<close> is the log of provider calls, by message and
  attempt number, \<open>dy_answers\<close> the log of the receipts providers gave. The rest of the system may do anything to the
  repository but touch the delivery attempts, which only \<^verbatim>\<open>begin_delivery\<close> and \<^verbatim>\<open>finish_delivery\<close> write.
\<close>

datatype sender =
    Started channel_dispatcher outbox_record outbound_envelope nat
  | Waiting channel_dispatcher outbox_record outbound_envelope nat
  | Answered channel_dispatcher outbox_record nat delivery_receipt

record delivery_system =
  dy_repository :: runtime_repository
  dy_senders :: "nat \<Rightarrow> sender option"
  dy_sent :: "((string \<times> string) \<times> nat) list"
  dy_answers :: "((string \<times> string) \<times> nat \<times> delivery_receipt) list"

abbreviation message_key :: "outbox_record \<Rightarrow> string \<times> string" where
  "message_key r \<equiv> (ob_tenant_id r, ob_aggregate_id r)"

inductive delivery_step :: "delivery_system \<Rightarrow> delivery_system \<Rightarrow> bool" where
  begin_attempt: "dy_senders sy w = None
    \<Longrightarrow> begin_delivery r (cd_owner_id cd) (dy_repository sy) = (Inr attempt, rp)
    \<Longrightarrow> da_outbound_id attempt = oe_outbound_id envelope
    \<Longrightarrow> delivery_step sy (sy\<lparr>dy_repository := rp,
          dy_senders := (dy_senders sy)(w \<mapsto> Started cd r envelope (da_attempt_number attempt))\<rparr>)"
| refused_attempt: "begin_delivery r owner (dy_repository sy) = (x, rp)
    \<Longrightarrow> delivery_step sy (sy\<lparr>dy_repository := rp\<rparr>)"
| call_provider: "dy_senders sy w = Some (Started cd r envelope n)
    \<Longrightarrow> delivery_step sy (sy\<lparr>dy_senders := (dy_senders sy)(w \<mapsto> Waiting cd r envelope n),
          dy_sent := dy_sent sy @ [(message_key r, n)]\<rparr>)"
| provider_answers: "dy_senders sy w = Some (Waiting cd r envelope n)
    \<Longrightarrow> delivery_step sy (sy\<lparr>dy_answers := dy_answers sy @ (case answer of Inl _ \<Rightarrow> [] | Inr raw \<Rightarrow> [(message_key r, n, raw)]),
          dy_senders := (dy_senders sy)(w \<mapsto> Answered cd r n (final_receipt cd n (answer_receipt envelope answer)))\<rparr>)"
| store_result: "dy_senders sy w = Some (Answered cd r n receipt)
    \<Longrightarrow> finish_delivery r (cd_owner_id cd) n receipt delay now (dy_repository sy) = (x, rp)
    \<Longrightarrow> delivery_step sy (sy\<lparr>dy_senders := (dy_senders sy)(w := None), dy_repository := rp\<rparr>)"
| resolve_attempt: "begin_delivery r (cd_owner_id cd) (dy_repository sy) = (Inl (DeliveryInProgress n), rp)
    \<Longrightarrow> resolve_in_progress cd now r envelope n rp = (x, rp')
    \<Longrightarrow> delivery_step sy (sy\<lparr>dy_repository := rp'\<rparr>)"
| crash: "delivery_step sy (sy\<lparr>dy_senders := (dy_senders sy)(w := None)\<rparr>)"
| elsewhere: "rp_delivery_attempts rp = rp_delivery_attempts (dy_repository sy)
    \<Longrightarrow> delivery_step sy (sy\<lparr>dy_repository := rp\<rparr>)"

end
