(* ===== verification/Channel_Delivery.thy ===== *)
theory Channel_Delivery
  imports Channel_Dispatcher Repository_Inv
begin

text \<open>
  Lemmas about the outbound dispatcher: the delays it asks for, the invariant of many dispatchers working on the same
  messages, how one call of \<open>dispatch_atomic\<close> is a path of that system, and what becomes of a claimed outbox record.
\<close>

subsection \<open>Delays\<close>

lemma retry_delay_for_result:
  "retry_delay_for jitter receipt n = Inr d \<Longrightarrow> dr_retry_after_seconds receipt = None
     \<Longrightarrow> 0 \<le> jitter (min (2 ^ n) 60) \<and> d = timedelta_seconds (min (jitter (min (2 ^ n) 60)) 60)"
  by (auto simp: retry_delay_for_def timedelta_of_def Let_def split: if_splits)

subsection \<open>Receipts\<close>

lemma final_receipt_status [simp]: "dr_status (final_receipt cd n receipt) = dr_status receipt"
  by (simp add: final_receipt_def)

lemma final_receipt_outbound [simp]: "dr_outbound_id (final_receipt cd n receipt) = dr_outbound_id receipt"
  by (simp add: final_receipt_def)

lemma ambiguous_receipt_simps [simp]:
  "dr_status (ambiguous_receipt i c) = AMBIGUOUS" "dr_outbound_id (ambiguous_receipt i c) = i"
  "dr_provider_code (ambiguous_receipt i c) = Some c" "dr_retryable (ambiguous_receipt i c) = False"
  by (simp_all add: ambiguous_receipt_def)

lemma answer_receipt_outbound [simp]: "dr_outbound_id (answer_receipt envelope answer) = oe_outbound_id envelope"
  by (simp add: answer_receipt_def normalize_receipt_def split: sum.splits)

lemma answer_receipt_failed:
  "dr_status (answer_receipt envelope answer) = FAILED \<Longrightarrow> \<exists>raw. answer = Inr raw \<and> dr_status raw = FAILED \<and> dr_outbound_id raw = oe_outbound_id envelope"
  by (auto simp: answer_receipt_def normalize_receipt_def split: sum.splits if_splits)

lemma delivery_status_value_failed [simp]: "delivery_status_value s = ''failed'' \<longleftrightarrow> s = FAILED"
  by (cases s) (simp_all add: delivery_status_value_def)

lemma delivery_status_value_not_sending [simp]: "delivery_status_value s \<noteq> ''sending''"
  by (cases s) (simp_all add: delivery_status_value_def)

subsection \<open>Delivery attempts\<close>

lemma begin_delivery_attempts:
  assumes "begin_delivery r owner rp = (x, rp')"
  shows "rp_delivery_attempts rp' = rp_delivery_attempts rp \<and> (\<forall>a. x \<noteq> Inr a)
    \<or> (\<exists>n. x = Inr \<lparr>da_tenant_id = ob_tenant_id r, da_outbound_id = ob_aggregate_id r, da_attempt_number = n, da_owner_id = owner\<rparr>
         \<and> rp_delivery_attempts rp' = (rp_delivery_attempts rp)(message_key r \<mapsto> (owner, n, ''sending''))
         \<and> (rp_delivery_attempts rp (message_key r) = None \<and> n = 1
            \<or> (\<exists>o' m s. rp_delivery_attempts rp (message_key r) = Some (o', m, s) \<and> n = m + 1
                \<and> s \<noteq> ''sending'' \<and> s \<noteq> ''delivered'' \<and> s \<noteq> ''ambiguous'')))"
  using assms by (auto simp: begin_delivery_def Let_def split: if_splits option.splits)

lemma finish_delivery_attempts:
  assumes "finish_delivery r owner n receipt delay now rp = (x, rp')"
  shows "rp_delivery_attempts rp' = rp_delivery_attempts rp \<and> (\<forall>u. x \<noteq> Inr u)
    \<or> (\<exists>o'. rp_delivery_attempts rp (message_key r) = Some (o', n, ''sending'')
         \<and> rp_delivery_attempts rp' = (rp_delivery_attempts rp)(message_key r \<mapsto> (owner, n, delivery_status_value (dr_status receipt)))
         \<and> dr_outbound_id receipt = ob_aggregate_id r)"
  using assms
  by (auto simp: finish_delivery_def Let_def drop_outbox_def record_delivery_def
      split: if_splits option.splits)

lemma dead_letter_outbox_attempts [simp]:
  "rp_delivery_attempts (snd (dead_letter_outbox r owner reason rp)) = rp_delivery_attempts rp"
  by (simp add: dead_letter_outbox_def drop_outbox_def)

lemma record_delivery_attempts [simp]: "rp_delivery_attempts (record_delivery receipt rp) = rp_delivery_attempts rp"
  by (simp add: record_delivery_def)

lemma resolve_in_progress_attempts:
  assumes "resolve_in_progress cd now r envelope n rp = (x, rp')"
  shows "rp_delivery_attempts rp' = rp_delivery_attempts rp
    \<or> (\<exists>o'. rp_delivery_attempts rp (message_key r) = Some (o', n, ''sending'')
         \<and> rp_delivery_attempts rp' = (rp_delivery_attempts rp)(message_key r \<mapsto> (cd_owner_id cd, n, ''ambiguous'')))"
proof (cases "0 < n")
  case True
  define receipt where "receipt = ambiguous_receipt (oe_outbound_id envelope) ''delivery_in_progress''"
  obtain y rp1 where f: "finish_delivery r (cd_owner_id cd) n receipt 0 now rp = (y, rp1)" by fastforce
  have "rp1 = rp'" using assms True f
    by (auto simp: resolve_in_progress_def Let_def receipt_def [symmetric] split: sum.splits)
  then show ?thesis using finish_delivery_attempts [OF f] by (auto simp: receipt_def delivery_status_value_def)
next
  case False
  then have "rp' = snd (dead_letter_outbox r (cd_owner_id cd) ''delivery_in_progress''
      (record_delivery (ambiguous_receipt (oe_outbound_id envelope) ''delivery_in_progress'') rp))"
    using assms by (auto simp: resolve_in_progress_def Let_def split: prod.splits sum.splits)
  then show ?thesis by simp
qed

subsection \<open>Many dispatchers\<close>

text \<open>The attempt a sender works on, and whether it has called the provider yet.\<close>

fun sender_attempt :: "sender \<Rightarrow> (string \<times> string) \<times> nat" where
  "sender_attempt (Started cd r envelope n) = (message_key r, n)"
| "sender_attempt (Waiting cd r envelope n) = (message_key r, n)"
| "sender_attempt (Answered cd r n receipt) = (message_key r, n)"

definition attempt_number :: "delivery_system \<Rightarrow> string \<times> string \<Rightarrow> nat" where
  "attempt_number sy k = (case rp_delivery_attempts (dy_repository sy) k of None \<Rightarrow> 0 | Some (_, n, _) \<Rightarrow> n)"

definition attempt_failed :: "delivery_system \<Rightarrow> string \<times> string \<Rightarrow> bool" where
  "attempt_failed sy k = (case rp_delivery_attempts (dy_repository sy) k of
     None \<Rightarrow> False | Some (_, _, s) \<Rightarrow> s \<noteq> ''sending'' \<and> s \<noteq> ''delivered'' \<and> s \<noteq> ''ambiguous'')"

definition rejected :: "delivery_system \<Rightarrow> string \<times> string \<Rightarrow> nat \<Rightarrow> bool" where
  "rejected sy k n \<longleftrightarrow>
     (\<exists>receipt. (k, n, receipt) \<in> set (dy_answers sy) \<and> dr_status receipt = FAILED \<and> dr_outbound_id receipt = snd k)"

fun sender_ok :: "delivery_system \<Rightarrow> sender \<Rightarrow> bool" where
  "sender_ok sy (Started cd r envelope n) \<longleftrightarrow>
     0 < n \<and> n = attempt_number sy (message_key r) \<and> \<not> attempt_failed sy (message_key r) \<and> (message_key r, n) \<notin> set (dy_sent sy)
     \<and> oe_outbound_id envelope = ob_aggregate_id r"
| "sender_ok sy (Waiting cd r envelope n) \<longleftrightarrow>
     0 < n \<and> n \<le> attempt_number sy (message_key r) \<and> oe_outbound_id envelope = ob_aggregate_id r"
| "sender_ok sy (Answered cd r n receipt) \<longleftrightarrow>
     0 < n \<and> n \<le> attempt_number sy (message_key r) \<and> (dr_status receipt = FAILED \<longrightarrow> rejected sy (message_key r) n)"

definition sent_ok :: "delivery_system \<Rightarrow> (string \<times> string) \<times> nat \<Rightarrow> bool" where
  "sent_ok sy = (\<lambda>(k, n). 0 < n \<and> n \<le> attempt_number sy k
     \<and> (n < attempt_number sy k \<or> attempt_failed sy k \<longrightarrow> rejected sy k n))"

definition delivery_inv :: "delivery_system \<Rightarrow> bool" where
  "delivery_inv sy \<longleftrightarrow>
     distinct (dy_sent sy)
     \<and> (\<forall>a \<in> set (dy_sent sy). sent_ok sy a)
     \<and> (\<forall>w s. dy_senders sy w = Some s \<longrightarrow> sender_ok sy s)
     \<and> (\<forall>w w' s s'. dy_senders sy w = Some s \<longrightarrow> dy_senders sy w' = Some s' \<longrightarrow> sender_attempt s = sender_attempt s' \<longrightarrow> w = w')"

lemma delivery_invI:
  assumes "distinct (dy_sent sy)" and "\<And>a. a \<in> set (dy_sent sy) \<Longrightarrow> sent_ok sy a"
    and "\<And>w s. dy_senders sy w = Some s \<Longrightarrow> sender_ok sy s"
    and "\<And>w w' s s'. dy_senders sy w = Some s \<Longrightarrow> dy_senders sy w' = Some s' \<Longrightarrow> sender_attempt s = sender_attempt s' \<Longrightarrow> w = w'"
  shows "delivery_inv sy"
  using assms unfolding delivery_inv_def by blast

lemma delivery_invD:
  assumes "delivery_inv sy"
  shows "distinct (dy_sent sy)" and "\<And>a. a \<in> set (dy_sent sy) \<Longrightarrow> sent_ok sy a"
    and "\<And>w s. dy_senders sy w = Some s \<Longrightarrow> sender_ok sy s"
    and "\<And>w w' s s'. dy_senders sy w = Some s \<Longrightarrow> dy_senders sy w' = Some s' \<Longrightarrow> sender_attempt s = sender_attempt s' \<Longrightarrow> w = w'"
  using assms unfolding delivery_inv_def by blast+

lemma sender_ok_bounds:
  "sender_ok sy s \<Longrightarrow> 0 < snd (sender_attempt s) \<and> snd (sender_attempt s) \<le> attempt_number sy (fst (sender_attempt s))"
  by (cases s) simp_all

text \<open>What the parts of the invariant depend on: the attempt table at the key, and the two logs.\<close>

lemma sender_ok_cong:
  assumes "attempt_number sy' (fst (sender_attempt s)) = attempt_number sy (fst (sender_attempt s))"
    and "attempt_failed sy' (fst (sender_attempt s)) = attempt_failed sy (fst (sender_attempt s))"
    and "dy_sent sy' = dy_sent sy" and "set (dy_answers sy) \<subseteq> set (dy_answers sy')" and "sender_ok sy s"
  shows "sender_ok sy' s"
  using assms by (cases s) (auto simp: rejected_def)

lemma sent_ok_cong:
  assumes "attempt_number sy' (fst a) = attempt_number sy (fst a)" and "attempt_failed sy' (fst a) = attempt_failed sy (fst a)"
    and "set (dy_answers sy) \<subseteq> set (dy_answers sy')" and "sent_ok sy a"
  shows "sent_ok sy' a"
  using assms by (cases a) (auto simp: sent_ok_def rejected_def)

lemma attempt_number_frame [simp]:
  "attempt_number (sy\<lparr>dy_senders := x\<rparr>) = attempt_number sy" "attempt_number (sy\<lparr>dy_sent := y\<rparr>) = attempt_number sy"
  "attempt_number (sy\<lparr>dy_answers := z\<rparr>) = attempt_number sy"
  by (simp_all add: attempt_number_def fun_eq_iff)

lemma attempt_failed_frame [simp]:
  "attempt_failed (sy\<lparr>dy_senders := x\<rparr>) = attempt_failed sy" "attempt_failed (sy\<lparr>dy_sent := y\<rparr>) = attempt_failed sy"
  "attempt_failed (sy\<lparr>dy_answers := z\<rparr>) = attempt_failed sy"
  by (simp_all add: attempt_failed_def fun_eq_iff)

lemma attempt_table:
  assumes "rp_delivery_attempts rp = (rp_delivery_attempts (dy_repository sy))(k \<mapsto> (owner, n, status))"
  shows "attempt_number (sy\<lparr>dy_repository := rp\<rparr>) k' = (if k' = k then n else attempt_number sy k')"
    and "attempt_failed (sy\<lparr>dy_repository := rp\<rparr>) k' =
      (if k' = k then status \<noteq> ''sending'' \<and> status \<noteq> ''delivered'' \<and> status \<noteq> ''ambiguous'' else attempt_failed sy k')"
  using assms by (simp_all add: attempt_number_def attempt_failed_def)

text \<open>Changes of the attempt table: none, a fresh attempt after a rejected one, and the end of the current attempt.\<close>

lemma delivery_inv_same:
  assumes "delivery_inv sy" and "rp_delivery_attempts rp = rp_delivery_attempts (dy_repository sy)"
  shows "delivery_inv (sy\<lparr>dy_repository := rp\<rparr>)"
proof (rule delivery_invI)
  have same: "attempt_number (sy\<lparr>dy_repository := rp\<rparr>) = attempt_number sy"
    "attempt_failed (sy\<lparr>dy_repository := rp\<rparr>) = attempt_failed sy"
    using assms(2) by (simp_all add: attempt_number_def attempt_failed_def fun_eq_iff)
  show "sent_ok (sy\<lparr>dy_repository := rp\<rparr>) a" if "a \<in> set (dy_sent (sy\<lparr>dy_repository := rp\<rparr>))" for a
    by (rule sent_ok_cong [OF _ _ _ delivery_invD(2) [OF assms(1)]]) (use that in \<open>simp_all add: same\<close>)
  show "sender_ok (sy\<lparr>dy_repository := rp\<rparr>) s" if "dy_senders (sy\<lparr>dy_repository := rp\<rparr>) w = Some s" for w s
    by (rule sender_ok_cong [OF _ _ _ _ delivery_invD(3) [OF assms(1), of w]]) (use that in \<open>simp_all add: same\<close>)
qed (use delivery_invD [OF assms(1)] in auto)

lemma delivery_inv_drop:
  assumes "delivery_inv sy"
  shows "delivery_inv (sy\<lparr>dy_senders := (dy_senders sy)(w := None)\<rparr>)" (is "delivery_inv ?t")
proof (rule delivery_invI)
  show "sent_ok ?t a" if "a \<in> set (dy_sent ?t)" for a
    by (rule sent_ok_cong [OF _ _ _ delivery_invD(2) [OF assms]]) (use that in simp_all)
  show "sender_ok ?t s" if "dy_senders ?t w' = Some s" for w' s
    by (rule sender_ok_cong [OF _ _ _ _ delivery_invD(3) [OF assms, of w']]) (use that in \<open>simp_all split: if_splits\<close>)
  show "w1 = w2" if "dy_senders ?t w1 = Some s" "dy_senders ?t w2 = Some s'" "sender_attempt s = sender_attempt s'" for w1 w2 s s'
    using delivery_invD(4) [OF assms, of w1 s w2 s'] that by (simp split: if_splits)
qed (use delivery_invD(1) [OF assms] in simp)

lemma delivery_inv_fresh:
  assumes inv: "delivery_inv sy"
    and at: "rp_delivery_attempts rp = (rp_delivery_attempts (dy_repository sy))(k \<mapsto> (owner, n, ''sending''))"
    and n: "n = attempt_number sy k + 1" and ready: "attempt_number sy k = 0 \<or> attempt_failed sy k"
  shows "delivery_inv (sy\<lparr>dy_repository := rp\<rparr>)" (is "delivery_inv ?t")
proof (rule delivery_invI)
  note tab = attempt_table [OF at]
  show "sent_ok ?t a" if "a \<in> set (dy_sent ?t)" for a
  proof -
    obtain k' m where a: "a = (k', m)" by (cases a)
    have ok: "sent_ok sy (k', m)" using delivery_invD(2) [OF inv] that by (simp add: a)
    show ?thesis
    proof (cases "k' = k")
      case True
      then show ?thesis using ok ready by (auto simp: a sent_ok_def tab n rejected_def)
    next
      case False
      then show ?thesis using ok by (simp add: a sent_ok_def tab rejected_def)
    qed
  qed
  show "sender_ok ?t s" if "dy_senders ?t w = Some s" for w s
  proof -
    have ok: "sender_ok sy s" using delivery_invD(3) [OF inv] that by simp
    then show ?thesis using ready by (cases s) (auto simp: tab n rejected_def)
  qed
qed (use delivery_invD [OF inv] in auto)


lemma delivery_inv_end:
  assumes inv: "delivery_inv sy"
    and cur: "rp_delivery_attempts (dy_repository sy) k = Some (owner', n, ''sending'')"
    and at: "rp_delivery_attempts rp = (rp_delivery_attempts (dy_repository sy))(k \<mapsto> (owner, n, status))"
    and closed: "status = ''delivered'' \<or> status = ''ambiguous''
      \<or> rejected sy k n \<and> (\<forall>w s. dy_senders sy w = Some s \<longrightarrow> sender_attempt s \<noteq> (k, n))"
  shows "delivery_inv (sy\<lparr>dy_repository := rp\<rparr>)" (is "delivery_inv ?t")
proof (rule delivery_invI)
  note tab = attempt_table [OF at]
  have num: "attempt_number sy k = n" using cur by (simp add: attempt_number_def)
  have tnum: "attempt_number ?t = attempt_number sy" by (simp add: fun_eq_iff tab num)
  show "sent_ok ?t a" if "a \<in> set (dy_sent ?t)" for a
  proof -
    obtain k' m where a: "a = (k', m)" by (cases a)
    have ok: "sent_ok sy (k', m)" using delivery_invD(2) [OF inv] that by (simp add: a)
    show ?thesis
    proof (cases "k' = k")
      case True
      then show ?thesis using ok closed by (cases "m = n") (auto simp: a sent_ok_def tnum num tab(2) rejected_def)
    next
      case False
      then show ?thesis using ok by (simp add: a sent_ok_def tab rejected_def)
    qed
  qed
  show "sender_ok ?t s" if "dy_senders ?t w = Some s" for w s
  proof -
    have ok: "sender_ok sy s" using delivery_invD(3) [OF inv] that by simp
    have free: "\<not> attempt_failed ?t k" if "sender_attempt s = (k, n)"
      using closed that \<open>dy_senders ?t w = Some s\<close> by (auto simp: tab(2))
    show ?thesis
    proof (cases s)
      case (Started cd r envelope m)
      then show ?thesis using ok free num by (cases "message_key r = k") (auto simp: tnum tab(2))
    qed (use ok in \<open>simp_all add: tnum rejected_def\<close>)
  qed
qed (use delivery_invD [OF inv] in auto)

subsection \<open>Every step keeps the invariant\<close>

lemma delivery_inv_begin:
  assumes "delivery_inv sy" and "begin_delivery r owner (dy_repository sy) = (x, rp)"
  shows "delivery_inv (sy\<lparr>dy_repository := rp\<rparr>)"
  using begin_delivery_attempts [OF assms(2)]
proof (elim disjE conjE exE)
  assume "rp_delivery_attempts rp = rp_delivery_attempts (dy_repository sy)"
  then show ?thesis by (rule delivery_inv_same [OF assms(1)])
next
  fix n
  assume at: "rp_delivery_attempts rp = (rp_delivery_attempts (dy_repository sy))(message_key r \<mapsto> (owner, n, ''sending''))"
    and "rp_delivery_attempts (dy_repository sy) (message_key r) = None" "n = 1"
  then show ?thesis by (intro delivery_inv_fresh [OF assms(1) at]) (simp_all add: attempt_number_def)
next
  fix n owner' m status
  assume at: "rp_delivery_attempts rp = (rp_delivery_attempts (dy_repository sy))(message_key r \<mapsto> (owner, n, ''sending''))"
    and "rp_delivery_attempts (dy_repository sy) (message_key r) = Some (owner', m, status)" "n = m + 1"
    and "status \<noteq> ''sending''" "status \<noteq> ''delivered''" "status \<noteq> ''ambiguous''"
  then show ?thesis by (intro delivery_inv_fresh [OF assms(1) at]) (simp_all add: attempt_number_def attempt_failed_def)
qed

text \<open>A new sender with an attempt of its own.\<close>

lemma unique_update:
  assumes "\<And>w w' s s'. m w = Some s \<Longrightarrow> m w' = Some s' \<Longrightarrow> f s = f s' \<Longrightarrow> w = w'"
    and "\<And>w' s'. m w' = Some s' \<Longrightarrow> f s' = f x \<Longrightarrow> w' = v"
    and "(if w1 = v then Some x else m w1) = Some s1" and "(if w2 = v then Some x else m w2) = Some s2" and "f s1 = f s2"
  shows "w1 = w2"
proof (cases "w1 = v")
  case True
  show ?thesis
  proof (rule ccontr)
    assume "w1 \<noteq> w2"
    with True assms(3-5) have "m w2 = Some s2" "f s2 = f x" by auto
    from assms(2) [OF this] True \<open>w1 \<noteq> w2\<close> show False by blast
  qed
next
  case False
  then have 1: "m w1 = Some s1" using assms(3) by simp
  show ?thesis
  proof (cases "w2 = v")
    case True
    then have "f s1 = f x" using assms(4,5) by auto
    from assms(2) [OF 1 this] True show ?thesis by blast
  next
    case False
    then have "m w2 = Some s2" using assms(4) by simp
    from assms(1) [OF 1 this assms(5)] show ?thesis .
  qed
qed

lemma delivery_inv_add:
  assumes inv: "delivery_inv sy" and ok: "sender_ok sy s"
    and fresh: "\<And>w' s'. dy_senders sy w' = Some s' \<Longrightarrow> sender_attempt s' = sender_attempt s \<Longrightarrow> w' = w"
  shows "delivery_inv (sy\<lparr>dy_senders := (dy_senders sy)(w \<mapsto> s)\<rparr>)" (is "delivery_inv ?t")
proof (rule delivery_invI)
  show "sent_ok ?t a" if "a \<in> set (dy_sent ?t)" for a
    by (rule sent_ok_cong [OF _ _ _ delivery_invD(2) [OF inv]]) (use that in simp_all)
  show "sender_ok ?t s'" if "dy_senders ?t w' = Some s'" for w' s'
  proof -
    have "sender_ok sy s'" using that ok delivery_invD(3) [OF inv, of w' s'] by (simp split: if_splits)
    then show ?thesis by (rule sender_ok_cong [rotated 4]) simp_all
  qed
  show "w1 = w2" if "dy_senders ?t w1 = Some s1" "dy_senders ?t w2 = Some s2" "sender_attempt s1 = sender_attempt s2" for w1 w2 s1 s2
    by (rule unique_update [OF delivery_invD(4) [OF inv] fresh that [simplified]])
qed (use delivery_invD(1) [OF inv] in simp)

lemma no_sender_beyond:
  assumes "delivery_inv sy" and "dy_senders sy w = Some s" and "sender_attempt s = (k, n)"
  shows "n \<le> attempt_number sy k"
  using sender_ok_bounds [OF delivery_invD(3) [OF assms(1,2)]] assms(3) by simp


lemma delivery_step_begin_attempt:
  assumes inv: "delivery_inv sy" and w: "dy_senders sy w = None"
    and b: "begin_delivery r owner (dy_repository sy) = (Inr attempt, rp)" and id: "da_outbound_id attempt = oe_outbound_id envelope"
  shows "delivery_inv (sy\<lparr>dy_repository := rp, dy_senders := (dy_senders sy)(w \<mapsto> Started cd r envelope (da_attempt_number attempt))\<rparr>)"
proof -
  let ?t = "sy\<lparr>dy_repository := rp\<rparr>" and ?s = "Started cd r envelope (da_attempt_number attempt)"
  let ?k = "message_key r" and ?n = "da_attempt_number attempt"
  from begin_delivery_attempts [OF b]
  have at: "rp_delivery_attempts rp = (rp_delivery_attempts (dy_repository sy))(?k \<mapsto> (owner, ?n, ''sending''))"
    and n: "?n = attempt_number sy ?k + 1" and e: "oe_outbound_id envelope = ob_aggregate_id r"
    using id by (auto simp: attempt_number_def)
  have t: "delivery_inv ?t" by (rule delivery_inv_begin [OF inv b])
  have "(?k, ?n) \<notin> set (dy_sent sy)" using delivery_invD(2) [OF inv, of "(?k, ?n)"] by (auto simp: sent_ok_def n)
  then have "sender_ok ?t ?s" by (simp add: attempt_table [OF at] e) (simp add: n)
  moreover have False if "dy_senders ?t w' = Some s'" "sender_attempt s' = sender_attempt ?s" for w' s'
    using no_sender_beyond [OF inv, of w' s' ?k ?n] that n by simp
  ultimately have "delivery_inv (?t\<lparr>dy_senders := (dy_senders ?t)(w \<mapsto> ?s)\<rparr>)"
    by (intro delivery_inv_add [OF t]) blast+
  then show ?thesis by simp
qed

lemma delivery_step_call:
  assumes inv: "delivery_inv sy" and w: "dy_senders sy w = Some (Started cd r envelope n)"
  shows "delivery_inv (sy\<lparr>dy_senders := (dy_senders sy)(w \<mapsto> Waiting cd r envelope n), dy_sent := dy_sent sy @ [(message_key r, n)]\<rparr>)"
    (is "delivery_inv ?t")
proof (rule delivery_invI)
  have ok: "0 < n" "n = attempt_number sy (message_key r)" "\<not> attempt_failed sy (message_key r)" "(message_key r, n) \<notin> set (dy_sent sy)"
    "oe_outbound_id envelope = ob_aggregate_id r"
    using delivery_invD(3) [OF inv w] unfolding sender_ok.simps by blast+
  show "distinct (dy_sent ?t)" using delivery_invD(1) [OF inv] ok(4) by simp
  show "sent_ok ?t a" if "a \<in> set (dy_sent ?t)" for a
  proof (cases "a = (message_key r, n)")
    case True
    then show ?thesis using ok(1,3) by (simp add: sent_ok_def ok(2) [symmetric])
  next
    case False
    then have "sent_ok sy a" using delivery_invD(2) [OF inv, of a] that by simp
    then show ?thesis by (rule sent_ok_cong [rotated 3]) simp_all
  qed
  show "sender_ok ?t s" if s: "dy_senders ?t w' = Some s" for w' s
  proof (cases "w' = w")
    case True
    then show ?thesis using s ok(1,2,5) by auto
  next
    case False
    then have s': "dy_senders sy w' = Some s" using s by simp
    have "sender_attempt s \<noteq> (message_key r, n)" using delivery_invD(4) [OF inv s' w] False by auto
    then show ?thesis using delivery_invD(3) [OF inv s'] by (cases s) (auto simp: rejected_def)
  qed
  show "w1 = w2" if "dy_senders ?t w1 = Some s1" "dy_senders ?t w2 = Some s2" "sender_attempt s1 = sender_attempt s2" for w1 w2 s1 s2
  proof (rule unique_update [where f = sender_attempt and m = "dy_senders sy" and v = w and x = "Waiting cd r envelope n"
        and ?s1.0 = s1 and ?s2.0 = s2])
    show "v = v'" if "dy_senders sy v = Some s" "dy_senders sy v' = Some s'" "sender_attempt s = sender_attempt s'" for v v' s s'
      by (rule delivery_invD(4) [OF inv that])
    show "v = w" if "dy_senders sy v = Some s" "sender_attempt s = sender_attempt (Waiting cd r envelope n)" for v s
      using delivery_invD(4) [OF inv that(1) w] that(2) by simp
  qed (use that in simp_all)
qed


lemma delivery_step_answer:
  assumes inv: "delivery_inv sy" and w: "dy_senders sy w = Some (Waiting cd r envelope n)"
  shows "delivery_inv (sy\<lparr>dy_answers := dy_answers sy @ (case answer of Inl _ \<Rightarrow> [] | Inr raw \<Rightarrow> [(message_key r, n, raw)]),
           dy_senders := (dy_senders sy)(w \<mapsto> Answered cd r n (final_receipt cd n (answer_receipt envelope answer)))\<rparr>)"
proof -
  let ?more = "case answer of Inl _ \<Rightarrow> [] | Inr raw \<Rightarrow> [(message_key r, n, raw)]"
  let ?t = "sy\<lparr>dy_answers := dy_answers sy @ ?more\<rparr>" and ?s = "Answered cd r n (final_receipt cd n (answer_receipt envelope answer))"
  have t: "delivery_inv ?t"
  proof (rule delivery_invI)
    show "sent_ok ?t a" if "a \<in> set (dy_sent ?t)" for a
      by (rule sent_ok_cong [OF _ _ _ delivery_invD(2) [OF inv]]) (use that in simp_all)
    show "sender_ok ?t s" if "dy_senders ?t w = Some s" for w s
      by (rule sender_ok_cong [OF _ _ _ _ delivery_invD(3) [OF inv, of w]]) (use that in simp_all)
  qed (use delivery_invD(1) [OF inv] delivery_invD(4) [OF inv] in simp_all)
  have "rejected ?t (message_key r) n" if "dr_status (answer_receipt envelope answer) = FAILED"
    using answer_receipt_failed [OF that] delivery_invD(3) [OF inv w] by (auto simp: rejected_def)
  then have ok: "sender_ok ?t ?s" using delivery_invD(3) [OF inv w] by simp
  have "delivery_inv (?t\<lparr>dy_senders := (dy_senders ?t)(w \<mapsto> ?s)\<rparr>)"
    by (rule delivery_inv_add [OF t ok]) (use delivery_invD(4) [OF inv _ w] in simp)
  then show ?thesis by simp
qed

lemma delivery_step_store:
  assumes inv: "delivery_inv sy" and w: "dy_senders sy w = Some (Answered cd r n receipt)"
    and f: "finish_delivery r owner n receipt delay now (dy_repository sy) = (x, rp)"
  shows "delivery_inv (sy\<lparr>dy_senders := (dy_senders sy)(w := None), dy_repository := rp\<rparr>)"
proof -
  let ?t = "sy\<lparr>dy_senders := (dy_senders sy)(w := None)\<rparr>"
  have t: "delivery_inv ?t" by (rule delivery_inv_drop [OF inv])
  have rej: "rejected sy (message_key r) n" if "dr_status receipt = FAILED" using delivery_invD(3) [OF inv w] that by simp
  have gone: "sender_attempt s \<noteq> (message_key r, n)" if "dy_senders ?t w' = Some s" for w' s
    using delivery_invD(4) [OF inv _ w, of w' s] that by (auto split: if_splits)
  from finish_delivery_attempts [OF f] have "delivery_inv (?t\<lparr>dy_repository := rp\<rparr>)"
  proof (elim disjE conjE exE)
    assume "rp_delivery_attempts rp = rp_delivery_attempts (dy_repository sy)"
    then show ?thesis by (intro delivery_inv_same [OF t]) simp
  next
    fix owner'
    assume cur: "rp_delivery_attempts (dy_repository sy) (message_key r) = Some (owner', n, ''sending'')"
      and at: "rp_delivery_attempts rp = (rp_delivery_attempts (dy_repository sy))
        (message_key r \<mapsto> (owner, n, delivery_status_value (dr_status receipt)))"
    have "delivery_status_value (dr_status receipt) = ''delivered'' \<or> delivery_status_value (dr_status receipt) = ''ambiguous''
      \<or> dr_status receipt = FAILED"
      by (cases "dr_status receipt") (simp_all add: delivery_status_value_def)
    then show ?thesis using rej gone cur at
      by (intro delivery_inv_end [OF t, of "message_key r" owner' n]) (auto simp: rejected_def)
  qed
  then show ?thesis by simp
qed

lemma delivery_step_resolve:
  assumes inv: "delivery_inv sy" and b: "begin_delivery r owner (dy_repository sy) = (Inl e, rp)"
    and res: "resolve_in_progress cd now r envelope n rp = (x, rp')"
  shows "delivery_inv (sy\<lparr>dy_repository := rp'\<rparr>)"
proof -
  have same: "rp_delivery_attempts rp = rp_delivery_attempts (dy_repository sy)" using begin_delivery_attempts [OF b] by auto
  from resolve_in_progress_attempts [OF res] show ?thesis
  proof (elim disjE conjE exE)
    assume "rp_delivery_attempts rp' = rp_delivery_attempts rp"
    then show ?thesis by (intro delivery_inv_same [OF inv]) (simp add: same)
  next
    fix owner'
    assume "rp_delivery_attempts rp (message_key r) = Some (owner', n, ''sending'')"
      and "rp_delivery_attempts rp' = (rp_delivery_attempts rp)(message_key r \<mapsto> (cd_owner_id cd, n, ''ambiguous''))"
    then show ?thesis by (intro delivery_inv_end [OF inv, where status = "''ambiguous''"]) (simp_all add: same)
  qed
qed

lemma delivery_step_inv:
  assumes "delivery_step sy sy'" and "delivery_inv sy"
  shows "delivery_inv sy'"
  using assms
proof (induction rule: delivery_step.induct)
  case begin_attempt
  then show ?case by (intro delivery_step_begin_attempt)
next
  case refused_attempt
  then show ?case by (blast intro: delivery_inv_begin)
next
  case call_provider
  then show ?case by (intro delivery_step_call)
next
  case provider_answers
  then show ?case by (intro delivery_step_answer)
next
  case store_result
  then show ?case by (blast intro: delivery_step_store)
next
  case resolve_attempt
  then show ?case by (blast intro: delivery_step_resolve)
next
  case crash
  then show ?case by (rule delivery_inv_drop)
next
  case elsewhere
  then show ?case by (blast intro: delivery_inv_same)
qed

interpretation delivery_machine: state_machine delivery_step delivery_inv
  by unfold_locales (rule delivery_step_inv)

lemma delivery_inv_start: "dy_sent sy = [] \<Longrightarrow> dy_senders sy = Map.empty \<Longrightarrow> delivery_inv sy"
  by (simp add: delivery_inv_def)


subsection \<open>A dispatcher's call is a path of the system\<close>

lemmas delivery_path = reachable_from.there [where step = delivery_step]

definition sends_more :: "delivery_system \<Rightarrow> runtime_repository \<Rightarrow> delivery_system \<Rightarrow> bool" where
  "sends_more sy rp sy' \<longleftrightarrow> (\<exists>sent answers. sy' = sy\<lparr>dy_repository := rp, dy_sent := dy_sent sy @ sent, dy_answers := dy_answers sy @ answers\<rparr>)"

lemma elsewhere_path:
  assumes "rp_delivery_attempts rp = rp_delivery_attempts (dy_repository sy)"
  shows "\<exists>sy'. sends_more sy rp sy' \<and> reachable_from delivery_step sy sy'"
proof -
  have "reachable_from delivery_step sy (sy\<lparr>dy_repository := rp\<rparr>)" using assms by (intro reachable_from_step delivery_step.elsewhere)
  moreover have "sends_more sy rp (sy\<lparr>dy_repository := rp\<rparr>)"
    unfolding sends_more_def by (intro exI [of _ "[]"]) simp
  ultimately show ?thesis by blast
qed

lemma sends_moreI:
  assumes "reachable_from delivery_step sy sy'" and "dy_repository sy' = rp" and "dy_senders sy' = dy_senders sy"
    and "dy_sent sy' = dy_sent sy @ sent" and "dy_answers sy' = dy_answers sy @ answers"
  shows "\<exists>sy'. sends_more sy rp sy' \<and> reachable_from delivery_step sy sy'"
proof -
  have "sy' = sy\<lparr>dy_repository := rp, dy_sent := dy_sent sy @ sent, dy_answers := dy_answers sy @ answers\<rparr>"
    by (rule delivery_system.equality) (simp_all add: assms)
  then show ?thesis using assms(1) unfolding sends_more_def by blast
qed

lemma sends_more_trans:
  assumes "sends_more a rp b" and "sends_more b rp' c"
  shows "sends_more a rp' c"
proof -
  from assms obtain s1 s2 a1 a2 where "c = a\<lparr>dy_repository := rp', dy_sent := (dy_sent a @ s1) @ s2, dy_answers := (dy_answers a @ a1) @ a2\<rparr>"
    by (auto simp: sends_more_def)
  then have "c = a\<lparr>dy_repository := rp', dy_sent := dy_sent a @ (s1 @ s2), dy_answers := dy_answers a @ (a1 @ a2)\<rparr>" by simp
  then show ?thesis unfolding sends_more_def by blast
qed

lemma sends_more_path:
  assumes "sends_more a rp b" and "reachable_from delivery_step a b"
    and "\<exists>c. sends_more b rp' c \<and> reachable_from delivery_step b c"
  shows "\<exists>c. sends_more a rp' c \<and> reachable_from delivery_step a c"
  using assms by (blast intro: sends_more_trans reachable_from_trans)

text \<open>While the provider is busy the rest of the system may change the repository, but not the delivery attempts.\<close>

definition send_frames :: "provider \<Rightarrow> bool" where
  "send_frames send \<longleftrightarrow> (\<forall>envelope binding rp. rp_delivery_attempts (snd (send envelope binding rp)) = rp_delivery_attempts rp)"

lemma send_path:
  assumes w: "dy_senders sy w = None" and b: "begin_delivery r (cd_owner_id cd) (dy_repository sy) = (Inr attempt, rp1)"
    and id: "da_outbound_id attempt = oe_outbound_id envelope"
    and frame: "rp_delivery_attempts rp2 = rp_delivery_attempts rp1"
  defines "n \<equiv> da_attempt_number attempt"
  shows "reachable_from delivery_step sy (sy\<lparr>dy_repository := rp2, dy_sent := dy_sent sy @ [(message_key r, n)],
      dy_answers := dy_answers sy @ (case answer of Inl _ \<Rightarrow> [] | Inr raw \<Rightarrow> [(message_key r, n, raw)]),
      dy_senders := (dy_senders sy)(w \<mapsto> Answered cd r n (final_receipt cd n (answer_receipt envelope answer)))\<rparr>)"
    (is "reachable_from delivery_step sy ?t")
proof -
  let ?a = "sy\<lparr>dy_repository := rp1, dy_senders := (dy_senders sy)(w \<mapsto> Started cd r envelope n)\<rparr>"
  let ?b = "?a\<lparr>dy_repository := rp2\<rparr>"
  let ?c = "?b\<lparr>dy_senders := (dy_senders ?b)(w \<mapsto> Waiting cd r envelope n), dy_sent := dy_sent ?b @ [(message_key r, n)]\<rparr>"
  have 1: "delivery_step sy ?a" unfolding n_def by (rule delivery_step.begin_attempt [OF w b id])
  have 2: "delivery_step ?a ?b" by (rule delivery_step.elsewhere) (simp add: frame)
  have 3: "delivery_step ?b ?c" by (rule delivery_step.call_provider) simp
  have "dy_senders ?c w = Some (Waiting cd r envelope n)" by simp
  note 4 = delivery_step.provider_answers [OF this, of answer]
  have "reachable_from delivery_step sy (?c\<lparr>dy_answers := dy_answers ?c @ (case answer of Inl _ \<Rightarrow> [] | Inr raw \<Rightarrow> [(message_key r, n, raw)]),
      dy_senders := (dy_senders ?c)(w \<mapsto> Answered cd r n (final_receipt cd n (answer_receipt envelope answer)))\<rparr>)"
    by (rule delivery_path [OF delivery_path [OF delivery_path [OF delivery_path [OF reachable_from.here 1] 2] 3] 4])
  moreover have "\<dots> = ?t" by (rule delivery_system.equality) simp_all
  ultimately show ?thesis by simp
qed

lemma answered_path:
  assumes w: "dy_senders sy w = None" and b: "begin_delivery r (cd_owner_id cd) (dy_repository sy) = (Inr attempt, rp1)"
    and id: "da_outbound_id attempt = oe_outbound_id envelope" and frame: "send_frames send"
    and send: "send envelope binding rp1 = (answer, rp2)"
  defines "n \<equiv> da_attempt_number attempt"
  defines "receipt \<equiv> final_receipt cd n (answer_receipt envelope answer)"
  shows "\<exists>sy'. sends_more sy rp2 sy' \<and> reachable_from delivery_step sy sy'"
    and "finish_delivery r (cd_owner_id cd) n receipt delay now rp2 = (x, rp3)
      \<Longrightarrow> \<exists>sy'. sends_more sy rp3 sy' \<and> reachable_from delivery_step sy sy'"
proof -
  have "rp_delivery_attempts rp2 = rp_delivery_attempts rp1"
    using frame send unfolding send_frames_def by (metis snd_conv)
  note path = send_path [OF w b id this, of answer, folded n_def, folded receipt_def]
  let ?sent = "dy_sent sy @ [(message_key r, n)]"
  let ?answers = "dy_answers sy @ (case answer of Inl _ \<Rightarrow> [] | Inr raw \<Rightarrow> [(message_key r, n, raw)])"
  let ?t = "sy\<lparr>dy_repository := rp2, dy_sent := ?sent, dy_answers := ?answers, dy_senders := (dy_senders sy)(w \<mapsto> Answered cd r n receipt)\<rparr>"
  have idle: "(dy_senders ?t)(w := None) = dy_senders sy" using w by auto
  have "delivery_step ?t (?t\<lparr>dy_senders := (dy_senders ?t)(w := None)\<rparr>)" by (rule delivery_step.crash)
  from delivery_path [OF path this, unfolded idle]
  show "\<exists>sy'. sends_more sy rp2 sy' \<and> reachable_from delivery_step sy sy'"
    by (rule sends_moreI) simp_all
  assume f: "finish_delivery r (cd_owner_id cd) n receipt delay now rp2 = (x, rp3)"
  have "delivery_step ?t (?t\<lparr>dy_senders := (dy_senders ?t)(w := None), dy_repository := rp3\<rparr>)"
    by (rule delivery_step.store_result [of _ w cd r n receipt delay now]) (simp_all add: f)
  from delivery_path [OF path this, unfolded idle]
  show "\<exists>sy'. sends_more sy rp3 sy' \<and> reachable_from delivery_step sy sy'"
    by (rule sends_moreI) simp_all
qed

lemma dispatch_atomic_path:
  assumes w: "dy_senders sy w = None" and frame: "send_frames send"
    and d: "dispatch_atomic cd send jitter now r envelope binding (dy_repository sy) = (x, rp)"
  shows "\<exists>sy'. sends_more sy rp sy' \<and> reachable_from delivery_step sy sy'"
proof -
  obtain y rp1 where b: "begin_delivery r (cd_owner_id cd) (dy_repository sy) = (y, rp1)" by fastforce
  show ?thesis
  proof (cases y)
    case (Inl e)
    have "rp = rp1" using d b Inl by (simp add: dispatch_atomic_def)
    moreover have "rp_delivery_attempts rp1 = rp_delivery_attempts (dy_repository sy)"
      using begin_delivery_attempts [OF b] Inl by auto
    ultimately show ?thesis by (intro elsewhere_path) simp
  next
    case (Inr attempt)
    show ?thesis
    proof (cases "da_outbound_id attempt = oe_outbound_id envelope")
      case False
      have "rp = rp1" using d b Inr False by (simp add: dispatch_atomic_def)
      with delivery_step.refused_attempt [OF b] show ?thesis
        by (intro exI [of _ "sy\<lparr>dy_repository := rp\<rparr>"]) (auto simp: sends_more_def intro: reachable_from_step intro!: exI [of _ "[]"])
    next
      case True
      show ?thesis using answered_path [OF w b [unfolded Inr] True frame] d b Inr True begin_delivery_attempts [OF b]
        by (auto simp: dispatch_atomic_def Let_def split: prod.splits sum.splits)
    qed
  qed
qed


lemma dispatch_atomic_in_progress:
  "dispatch_atomic cd send jitter now r envelope binding rp = (Inl (DeliveryInProgress n), rp1)
     \<Longrightarrow> begin_delivery r (cd_owner_id cd) rp = (Inl (DeliveryInProgress n), rp1)"
  by (auto simp: dispatch_atomic_def retry_delay_for_def timedelta_of_def Let_def split: prod.splits sum.splits if_splits option.splits)

lemma release_outbox_attempts [simp]:
  "rp_delivery_attempts (snd (release_outbox i owner delay now rp)) = rp_delivery_attempts rp"
  by (simp add: release_outbox_def)

lemma retry_or_dead_letter_attempts [simp]:
  "rp_delivery_attempts (snd (retry_or_dead_letter cd now r reason delay rp)) = rp_delivery_attempts rp"
  by (simp add: retry_or_dead_letter_def)

lemma dead_letter_record_attempts [simp]:
  "rp_delivery_attempts (snd (dead_letter_record cd r reason rp)) = rp_delivery_attempts rp"
  by (simp add: dead_letter_record_def dead_letter_outbox_def drop_outbox_def)

lemma snd_then_return_false [simp]: "snd (then_return_false out) = snd out"
  by (auto simp: then_return_false_def split: prod.splits sum.splits)

text \<open>The ways through \<^verbatim>\<open>_dispatch_record\<close>'s \<^verbatim>\<open>try\<close> block: no provider call, through \<open>dispatch_atomic\<close>, and through
  \<open>resolve_in_progress\<close>.\<close>

lemma deliver_record_cases:
  assumes "deliver_record cd send jitter clk r envelope rp = (x, rp')"
  obtains (refused) reason where "rp' = snd (retry_or_dead_letter cd (clk 0) r reason (seconds 300) rp)"
  | (standby) "rp' = snd (release_outbox (ob_outbox_id r) (cd_owner_id cd) (milliseconds 100) (clk 0) rp)"
  | (sent) binding y where "dispatch_atomic cd send jitter (clk 1) r envelope binding rp = (y, rp')"
  | (resolved) n rp1 y where "begin_delivery r (cd_owner_id cd) rp = (Inl (DeliveryInProgress n), rp1)"
      and "resolve_in_progress cd (clk 1) r envelope n rp1 = (y, rp')"
proof (cases "\<not> route_matches r envelope (resolve_binding (oe_binding_id envelope) rp) \<or> oe_channel envelope \<notin> cd_adapters cd
    \<or> (case cd_binding_ready cd of None \<Rightarrow> False | Some ready \<Rightarrow> \<not> ready (br_binding (the (resolve_binding (oe_binding_id envelope) rp))))")
  case True
  have "\<exists>reason. rp' = snd (retry_or_dead_letter cd (clk 0) r reason (seconds 300) rp)
      \<or> rp' = snd (release_outbox (ob_outbox_id r) (cd_owner_id cd) (milliseconds 100) (clk 0) rp)"
    using arg_cong [OF assms, of snd] True by (auto simp: deliver_record_def Let_def)
  then show ?thesis using refused standby by blast
next
  case False
  obtain y rp1 where d: "dispatch_atomic cd send jitter (clk 1) r envelope (br_binding (the (resolve_binding (oe_binding_id envelope) rp))) rp = (y, rp1)"
    by fastforce
  show ?thesis
  proof (cases "\<exists>n. y = Inl (DeliveryInProgress n)")
    case True
    then obtain n where y: "y = Inl (DeliveryInProgress n)" ..
    obtain z rp2 where res: "resolve_in_progress cd (clk 1) r envelope n rp1 = (z, rp2)" by fastforce
    have "rp2 = rp'" using assms False d y res by (auto simp: deliver_record_def Let_def split: prod.splits sum.splits)
    then show ?thesis using resolved dispatch_atomic_in_progress [OF d [unfolded y]] res by blast
  next
    case no: False
    have "rp1 = rp'" using assms False d no by (auto simp: deliver_record_def Let_def split: prod.splits sum.splits error.splits)
    then show ?thesis using sent d by blast
  qed
qed

lemma deliver_record_path:
  assumes w: "dy_senders sy w = None" and frame: "send_frames send"
    and d: "deliver_record cd send jitter clk r envelope (dy_repository sy) = (x, rp)"
  shows "\<exists>sy'. sends_more sy rp sy' \<and> reachable_from delivery_step sy sy'"
  using d
proof (cases rule: deliver_record_cases)
  case refused
  then show ?thesis by (intro elsewhere_path) simp
next
  case standby
  then show ?thesis by (intro elsewhere_path) simp
next
  case sent
  then show ?thesis by (rule dispatch_atomic_path [OF w frame])
next
  case resolved
  from reachable_from_step [where step = delivery_step, OF delivery_step.resolve_attempt [OF resolved]]
  show ?thesis by (rule sends_moreI [where sent = "[]" and answers = "[]"]) simp_all
qed

lemma dispatch_record_path:
  assumes w: "dy_senders sy w = None" and frame: "send_frames send"
  shows "\<exists>sy'. sends_more sy (snd (dispatch_record cd validate send jitter clk r (dy_repository sy))) sy' \<and> reachable_from delivery_step sy sy'"
proof (cases "validate (ob_payload r)")
  case None
  then show ?thesis by (intro elsewhere_path) (simp add: dispatch_record_def)
next
  case (Some envelope)
  obtain x rp1 where d: "deliver_record cd send jitter clk r envelope (dy_repository sy) = (x, rp1)" by fastforce
  obtain sy1 where sy1: "sends_more sy rp1 sy1" "reachable_from delivery_step sy sy1"
    using deliver_record_path [OF w frame d] by blast
  show ?thesis
  proof (cases x)
    case (Inr processed)
    then show ?thesis using sy1 d Some by (auto simp: dispatch_record_def)
  next
    case (Inl e)
    let ?rp = "snd (dispatch_record cd validate send jitter clk r (dy_repository sy))"
    have "rp_delivery_attempts ?rp = rp_delivery_attempts (dy_repository sy1)"
      using sy1(1) d Some Inl by (auto simp: dispatch_record_def sends_more_def)
    from elsewhere_path [OF this] obtain sy2 where "sends_more sy1 ?rp sy2" "reachable_from delivery_step sy1 sy2" by blast
    then show ?thesis using sy1 by (blast intro: sends_more_trans reachable_from_trans)
  qed
qed


lemma release_pending_attempts [simp]:
  "rp_delivery_attempts (release_pending cd now rs rp) = rp_delivery_attempts rp"
  unfolding release_pending_def by (induction rs arbitrary: rp) simp_all

lemma dispatch_records_path:
  assumes "send_frames send" and "dy_senders sy w = None"
  shows "\<exists>sy'. sends_more sy (snd (dispatch_records cd validate send jitter clk stop i rs completed (dy_repository sy))) sy'
    \<and> reachable_from delivery_step sy sy'"
  using assms(2)
proof (induction rs arbitrary: i completed sy)
  case Nil
  then show ?case by (intro elsewhere_path) simp
next
  case (Cons r rs)
  show ?case
  proof (cases "stop i")
    case True
    then show ?thesis by (intro elsewhere_path) simp
  next
    case False
    obtain processed rp1 where d: "dispatch_record cd validate send jitter (clk i) r (dy_repository sy) = (processed, rp1)" by fastforce
    obtain sy1 where 1: "sends_more sy rp1 sy1" "reachable_from delivery_step sy sy1"
      using dispatch_record_path [OF Cons.prems assms(1), of cd validate jitter "clk i" r] d by auto
    have "dy_senders sy1 w = None" and rp1: "dy_repository sy1 = rp1" using 1(1) Cons.prems by (auto simp: sends_more_def)
    from sends_more_path [OF 1 Cons.IH [OF this(1), of "Suc i" "if processed then Suc completed else completed"]]
    show ?thesis using False d by (simp add: rp1)
  qed
qed

lemma claim_outbox_loop_attempts:
  "rp_delivery_attempts (snd (claim_outbox_loop rs event_type owner limit lease_for now claimed rp)) = rp_delivery_attempts rp"
  by (induction rs event_type owner limit lease_for now claimed rp rule: claim_outbox_loop.induct) (simp_all add: Let_def)

lemma dispatch_once_path:
  assumes frame: "send_frames send" and w: "dy_senders sy w = None"
  shows "\<exists>sy'. sends_more sy (snd (dispatch_once cd validate send jitter now clk stop (dy_repository sy))) sy'
    \<and> reachable_from delivery_step sy sy'"
proof -
  obtain records rp1 where c: "claim_outbox (cd_event_type cd) (cd_owner_id cd) (cd_batch_limit cd)
      (timedelta_seconds (cd_lease_seconds cd)) now (dy_repository sy) = (records, rp1)" by fastforce
  have "rp_delivery_attempts rp1 = rp_delivery_attempts (dy_repository sy)"
    using c claim_outbox_loop_attempts unfolding claim_outbox_def by (metis snd_conv)
  from elsewhere_path [OF this] obtain sy1 where 1: "sends_more sy rp1 sy1" "reachable_from delivery_step sy sy1" by blast
  have "dy_senders sy1 w = None" and rp1: "dy_repository sy1 = rp1" using 1(1) w by (auto simp: sends_more_def)
  from sends_more_path [OF 1 dispatch_records_path [OF frame this(1), of cd validate jitter clk stop 0 records 0]]
  show ?thesis using c by (simp add: rp1 dispatch_once_def)
qed

end
