(* ===== verification/Channel_Conserve.thy ===== *)
theory Channel_Conserve
  imports Channel_Delivery
begin

text \<open>
  What becomes of the outbox record of an outbound message when a dispatcher works: it stays in the outbox, or it is in the
  dead letters, or the provider reported the message delivered.
\<close>

definition accounted :: "outbox_record \<Rightarrow> runtime_repository \<Rightarrow> bool" where
  "accounted r rp \<longleftrightarrow>
     ob_outbox_id r \<in> fst ` set (rp_outbox rp)
     \<or> (\<exists>(r', reason) \<in> set (rp_dead_letters rp). ob_outbox_id r' = ob_outbox_id r)
     \<or> (\<exists>receipt \<in> set (rp_delivery_receipts rp). dr_status receipt = DELIVERED \<and> dr_outbound_id receipt = ob_aggregate_id r)"

text \<open>A record the dispatcher holds that is the same message as \<open>r\<close> whenever it has its outbox id.\<close>

abbreviation same_message :: "outbox_record \<Rightarrow> outbox_record \<Rightarrow> bool" where
  "same_message r s \<equiv> ob_outbox_id s = ob_outbox_id r \<longrightarrow> ob_aggregate_id s = ob_aggregate_id r"

lemma keys_delete: "fst ` set (AList.delete i al) = fst ` set al - {i}"
  by (metis dom_map_of_conv_image_fst delete_conv' dom_fun_upd)

lemma accounted_drop:
  assumes "accounted r rp"
    and "ob_outbox_id s = ob_outbox_id r \<Longrightarrow> (\<exists>reason. (s, reason) \<in> set (rp_dead_letters rp))
      \<or> (\<exists>receipt \<in> set (rp_delivery_receipts rp). dr_status receipt = DELIVERED \<and> dr_outbound_id receipt = ob_aggregate_id r)"
  shows "accounted r (drop_outbox (ob_outbox_id s) rp)"
  using assms by (cases "ob_outbox_id s = ob_outbox_id r") (fastforce simp: accounted_def drop_outbox_def keys_delete)+

lemma accounted_dead_letter:
  assumes "accounted r rp"
  shows "accounted r (snd (dead_letter_outbox s owner reason rp))"
proof -
  have "accounted r (rp\<lparr>rp_dead_letters := rp_dead_letters rp @ [(s, reason)]\<rparr>)"
    using assms by (auto simp: accounted_def)
  from accounted_drop [OF this, of s] assms show ?thesis by (auto simp: dead_letter_outbox_def)
qed

lemma accounted_record_delivery: "accounted r rp \<Longrightarrow> accounted r (record_delivery receipt rp)"
  by (auto simp: accounted_def record_delivery_def)

lemma accounted_release: "accounted r rp \<Longrightarrow> accounted r (snd (release_outbox i owner delay now rp))"
  by (simp add: accounted_def release_outbox_def)

lemma accounted_begin: "accounted r rp \<Longrightarrow> accounted r (snd (begin_delivery s owner rp))"
  by (auto simp: accounted_def begin_delivery_def Let_def split: option.splits)

lemma accounted_attempts: "accounted r (rp\<lparr>rp_delivery_attempts := x\<rparr>) = accounted r rp"
  by (simp add: accounted_def)

lemma accounted_claims: "accounted r (rp\<lparr>rp_outbox_claims := x\<rparr>) = accounted r rp"
  by (simp add: accounted_def)

lemma accounted_finish:
  assumes acc: "accounted r rp" and same: "same_message r s"
  shows "accounted r (snd (finish_delivery s owner n receipt delay now rp))"
proof -
  let ?rp = "(record_delivery receipt rp)\<lparr>rp_delivery_attempts :=
    (rp_delivery_attempts rp)(message_key s \<mapsto> (owner, n, delivery_status_value (dr_status receipt)))\<rparr>"
  have 1: "accounted r ?rp" using acc by (simp add: accounted_attempts accounted_record_delivery)
  have 2: "accounted r (?rp\<lparr>rp_dead_letters := rp_dead_letters ?rp @ [(s, reason)]\<rparr>)" for reason
    using 1 by (auto simp: accounted_def)
  have 3: "accounted r (drop_outbox (ob_outbox_id s) (?rp\<lparr>rp_dead_letters := rp_dead_letters ?rp @ [(s, reason)]\<rparr>))" for reason
    by (rule accounted_drop [OF 2]) auto
  have 4: "accounted r (drop_outbox (ob_outbox_id s) ?rp)" if "delivery_status_value (dr_status receipt) = ''delivered''" "dr_outbound_id receipt = ob_aggregate_id s"
  proof (rule accounted_drop [OF 1])
    have "dr_status receipt = DELIVERED" using that(1) by (cases "dr_status receipt") (simp_all add: delivery_status_value_def)
    moreover assume "ob_outbox_id s = ob_outbox_id r"
    ultimately show "(\<exists>reason. (s, reason) \<in> set (rp_dead_letters ?rp))
      \<or> (\<exists>receipt \<in> set (rp_delivery_receipts ?rp). dr_status receipt = DELIVERED \<and> dr_outbound_id receipt = ob_aggregate_id r)"
      using same that(2) by (auto simp: record_delivery_def)
  qed
  show ?thesis using acc 1 3 4 by (auto simp: finish_delivery_def Let_def accounted_claims split: option.splits)
qed

lemma accounted_retry: "accounted r rp \<Longrightarrow> accounted r (snd (retry_or_dead_letter cd now s reason delay rp))"
  by (simp add: retry_or_dead_letter_def accounted_release accounted_dead_letter)

text \<open>While the provider is busy, nobody drops the message.\<close>

definition send_accounts :: "outbox_record \<Rightarrow> provider \<Rightarrow> bool" where
  "send_accounts r send \<longleftrightarrow> (\<forall>envelope binding rp. accounted r rp \<longrightarrow> accounted r (snd (send envelope binding rp)))"


lemma accounted_send: "send_accounts r send \<Longrightarrow> accounted r rp \<Longrightarrow> send envelope binding rp = (answer, rp') \<Longrightarrow> accounted r rp'"
  unfolding send_accounts_def by (metis snd_conv)

lemma accounted_atomic:
  assumes send: "send_accounts r send" and acc: "accounted r rp" and same: "same_message r s"
  shows "accounted r (snd (dispatch_atomic cd send jitter now s envelope binding rp))"
proof -
  obtain x rp1 where b: "begin_delivery s (cd_owner_id cd) rp = (x, rp1)" by fastforce
  obtain answer rp2 where a: "send envelope binding rp1 = (answer, rp2)" by fastforce
  have rp1: "accounted r rp1" using accounted_begin [OF acc] b by (metis snd_conv)
  note rp2 = accounted_send [OF send rp1 a]
  have "accounted r rp3" if "finish_delivery s (cd_owner_id cd) n receipt delay now rp2 = (y, rp3)" for n receipt delay y rp3
    using accounted_finish [OF rp2 same] that by (metis snd_conv)
  then show ?thesis using b a rp1 rp2
    by (auto simp: dispatch_atomic_def Let_def split: sum.splits prod.splits)
qed

lemma accounted_resolve:
  assumes acc: "accounted r rp" and same: "same_message r s"
  shows "accounted r (snd (resolve_in_progress cd now s envelope n rp))"
proof -
  have 1: "accounted r rp1" if "finish_delivery s (cd_owner_id cd) n receipt 0 now rp = (y, rp1)" for receipt y rp1
    using accounted_finish [OF acc same] that by (metis snd_conv)
  have 2: "accounted r rp1" if "dead_letter_outbox s (cd_owner_id cd) reason (record_delivery receipt rp) = (y, rp1)" for receipt reason y rp1
    using accounted_dead_letter [OF accounted_record_delivery [OF acc]] that by (metis snd_conv)
  from 1 2 show ?thesis by (auto simp: resolve_in_progress_def Let_def split: sum.splits prod.splits)
qed

lemma accounted_deliver:
  assumes send: "send_accounts r send" and acc: "accounted r rp" and same: "same_message r s"
    and d: "deliver_record cd send jitter clk s envelope rp = (x, rp')"
  shows "accounted r rp'"
  using d
proof (cases rule: deliver_record_cases)
  case refused
  then show ?thesis by (simp add: accounted_retry acc)
next
  case standby
  then show ?thesis by (simp add: accounted_release acc)
next
  case (sent binding y)
  then show ?thesis using accounted_atomic [OF send acc same] by (metis snd_conv)
next
  case (resolved n rp1 y)
  then show ?thesis using accounted_resolve [OF _ same] accounted_begin [OF acc] by (metis snd_conv)
qed

lemma accounted_dispatch_record:
  assumes send: "send_accounts r send" and acc: "accounted r rp" and same: "same_message r s"
  shows "accounted r (snd (dispatch_record cd validate send jitter clk s rp))"
proof (cases "validate (ob_payload s)")
  case None
  have "snd (dead_letter_record cd s reason rp) = snd (dead_letter_outbox s (cd_owner_id cd) reason rp)" for reason
    by (auto simp: dead_letter_record_def split: sum.splits prod.splits)
  with None show ?thesis by (simp add: dispatch_record_def accounted_dead_letter acc)
next
  case (Some envelope)
  obtain x rp1 where d: "deliver_record cd send jitter clk s envelope rp = (x, rp1)" by fastforce
  have "accounted r rp1" by (rule accounted_deliver [OF send acc same d])
  then show ?thesis using Some d
    by (cases x) (simp_all add: dispatch_record_def accounted_dead_letter accounted_record_delivery)
qed

lemma accounted_release_pending: "accounted r rp \<Longrightarrow> accounted r (release_pending cd now rs rp)"
  unfolding release_pending_def by (induction rs arbitrary: rp) (simp_all add: accounted_release)

lemma accounted_dispatch_records:
  assumes "send_accounts r send" and "\<forall>s \<in> set rs. same_message r s" and "accounted r rp"
  shows "accounted r (snd (dispatch_records cd validate send jitter clk stop i rs completed rp))"
  using assms(2,3)
proof (induction rs arbitrary: i completed rp)
  case (Cons s rs)
  obtain processed rp1 where d: "dispatch_record cd validate send jitter (clk i) s rp = (processed, rp1)" by fastforce
  have "accounted r rp1"
    using accounted_dispatch_record [OF assms(1) Cons.prems(2), of s cd validate jitter "clk i"] Cons.prems(1) d by simp
  with Cons d show ?case by (auto simp: accounted_release_pending)
qed simp

text \<open>Claiming changes no message: the claimed records are outbox records with one more attempt.\<close>

lemma claim_outbox_loop_records:
  assumes "claim_outbox_loop rs event_type owner limit lease_for now claimed rp = (out, rp')" and "accounted r rp"
    and "\<forall>s \<in> set rs \<union> set claimed. same_message r s"
  shows "accounted r rp' \<and> (\<forall>s \<in> set out. same_message r s)"
  using assms
proof (induction rs event_type owner limit lease_for now claimed rp rule: claim_outbox_loop.induct)
  case (2 s rs event_type owner limit lease_for now claimed rp)
  let ?s = "s\<lparr>ob_attempts := ob_attempts s + 1\<rparr>"
  let ?rp = "rp\<lparr>rp_outbox_claims := (rp_outbox_claims rp)(ob_outbox_id s \<mapsto> (owner, now + lease_for)),
    rp_outbox := AList.update (ob_outbox_id s) ?s (rp_outbox rp)\<rparr>"
  have acc: "accounted r ?rp" using "2.prems"(2) unfolding accounted_def by (simp add: keys_update)
  show ?case
  proof (cases "ob_event_type s \<noteq> event_type \<or> (case rp_outbox_claims rp (ob_outbox_id s) of None \<Rightarrow> False | Some (_, t) \<Rightarrow> now < t)")
    case True
    then show ?thesis using "2.IH"(1) "2.prems" by simp
  next
    case False
    then show ?thesis using "2.IH"(2) [OF False refl refl refl] "2.prems" acc
      by (cases "limit \<le> int (length (claimed @ [?s]))") (auto simp: Let_def)
  qed
qed simp

lemma dispatch_once_accounts:
  assumes send: "send_accounts r send" and wf: "outbox_wf (rp_outbox rp)" and r: "map_of (rp_outbox rp) (ob_outbox_id r) = Some r"
  shows "accounted r (snd (dispatch_once cd validate send jitter now clk stop rp))"
proof -
  obtain records rp1 where c: "claim_outbox (cd_event_type cd) (cd_owner_id cd) (cd_batch_limit cd)
      (timedelta_seconds (cd_lease_seconds cd)) now rp = (records, rp1)" by fastforce
  have "same_message r s" if "s \<in> snd ` set (rp_outbox rp)" for s
  proof -
    from that obtain i where "(i, s) \<in> set (rp_outbox rp)" by auto
    then have i: "map_of (rp_outbox rp) i = Some s" using wf by (simp add: outbox_wf_def)
    then have "ob_outbox_id s = i" using wf unfolding outbox_wf_def by blast
    then have "s = r" if "ob_outbox_id s = ob_outbox_id r" using i r that by (metis option.inject)
    then show ?thesis by blast
  qed
  moreover have "accounted r rp" using map_of_SomeD [OF r] by (force simp: accounted_def)
  ultimately have "accounted r rp1 \<and> (\<forall>s \<in> set records. same_message r s)"
    using c by (intro claim_outbox_loop_records [of "map snd (rp_outbox rp)"]) (auto simp: claim_outbox_def)
  then show ?thesis using c accounted_dispatch_records [OF send] by (simp add: dispatch_once_def)
qed

end
