(* ===== verification/Outbox_Dispatcher.thy ===== *)
theory Outbox_Dispatcher
  imports Channel_Conserve
begin

text \<open>
  The transactional-outbox loop of \<^verbatim>\<open>src/trpc_service/queue/dispatcher.py\<close>, on the in-memory repository. The queue behind
  \<^verbatim>\<open>OutboxPublisher\<close> (Redis) is an argument with a state of its own, as is the trace injection of OpenTelemetry. Unlike the
  channel dispatcher, a failing release escapes the cycle.
\<close>

record outbox_dispatcher =
  od_owner_id :: string
  od_event_type :: string
  od_batch_size :: int

type_synonym 'q publisher = "outbox_record \<Rightarrow> 'q \<Rightarrow> (unit, 'q) outcome"

definition publish_backoff :: "outbox_record \<Rightarrow> duration" where
  "publish_backoff r = seconds (min (2 ^ min (ob_attempts r) 6) 60)"

definition publish_record ::
    "outbox_dispatcher \<Rightarrow> ((string \<times> string) list \<Rightarrow> (string \<times> string) list) \<Rightarrow> 'q publisher \<Rightarrow> time \<Rightarrow> outbox_record
       \<Rightarrow> 'q \<times> runtime_repository \<Rightarrow> (bool, 'q \<times> runtime_repository) outcome"
where
  "publish_record od inject publish now r s =
     (case s of (q, rp) \<Rightarrow>
        let deferred = (\<lambda>q rp. case release_outbox (ob_outbox_id r) (od_owner_id od) (publish_backoff r) now rp of
              (Inl e, rp1) \<Rightarrow> raise_in (q, rp1) e
            | (Inr _, rp1) \<Rightarrow> return_in (q, rp1) False)
        in case publish (r\<lparr>ob_trace_headers := inject (ob_trace_headers r)\<rparr>) q of
             (Inl _, q1) \<Rightarrow> deferred q1 rp
           | (Inr _, q1) \<Rightarrow>
               (case mark_outbox_published (ob_outbox_id r) (od_owner_id od) rp of
                  (Inl _, rp1) \<Rightarrow> deferred q1 rp1
                | (Inr _, rp1) \<Rightarrow> return_in (q1, rp1) True))"

fun release_claimed :: "outbox_dispatcher \<Rightarrow> time \<Rightarrow> outbox_record list \<Rightarrow> runtime_repository \<Rightarrow> (unit, runtime_repository) outcome" where
  "release_claimed od now [] rp = return_in rp ()"
| "release_claimed od now (r # rs) rp =
     (case release_outbox (ob_outbox_id r) (od_owner_id od) 0 now rp of
        (Inl e, rp1) \<Rightarrow> raise_in rp1 e
      | (Inr _, rp1) \<Rightarrow> release_claimed od now rs rp1)"

text \<open>\<open>stop i\<close> says whether the stop event is set before the record with index \<open>i\<close>; \<open>clk i\<close> is the clock at that record.\<close>

fun publish_records ::
    "outbox_dispatcher \<Rightarrow> ((string \<times> string) list \<Rightarrow> (string \<times> string) list) \<Rightarrow> 'q publisher \<Rightarrow> (nat \<Rightarrow> time) \<Rightarrow> (nat \<Rightarrow> bool) \<Rightarrow> nat
       \<Rightarrow> outbox_record list \<Rightarrow> nat \<Rightarrow> 'q \<times> runtime_repository \<Rightarrow> (nat, 'q \<times> runtime_repository) outcome"
where
  "publish_records od inject publish clk stop i [] published s = return_in s published"
| "publish_records od inject publish clk stop i (r # rs) published s =
     (if stop i
      then (case release_claimed od (clk i) (r # rs) (snd s) of
              (Inl e, rp1) \<Rightarrow> raise_in (fst s, rp1) e
            | (Inr _, rp1) \<Rightarrow> return_in (fst s, rp1) published)
      else (case publish_record od inject publish (clk i) r s of
              (Inl e, s1) \<Rightarrow> raise_in s1 e
            | (Inr ok, s1) \<Rightarrow>
                publish_records od inject publish clk stop (Suc i) rs (if ok then Suc published else published) s1))"

definition outbox_dispatch_once ::
    "outbox_dispatcher \<Rightarrow> ((string \<times> string) list \<Rightarrow> (string \<times> string) list) \<Rightarrow> 'q publisher \<Rightarrow> time \<Rightarrow> (nat \<Rightarrow> time) \<Rightarrow> (nat \<Rightarrow> bool)
       \<Rightarrow> 'q \<times> runtime_repository \<Rightarrow> (nat, 'q \<times> runtime_repository) outcome"
where
  "outbox_dispatch_once od inject publish now clk stop s =
     (case claim_outbox (od_event_type od) (od_owner_id od) (od_batch_size od) (seconds 30) now (snd s) of
        (records, rp1) \<Rightarrow> publish_records od inject publish clk stop 0 records 0 (fst s, rp1))"

subsection \<open>A record leaves the outbox only through the queue\<close>

text \<open>What the loop relies on of the queue: \<open>accepted q\<close> are the outbox ids the queue has taken; a call of \<^verbatim>\<open>publish\<close> that
  returns has added the record's, and no call forgets one.\<close>

definition keeps_published :: "('q \<Rightarrow> string set) \<Rightarrow> 'q publisher \<Rightarrow> bool" where
  "keeps_published accepted publish \<longleftrightarrow>
     (\<forall>r q. accepted q \<subseteq> accepted (snd (publish r q)))
     \<and> (\<forall>r q u. fst (publish r q) = Inr u \<longrightarrow> ob_outbox_id r \<in> accepted (snd (publish r q)))"

definition queued :: "('q \<Rightarrow> string set) \<Rightarrow> string \<Rightarrow> 'q \<times> runtime_repository \<Rightarrow> bool" where
  "queued accepted i s \<longleftrightarrow> i \<in> fst ` set (rp_outbox (snd s)) \<or> i \<in> accepted (fst s)"

lemma keeps_publishedD:
  assumes "keeps_published accepted publish" and "publish r q = (x, q')"
  shows "i \<in> accepted q \<Longrightarrow> i \<in> accepted q'" and "x = Inr u \<Longrightarrow> ob_outbox_id r \<in> accepted q'"
  using assms unfolding keeps_published_def by (metis fst_conv snd_conv subsetD)+

lemma release_outbox_keys: "rp_outbox (snd (release_outbox i owner delay now rp)) = rp_outbox rp"
  by (simp add: release_outbox_def)

lemma mark_outbox_published_keys:
  "mark_outbox_published i owner rp = (x, rp') \<Longrightarrow> fst ` set (rp_outbox rp) \<subseteq> insert i (fst ` set (rp_outbox rp'))"
  "mark_outbox_published i owner rp = (Inl e, rp') \<Longrightarrow> rp_outbox rp' = rp_outbox rp"
  by (force simp: mark_outbox_published_def drop_outbox_def keys_delete split: if_splits)+

lemma publish_record_queued:
  assumes keeps: "keeps_published accepted publish" and q: "queued accepted i s"
  shows "queued accepted i (snd (publish_record od inject publish now r s))"
proof -
  obtain q0 rp where s: "s = (q0, rp)" by (cases s)
  let ?r = "r\<lparr>ob_trace_headers := inject (ob_trace_headers r)\<rparr>"
  obtain x q1 where p: "publish ?r q0 = (x, q1)" by fastforce
  obtain y rp1 where m: "mark_outbox_published (ob_outbox_id r) (od_owner_id od) rp = (y, rp1)" by fastforce
  have rel: "rp_outbox rp' = rp_outbox rp0"
    if "release_outbox (ob_outbox_id r) (od_owner_id od) (publish_backoff r) now rp0 = (z, rp')" for rp0 rp' z
    using that release_outbox_keys by (metis snd_conv)
  have q1: "queued accepted i (q1, rp0)" if "rp_outbox rp0 = rp_outbox rp" for rp0
    using q keeps_publishedD(1) [OF keeps p] that by (auto simp: queued_def s)
  have marked: "queued accepted i (q1, rp1)" if "x = Inr ()"
  proof (cases "i = ob_outbox_id r")
    case True
    then show ?thesis using keeps_publishedD(2) [OF keeps p that] by (simp add: queued_def)
  next
    case False
    then show ?thesis using q keeps_publishedD(1) [OF keeps p] mark_outbox_published_keys(1) [OF m] by (auto simp: queued_def s)
  qed
  show ?thesis using p m marked q1 rel mark_outbox_published_keys(2) [of "ob_outbox_id r" "od_owner_id od" rp _ rp1]
    by (auto simp: publish_record_def s Let_def split: sum.splits prod.splits)
qed

lemma release_claimed_keys: "rp_outbox (snd (release_claimed od now rs rp)) = rp_outbox rp"
proof (induction rs arbitrary: rp)
  case (Cons r rs)
  obtain x rp1 where rel: "release_outbox (ob_outbox_id r) (od_owner_id od) 0 now rp = (x, rp1)" by fastforce
  then have "rp_outbox rp1 = rp_outbox rp" using release_outbox_keys by (metis snd_conv)
  with rel Cons show ?case by (cases x) simp_all
qed simp

lemma publish_records_queued:
  assumes "keeps_published accepted publish" and "queued accepted i s"
  shows "queued accepted i (snd (publish_records od inject publish clk stop n rs published s))"
  using assms(2)
proof (induction rs arbitrary: n published s)
  case (Cons r rs)
  obtain x rp1 where rel: "release_claimed od (clk n) (r # rs) (snd s) = (x, rp1)" by fastforce
  then have "rp_outbox rp1 = rp_outbox (snd s)" using release_claimed_keys by (metis snd_conv)
  then have "queued accepted i (fst s, rp1)" using Cons.prems by (simp add: queued_def)
  moreover obtain y s1 where p: "publish_record od inject publish (clk n) r s = (y, s1)" by (cases "publish_record od inject publish (clk n) r s")
  moreover from this have "queued accepted i s1" using publish_record_queued [OF assms(1) Cons.prems] by (metis snd_conv)
  ultimately show ?case using rel Cons.IH
    by (cases "stop n"; cases x; cases y) (simp_all del: release_claimed.simps)
qed simp

lemma claim_outbox_loop_keys:
  "fst ` set (rp_outbox rp) \<subseteq> fst ` set (rp_outbox (snd (claim_outbox_loop rs event_type owner limit lease_for now claimed rp)))"
proof (induction rs event_type owner limit lease_for now claimed rp rule: claim_outbox_loop.induct)
  case (2 s rs event_type owner limit lease_for now claimed rp)
  then show ?case by (force simp: Let_def keys_update)
qed simp

lemma outbox_dispatch_once_queued:
  assumes "keeps_published accepted publish" and "queued accepted i s"
  shows "queued accepted i (snd (outbox_dispatch_once od inject publish now clk stop s))"
proof -
  obtain records rp1 where c: "claim_outbox (od_event_type od) (od_owner_id od) (od_batch_size od) (seconds 30) now (snd s) = (records, rp1)"
    by fastforce
  have "fst ` set (rp_outbox (snd s)) \<subseteq> fst ` set (rp_outbox rp1)"
    using c claim_outbox_loop_keys unfolding claim_outbox_def by (metis snd_conv)
  then have "queued accepted i (fst s, rp1)" using assms(2) by (auto simp: queued_def)
  from publish_records_queued [OF assms(1) this] show ?thesis by (simp add: outbox_dispatch_once_def c)
qed

lemma publish_backoff_bounds: "seconds 1 \<le> publish_backoff r \<and> publish_backoff r \<le> seconds 60"
  by (simp add: publish_backoff_def seconds_def)

end
