(* ===== verification/Channel_Props.thy ===== *)
theory Channel_Props
  imports Outbox_Dispatcher
begin

text \<open>
  What the dispatchers promise: the outbound dispatcher asks a provider again only after a clear failure and loses no message,
  and the outbox dispatcher lets a record go only once the queue has it. Each property has a concrete run it applies to.
\<close>

subsection \<open>A concrete dispatcher\<close>

definition ch_envelope :: outbound_envelope where
  "ch_envelope = \<lparr>oe_outbound_id = ''m1'', oe_tenant_id = ''t'', oe_binding_id = ''b'', oe_channel = FEISHU, oe_target_id = ''u'',
     oe_session_id = ''s'', oe_payload_kind = TEXT, oe_text = Some ''yo'', oe_media = [], oe_in_reply_to = None, oe_trace_headers = []\<rparr>"

definition ch_record :: outbox_record where
  "ch_record = \<lparr>ob_outbox_id = ''o1'', ob_tenant_id = ''t'', ob_event_type = ''outbound.ready'', ob_aggregate_id = ''m1'', ob_payload = [],
     ob_trace_headers = [], ob_attempts = 0\<rparr>"

definition ch_binding :: channel_binding where
  "ch_binding = \<lparr>cb_binding_id = ''b'', cb_tenant_id = ''t'', cb_app_id = ''a'', cb_channel = FEISHU, cb_account_id = ''acc'',
     cb_secret_refs = [], cb_enabled = True, cb_control_version = 1, cb_capabilities = []\<rparr>"

definition ch_dispatcher :: channel_dispatcher where
  "ch_dispatcher = \<lparr>cd_owner_id = ''d'', cd_event_type = ''outbound.ready'', cd_max_attempts = 5, cd_batch_limit = 10,
     cd_lease_seconds = 30, cd_adapters = {FEISHU}, cd_binding_ready = None\<rparr>"

definition ch_repository :: "string \<Rightarrow> runtime_repository" where
  "ch_repository owner = (init_repository (\<lambda>_. []))\<lparr>
     rp_routes := [(''b'', \<lparr>br_binding = ch_binding, br_tenant_active = True, br_active_config_version = 1,
                           br_candidate_config_version = None, br_candidate_percent = 0\<rparr>)],
     rp_outbox := [(''o1'', ch_record)], rp_outbox_claims := [''o1'' \<mapsto> (owner, 1000)]\<rparr>"

definition ch_failed :: delivery_receipt where
  "ch_failed = \<lparr>dr_outbound_id = ''m1'', dr_status = FAILED, dr_provider_message_id = None, dr_provider_code = None,
     dr_retryable = True, dr_retry_after_seconds = None, dr_attempts = 1\<rparr>"

definition ch_send :: "delivery_receipt \<Rightarrow> provider" where
  "ch_send receipt envelope binding rp = return_in rp receipt"

lemmas ch_defs = ch_envelope_def ch_record_def ch_binding_def ch_dispatcher_def ch_repository_def ch_failed_def ch_send_def
  init_repository_def

text \<open>A run of the system with two attempts.\<close>

definition ch_sy0 :: delivery_system where
  "ch_sy0 = \<lparr>dy_repository = ch_repository ''d'', dy_senders = Map.empty, dy_sent = [], dy_answers = []\<rparr>"

definition ch_begin :: "nat \<Rightarrow> delivery_system \<Rightarrow> delivery_system" where
  "ch_begin n sy = sy\<lparr>dy_repository := snd (begin_delivery ch_record ''d'' (dy_repository sy)),
     dy_senders := (dy_senders sy)(0 \<mapsto> Started ch_dispatcher ch_record ch_envelope n)\<rparr>"

definition ch_call :: "nat \<Rightarrow> delivery_system \<Rightarrow> delivery_system" where
  "ch_call n sy = sy\<lparr>dy_senders := (dy_senders sy)(0 \<mapsto> Waiting ch_dispatcher ch_record ch_envelope n),
     dy_sent := dy_sent sy @ [(message_key ch_record, n)]\<rparr>"

definition ch_answer :: "nat \<Rightarrow> delivery_system \<Rightarrow> delivery_system" where
  "ch_answer n sy = sy\<lparr>dy_answers := dy_answers sy @ [(message_key ch_record, n, ch_failed)],
     dy_senders := (dy_senders sy)(0 \<mapsto> Answered ch_dispatcher ch_record n
       (final_receipt ch_dispatcher n (answer_receipt ch_envelope (Inr ch_failed))))\<rparr>"

definition ch_store :: "nat \<Rightarrow> delivery_system \<Rightarrow> delivery_system" where
  "ch_store n sy = sy\<lparr>dy_senders := (dy_senders sy)(0 := None),
     dy_repository := snd (finish_delivery ch_record ''d'' n (final_receipt ch_dispatcher n (answer_receipt ch_envelope (Inr ch_failed))) 0 5 (dy_repository sy))\<rparr>"

definition ch_claim :: "delivery_system \<Rightarrow> delivery_system" where
  "ch_claim sy = sy\<lparr>dy_repository := (dy_repository sy)\<lparr>rp_outbox_claims := [''o1'' \<mapsto> (''d'', 2000)]\<rparr>\<rparr>"

definition ch_half :: delivery_system where
  "ch_half = ch_claim (ch_store 1 (ch_answer 1 (ch_call 1 (ch_begin 1 ch_sy0))))"

definition ch_full :: delivery_system where
  "ch_full = ch_call 2 (ch_begin 2 ch_half)"

lemmas ch_run_defs = ch_full_def ch_half_def ch_claim_def ch_store_def ch_answer_def ch_call_def ch_begin_def ch_sy0_def

lemma ch_begin_step:
  assumes "dy_senders sy 0 = None"
    and "begin_delivery ch_record ''d'' (dy_repository sy) = (Inr \<lparr>da_tenant_id = ''t'', da_outbound_id = ''m1'', da_attempt_number = n, da_owner_id = ''d''\<rparr>, rp)"
  shows "delivery_step sy (ch_begin n sy)"
  using delivery_step.begin_attempt [of sy 0 ch_record ch_dispatcher _ rp ch_envelope, OF assms(1)] assms(2)
  by (simp add: ch_begin_def ch_dispatcher_def ch_envelope_def)

lemma ch_call_step: "dy_senders sy 0 = Some (Started ch_dispatcher ch_record ch_envelope n) \<Longrightarrow> delivery_step sy (ch_call n sy)"
  unfolding ch_call_def by (rule delivery_step.call_provider)

lemma ch_answer_step: "dy_senders sy 0 = Some (Waiting ch_dispatcher ch_record ch_envelope n) \<Longrightarrow> delivery_step sy (ch_answer n sy)"
  using delivery_step.provider_answers [of sy 0 ch_dispatcher ch_record ch_envelope n "Inr ch_failed"] by (simp add: ch_answer_def)

lemma ch_store_step:
  assumes "dy_senders sy 0 = Some (Answered ch_dispatcher ch_record n (final_receipt ch_dispatcher n (answer_receipt ch_envelope (Inr ch_failed))))"
  shows "delivery_step sy (ch_store n sy)"
proof -
  let ?f = "finish_delivery ch_record ''d'' n (final_receipt ch_dispatcher n (answer_receipt ch_envelope (Inr ch_failed))) 0 5 (dy_repository sy)"
  have "cd_owner_id ch_dispatcher = ''d''" by (simp add: ch_dispatcher_def)
  then show ?thesis unfolding ch_store_def
    using delivery_step.store_result [OF assms, of 0 5 "fst ?f" "snd ?f"] by simp
qed

lemma ch_half_reachable: "reachable_from delivery_step ch_sy0 ch_half"
proof -
  let ?s = "\<lambda>sy. reachable_from delivery_step ch_sy0 sy"
  have "?s (ch_begin 1 ch_sy0)"
    by (rule reachable_from_step, rule ch_begin_step)
      (simp_all add: ch_sy0_def begin_delivery_def outbox_claimed_by_def ch_defs)
  then have "?s (ch_call 1 (ch_begin 1 ch_sy0))" by (rule delivery_path) (simp add: ch_call_step ch_begin_def)
  then have "?s (ch_answer 1 (ch_call 1 (ch_begin 1 ch_sy0)))" by (rule delivery_path) (simp add: ch_answer_step ch_call_def)
  then have "?s (ch_store 1 (ch_answer 1 (ch_call 1 (ch_begin 1 ch_sy0))))" by (rule delivery_path) (simp add: ch_store_step ch_answer_def)
  then show ?thesis unfolding ch_half_def
    by (rule delivery_path) (simp add: ch_claim_def delivery_step.elsewhere)
qed

lemma ch_full_reachable: "reachable_from delivery_step ch_sy0 ch_full"
proof -
  have "reachable_from delivery_step ch_sy0 (ch_begin 2 ch_half)"
    by (rule delivery_path [OF ch_half_reachable], rule ch_begin_step)
      (simp_all add: ch_half_def ch_claim_def ch_store_def ch_answer_def ch_call_def ch_begin_def ch_sy0_def begin_delivery_def
        finish_delivery_def outbox_claimed_by_def Let_def ch_defs answer_receipt_def normalize_receipt_def final_receipt_def is_retrying_def
        record_delivery_def delivery_status_value_def)
  then show ?thesis unfolding ch_full_def by (rule delivery_path) (simp add: ch_call_step ch_begin_def)
qed

subsection \<open>Asking a provider\<close>

text \<open>
  C10. Any number of dispatchers, which may crash at any point, share the repository; others may change it too, but for the
  delivery attempts. In every history that starts with no call made, no attempt of a message is sent twice, and a message is
  sent again only after the provider itself reported the earlier attempt of this message as failed. An exception of the provider, a receipt
  for another message and a crash all leave the message to a person.
\<close>

theorem provider_asked_again_only_after_failure:
  assumes "dy_sent sy0 = []" and "dy_senders sy0 = Map.empty" and "reachable_from delivery_step sy0 sy"
  shows "distinct (dy_sent sy)
    \<and> (\<forall>k n m. (k, n) \<in> set (dy_sent sy) \<and> (k, m) \<in> set (dy_sent sy) \<and> n < m \<longrightarrow> rejected sy k n)"
proof -
  have inv: "delivery_inv sy" by (rule delivery_machine.reachable_inv [OF assms(3) delivery_inv_start [OF assms(1,2)]])
  have "rejected sy k n" if "(k, n) \<in> set (dy_sent sy)" and "(k, m) \<in> set (dy_sent sy)" and "n < m" for k n m
    using delivery_invD(2) [OF inv that(1)] delivery_invD(2) [OF inv that(2)] that(3) by (simp add: sent_ok_def)
  then show ?thesis using delivery_invD(1) [OF inv] by blast
qed

lemma ch_full_sent: "dy_sent ch_full = [((''t'', ''m1''), 1), ((''t'', ''m1''), 2)]"
  by (simp add: ch_run_defs ch_record_def)

theorem provider_asked_again_only_after_failure_witness:
  "dy_sent ch_sy0 = [] \<and> dy_senders ch_sy0 = Map.empty \<and> reachable_from delivery_step ch_sy0 ch_full
   \<and> dy_sent ch_full = [((''t'', ''m1''), 1), ((''t'', ''m1''), 2)] \<and> rejected ch_full (''t'', ''m1'') 1"
proof -
  have start: "dy_sent ch_sy0 = []" "dy_senders ch_sy0 = Map.empty" by (simp_all add: ch_sy0_def)
  have "rejected ch_full (''t'', ''m1'') 1"
    using provider_asked_again_only_after_failure [OF start ch_full_reachable] ch_full_sent by force
  then show ?thesis using start ch_full_reachable ch_full_sent by simp
qed

text \<open>The provider is called at one place, with the repository in which the attempt has been recorded.\<close>

lemma dispatch_atomic_depends:
  assumes "dispatch_atomic cd send jitter now r envelope binding rp \<noteq> dispatch_atomic cd send' jitter now r envelope binding rp"
  shows "\<exists>attempt rp1. begin_delivery r (cd_owner_id cd) rp = (Inr attempt, rp1) \<and> send envelope binding rp1 \<noteq> send' envelope binding rp1"
  using assms by (auto simp: dispatch_atomic_def split: prod.splits sum.splits if_splits)

lemma dispatch_record_depends:
  assumes "dispatch_record cd validate send jitter clk r rp \<noteq> dispatch_record cd validate send' jitter clk r rp"
  shows "\<exists>envelope route attempt rp1. validate (ob_payload r) = Some envelope \<and> resolve_binding (oe_binding_id envelope) rp = Some route
    \<and> route_matches r envelope (Some route) \<and> begin_delivery r (cd_owner_id cd) rp = (Inr attempt, rp1)
    \<and> send envelope (br_binding route) rp1 \<noteq> send' envelope (br_binding route) rp1"
proof -
  obtain envelope where v: "validate (ob_payload r) = Some envelope" using assms by (auto simp: dispatch_record_def split: option.splits)
  have "deliver_record cd send jitter clk r envelope rp \<noteq> deliver_record cd send' jitter clk r envelope rp"
    using assms v by (auto simp: dispatch_record_def)
  then have m: "route_matches r envelope (resolve_binding (oe_binding_id envelope) rp)"
    and d: "dispatch_atomic cd send jitter (clk 1) r envelope (br_binding (the (resolve_binding (oe_binding_id envelope) rp))) rp
      \<noteq> dispatch_atomic cd send' jitter (clk 1) r envelope (br_binding (the (resolve_binding (oe_binding_id envelope) rp))) rp"
    by (auto simp: deliver_record_def Let_def split: if_splits)
  from m obtain route where "resolve_binding (oe_binding_id envelope) rp = Some route" by (auto simp: route_matches_def split: option.splits)
  with v m dispatch_atomic_depends [OF d] show ?thesis by auto
qed

text \<open>
  C14. A cycle of the dispatcher refines that system: what it does to the repository is a path of it, so the guarantee above
  holds of any mixture of dispatchers. And the provider is only asked within a recorded attempt: if the outcome for a record
  depends on the provider at all, then the payload was valid, the binding of the envelope belongs to the record's tenant and
  channel, the attempt was recorded, and the call that matters is the one made right then.
\<close>

theorem dispatch_follows_system:
  assumes "send_frames send" and "dy_senders sy w = None"
  shows "(\<exists>sy'. sends_more sy (snd (dispatch_once cd validate send jitter now clk stop (dy_repository sy))) sy' \<and> reachable_from delivery_step sy sy')
    \<and> (\<forall>send' r rp clk. dispatch_record cd validate send jitter clk r rp \<noteq> dispatch_record cd validate send' jitter clk r rp \<longrightarrow>
         (\<exists>envelope route attempt rp1. validate (ob_payload r) = Some envelope \<and> resolve_binding (oe_binding_id envelope) rp = Some route
            \<and> route_matches r envelope (Some route) \<and> begin_delivery r (cd_owner_id cd) rp = (Inr attempt, rp1)
            \<and> send envelope (br_binding route) rp1 \<noteq> send' envelope (br_binding route) rp1))"
  using dispatch_once_path [OF assms] dispatch_record_depends by blast

lemma ch_send_frames: "send_frames (ch_send receipt)"
  by (simp add: send_frames_def ch_send_def)

lemma ch_delay: "timedelta_of 2 = Inr (seconds 2)"
  using timedelta_seconds_of_int [of 2] by (simp add: timedelta_of_def seconds_def)

lemma ch_cycle:
  "rp_delivery_attempts (snd (dispatch_once ch_dispatcher (\<lambda>_. Some ch_envelope) (ch_send ch_failed) id 2000 (\<lambda>_ _. 2000) (\<lambda>_. False)
     (ch_repository ''d''))) (''t'', ''m1'') = Some (''d'', 1, ''failed'')"
  by (simp add: dispatch_once_def claim_outbox_def ch_defs dispatch_record_def deliver_record_def resolve_binding_def route_matches_def
      dispatch_atomic_def begin_delivery_def finish_delivery_def outbox_claimed_by_def Let_def answer_receipt_def normalize_receipt_def
      final_receipt_def is_retrying_def record_delivery_def delivery_status_value_def retry_delay_for_def ch_delay)

theorem dispatch_follows_system_witness:
  "send_frames (ch_send ch_failed) \<and> dy_senders ch_sy0 0 = None
   \<and> (\<exists>sy'. rp_delivery_attempts (dy_repository sy') (''t'', ''m1'') = Some (''d'', 1, ''failed'') \<and> reachable_from delivery_step ch_sy0 sy')"
proof -
  have idle: "dy_senders ch_sy0 0 = None" and repo: "dy_repository ch_sy0 = ch_repository ''d''" by (simp_all add: ch_sy0_def)
  from dispatch_follows_system [OF ch_send_frames [of ch_failed] idle, of ch_dispatcher "\<lambda>_. Some ch_envelope" id 2000 "\<lambda>_ _. 2000" "\<lambda>_. False"]
  obtain sy' where sy': "sends_more ch_sy0 (snd (dispatch_once ch_dispatcher (\<lambda>_. Some ch_envelope) (ch_send ch_failed) id 2000 (\<lambda>_ _. 2000) (\<lambda>_. False)
      (ch_repository ''d''))) sy'" "reachable_from delivery_step ch_sy0 sy'"
    unfolding repo by blast
  have "rp_delivery_attempts (dy_repository sy') (''t'', ''m1'') = Some (''d'', 1, ''failed'')"
    using sy'(1) ch_cycle by (auto simp: sends_more_def)
  then show ?thesis using ch_send_frames idle sy'(2) by blast
qed

subsection \<open>Keeping messages\<close>

text \<open>
  C19. No outbound message vanishes: whatever the provider answers, whenever the dispatcher is stopped, and whatever raises,
  after a cycle the record is still in the outbox, or among the dead letters, or a receipt says it was delivered.
\<close>

theorem no_outbound_message_vanishes:
  assumes "send_accounts r send" and "outbox_wf (rp_outbox rp)" and "map_of (rp_outbox rp) (ob_outbox_id r) = Some r"
  shows "accounted r (snd (dispatch_once cd validate send jitter now clk stop rp))"
  using assms by (rule dispatch_once_accounts)

theorem no_outbound_message_vanishes_witness:
  "send_accounts ch_record (ch_send ch_failed) \<and> outbox_wf (rp_outbox (ch_repository ''d''))
   \<and> map_of (rp_outbox (ch_repository ''d'')) (ob_outbox_id ch_record) = Some ch_record
   \<and> accounted ch_record (snd (dispatch_once ch_dispatcher (\<lambda>_. None) (ch_send ch_failed) id 2000 (\<lambda>_ _. 2000) (\<lambda>_. False) (ch_repository ''d'')))"
proof -
  have h: "send_accounts ch_record (ch_send ch_failed)" "outbox_wf (rp_outbox (ch_repository ''d''))"
    "map_of (rp_outbox (ch_repository ''d'')) (ob_outbox_id ch_record) = Some ch_record"
    by (simp_all add: send_accounts_def outbox_wf_def ch_defs)
  show ?thesis using h no_outbound_message_vanishes [OF h] by blast
qed

text \<open>
  C39. A dispatcher that has lost its claim and whose binding is not ready (it runs on a standby instance) records the message
  as an ambiguous delivery, although no provider was called: the result is the same for every provider. The release of the
  record raises, and the handler for everything that can be raised takes it for an exception after the provider call.
\<close>

theorem lost_claim_reported_ambiguous:
  assumes "validate (ob_payload r) = Some envelope" and "resolve_binding (oe_binding_id envelope) rp = Some route"
    and "route_matches r envelope (Some route)" and "oe_channel envelope \<in> cd_adapters cd"
    and "cd_binding_ready cd = Some ready" and "\<not> ready (br_binding route)"
    and "\<not> outbox_claimed_by (ob_outbox_id r) (cd_owner_id cd) rp"
  shows "dispatch_record cd validate send jitter clk r rp =
      (False, record_delivery (ambiguous_receipt (oe_outbound_id envelope) ''dispatcher_unknown'') rp)"
proof -
  have "deliver_record cd send jitter clk r envelope rp = raise_in rp outbox_claim_lost"
    using assms by (simp add: deliver_record_def then_return_false_def release_outbox_def)
  then show ?thesis using assms(1,7) by (simp add: dispatch_record_def dead_letter_outbox_def outbox_claimed_by_def record_delivery_def)
qed

definition ch_standby :: channel_dispatcher where
  "ch_standby = ch_dispatcher\<lparr>cd_binding_ready := Some (\<lambda>_. False)\<rparr>"

theorem lost_claim_reported_ambiguous_witness:
  "\<not> outbox_claimed_by (ob_outbox_id ch_record) (cd_owner_id ch_standby) (ch_repository ''other'')
   \<and> rp_delivery_receipts (snd (dispatch_record ch_standby (\<lambda>_. Some ch_envelope) (ch_send ch_failed) id (\<lambda>_. 0) ch_record (ch_repository ''other'')))
     = [ambiguous_receipt ''m1'' ''dispatcher_unknown'']"
proof -
  have lost: "\<not> outbox_claimed_by (ob_outbox_id ch_record) (cd_owner_id ch_standby) (ch_repository ''other'')"
    by (simp add: outbox_claimed_by_def ch_standby_def ch_defs)
  obtain route where route: "resolve_binding (oe_binding_id ch_envelope) (ch_repository ''other'') = Some route"
    "route_matches ch_record ch_envelope (Some route)"
    by (simp add: resolve_binding_def route_matches_def ch_defs)
  have "oe_channel ch_envelope \<in> cd_adapters ch_standby" "cd_binding_ready ch_standby = Some (\<lambda>_. False)"
    by (simp_all add: ch_standby_def ch_envelope_def ch_dispatcher_def)
  from lost_claim_reported_ambiguous [OF _ route this _ lost, of "\<lambda>_. Some ch_envelope" "ch_send ch_failed" id "\<lambda>_. 0"]
  show ?thesis using lost by (simp add: record_delivery_def ch_repository_def init_repository_def ch_envelope_def)
qed

subsection \<open>The outbox and the queue\<close>

text \<open>
  C27. A record leaves the outbox only through the queue: over a cycle of the outbox dispatcher, whether it returns or raises,
  is stopped or loses its claims, a record that was in the outbox or in the queue still is. The queue is assumed to have a record
  once \<^verbatim>\<open>publish\<close> returns and to forget none.
\<close>

theorem outbox_record_leaves_through_queue:
  assumes "keeps_published accepted publish" and "queued accepted i s"
  shows "queued accepted i (snd (outbox_dispatch_once od inject publish now clk stop s))"
  using assms by (rule outbox_dispatch_once_queued)

definition ch_publish :: "string set publisher" where
  "ch_publish r q = return_in (insert (ob_outbox_id r) q) ()"

definition ch_outbox_dispatcher :: outbox_dispatcher where
  "ch_outbox_dispatcher = \<lparr>od_owner_id = ''d'', od_event_type = ''outbound.ready'', od_batch_size = 10\<rparr>"

theorem outbox_record_leaves_through_queue_witness:
  "keeps_published id ch_publish \<and> queued id ''o1'' ({}, ch_repository ''d'')
   \<and> rp_outbox (snd (snd (outbox_dispatch_once ch_outbox_dispatcher id ch_publish 2000 (\<lambda>_. 2000) (\<lambda>_. False) ({}, ch_repository ''d'')))) = []
   \<and> queued id ''o1'' (snd (outbox_dispatch_once ch_outbox_dispatcher id ch_publish 2000 (\<lambda>_. 2000) (\<lambda>_. False) ({}, ch_repository ''d'')))"
proof -
  have h: "keeps_published id ch_publish" "queued id ''o1'' ({}, ch_repository ''d'')"
    by (auto simp: keeps_published_def ch_publish_def queued_def ch_defs)
  have "rp_outbox (snd (snd (outbox_dispatch_once ch_outbox_dispatcher id ch_publish 2000 (\<lambda>_. 2000) (\<lambda>_. False) ({}, ch_repository ''d'')))) = []"
    by (simp add: outbox_dispatch_once_def claim_outbox_def ch_outbox_dispatcher_def ch_publish_def publish_record_def Let_def
        mark_outbox_published_def outbox_claimed_by_def drop_outbox_def ch_defs)
  then show ?thesis using h outbox_record_leaves_through_queue [OF h] by blast
qed

end
