(* ===== verification/Py_Raw_Json.thy ===== *)
theory Py_Raw_Json
  imports Py_Json_Roundtrip
begin

text \<open>
  \<^verbatim>\<open>json.dumps(value, ensure_ascii=False, separators=(',', ':'))\<close>: only the quote, the backslash and control characters are
  escaped and members keep their order. A string literal can be read off the front of a text in one way only, so texts
  built from literals determine them. UTF-8 reads back what it wrote for every string.
\<close>

definition raw_char :: "char \<Rightarrow> string" where
  "raw_char c =
     (let n = (of_char c :: nat)
      in if n = 34 then [CHR 0x5C, CHR 0x22]
         else if n = 92 then [CHR 0x5C, CHR 0x5C]
         else if n = 10 then [CHR 0x5C, CHR ''n'']
         else if n = 13 then [CHR 0x5C, CHR ''r'']
         else if n = 9 then [CHR 0x5C, CHR ''t'']
         else if n = 12 then [CHR 0x5C, CHR ''f'']
         else if n = 8 then [CHR 0x5C, CHR ''b'']
         else if 32 \<le> n then [c]
         else CHR 0x5C # CHR ''u'' # hex4 n)"

definition raw_string :: "string \<Rightarrow> string" where
  "raw_string s = [CHR 0x22] @ concat (map raw_char s) @ [CHR 0x22]"

fun raw_dumps :: "jval \<Rightarrow> string" where
  "raw_dumps JNull = ''null''"
| "raw_dumps (JBool b) = (if b then ''true'' else ''false'')"
| "raw_dumps (JInt i) = int_text i"
| "raw_dumps (JStr s) = raw_string s"
| "raw_dumps (JTime t) = raw_string (iso_text CHR '' '' t)"
| "raw_dumps (JList vs) = ''['' @ comma_separated (map raw_dumps vs) @ '']''"
| "raw_dumps (JObj kvs) =
     ''{'' @ comma_separated (map (\<lambda>(k, v). raw_string k @ '':'' @ v) (map (\<lambda>(k, v). (k, raw_dumps v)) kvs)) @ ''}''"

subsection \<open>Reading a literal\<close>

lemma scan_raw_char: "scan_char (code_points (raw_char c) @ r) = Some (of_char c, r)"
proof -
  have "\<not> 55296 \<le> (of_char c :: nat)" using nat_of_char_less_256 [of c] by linarith
  then show ?thesis using read_hex4 [OF nat_of_char_less_256, of c r]
    by (auto simp: scan_char_def raw_char_def Let_def escape_value_def)
qed

lemma raw_char_first: "\<exists>d t. code_points (raw_char c) = d # t \<and> d \<noteq> 34"
  by (auto simp: raw_char_def Let_def)

lemma scan_raw_string:
  "length s < n \<Longrightarrow> scan_string n (code_points (concat (map raw_char s)) @ 34 # r) = Some (code_points s, r)"
proof (induction s arbitrary: n)
  case Nil
  then show ?case by (cases n) simp_all
next
  case (Cons c s)
  then obtain k where n: "n = Suc k" "length s < k" by (cases n) auto
  let ?rest = "code_points (concat (map raw_char s)) @ 34 # r"
  obtain d t where d: "code_points (raw_char c) = d # t" "d \<noteq> 34" using raw_char_first by blast
  have "scan_char (d # t @ ?rest) = Some (of_char c, ?rest)" using scan_raw_char [of c ?rest] by (simp add: d)
  then show ?case using Cons.IH [OF n(2)] by (simp add: n d)
qed

lemma raw_string_length: "length s \<le> length (concat (map raw_char s))"
proof (induction s)
  case (Cons c s)
  have "1 \<le> length (raw_char c)" by (simp add: raw_char_def Let_def)
  with Cons show ?case by simp
qed simp

lemma scan_raw_quoted:
  "scan_string (length (code_points (concat (map raw_char s)) @ 34 # r)) (code_points (concat (map raw_char s)) @ 34 # r) = Some (code_points s, r)"
  using raw_string_length [of s] by (intro scan_raw_string) simp

text \<open>The literal at the front of a text is determined by the text.\<close>

lemma raw_string_prefix:
  assumes "raw_string s @ r = raw_string t @ q"
  shows "s = t \<and> r = q"
proof -
  have "code_points (concat (map raw_char s)) @ 34 # code_points r = code_points (concat (map raw_char t)) @ 34 # code_points q"
    using arg_cong [OF assms, of code_points] by (simp add: raw_string_def)
  then have "Some (code_points s, code_points r) = Some (code_points t, code_points q)"
    using scan_raw_quoted [of s "code_points r"] scan_raw_quoted [of t "code_points q"] by simp
  then show ?thesis by simp
qed

lemma raw_strings_step:
  "comma_separated (map raw_string (x # xs)) @ '']'' @ r =
     raw_string x @ (if xs = [] then '']'' @ r else '','' @ comma_separated (map raw_string xs) @ '']'' @ r)"
  by (cases xs) simp_all

lemma raw_strings_inj:
  assumes "comma_separated (map raw_string xs) @ '']'' @ r = comma_separated (map raw_string ys) @ '']'' @ q"
  shows "xs = ys \<and> r = q"
  using assms
proof (induction xs arbitrary: ys)
  case Nil
  then show ?case by (cases ys; cases "tl ys") (auto simp: raw_string_def)
next
  case (Cons x xs)
  from Cons.prems have "ys \<noteq> []" unfolding raw_strings_step by (auto simp: raw_string_def)
  then obtain y ys' where ys: "ys = y # ys'" by (cases ys) auto
  from Cons.prems have xy: "x = y"
    and rest: "(if xs = [] then '']'' @ r else '','' @ comma_separated (map raw_string xs) @ '']'' @ r)
      = (if ys' = [] then '']'' @ q else '','' @ comma_separated (map raw_string ys') @ '']'' @ q)"
    unfolding ys raw_strings_step by (blast dest: raw_string_prefix)+
  have "xs = ys' \<and> r = q"
  proof (cases "xs = [] \<or> ys' = []")
    case True
    with rest show ?thesis by (auto split: if_splits)
  next
    case False
    with rest show ?thesis by (intro Cons.IH) simp
  qed
  then show ?case by (simp add: ys xy)
qed

subsection \<open>UTF-8\<close>

lemma unat_small_byte: "m < 256 \<Longrightarrow> unat (word_of_nat m :: byte) = m"
  by (simp add: unat_of_nat)

lemma utf8_decode_char:
  assumes "n < 256"
  shows "utf8_decode (utf8_char n @ bs) = map_option (Cons n) (utf8_decode bs)"
proof (cases "n < 128")
  case True
  then have "unat (word_of_nat n :: byte) = n" by (simp add: unat_of_nat)
  moreover then have "(word_of_nat n :: byte) < 128" using True by (simp add: word_less_nat_alt)
  ultimately show ?thesis using True by (simp add: utf8_char_def)
next
  case False
  have q: "n div 64 = 2 \<or> n div 64 = 3" using False assms by auto
  have u1: "unat (word_of_nat (192 + n div 64) :: byte) = 192 + n div 64"
    and u2: "unat (word_of_nat (128 + n mod 64) :: byte) = 128 + n mod 64"
    by (rule unat_small_byte, use q mod_less_divisor [of 64 n] in linarith)+
  have b: "\<not> (word_of_nat (192 + n div 64) :: byte) < 128" "\<not> (word_of_nat (192 + n div 64) :: byte) < 194"
    "(word_of_nat (192 + n div 64) :: byte) < 224"
    unfolding word_less_nat_alt u1 using q by auto
  have c: "continuation (word_of_nat (128 + n mod 64)) = Some (n mod 64)"
  proof -
    have "128 \<le> (word_of_nat (128 + n mod 64) :: byte)" "(word_of_nat (128 + n mod 64) :: byte) < 192"
      unfolding word_less_nat_alt word_le_nat_alt u2 by simp_all
    then show ?thesis unfolding continuation_def u2 by simp
  qed
  have "(unat (word_of_nat (192 + n div 64) :: byte) - 192) * 64 + n mod 64 = n" unfolding u1 by simp
  then show ?thesis using False assms b c by (simp add: utf8_char_def)
qed

lemma utf8_roundtrip: "utf8_decode (utf8_encode s) = Some (code_points s)"
proof (induction s)
  case Nil
  show ?case by (simp add: utf8_encode_def)
next
  case (Cons c s)
  have "utf8_encode (c # s) = utf8_char (of_char c) @ utf8_encode s" by (simp add: utf8_encode_def)
  with Cons show ?case by (simp add: utf8_decode_char nat_of_char_less_256)
qed

lemma utf8_inj: "utf8_encode s = utf8_encode t \<longleftrightarrow> s = t"
proof
  assume "utf8_encode s = utf8_encode t"
  from arg_cong [OF this, of utf8_decode] show "s = t" by (simp add: utf8_roundtrip)
qed simp

subsection \<open>An object with two text members\<close>

lemma raw_dumps_pair:
  "raw_dumps (JObj [(k1, JStr v1), (k2, JStr v2)])
     = ''{'' @ raw_string k1 @ '':'' @ raw_string v1 @ '','' @ raw_string k2 @ '':'' @ raw_string v2 @ ''}''"
  by simp

lemma scan_value_raw: "scan_value (Suc n) (code_points (raw_string v) @ r) = Some (LStr (code_points v), r)"
  using scan_raw_quoted [of v r] by (simp add: raw_string_def)

lemma skip_raw: "skip_space (code_points (raw_string v) @ r) = code_points (raw_string v) @ r"
  by (simp add: raw_string_def skip_space_def)

lemma scan_members_raw:
  assumes "map_of acc (code_points k) = None" and "c = 125 \<or> c = 44"
  shows "scan_members (Suc (Suc n)) acc (code_points (raw_string k) @ 58 # code_points (raw_string v) @ c # r)
      = (let acc1 = acc @ [(code_points k, LStr (code_points v))]
         in if c = 125 then Some (LObj acc1, r) else scan_members (Suc n) acc1 (skip_space r))"
proof -
  let ?q = "code_points (concat (map raw_char k))" and ?v = "code_points (raw_string v)"
  have upd: "AList.update (code_points k) (LStr (code_points v)) acc = acc @ [(code_points k, LStr (code_points v))]"
    using assms(1) by (intro keys_update_fresh) (auto simp: map_of_eq_None_iff)
  have k: "code_points (raw_string k) @ 58 # ?v @ c # r = 34 # ?q @ 34 # 58 # ?v @ c # r" by (simp add: raw_string_def)
  have q: "scan_string (length (?q @ 34 # 58 # ?v @ c # r)) (?q @ 34 # 58 # ?v @ c # r) = Some (code_points k, 58 # ?v @ c # r)"
    by (rule scan_raw_quoted)
  show ?thesis unfolding k scan_members.simps(2) list.case q option.case prod.case
    using assms(2) by (auto simp: skip_raw scan_value_raw upd simp del: scan_value.simps(2))
qed

lemma raw_pair_roundtrip:
  assumes "k1 \<noteq> k2"
  shows "json_loads (code_points (raw_dumps (JObj [(k1, JStr v1), (k2, JStr v2)])))
    = Some (LObj [(code_points k1, LStr (code_points v1)), (code_points k2, LStr (code_points v2))])"
proof -
  let ?s = "raw_dumps (JObj [(k1, JStr v1), (k2, JStr v2)])"
  let ?m2 = "code_points (raw_string k2) @ 58 # code_points (raw_string v2) @ 125 # []"
  let ?m = "code_points (raw_string k1) @ 58 # code_points (raw_string v1) @ 44 # ?m2"
  have s: "code_points ?s = 123 # ?m" unfolding raw_dumps_pair by simp
  have "8 \<le> length ?s" unfolding raw_dumps_pair by (simp add: raw_string_def)
  then have n: "2 * length (code_points ?s) + 1 = Suc (Suc (Suc (Suc (2 * length ?s - 3))))" by simp
  have sk: "skip_space (123 # ?m) = 123 # ?m" by (simp add: skip_space_def)
  have m1: "skip_space ?m = ?m" "skip_space ?m2 = ?m2" by (rule skip_raw)+
  have t: "take 1 ?m \<noteq> [125]" by (simp add: raw_string_def)
  have v: "scan_value (Suc (Suc (Suc n))) (123 # ?m) = scan_members (Suc (Suc n)) [] ?m" for n
    unfolding scan_value.simps(2) list.case Let_def m1 using t by simp
  have "scan_members (Suc (Suc (Suc n))) [] ?m
      = Some (LObj [(code_points k1, LStr (code_points v1)), (code_points k2, LStr (code_points v2))], [])" for n
    using scan_members_raw [of "[]" k1 44 "Suc n" v1 ?m2]
      scan_members_raw [of "[(code_points k1, LStr (code_points v1))]" k2 125 n v2 "[]"] assms
    by (simp only: m1) simp
  then show ?thesis unfolding json_loads_def n unfolding s sk v by simp
qed

end
