(* ===== verification/Emergency_Queue.thy ===== *)
theory Emergency_Queue
  imports Py_Raw_Json Repository_Inv Redaction
begin

text \<open>
  The encrypted emergency buffer of \<^verbatim>\<open>src/trpc_service/queue/emergency.py\<close> and its drainer, on any repository behind the
  interface \<open>inbound_repository\<close>; \<open>inbound_service\<close> is what the drainer relies on of it, shown for the in-memory repository. Redis,
  AES-GCM and the JSON form of a prepared message (pydantic) are arguments; a Redis call has the state \<open>'q\<close> of the server as
  argument and result. Keys and values of a stream entry are texts here, as \<^verbatim>\<open>_text\<close> makes them. Log records are left out.
\<close>

record prepared_inbound =
  pi_context :: tenant_context
  pi_envelope :: inbound_envelope
  pi_trace_headers :: "(string \<times> string) list"

datatype scheduler_version = V1 | V2

definition scheduler_version_value :: "scheduler_version \<Rightarrow> string" where
  "scheduler_version_value v = (case v of V1 \<Rightarrow> ''v1'' | V2 \<Rightarrow> ''v2'')"

record emergency_message =
  em_message_id :: string
  em_prepared :: prepared_inbound

text \<open>\<^verbatim>\<open>base64.b64encode\<close>, and \<^verbatim>\<open>base64.b64decode(s, validate=True)\<close>, which insists on the padding.\<close>

definition standard_char :: "char \<Rightarrow> char" where
  "standard_char c = (if c = CHR ''-'' then CHR ''+'' else if c = CHR ''_'' then CHR ''/'' else c)"

definition urlsafe_char :: "char \<Rightarrow> char" where
  "urlsafe_char c = (if c = CHR ''+'' then CHR ''-'' else if c = CHR ''/'' then CHR ''_'' else c)"

definition padding :: "nat \<Rightarrow> string" where
  "padding n = replicate ((4 - n mod 4) mod 4) CHR ''=''"

definition b64encode :: "bytes \<Rightarrow> string" where
  "b64encode bs = (let s = map standard_char (base64_encode bs) in s @ padding (length s))"

definition b64decode :: "string \<Rightarrow> error + bytes" where
  "b64decode s =
     (let body = takeWhile (\<lambda>c. c \<noteq> CHR ''='') s
      in if drop (length body) s \<noteq> padding (length body) \<or> CHR ''-'' \<in> set body \<or> CHR ''_'' \<in> set body
         then Inl (ValueError ''Only base64 data is allowed'')
         else case base64_decode (map urlsafe_char body) of
                None \<Rightarrow> Inl (ValueError ''Only base64 data is allowed'')
              | Some bs \<Rightarrow> Inr bs)"

subsection \<open>The queue\<close>

record emergency_queue =
  eq_key :: bytes
  eq_stream :: string
  eq_group :: string
  eq_key_version :: string
  eq_keys :: "(string \<times> bytes) list"
  eq_reclaim_cursor :: string

fun add_previous_keys :: "(string \<times> bytes) list \<Rightarrow> (string \<times> bytes) list \<Rightarrow> error + (string \<times> bytes) list" where
  "add_previous_keys [] keys = Inr keys"
| "add_previous_keys ((version, previous) # rest) keys =
     (if version = [] \<or> length previous \<noteq> 32 then Inl (ValueError ''emergency previous key is invalid'')
      else add_previous_keys rest (AList.update version previous keys))"

definition init_emergency_queue ::
    "bytes \<Rightarrow> scheduler_version \<Rightarrow> string option \<Rightarrow> string option \<Rightarrow> string \<Rightarrow> (string \<times> bytes) list \<Rightarrow> error + emergency_queue"
where
  "init_emergency_queue key version stream group_name key_version previous_keys =
     (if length key \<noteq> 32 then Inl (ValueError ''emergency queue AES-GCM key must be 32 bytes'')
      else if key_version = [] \<or> 32 < length key_version then Inl (ValueError ''emergency key version is invalid'')
      else case add_previous_keys previous_keys [(key_version, key)] of
             Inl e \<Rightarrow> Inl e
           | Inr keys \<Rightarrow>
               Inr \<lparr>eq_key = key, eq_stream = str_or stream (''trpc:emergency:'' @ scheduler_version_value version),
                    eq_group = str_or group_name (''trpc-emergency-drainers-'' @ scheduler_version_value version),
                    eq_key_version = key_version, eq_keys = keys, eq_reclaim_cursor = ''0-0''\<rparr>)"

type_synonym gcm_encrypt = "bytes \<Rightarrow> bytes \<Rightarrow> bytes \<Rightarrow> bytes \<Rightarrow> bytes"
type_synonym gcm_decrypt = "bytes \<Rightarrow> bytes \<Rightarrow> bytes \<Rightarrow> bytes \<Rightarrow> error + bytes"
type_synonym stream_entry = "(string \<times> string) list"

text \<open>The fields \<^verbatim>\<open>enqueue\<close> hands to \<^verbatim>\<open>xadd\<close>; the nonce comes from the operating system.\<close>

definition emergency_fields ::
    "gcm_encrypt \<Rightarrow> (prepared_inbound \<Rightarrow> string) \<Rightarrow> emergency_queue \<Rightarrow> bytes \<Rightarrow> prepared_inbound \<Rightarrow> stream_entry"
where
  "emergency_fields encrypt dump_json eq nonce prepared =
     (let binding_id = tc_channel_binding_id (pi_context prepared);
          encrypted = encrypt (eq_key eq) nonce (utf8_encode (dump_json prepared)) (utf8_encode binding_id)
      in [(''binding_id'', binding_id), (''key_version'', eq_key_version eq),
          (''nonce'', b64encode nonce), (''payload'', b64encode encrypted)])"

definition enqueue ::
    "gcm_encrypt \<Rightarrow> (prepared_inbound \<Rightarrow> string) \<Rightarrow> (string \<Rightarrow> stream_entry \<Rightarrow> 'q \<Rightarrow> (string, 'q) outcome) \<Rightarrow> emergency_queue
       \<Rightarrow> bytes \<Rightarrow> prepared_inbound \<Rightarrow> 'q \<Rightarrow> (string, 'q) outcome"
where
  "enqueue encrypt dump_json xadd eq nonce prepared q =
     xadd (eq_stream eq) (emergency_fields encrypt dump_json eq nonce prepared) q"

text \<open>The configured keys are tried in order; only a wrong tag moves on to the next.\<close>

fun try_keys :: "gcm_decrypt \<Rightarrow> bytes list \<Rightarrow> bytes \<Rightarrow> bytes \<Rightarrow> bytes \<Rightarrow> error + bytes" where
  "try_keys gcm [] nonce payload aad = Inl InvalidTag"
| "try_keys gcm (key # keys) nonce payload aad =
     (case gcm key nonce payload aad of
        Inr plain \<Rightarrow> Inr plain
      | Inl e \<Rightarrow> if e = InvalidTag then try_keys gcm keys nonce payload aad else Inl e)"

definition decrypt_record ::
    "gcm_decrypt \<Rightarrow> (bytes \<Rightarrow> prepared_inbound option) \<Rightarrow> emergency_queue \<Rightarrow> string \<Rightarrow> string \<Rightarrow> string \<Rightarrow> error + prepared_inbound"
where
  "decrypt_record gcm validate_json eq binding_id nonce payload =
     (case b64decode nonce of
        Inl e \<Rightarrow> Inl e
      | Inr raw_nonce \<Rightarrow>
          (case b64decode payload of
             Inl e \<Rightarrow> Inl e
           | Inr raw_payload \<Rightarrow>
               (case try_keys gcm (map snd (eq_keys eq)) raw_nonce raw_payload (utf8_encode binding_id) of
                  Inl e \<Rightarrow> Inl e
                | Inr plain \<Rightarrow>
                    (case validate_json plain of
                       None \<Rightarrow> Inl (ValueError ''validation error for PreparedInbound'')
                     | Some prepared \<Rightarrow>
                         if tc_channel_binding_id (pi_context prepared) \<noteq> binding_id
                         then Inl (ValueError ''emergency record binding does not match authenticated payload'')
                         else Inr prepared))))"

definition entry_field :: "stream_entry \<Rightarrow> string \<Rightarrow> error + string" where
  "entry_field entry name =
     (case map_of entry name of None \<Rightarrow> Inl (ValueError (''emergency record is missing '' @ name)) | Some v \<Rightarrow> Inr v)"

definition decode_row ::
    "gcm_decrypt \<Rightarrow> (bytes \<Rightarrow> prepared_inbound option) \<Rightarrow> emergency_queue \<Rightarrow> string \<times> stream_entry \<Rightarrow> error + emergency_message"
where
  "decode_row gcm validate_json eq row =
     (case (entry_field (snd row) ''binding_id'', entry_field (snd row) ''nonce'', entry_field (snd row) ''payload'') of
        (Inr binding_id, Inr nonce, Inr payload) \<Rightarrow>
          (case decrypt_record gcm validate_json eq binding_id nonce payload of
             Inl e \<Rightarrow> Inl e
           | Inr prepared \<Rightarrow> Inr \<lparr>em_message_id = fst row, em_prepared = prepared\<rparr>)
      | (Inl e, _, _) \<Rightarrow> Inl e
      | (_, Inl e, _) \<Rightarrow> Inl e
      | (_, _, Inl e) \<Rightarrow> Inl e)"


text \<open>Redis: acknowledging an entry, deleting one (\<^verbatim>\<open>_exact_delete\<close> keeps its failures to itself), and both.\<close>

type_synonym 'q redis_call = "string \<Rightarrow> 'q \<Rightarrow> (unit, 'q) outcome"

definition exact_delete :: "'q redis_call \<Rightarrow> string \<Rightarrow> 'q \<Rightarrow> 'q" where
  "exact_delete xdel message_id q = snd (xdel message_id q)"

definition ack_message :: "'q redis_call \<Rightarrow> 'q redis_call \<Rightarrow> string \<Rightarrow> 'q \<Rightarrow> (unit, 'q) outcome" where
  "ack_message xack xdel message_id q =
     (case xack message_id q of
        (Inl e, q1) \<Rightarrow> raise_in q1 e
      | (Inr _, q1) \<Rightarrow> return_in (exact_delete xdel message_id q1) ())"

definition quarantine_raw :: "'q redis_call \<Rightarrow> 'q redis_call \<Rightarrow> string \<Rightarrow> 'q \<Rightarrow> 'q" where
  "quarantine_raw xack xdel message_id q = snd (ack_message xack xdel message_id q)"

definition poison_error :: "error \<Rightarrow> bool" where
  "poison_error e = (case e of InvalidTag \<Rightarrow> True | ValueError _ \<Rightarrow> True | TypeError _ \<Rightarrow> True | KeyError _ \<Rightarrow> True | _ \<Rightarrow> False)"

fun decode_rows ::
    "gcm_decrypt \<Rightarrow> (bytes \<Rightarrow> prepared_inbound option) \<Rightarrow> 'q redis_call \<Rightarrow> 'q redis_call \<Rightarrow> emergency_queue
       \<Rightarrow> (string \<times> stream_entry) list \<Rightarrow> 'q \<Rightarrow> (emergency_message list, 'q) outcome"
where
  "decode_rows gcm validate_json xack xdel eq [] q = return_in q []"
| "decode_rows gcm validate_json xack xdel eq (row # rows) q =
     (let after = (\<lambda>more q1. case decode_rows gcm validate_json xack xdel eq rows q1 of
             (Inl e, q2) \<Rightarrow> raise_in q2 e
           | (Inr messages, q2) \<Rightarrow> return_in q2 (more @ messages))
      in case decode_row gcm validate_json eq row of
           Inr message \<Rightarrow> after [message] q
         | Inl e \<Rightarrow>
             if \<not> poison_error e then raise_in q e
             else after [] (if fst row = [] then q else quarantine_raw xack xdel (fst row) q))"

definition ensure_group :: "('q \<Rightarrow> (unit, 'q) outcome) \<Rightarrow> 'q \<Rightarrow> (unit, 'q) outcome" where
  "ensure_group xgroup_create q =
     (case xgroup_create q of
        (Inl (RedisError message), q1) \<Rightarrow>
          if contains ''BUSYGROUP'' message then return_in q1 () else raise_in q1 (RedisError message)
      | r \<Rightarrow> r)"

text \<open>\<^verbatim>\<open>xautoclaim\<close> returns the next cursor and the entries it claimed; only when it claims none are new entries read.\<close>

definition consume ::
    "gcm_decrypt \<Rightarrow> (bytes \<Rightarrow> prepared_inbound option) \<Rightarrow> ('q \<Rightarrow> (unit, 'q) outcome)
       \<Rightarrow> (string \<Rightarrow> 'q \<Rightarrow> (string \<times> (string \<times> stream_entry) list, 'q) outcome) \<Rightarrow> ('q \<Rightarrow> ((string \<times> stream_entry) list, 'q) outcome)
       \<Rightarrow> 'q redis_call \<Rightarrow> 'q redis_call \<Rightarrow> emergency_queue \<times> 'q \<Rightarrow> (emergency_message list, emergency_queue \<times> 'q) outcome"
where
  "consume gcm validate_json xgroup_create xautoclaim xreadgroup xack xdel s =
     (let eq = fst s;
          decoded = (\<lambda>eq1 rows q1. case decode_rows gcm validate_json xack xdel eq1 rows q1 of
             (Inl e, q2) \<Rightarrow> raise_in (eq1, q2) e
           | (Inr messages, q2) \<Rightarrow> return_in (eq1, q2) messages)
      in case ensure_group xgroup_create (snd s) of
           (Inl e, q1) \<Rightarrow> raise_in (eq, q1) e
         | (Inr _, q1) \<Rightarrow>
             (case xautoclaim (eq_reclaim_cursor eq) q1 of
                (Inl e, q2) \<Rightarrow> raise_in (eq, q2) e
              | (Inr (cursor, claimed), q2) \<Rightarrow>
                  (let eq1 = eq\<lparr>eq_reclaim_cursor := (if cursor = [] then ''0-0'' else cursor)\<rparr>
                   in if claimed \<noteq> [] then decoded eq1 claimed q2
                      else (case xreadgroup q2 of
                              (Inl e, q3) \<Rightarrow> raise_in (eq1, q3) e
                            | (Inr rows, q3) \<Rightarrow> decoded eq1 rows q3))))"

subsection \<open>The drainer\<close>

text \<open>
  The drainer is given a repository, of which it calls three operations of the interface \<^verbatim>\<open>RuntimeRepository\<close>. A call may raise
  anything the repository raises, as the one on PostgreSQL does when the database is away.
\<close>

record 'r inbound_repository =
  ir_get_config :: "string \<Rightarrow> string \<Rightarrow> nat \<Rightarrow> 'r \<Rightarrow> (tenant_config, 'r) outcome"
  ir_accept_inbound :: "tenant_context \<Rightarrow> inbound_envelope \<Rightarrow> (string \<times> string) list \<Rightarrow> 'r \<Rightarrow> (acceptance, 'r) outcome"
  ir_accept_inbound_v2 :: "tenant_context \<Rightarrow> inbound_envelope \<Rightarrow> (string \<times> string) list \<Rightarrow> 'r \<Rightarrow> (acceptance, 'r) outcome"

definition replay_prepared ::
    "scheduler_version \<Rightarrow> 'r inbound_repository \<Rightarrow> prepared_inbound \<Rightarrow> 'r \<Rightarrow> (unit, 'r) outcome"
where
  "replay_prepared version repository prepared r =
     (let c = pi_context prepared
      in case ir_get_config repository (tc_tenant_id c) (tc_app_id c) (tc_config_version c) r of
           (Inl e, r1) \<Rightarrow> raise_in r1 e
         | (Inr _, r1) \<Rightarrow>
             (case (case version of
                      V2 \<Rightarrow> ir_accept_inbound_v2 repository c (pi_envelope prepared) (pi_trace_headers prepared) r1
                    | V1 \<Rightarrow> ir_accept_inbound repository c (pi_envelope prepared) (pi_trace_headers prepared) r1) of
                (Inl e, r2) \<Rightarrow> raise_in r2 e
              | (Inr _, r2) \<Rightarrow> return_in r2 ()))"

text \<open>The in-memory repository behind the interface, with the clock readings of one message.\<close>

definition memory_repository :: "(nat \<Rightarrow> time) \<Rightarrow> runtime_repository inbound_repository" where
  "memory_repository clk =
     \<lparr>ir_get_config = (\<lambda>t a v rp. (get_config t a v rp, rp)),
      ir_accept_inbound = (\<lambda>c e headers rp. case accept_inbound c e headers (clk 0) rp of (a, rp1) \<Rightarrow> return_in rp1 a),
      ir_accept_inbound_v2 = (\<lambda>c e headers rp. accept_inbound_v2 c e 0 None clk rp)\<rparr>"

definition replay_error :: "error \<Rightarrow> bool" where
  "replay_error e =
     (case e of LookupError _ \<Rightarrow> True | KeyError _ \<Rightarrow> True | ValueError _ \<Rightarrow> True | TypeError _ \<Rightarrow> True | _ \<Rightarrow> False)"

text \<open>\<open>stop i\<close> says whether the stop event is set before the message with index \<open>i\<close>, \<open>repository i\<close> how the repository behaves for it.\<close>

fun drain_messages ::
    "scheduler_version \<Rightarrow> 'q redis_call \<Rightarrow> 'q redis_call \<Rightarrow> (nat \<Rightarrow> 'r inbound_repository) \<Rightarrow> (nat \<Rightarrow> bool) \<Rightarrow> nat
       \<Rightarrow> emergency_message list \<Rightarrow> nat \<Rightarrow> 'q \<times> 'r \<Rightarrow> (nat, 'q \<times> 'r) outcome"
where
  "drain_messages version xack xdel repository stop i [] processed s = return_in s processed"
| "drain_messages version xack xdel repository stop i (m # ms) processed s =
     (if stop i then return_in s processed
      else (case replay_prepared version (repository i) (em_prepared m) (snd s) of
              (Inl e, r1) \<Rightarrow>
                if \<not> replay_error e then raise_in (fst s, r1) e
                else (case ack_message xack xdel (em_message_id m) (fst s) of
                        (Inl e', q1) \<Rightarrow> raise_in (q1, r1) e'
                      | (Inr _, q1) \<Rightarrow> drain_messages version xack xdel repository stop (Suc i) ms processed (q1, r1))
            | (Inr _, r1) \<Rightarrow>
                (case ack_message xack xdel (em_message_id m) (fst s) of
                   (Inl e', q1) \<Rightarrow> raise_in (q1, r1) e'
                 | (Inr _, q1) \<Rightarrow> drain_messages version xack xdel repository stop (Suc i) ms (Suc processed) (q1, r1))))"

definition drain_once ::
    "gcm_decrypt \<Rightarrow> (bytes \<Rightarrow> prepared_inbound option) \<Rightarrow> ('q \<Rightarrow> (unit, 'q) outcome)
       \<Rightarrow> (string \<Rightarrow> 'q \<Rightarrow> (string \<times> (string \<times> stream_entry) list, 'q) outcome) \<Rightarrow> ('q \<Rightarrow> ((string \<times> stream_entry) list, 'q) outcome)
       \<Rightarrow> 'q redis_call \<Rightarrow> 'q redis_call \<Rightarrow> scheduler_version \<Rightarrow> (nat \<Rightarrow> 'r inbound_repository) \<Rightarrow> (nat \<Rightarrow> bool)
       \<Rightarrow> emergency_queue \<times> 'q \<times> 'r \<Rightarrow> (nat, emergency_queue \<times> 'q \<times> 'r) outcome"
where
  "drain_once gcm validate_json xgroup_create xautoclaim xreadgroup xack xdel version repository stop s =
     (case s of (eq, q, r) \<Rightarrow>
        (case consume gcm validate_json xgroup_create xautoclaim xreadgroup xack xdel (eq, q) of
           (Inl e, (eq1, q1)) \<Rightarrow> raise_in (eq1, q1, r) e
         | (Inr messages, (eq1, q1)) \<Rightarrow>
             (case drain_messages version xack xdel repository stop 0 messages 0 (q1, r) of
                (x, (q2, r2)) \<Rightarrow> (x, (eq1, q2, r2)))))"

subsection \<open>Base64 with padding reads what it wrote\<close>

lemma urlsafe_standard: "c \<in> set base64_alphabet \<Longrightarrow> urlsafe_char (standard_char c) = c \<and> standard_char c \<noteq> CHR ''=''
    \<and> standard_char c \<noteq> CHR ''-'' \<and> standard_char c \<noteq> CHR ''_''"
proof -
  have "\<forall>c \<in> set base64_alphabet. urlsafe_char (standard_char c) = c \<and> standard_char c \<noteq> CHR ''=''
    \<and> standard_char c \<noteq> CHR ''-'' \<and> standard_char c \<noteq> CHR ''_''" by code_simp
  then show "c \<in> set base64_alphabet \<Longrightarrow> ?thesis" by blast
qed

lemma b64_roundtrip: "b64decode (b64encode bs) = Inr bs"
proof -
  let ?s = "map standard_char (base64_encode bs)"
  have a: "c \<in> set base64_alphabet" if "c \<in> set (base64_encode bs)" for c using base64_chars that by blast
  have "\<forall>c \<in> set ?s. c \<noteq> CHR ''=''" using urlsafe_standard a by auto
  then have t: "takeWhile (\<lambda>c. c \<noteq> CHR ''='') (?s @ padding (length ?s)) = ?s"
    by (auto simp: takeWhile_append padding_def)
  have "CHR ''-'' \<notin> set ?s" "CHR ''_'' \<notin> set ?s" using urlsafe_standard a unfolding set_map by (metis imageE)+
  moreover have "map urlsafe_char ?s = base64_encode bs" using urlsafe_standard a by (simp add: map_idI)
  ultimately show ?thesis using t by (simp add: b64decode_def b64encode_def Let_def base64_roundtrip)
qed

subsection \<open>A record is read back after a change of keys\<close>

text \<open>The keys before the right one reject the record with a wrong tag.\<close>

lemma try_keys_finds:
  assumes "key \<in> set keys" and "gcm key nonce payload aad = Inr plain"
    and "\<And>k. k \<in> set keys \<Longrightarrow> k \<noteq> key \<Longrightarrow> gcm k nonce payload aad = Inl InvalidTag"
  shows "try_keys gcm keys nonce payload aad = Inr plain"
  using assms
proof (induction keys)
  case (Cons k keys)
  then show ?case by (cases "k = key") auto
qed simp

lemma decode_enqueued:
  assumes "eq_key writer \<in> snd ` set (eq_keys reader)"
    and "\<And>k. k \<in> snd ` set (eq_keys reader) \<Longrightarrow> k \<noteq> eq_key writer \<Longrightarrow>
      gcm k nonce (encrypt (eq_key writer) nonce text aad) aad = Inl InvalidTag"
    and "gcm (eq_key writer) nonce (encrypt (eq_key writer) nonce text aad) aad = Inr text"
    and "validate_json text = Some prepared"
    and "text = utf8_encode (dump_json prepared)" and "aad = utf8_encode (tc_channel_binding_id (pi_context prepared))"
  shows "decode_row gcm validate_json reader (i, emergency_fields encrypt dump_json writer nonce prepared)
    = Inr \<lparr>em_message_id = i, em_prepared = prepared\<rparr>"
proof -
  let ?c = "encrypt (eq_key writer) nonce text aad"
  have "try_keys gcm (map snd (eq_keys reader)) nonce ?c aad = Inr text"
    by (rule try_keys_finds [of "eq_key writer"]) (use assms(1-3) in auto)
  then show ?thesis
    by (simp add: decode_row_def entry_field_def emergency_fields_def decrypt_record_def b64_roundtrip assms(4) assms(5,6) [symmetric])
qed

subsection \<open>A message leaves the stream only once it is accepted\<close>

text \<open>\<open>pending q\<close> are the entries of the stream that still wait; acknowledging or deleting one touches no other.\<close>

definition touches_one :: "('q \<Rightarrow> string set) \<Rightarrow> 'q redis_call \<Rightarrow> bool" where
  "touches_one pending call \<longleftrightarrow> (\<forall>i q. pending q - {i} \<subseteq> pending (snd (call i q)))"

text \<open>
  What the drainer relies on of a repository for one message \<open>p\<close>: as long as the repository is in a state in which it does not
  refuse the message (\<open>ok\<close>, which its operations keep), it either accepts the message, and then the message is stored
  for good, or raises the error of a database or of Redis that is away. In that case it may or may not have stored the message.
\<close>

definition unavailable :: "error \<Rightarrow> bool" where
  "unavailable e \<longleftrightarrow> (\<exists>s. e = PostgresError s \<or> e = RedisError s)"

locale inbound_service =
  fixes repository :: "nat \<Rightarrow> 'r inbound_repository"
    and ok :: "'r \<Rightarrow> bool"
    and stored :: "'r \<Rightarrow> bool"
    and p :: prepared_inbound
  assumes config_keeps: "ir_get_config (repository n) t a v r = (x, r') \<Longrightarrow> (ok r \<longrightarrow> ok r') \<and> (stored r \<longrightarrow> stored r')"
    and accept_keeps: "ir_accept_inbound (repository n) c e h r = (y, r') \<or> ir_accept_inbound_v2 (repository n) c e h r = (y, r')
      \<Longrightarrow> (ok r \<longrightarrow> ok r') \<and> (stored r \<longrightarrow> stored r')"
    and config_found: "ir_get_config (repository n) (tc_tenant_id (pi_context p)) (tc_app_id (pi_context p)) (tc_config_version (pi_context p)) r
        = (Inl er, r') \<Longrightarrow> ok r \<Longrightarrow> unavailable er"
    and accept_stores: "ir_accept_inbound (repository n) (pi_context p) (pi_envelope p) h r = (y, r')
        \<or> ir_accept_inbound_v2 (repository n) (pi_context p) (pi_envelope p) h r = (y, r')
      \<Longrightarrow> ok r \<Longrightarrow> stored r' \<or> (\<exists>er. y = Inl er \<and> unavailable er)"
begin

lemma replay_keeps:
  assumes "replay_prepared version (repository n) p' r = (x, r')"
  shows "ok r \<longrightarrow> ok r'" and "stored r \<longrightarrow> stored r'"
proof -
  obtain y r1 where g: "ir_get_config (repository n) (tc_tenant_id (pi_context p')) (tc_app_id (pi_context p'))
      (tc_config_version (pi_context p')) r = (y, r1)" by fastforce
  note 1 = config_keeps [OF g]
  have 2: "r' = r1 \<or> (\<exists>z. ir_accept_inbound (repository n) (pi_context p') (pi_envelope p') (pi_trace_headers p') r1 = (z, r')
      \<or> ir_accept_inbound_v2 (repository n) (pi_context p') (pi_envelope p') (pi_trace_headers p') r1 = (z, r'))"
    using assms g by (cases version) (auto simp: replay_prepared_def Let_def split: sum.splits prod.splits)
  then show "ok r \<longrightarrow> ok r'" "stored r \<longrightarrow> stored r'" using 1 accept_keeps by metis+
qed

lemma replay_stores:
  assumes "replay_prepared version (repository n) p r = (x, r')" and "ok r"
  shows "stored r' \<or> (\<exists>e. x = Inl e \<and> unavailable e)"
proof -
  obtain y r1 where g: "ir_get_config (repository n) (tc_tenant_id (pi_context p)) (tc_app_id (pi_context p))
      (tc_config_version (pi_context p)) r = (y, r1)" by fastforce
  show ?thesis
  proof (cases y)
    case (Inl e)
    then show ?thesis using assms g config_found [of n r e r1] by (auto simp: replay_prepared_def)
  next
    case (Inr c)
    have "ok r1" using config_keeps [OF g] assms(2) by blast
    moreover obtain z where "ir_accept_inbound (repository n) (pi_context p) (pi_envelope p) (pi_trace_headers p) r1 = (z, r')
        \<or> ir_accept_inbound_v2 (repository n) (pi_context p) (pi_envelope p) (pi_trace_headers p) r1 = (z, r')"
        "\<And>e. z = Inl e \<Longrightarrow> x = Inl e"
      using assms(1) g Inr by (cases version) (auto simp: replay_prepared_def Let_def split: sum.splits prod.splits)
    ultimately show ?thesis using accept_stores by blast
  qed
qed

end

lemma ack_message_pending:
  assumes "touches_one pending xack" and "touches_one pending xdel" and "ack_message xack xdel i q = (x, q')"
  shows "pending q - {i} \<subseteq> pending q'"
proof -
  obtain y q1 where a: "xack i q = (y, q1)" by fastforce
  have 1: "pending q - {i} \<subseteq> pending q1" using assms(1) a unfolding touches_one_def by (metis snd_conv)
  have "pending q1 - {i} \<subseteq> pending (snd (xdel i q1))" using assms(2) unfolding touches_one_def by blast
  with 1 show ?thesis using assms(3) a by (auto simp: ack_message_def exact_delete_def split: sum.splits)
qed

lemma unavailable_not_replayed: "unavailable e \<Longrightarrow> \<not> replay_error e"
  by (auto simp: unavailable_def replay_error_def)

definition kept_or_stored :: "('q \<Rightarrow> string set) \<Rightarrow> ('r \<Rightarrow> bool) \<Rightarrow> string \<Rightarrow> 'q \<times> 'r \<Rightarrow> bool" where
  "kept_or_stored pending stored i s \<longleftrightarrow> i \<in> pending (fst s) \<or> stored (snd s)"

context inbound_service
begin

lemma drain_messages_keeps:
  assumes ops: "touches_one pending xack" "touches_one pending xdel"
    and "\<forall>m \<in> set ms. em_message_id m = j \<longrightarrow> em_prepared m = p"
    and "kept_or_stored pending stored j s" and "ok (snd s)"
  shows "kept_or_stored pending stored j (snd (drain_messages version xack xdel repository stop i ms processed s))"
  using assms(3-5)
proof (induction ms arbitrary: i processed s)
  case (Cons m ms)
  obtain q r where s: "s = (q, r)" by (cases s)
  obtain x r1 where rp: "replay_prepared version (repository i) (em_prepared m) r = (x, r1)" by fastforce
  obtain y q1 where a: "ack_message xack xdel (em_message_id m) q = (y, q1)" by fastforce
  have ok: "ok r1" and 1: "kept_or_stored pending stored j (q, r1)"
    using replay_keeps [OF rp] Cons.prems(2,3) by (auto simp: s kept_or_stored_def)
  have 2: "kept_or_stored pending stored j (q1, r1)" if "\<And>e. x = Inl e \<Longrightarrow> replay_error e"
  proof (cases "em_message_id m = j")
    case True
    then have "replay_prepared version (repository i) p r = (x, r1)" using Cons.prems(1) rp by simp
    from replay_stores [OF this] show ?thesis
      using Cons.prems(3) that unavailable_not_replayed by (auto simp: s kept_or_stored_def)
  next
    case False
    then show ?thesis using 1 ack_message_pending [OF ops a] by (auto simp: kept_or_stored_def)
  qed
  show ?case using Cons.IH [OF _ 2] Cons.prems 1 2 ok rp a
    by (cases "stop i"; cases x; cases y) (auto simp: s)
qed simp

end

text \<open>What the drainer relies on of Redis for one entry: creating the group and reading do not remove it, and whoever reads the
  id gets the entry.\<close>

definition stream_keeps ::
    "('q \<Rightarrow> string set) \<Rightarrow> string \<Rightarrow> stream_entry \<Rightarrow> ('q \<Rightarrow> (unit, 'q) outcome)
       \<Rightarrow> (string \<Rightarrow> 'q \<Rightarrow> (string \<times> (string \<times> stream_entry) list, 'q) outcome) \<Rightarrow> ('q \<Rightarrow> ((string \<times> stream_entry) list, 'q) outcome) \<Rightarrow> bool"
where
  "stream_keeps pending i entry xgroup_create xautoclaim xreadgroup \<longleftrightarrow>
     (\<forall>q. i \<in> pending q \<longrightarrow> i \<in> pending (snd (xgroup_create q)) \<and> (\<forall>c. i \<in> pending (snd (xautoclaim c q))) \<and> i \<in> pending (snd (xreadgroup q)))
     \<and> (\<forall>c q cursor rows e. fst (xautoclaim c q) = Inr (cursor, rows) \<longrightarrow> (i, e) \<in> set rows \<longrightarrow> e = entry)
     \<and> (\<forall>q rows e. fst (xreadgroup q) = Inr rows \<longrightarrow> (i, e) \<in> set rows \<longrightarrow> e = entry)"

lemma stream_keepsD:
  assumes "stream_keeps pending i entry xgroup_create xautoclaim xreadgroup" and "i \<in> pending q"
  shows "xgroup_create q = (x, q') \<Longrightarrow> i \<in> pending q'"
    and "xautoclaim c q = (y, q') \<Longrightarrow> i \<in> pending q'"
    and "xautoclaim c q = (Inr (cursor, rows), q') \<Longrightarrow> row \<in> set rows \<Longrightarrow> fst row = i \<Longrightarrow> row = (i, entry)"
    and "xreadgroup q = (z, q') \<Longrightarrow> i \<in> pending q'"
    and "xreadgroup q = (Inr rows, q') \<Longrightarrow> row \<in> set rows \<Longrightarrow> fst row = i \<Longrightarrow> row = (i, entry)"
  using assms unfolding stream_keeps_def by (metis fst_conv snd_conv prod.collapse)+

lemma decode_row_id: "decode_row gcm validate_json eq row = Inr m \<Longrightarrow> em_message_id m = fst row"
  by (auto simp: decode_row_def split: sum.splits)

lemma decode_row_cursor: "decode_row gcm validate_json (eq\<lparr>eq_reclaim_cursor := c\<rparr>) row = decode_row gcm validate_json eq row"
proof -
  have same: "eq_keys (eq\<lparr>eq_reclaim_cursor := c\<rparr>) = eq_keys eq" by simp
  show ?thesis unfolding decode_row_def decrypt_record_def same ..
qed

lemma decode_rows_keeps:
  assumes ops: "touches_one pending xack" "touches_one pending xdel"
    and ok: "\<forall>row \<in> set rows. fst row = em_message_id m \<longrightarrow> decode_row gcm validate_json eq row = Inr m"
    and "decode_rows gcm validate_json xack xdel eq rows q = (x, q')" and "em_message_id m \<in> pending q"
  shows "em_message_id m \<in> pending q' \<and> (\<forall>ms m'. x = Inr ms \<longrightarrow> m' \<in> set ms \<longrightarrow> em_message_id m' = em_message_id m \<longrightarrow> m' = m)"
  using assms(3-5)
proof (induction rows arbitrary: q x q')
  case (Cons row rows)
  have ok': "\<forall>row \<in> set rows. fst row = em_message_id m \<longrightarrow> decode_row gcm validate_json eq row = Inr m" using Cons.prems(1) by simp
  let ?q = "if fst row = [] then q else quarantine_raw xack xdel (fst row) q"
  obtain y q1 where d: "decode_rows gcm validate_json xack xdel eq rows q = (y, q1)" by fastforce
  obtain z q2 where e: "decode_rows gcm validate_json xack xdel eq rows ?q = (z, q2)" by fastforce
  show ?case
  proof (cases "decode_row gcm validate_json eq row")
    case (Inr m1)
    have "m1 = m" if "em_message_id m1 = em_message_id m" using Cons.prems(1) that decode_row_id [OF Inr] Inr by simp
    then show ?thesis using Cons.IH [OF ok' d Cons.prems(3)] Cons.prems(2) d Inr by (cases y) (auto simp: Let_def)
  next
    case (Inl er)
    then have "fst row \<noteq> em_message_id m" using Cons.prems(1) by auto
    moreover obtain u q3 where a: "ack_message xack xdel (fst row) q = (u, q3)" by fastforce
    ultimately have "em_message_id m \<in> pending ?q"
      using ack_message_pending [OF ops a] Cons.prems(3) by (auto simp: quarantine_raw_def)
    from Cons.IH [OF ok' e this] show ?thesis using Cons.prems(2,3) Inl e by (cases z) (auto simp: Let_def split: if_splits)
  qed
qed auto

lemma consume_keeps:
  assumes ops: "touches_one pending xack" "touches_one pending xdel"
    and keeps: "stream_keeps pending i entry xgroup_create xautoclaim xreadgroup"
    and dec: "decode_row gcm validate_json eq (i, entry) = Inr m" and "i \<in> pending q"
    and run: "consume gcm validate_json xgroup_create xautoclaim xreadgroup xack xdel (eq, q) = (x, s')"
  shows "i \<in> pending (snd s') \<and> (\<forall>ms m'. x = Inr ms \<longrightarrow> m' \<in> set ms \<longrightarrow> em_message_id m' = i \<longrightarrow> m' = m)"
proof -
  have id: "em_message_id m = i" using decode_row_id [OF dec] by simp
  note D = stream_keepsD [OF keeps]
  obtain g q1 where g: "ensure_group xgroup_create q = (g, q1)" by fastforce
  obtain g' q1' where g': "xgroup_create q = (g', q1')" by fastforce
  have 1: "i \<in> pending q1" using D(1) [OF assms(5) g'] g g' by (auto simp: ensure_group_def split: sum.splits error.splits if_splits)
  obtain c q2 where c: "xautoclaim (eq_reclaim_cursor eq) q1 = (c, q2)" by fastforce
  have 2: "i \<in> pending q2" by (rule D(2) [OF 1 c])
  obtain r q3 where r: "xreadgroup q2 = (r, q3)" by fastforce
  have 3: "i \<in> pending q3" by (rule D(4) [OF 2 r])
  have rows: "i \<in> pending q'' \<and> (\<forall>ms m'. y = Inr ms \<longrightarrow> m' \<in> set ms \<longrightarrow> em_message_id m' = i \<longrightarrow> m' = m)"
    if "decode_rows gcm validate_json xack xdel (eq\<lparr>eq_reclaim_cursor := cur\<rparr>) rows q' = (y, q'')" and "i \<in> pending q'"
      and "\<And>row. row \<in> set rows \<Longrightarrow> fst row = i \<Longrightarrow> row = (i, entry)" for rows q' y q'' cur
  proof -
    have "decode_row gcm validate_json (eq\<lparr>eq_reclaim_cursor := cur\<rparr>) row = Inr m" if "row \<in> set rows" "fst row = i" for row
      using \<open>row \<in> set rows \<Longrightarrow> fst row = i \<Longrightarrow> row = (i, entry)\<close> that dec by (simp add: decode_row_cursor)
    then show ?thesis using decode_rows_keeps [OF ops _ that(1), of m] that(2) id by simp
  qed
  show ?thesis
    using run g c r 1 2 3 rows [OF _ 2 D(3) [OF 1]] rows [OF _ 3 D(5) [OF 2]]
    by (auto simp: consume_def Let_def split: sum.splits prod.splits if_splits)
qed

context inbound_service
begin

lemma drain_once_keeps:
  assumes ops: "touches_one pending xack" "touches_one pending xdel"
    and keeps: "stream_keeps pending i entry xgroup_create xautoclaim xreadgroup"
    and dec: "decode_row gcm validate_json eq (i, entry) = Inr \<lparr>em_message_id = i, em_prepared = p\<rparr>" and "i \<in> pending q" and "ok r"
    and run: "drain_once gcm validate_json xgroup_create xautoclaim xreadgroup xack xdel version repository stop (eq, q, r) = (x, eq', q', r')"
  shows "i \<in> pending q' \<or> stored r'"
proof -
  obtain y eq1 q1 where c: "consume gcm validate_json xgroup_create xautoclaim xreadgroup xack xdel (eq, q) = (y, (eq1, q1))"
    by (metis surj_pair)
  note k = consume_keeps [OF ops keeps dec assms(5) c]
  then have start: "kept_or_stored pending stored i (q1, r)" by (simp add: kept_or_stored_def)
  show ?thesis
  proof (cases y)
    case (Inl e)
    then show ?thesis using run c start by (simp add: drain_once_def kept_or_stored_def)
  next
    case (Inr ms)
    then have "\<forall>m \<in> set ms. em_message_id m = i \<longrightarrow> em_prepared m = p" using k by (metis emergency_message.select_convs(2))
    then have "kept_or_stored pending stored i (snd (drain_messages version xack xdel repository stop 0 ms 0 (q1, r)))"
      by (rule drain_messages_keeps [OF ops _ start]) (simp add: assms(6))
    then show ?thesis using run c Inr by (auto simp: drain_once_def kept_or_stored_def split: prod.splits)
  qed
qed

end

subsection \<open>The in-memory repository\<close>

definition registered :: "prepared_inbound \<Rightarrow> runtime_repository \<Rightarrow> bool" where
  "registered prepared rp \<longleftrightarrow> rp_acceptances rp (inbound_key (pi_context prepared) (pi_envelope prepared)) \<noteq> None"

definition config_missing :: "prepared_inbound \<Rightarrow> runtime_repository \<Rightarrow> bool" where
  "config_missing prepared rp \<longleftrightarrow>
     rp_configs rp (tc_tenant_id (pi_context prepared), tc_app_id (pi_context prepared), tc_config_version (pi_context prepared)) = None"

lemma accept_frames:
  "rp_configs (snd (accept_inbound c e th now rp)) = rp_configs rp"
  "rp_configs (snd (accept_inbound_v2 c e p ra clk rp)) = rp_configs rp"
  by (auto simp: accept_inbound_def accept_inbound_v2_def register_acceptance_eq draw_uuid_eq on_mailbox_eq Let_def split: option.splits sum.splits)

lemma accept_registers:
  "rp_acceptances (snd (accept_inbound c e th now rp)) (inbound_key c e) \<noteq> None"
  "rp_acceptances (snd (accept_inbound_v2 c e p ra clk rp)) (inbound_key c e) \<noteq> None"
  by (auto simp: accept_inbound_def accept_inbound_v2_def register_acceptance_eq draw_uuid_eq on_mailbox_eq Let_def split: option.splits sum.splits)

lemma accept_registry:
  "rp_acceptances rp k \<noteq> None \<Longrightarrow> rp_acceptances (snd (accept_inbound c e th now rp)) k \<noteq> None"
  "rp_acceptances rp k \<noteq> None \<Longrightarrow> rp_acceptances (snd (accept_inbound_v2 c e p ra clk rp)) k \<noteq> None"
  by (auto simp: accept_inbound_def accept_inbound_v2_def register_acceptance_eq draw_uuid_eq on_mailbox_eq Let_def split: option.splits sum.splits)

lemma memory_accept:
  assumes "ir_accept_inbound (memory_repository clk) c e h rp = (y, rp') \<or> ir_accept_inbound_v2 (memory_repository clk) c e h rp = (y, rp')"
  shows "rp' = snd (accept_inbound c e h (clk 0) rp) \<or> rp' = snd (accept_inbound_v2 c e 0 None clk rp)"
  using assms by (auto simp: memory_repository_def split: prod.splits)

interpretation memory_inbound: inbound_service "\<lambda>n. memory_repository (clk n)" "\<lambda>rp. \<not> config_missing p rp" "registered p" p for clk p
proof
  fix n c e h r y r'
  assume "ir_accept_inbound (memory_repository (clk n)) c e h r = (y, r') \<or> ir_accept_inbound_v2 (memory_repository (clk n)) c e h r = (y, r')"
  from memory_accept [OF this] show "(\<not> config_missing p r \<longrightarrow> \<not> config_missing p r') \<and> (registered p r \<longrightarrow> registered p r')"
    using accept_frames accept_registry unfolding config_missing_def registered_def by metis
next
  fix n h r y r'
  assume "ir_accept_inbound (memory_repository (clk n)) (pi_context p) (pi_envelope p) h r = (y, r')
    \<or> ir_accept_inbound_v2 (memory_repository (clk n)) (pi_context p) (pi_envelope p) h r = (y, r')"
  from memory_accept [OF this] show "registered p r' \<or> (\<exists>er. y = Inl er \<and> unavailable er)"
    using accept_registers unfolding registered_def by metis
qed (auto simp: memory_repository_def get_config_def config_missing_def split: option.splits)

end
