(* ===== verification/Session_Id.thy ===== *)
theory Session_Id
  imports Py_Raw_Json Py_Rational Models
begin

text \<open>
  Session and principal identifiers and rollout buckets of \<^verbatim>\<open>src/trpc_service/tenant/session_id.py\<close>: keyed digests of a
  canonical JSON text. The lemmas show that the text determines what it was made of, so that two scopes share an identifier
  only if the digest collides on two known texts, and how a rollout percentage picks buckets.
\<close>

definition mac_text :: "string \<Rightarrow> string list \<Rightarrow> string" where
  "mac_text purpose parts =
     raw_dumps (JObj [(''v'', JInt 1), (''purpose'', JStr purpose), (''parts'', JList (map JStr parts))])"

definition mac :: "bytes \<Rightarrow> string \<Rightarrow> string list \<Rightarrow> bytes" where
  "mac key purpose parts = hmac_sha256 key (utf8_encode (mac_text purpose parts))"

definition conversation_subject :: "conversation_kind \<Rightarrow> string \<Rightarrow> string option \<Rightarrow> error + string" where
  "conversation_subject kind external_user_id external_conversation_id =
     (if kind = GROUP
      then (case external_conversation_id of
              None \<Rightarrow> Inl (ValueError ''group conversations require an external conversation id'')
            | Some c \<Rightarrow>
                if c = [] then Inl (ValueError ''group conversations require an external conversation id'') else Inr c)
      else Inr external_user_id)"

definition make_session_id ::
    "bytes \<Rightarrow> string \<Rightarrow> string \<Rightarrow> conversation_kind \<Rightarrow> string \<Rightarrow> string option \<Rightarrow> error + string"
where
  "make_session_id key tenant_id binding_id kind external_user_id external_conversation_id =
     (case conversation_subject kind external_user_id external_conversation_id of
        Inl e \<Rightarrow> Inl e
      | Inr subject \<Rightarrow>
          Inr (''s1_'' @ base64_encode (mac key ''session'' [tenant_id, binding_id, conversation_kind_value kind, subject])))"

definition make_principal_id :: "bytes \<Rightarrow> string \<Rightarrow> string \<Rightarrow> string \<Rightarrow> string" where
  "make_principal_id key tenant_id binding_id external_user_id =
     ''p1_'' @ base64_encode (mac key ''principal'' [tenant_id, binding_id, external_user_id])"

definition rollout_bucket :: "bytes \<Rightarrow> string \<Rightarrow> string \<Rightarrow> string \<Rightarrow> nat" where
  "rollout_bucket key tenant_id app_id session_id =
     foldl (\<lambda>n b. n * 256 + unat b) 0 (take 8 (mac key ''rollout'' [tenant_id, app_id, session_id])) mod 10000"

definition select_config_version :: "nat \<Rightarrow> nat option \<Rightarrow> rat \<Rightarrow> nat \<Rightarrow> error + nat" where
  "select_config_version active_version candidate_version candidate_percent bucket =
     (if \<not> (0 \<le> candidate_percent \<and> candidate_percent \<le> 100)
      then Inl (ValueError ''candidate percentage must be between 0 and 100'')
      else case candidate_version of
        None \<Rightarrow> Inr active_version
      | Some candidate \<Rightarrow>
          if candidate_percent = 0 then Inr active_version
          else Inr (if int bucket < round_half_even (candidate_percent * 100) then candidate else active_version))"

subsection \<open>The canonical text determines its parts\<close>

lemma mac_text_shape:
  "mac_text purpose parts = ''{'' @ raw_string ''v'' @ '':1,'' @ raw_string ''purpose'' @ '':'' @ raw_string purpose @ '',''
     @ raw_string ''parts'' @ '':['' @ comma_separated (map raw_string parts) @ '']'' @ ''}''"
proof -
  have "map raw_dumps (map JStr parts) = map raw_string parts" by simp
  moreover have "int_text 1 = ''1''" by code_simp
  ultimately show ?thesis by (simp add: mac_text_def comp_def)
qed

lemma mac_text_inj:
  assumes "mac_text p xs = mac_text q ys"
  shows "p = q \<and> xs = ys"
proof -
  let ?rest = "\<lambda>xs. '','' @ raw_string ''parts'' @ '':['' @ comma_separated (map raw_string xs) @ '']'' @ ''}''"
  have "raw_string p @ ?rest xs = raw_string q @ ?rest ys"
    using assms unfolding mac_text_shape by (simp only: same_append_eq)
  from raw_string_prefix [OF this] have "p = q" "?rest xs = ?rest ys" by blast+
  then have "comma_separated (map raw_string xs) @ '']'' @ ''}'' = comma_separated (map raw_string ys) @ '']'' @ ''}''"
    by (simp only: same_append_eq)
  from raw_strings_inj [OF this] \<open>p = q\<close> show ?thesis by blast
qed

lemma base64_encode_inj: "base64_encode a = base64_encode b \<longleftrightarrow> a = b"
proof
  assume "base64_encode a = base64_encode b"
  from arg_cong [OF this, of base64_decode] show "a = b" by (simp add: base64_roundtrip)
qed simp

lemma mac_collision:
  assumes "mac key p xs = mac key q ys" and "(p, xs) \<noteq> (q, ys)"
  shows "utf8_encode (mac_text p xs) \<noteq> utf8_encode (mac_text q ys)
    \<and> hmac_sha256 key (utf8_encode (mac_text p xs)) = hmac_sha256 key (utf8_encode (mac_text q ys))"
  using assms mac_text_inj [of p xs q ys] by (auto simp: mac_def utf8_inj)

lemma conversation_kind_value_inj: "conversation_kind_value a = conversation_kind_value b \<longleftrightarrow> a = b"
  by (cases a; cases b) (simp_all add: conversation_kind_value_def)

lemma make_session_id_result:
  "make_session_id key t b k u c = Inr s \<longleftrightarrow>
     (\<exists>subject. conversation_subject k u c = Inr subject
        \<and> s = ''s1_'' @ base64_encode (mac key ''session'' [t, b, conversation_kind_value k, subject]))"
  by (auto simp: make_session_id_def split: sum.splits)

subsection \<open>Rollout\<close>

lemma rollout_bucket_less: "rollout_bucket key tenant_id app_id session_id < 10000"
  by (simp add: rollout_bucket_def)

definition picks_candidate :: "rat \<Rightarrow> nat \<Rightarrow> bool" where
  "picks_candidate percent bucket \<longleftrightarrow> percent \<noteq> 0 \<and> int bucket < round_half_even (percent * 100)"

lemma select_config_version_picks:
  "0 \<le> p \<Longrightarrow> p \<le> 100 \<Longrightarrow> select_config_version a (Some c) p b = Inr (if picks_candidate p b then c else a)"
  by (simp add: select_config_version_def picks_candidate_def)

lemma round_percent_bounds:
  assumes "0 \<le> p" and "p \<le> 100"
  shows "0 \<le> round_half_even (p * 100) \<and> round_half_even (p * 100) \<le> 10000"
  using round_half_even_mono [of "of_int 0" "p * 100"] round_half_even_mono [of "p * 100" "of_int 10000"] assms
  unfolding round_half_even_of_int by simp

lemma picks_candidate_mono:
  assumes "0 \<le> p" and "p \<le> q" and "picks_candidate p b"
  shows "picks_candidate q b"
proof -
  have "round_half_even (p * 100) \<le> round_half_even (q * 100)" using assms(2) by (intro round_half_even_mono) simp
  moreover have "q \<noteq> 0" using assms by (auto simp: picks_candidate_def)
  ultimately show ?thesis using assms(3) by (simp add: picks_candidate_def)
qed

lemma picked_buckets:
  assumes "0 \<le> p" and "p \<le> 100"
  shows "card {b. b < 10000 \<and> picks_candidate p b} = nat (round_half_even (p * 100))"
proof -
  have "round_half_even 0 = 0" using round_half_even_of_int [of 0] by simp
  then have "{b. b < 10000 \<and> picks_candidate p b} = {..< nat (round_half_even (p * 100))}"
    using round_percent_bounds [OF assms] by (auto simp: picks_candidate_def)
  then show ?thesis by simp
qed

end
