(* ===== verification/Media_Locator.thy ===== *)
theory Media_Locator
  imports Py_Raw_Json Tool_Confirmation Uuid
begin

text \<open>
  The confidential media locators of \<^verbatim>\<open>src/trpc_service/channels/media_locator.py\<close>. AES-GCM (package
  \<^verbatim>\<open>cryptography\<close>) is a pair of arguments: \<open>encrypt key nonce data aad\<close> and \<open>decrypt key nonce data aad\<close>, where \<open>None\<close> is the
  exception \<^verbatim>\<open>InvalidTag\<close>. What \<^verbatim>\<open>json.loads\<close> reads may hold any code point, so an opened locator is given as
  lists of code points. \<^verbatim>\<open>WeComMediaLocatorError\<close> is a \<^verbatim>\<open>ValueError\<close>.
\<close>

type_synonym aead_encrypt = "bytes \<Rightarrow> bytes \<Rightarrow> bytes \<Rightarrow> bytes \<Rightarrow> bytes"
type_synonym aead_decrypt = "bytes \<Rightarrow> bytes \<Rightarrow> bytes \<Rightarrow> bytes \<Rightarrow> bytes option"

definition locator_error :: error where
  "locator_error = ValueError ''WeCom media locator is invalid''"

definition init_locator_cipher :: "bytes \<Rightarrow> error + bytes" where
  "init_locator_cipher key =
     (if length key \<noteq> 32 then Inl (ValueError ''WeCom media locator AES-GCM key must be 32 bytes'') else Inr key)"

definition context_valid :: "string \<Rightarrow> string \<Rightarrow> bool" where
  "context_valid binding_id message_id \<longleftrightarrow>
     binding_id \<noteq> [] \<and> CHR 0x00 \<notin> set binding_id \<and> message_id \<noteq> [] \<and> CHR 0x00 \<notin> set message_id"

text \<open>\<^verbatim>\<open>len(x).to_bytes(4, "big")\<close>\<close>

definition length_prefix :: "nat \<Rightarrow> error + bytes" where
  "length_prefix n =
     (if 4294967296 \<le> n then Inl (OverflowError ''int too big to convert'')
      else Inr [word_of_nat (n div 16777216), word_of_nat (n div 65536 mod 256), word_of_nat (n div 256 mod 256), word_of_nat (n mod 256)])"

definition locator_aad :: "string \<Rightarrow> string \<Rightarrow> error + bytes" where
  "locator_aad binding_id message_id =
     (let binding = utf8_encode binding_id; message = utf8_encode message_id
      in case length_prefix (length binding) of
           Inl e \<Rightarrow> Inl e
         | Inr p \<Rightarrow>
             (case length_prefix (length message) of
                Inl e \<Rightarrow> Inl e
              | Inr q \<Rightarrow> Inr (utf8_encode ''trpc-service:wecom-media-locator:v1'' @ p @ binding @ q @ message)))"

definition space_point :: "nat \<Rightarrow> bool" where
  "space_point n \<longleftrightarrow> n \<in> {9, 10, 11, 12, 13, 28, 29, 30, 31, 32, 133, 160, 5760, 8232, 8233, 8239, 8287, 12288} \<or> 8192 \<le> n \<and> n \<le> 8202"

definition blank_text :: "nat list \<Rightarrow> bool" where
  "blank_text ns = list_all space_point ns"

definition locator_payload :: "string \<Rightarrow> string \<Rightarrow> bytes" where
  "locator_payload url aes_key = utf8_encode (raw_dumps (JObj [(''provider_url'', JStr url), (''encryption_key_ref'', JStr aes_key)]))"

definition seal_locator ::
    "aead_encrypt \<Rightarrow> bytes \<Rightarrow> bytes \<Rightarrow> media_reference \<Rightarrow> string \<Rightarrow> string \<Rightarrow> error + media_reference"
where
  "seal_locator encrypt key nonce reference binding_id message_id =
     (if \<not> context_valid binding_id message_id then Inl locator_error
      else case (mr_provider_url reference, mr_encryption_key_ref reference) of
        (Some url, Some aes_key) \<Rightarrow>
          if blank_text (code_points url) \<or> blank_text (code_points aes_key) then Inl locator_error
          else (case locator_aad binding_id message_id of
                  Inl e \<Rightarrow> Inl e
                | Inr aad \<Rightarrow>
                    Inr (reference\<lparr>mr_provider_url := None, mr_encryption_key_ref := None,
                         mr_provider_media_id := Some (''v1.'' @ base64_encode (nonce @ encrypt key nonce (locator_payload url aes_key) aad))\<rparr>))
      | _ \<Rightarrow> Inl locator_error)"

text \<open>The two texts of a decrypted payload, if it is an object with exactly these two members, neither of them blank.\<close>

definition locator_values :: "bytes \<Rightarrow> (nat list \<times> nat list) option" where
  "locator_values payload =
     (case Option.bind (utf8_decode payload) json_loads of
        Some (LObj values) \<Rightarrow>
          if fst ` set values \<noteq> {code_points ''provider_url'', code_points ''encryption_key_ref''} then None
          else (case (payload_get values ''provider_url'', payload_get values ''encryption_key_ref'') of
                  (Some (LStr url), Some (LStr aes_key)) \<Rightarrow>
                    if blank_text url \<or> blank_text aes_key then None else Some (url, aes_key)
                | _ \<Rightarrow> None)
      | _ \<Rightarrow> None)"

definition open_locator ::
    "aead_decrypt \<Rightarrow> bytes \<Rightarrow> media_reference \<Rightarrow> string \<Rightarrow> string \<Rightarrow> error + (media_reference \<times> nat list \<times> nat list)"
where
  "open_locator decrypt key reference binding_id message_id =
     (if \<not> context_valid binding_id message_id then Inl locator_error
      else case mr_provider_media_id reference of
        None \<Rightarrow> Inl locator_error
      | Some token \<Rightarrow>
          (let encoded = drop 3 token
           in if take 3 token \<noteq> ''v1.'' \<or> encoded = [] \<or> \<not> set encoded \<subseteq> set base64_alphabet
                 \<or> mr_provider_url reference \<noteq> None \<or> mr_encryption_key_ref reference \<noteq> None
              then Inl locator_error
              else case (base64_decode encoded, locator_aad binding_id message_id) of
                (Some encrypted, Inr aad) \<Rightarrow>
                  if length encrypted \<le> 28 then Inl locator_error
                  else (case Option.bind (decrypt key (take 12 encrypted) (drop 12 encrypted) aad) locator_values of
                          None \<Rightarrow> Inl locator_error
                        | Some (url, aes_key) \<Rightarrow> Inr (reference, url, aes_key))
              | _ \<Rightarrow> Inl locator_error))"

subsection \<open>The associated data determines the context\<close>

lemma length_prefix_value:
  assumes "length_prefix n = Inr p"
  shows "length p = 4 \<and> foldl (\<lambda>a b. a * 256 + unat b) 0 p = n"
proof -
  have n: "n < 4294967296" and p: "p = [word_of_nat (n div 16777216), word_of_nat (n div 65536 mod 256), word_of_nat (n div 256 mod 256), word_of_nat (n mod 256)]"
    using assms by (auto simp: length_prefix_def split: if_splits)
  have a: "n div 16777216 < 256" using n by (simp add: div_less_iff_less_mult)
  have u: "map unat p = [n div 16777216, n div 65536 mod 256, n div 256 mod 256, n mod 256]"
    unfolding p list.map by (simp only: unat_small_byte [OF a] unat_small_byte [OF mod_less_divisor])
  have "foldl (\<lambda>a b. a * 256 + unat b) 0 p = foldl (\<lambda>a b. a * 256 + b) 0 (map unat p)" by (simp add: foldl_map)
  also have "\<dots> = ((n div 16777216 * 256 + n div 65536 mod 256) * 256 + n div 256 mod 256) * 256 + n mod 256" unfolding u by simp
  also have "\<dots> = n"
  proof -
    have "n div 65536 = n div 256 div 256" "n div 16777216 = n div 256 div 256 div 256" by (simp_all add: div_mult2_eq [symmetric])
    then show ?thesis by simp
  qed
  finally show ?thesis by (simp add: p)
qed

lemma locator_aad_inj:
  assumes "locator_aad b m = Inr aad" and "locator_aad b' m' = Inr aad"
  shows "b = b' \<and> m = m'"
proof -
  from assms(1) obtain p q where 1: "length_prefix (length (utf8_encode b)) = Inr p" "length_prefix (length (utf8_encode m)) = Inr q"
    and a1: "aad = utf8_encode ''trpc-service:wecom-media-locator:v1'' @ p @ utf8_encode b @ q @ utf8_encode m"
    by (auto simp: locator_aad_def Let_def split: sum.splits)
  from assms(2) obtain p' q' where 2: "length_prefix (length (utf8_encode b')) = Inr p'" "length_prefix (length (utf8_encode m')) = Inr q'"
    and a2: "aad = utf8_encode ''trpc-service:wecom-media-locator:v1'' @ p' @ utf8_encode b' @ q' @ utf8_encode m'"
    by (auto simp: locator_aad_def Let_def split: sum.splits)
  have l: "length p = 4" "length p' = 4" "length q = 4" "length q' = 4" using 1 2 length_prefix_value by blast+
  from a1 a2 have e: "p @ utf8_encode b @ q @ utf8_encode m = p' @ utf8_encode b' @ q' @ utf8_encode m'" by simp
  then have pp: "p = p'" and e: "utf8_encode b @ q @ utf8_encode m = utf8_encode b' @ q' @ utf8_encode m'" using l by simp_all
  have "length (utf8_encode b) = length (utf8_encode b')" using 1(1) 2(1) length_prefix_value pp by metis
  with e l have "utf8_encode b = utf8_encode b'" "utf8_encode m = utf8_encode m'" by simp_all
  then show ?thesis by (simp add: utf8_inj)
qed

subsection \<open>Opening what was sealed\<close>

lemma locator_values_payload:
  assumes "\<not> blank_text (code_points url)" and "\<not> blank_text (code_points aes_key)"
  shows "locator_values (locator_payload url aes_key) = Some (code_points url, code_points aes_key)"
proof -
  have "Option.bind (utf8_decode (locator_payload url aes_key)) json_loads
      = Some (LObj [(code_points ''provider_url'', LStr (code_points url)), (code_points ''encryption_key_ref'', LStr (code_points aes_key))])"
    unfolding locator_payload_def utf8_roundtrip by (simp only: bind.bind_lunit) (rule raw_pair_roundtrip, simp)
  then show ?thesis using assms unfolding locator_values_def by (simp add: payload_get_def insert_commute del: code_points_simps(2))
qed

lemma seal_locator_result:
  assumes "seal_locator encrypt key nonce reference b m = Inr sealed"
  obtains url aes_key aad where "context_valid b m" and "locator_aad b m = Inr aad"
    and "mr_provider_url reference = Some url" and "mr_encryption_key_ref reference = Some aes_key"
    and "\<not> blank_text (code_points url)" and "\<not> blank_text (code_points aes_key)"
    and "mr_provider_media_id sealed = Some (''v1.'' @ base64_encode (nonce @ encrypt key nonce (locator_payload url aes_key) aad))"
    and "mr_provider_url sealed = None" and "mr_encryption_key_ref sealed = None"
  using assms by (auto simp: seal_locator_def split: if_splits option.splits sum.splits)

text \<open>What opening a sealed locator in a context comes to.\<close>

lemma open_sealed:
  assumes "length nonce = 12" and "17 \<le> length ciphertext" and "context_valid b m" and "locator_aad b m = Inr aad"
    and "mr_provider_media_id sealed = Some (''v1.'' @ base64_encode (nonce @ ciphertext))"
    and "mr_provider_url sealed = None" and "mr_encryption_key_ref sealed = None"
  shows "open_locator decrypt key sealed b m =
    (case Option.bind (decrypt key nonce ciphertext aad) locator_values of
       None \<Rightarrow> Inl locator_error | Some (url, aes_key) \<Rightarrow> Inr (sealed, url, aes_key))"
proof -
  have "set (base64_encode (nonce @ ciphertext)) \<subseteq> set base64_alphabet" by (rule base64_chars)
  moreover have "base64_encode (nonce @ ciphertext) \<noteq> []" using assms(1) by auto
  ultimately show ?thesis using assms by (auto simp: open_locator_def base64_roundtrip)
qed

end
