(* ===== verification/Queue_Props.thy ===== *)
theory Queue_Props
  imports Emergency_Queue Session_Id Media_Locator
begin

text \<open>
  What the emergency buffer, the session identifiers and the media locators promise, each with concrete values it applies to. The
  ciphers of the examples are toys: they only show that what is assumed of AES-GCM can be met.
\<close>

subsection \<open>The emergency buffer\<close>

definition qp_context :: tenant_context where
  "qp_context = \<lparr>tc_tenant_id = ''t'', tc_app_id = ''a'', tc_config_version = 1, tc_channel_binding_id = ''b'',
     tc_principal_id = ''p'', tc_session_id = ''s'', tc_request_id = ''r'', tc_trace_id = ''tr''\<rparr>"

definition qp_prepared :: prepared_inbound where
  "qp_prepared = \<lparr>pi_context = qp_context,
     pi_envelope = \<lparr>ie_channel = FEISHU, ie_account_id = ''acc'', ie_external_message_id = ''x1'', ie_external_user_id = ''u'',
       ie_conversation_kind = DIRECT, ie_external_conversation_id = None, ie_payload_kind = TEXT, ie_text = Some ''hi'',
       ie_media = [], ie_event_type = None, ie_occurred_at = 0, ie_provider_metadata = []\<rparr>,
     pi_trace_headers = []\<rparr>"

text \<open>A cipher that puts the key in front, and a stream that is a list of entries.\<close>

definition qp_encrypt :: gcm_encrypt where
  "qp_encrypt key nonce text aad = key @ text"

definition qp_decrypt :: gcm_decrypt where
  "qp_decrypt key nonce data aad = (if take (length key) data = key then Inr (drop (length key) data) else Inl InvalidTag)"

definition qp_dump :: "prepared_inbound \<Rightarrow> string" where
  "qp_dump prepared = ''x''"

definition qp_validate :: "bytes \<Rightarrow> prepared_inbound option" where
  "qp_validate text = (if text = utf8_encode ''x'' then Some qp_prepared else None)"

definition qp_old_key :: bytes where "qp_old_key = replicate 32 1"

definition qp_new_key :: bytes where "qp_new_key = replicate 32 2"

definition qp_queue :: "string \<Rightarrow> bytes \<Rightarrow> (string \<times> bytes) list \<Rightarrow> emergency_queue" where
  "qp_queue version key keys = \<lparr>eq_key = key, eq_stream = ''trpc:emergency:v2'', eq_group = ''trpc-emergency-drainers-v2'',
     eq_key_version = version, eq_keys = keys, eq_reclaim_cursor = ''0-0''\<rparr>"

lemma qp_queues:
  "init_emergency_queue qp_old_key V2 None None ''1'' [] = Inr (qp_queue ''1'' qp_old_key [(''1'', qp_old_key)])"
  "init_emergency_queue qp_new_key V2 None None ''2'' [(''1'', qp_old_key)] = Inr (qp_queue ''2'' qp_new_key [(''2'', qp_new_key), (''1'', qp_old_key)])"
  by (simp_all add: init_emergency_queue_def qp_queue_def qp_old_key_def qp_new_key_def str_or_def scheduler_version_value_def)

lemma add_previous_keys_map:
  "add_previous_keys ps keys = Inr ks \<Longrightarrow> map_of ks = map_of keys ++ map_of (rev ps)"
proof (induction ps keys rule: add_previous_keys.induct)
  case (2 version previous rest keys)
  then show ?case by (auto simp: fun_eq_iff map_add_def split: if_splits option.splits)
qed simp

lemma configured_key:
  assumes "init_emergency_queue key v stream group_name key_version previous_keys = Inr reader"
    and "distinct (map fst previous_keys)" and "(version, old) \<in> set previous_keys"
  shows "old \<in> snd ` set (eq_keys reader)"
proof -
  have "add_previous_keys previous_keys [(key_version, key)] = Inr (eq_keys reader)"
    using assms(1) by (auto simp: init_emergency_queue_def split: if_splits sum.splits)
  moreover have "map_of (rev previous_keys) version = Some old"
    by (rule map_of_is_SomeI) (use assms(2,3) in \<open>simp_all add: rev_map [symmetric]\<close>)
  ultimately have "map_of (eq_keys reader) version = Some old" by (simp add: add_previous_keys_map map_add_Some_iff)
  then show ?thesis by (force dest: map_of_SomeD)
qed

text \<open>
  C28. A record that one instance wrote is read back by every later instance that has its key, as the current key or as one of
  the previous keys: reading tries the keys until one fits. Assumed of AES-GCM: the right key opens the record, and the reader's
  other keys reject it; of the message's JSON form: it reads back.
\<close>

theorem emergency_record_survives_key_rotation:
  assumes "init_emergency_queue old v stream group_name version previous = Inr writer"
    and "init_emergency_queue key v' stream' group_name' version' previous' = Inr reader"
    and "distinct (map fst previous')" and "(version, old) \<in> set previous'"
    and opens: "\<And>text aad. gcm old nonce (encrypt old nonce text aad) aad = Inr text"
    and rejects: "\<And>k text aad. k \<in> snd ` set (eq_keys reader) \<Longrightarrow> k \<noteq> old \<Longrightarrow> gcm k nonce (encrypt old nonce text aad) aad = Inl InvalidTag"
    and reads: "validate_json (utf8_encode (dump_json prepared)) = Some prepared"
  shows "decode_row gcm validate_json reader (i, emergency_fields encrypt dump_json writer nonce prepared)
    = Inr \<lparr>em_message_id = i, em_prepared = prepared\<rparr>"
proof -
  have "eq_key writer = old" using assms(1) by (auto simp: init_emergency_queue_def split: if_splits sum.splits)
  then show ?thesis
    using configured_key [OF assms(2-4)] opens rejects reads by (intro decode_enqueued [OF _ _ _ _ refl refl]) simp_all
qed

theorem emergency_record_survives_key_rotation_witness:
  "init_emergency_queue qp_old_key V2 None None ''1'' [] = Inr (qp_queue ''1'' qp_old_key [(''1'', qp_old_key)])
   \<and> init_emergency_queue qp_new_key V2 None None ''2'' [(''1'', qp_old_key)] = Inr (qp_queue ''2'' qp_new_key [(''2'', qp_new_key), (''1'', qp_old_key)])
   \<and> decode_row qp_decrypt qp_validate (qp_queue ''2'' qp_new_key [(''2'', qp_new_key), (''1'', qp_old_key)])
       (''7-0'', emergency_fields qp_encrypt qp_dump (qp_queue ''1'' qp_old_key [(''1'', qp_old_key)]) (replicate 12 5) qp_prepared)
     = Inr \<lparr>em_message_id = ''7-0'', em_prepared = qp_prepared\<rparr>"
proof -
  have differ: "take 32 qp_old_key \<noteq> qp_new_key" by (simp add: qp_old_key_def qp_new_key_def)
  have laws: "qp_decrypt qp_old_key nonce (qp_encrypt qp_old_key nonce plain aad) aad = Inr plain"
    "k \<in> {qp_new_key, qp_old_key} \<Longrightarrow> k \<noteq> qp_old_key \<Longrightarrow> qp_decrypt k nonce (qp_encrypt qp_old_key nonce plain aad) aad = Inl InvalidTag"
    for k nonce plain aad
    using differ by (auto simp: qp_decrypt_def qp_encrypt_def qp_old_key_def qp_new_key_def)
  show ?thesis
    by (intro conjI qp_queues emergency_record_survives_key_rotation [OF qp_queues, of _ "replicate 12 5"])
      (use laws in \<open>simp_all add: qp_queue_def qp_validate_def qp_dump_def\<close>)
qed

text \<open>
  C12. A readable record leaves the emergency stream only once its message is accepted. Take any repository that, while it does not
  refuse the message, either stores it for good or raises the error of a database or of Redis that is away
  (\<open>inbound_service\<close>; the in-memory repository is one as long as the configuration that the message names exists). Over a run
  of the drainer, whether it returns or raises, is stopped in between or finds poison next to it, the entry still waits or its
  message is stored: in particular no record is lost while the database is away. Assumed of Redis: acknowledging or
  deleting an entry touches no other one, and reading returns what was written and removes nothing.
\<close>

theorem emergency_record_kept_until_accepted:
  assumes "inbound_service repository ok stored p" and "ok r"
    and "touches_one pending xack" and "touches_one pending xdel"
    and "stream_keeps pending i entry xgroup_create xautoclaim xreadgroup"
    and "decode_row gcm validate_json eq (i, entry) = Inr \<lparr>em_message_id = i, em_prepared = p\<rparr>" and "i \<in> pending q"
    and "drain_once gcm validate_json xgroup_create xautoclaim xreadgroup xack xdel version repository stop (eq, q, r) = (x, eq', q', r')"
  shows "i \<in> pending q' \<or> stored r'"
  by (rule inbound_service.drain_once_keeps [OF assms(1,3-7,2,8)])

definition qp_entry :: stream_entry where
  "qp_entry = emergency_fields qp_encrypt qp_dump (qp_queue ''1'' qp_old_key [(''1'', qp_old_key)]) (replicate 12 5) qp_prepared"

type_synonym qp_stream = "(string \<times> stream_entry) list"

definition qp_remove :: "qp_stream redis_call" where
  "qp_remove i q = return_in (filter (\<lambda>(j, e). j \<noteq> i) q) ()"

definition qp_group :: "qp_stream \<Rightarrow> (unit, qp_stream) outcome" where
  "qp_group q = raise_in q (RedisError ''BUSYGROUP'')"

definition qp_claim :: "string \<Rightarrow> qp_stream \<Rightarrow> (string \<times> (string \<times> stream_entry) list, qp_stream) outcome" where
  "qp_claim c q = return_in q (''0-0'', filter (\<lambda>(j, e). j = ''7-0'' \<and> e = qp_entry) q)"

definition qp_read :: "qp_stream \<Rightarrow> ((string \<times> stream_entry) list, qp_stream) outcome" where
  "qp_read q = return_in q []"

lemma qp_redis:
  "touches_one (\<lambda>q. fst ` set q) qp_remove"
  "stream_keeps (\<lambda>q. fst ` set q) ''7-0'' qp_entry qp_group qp_claim qp_read"
  by (force simp: touches_one_def qp_remove_def, auto simp: stream_keeps_def qp_group_def qp_claim_def qp_read_def)

lemma qp_decoded:
  "decode_row qp_decrypt qp_validate (qp_queue ''1'' qp_old_key [(''1'', qp_old_key)]) (''7-0'', qp_entry)
    = Inr \<lparr>em_message_id = ''7-0'', em_prepared = qp_prepared\<rparr>"
  unfolding qp_entry_def
  by (rule decode_enqueued [OF _ _ _ _ refl refl])
    (simp_all add: qp_queue_def qp_validate_def qp_dump_def qp_decrypt_def qp_encrypt_def)

definition qp_config :: tenant_config where
  "qp_config = \<lparr>cf_tenant_id = ''t'', cf_app_id = ''a'', cf_version = 1,
     cf_model = \<lparr>mp_provider = [], mp_model = [], mp_api_key_ref = None, mp_base_url = None, mp_timeout_seconds = 60,
       mp_temperature = None, mp_top_p = None, mp_stop_sequences = [], mp_reasoning_effort = None, mp_thinking_budget_tokens = None, mp_fallback_model = None\<rparr>,
     cf_tools = \<lparr>tp_allow = {}, tp_require_confirmation = {}, tp_classifications = []\<rparr>,
     cf_budget = \<lparr>bp_max_tokens_per_turn = 1, bp_monthly_cost_units = 5, bp_max_parallel_turns = 1\<rparr>,
     cf_audit = \<lparr>ap_retention_days = 1, ap_record_content = False\<rparr>,
     cf_media = \<lparr>me_enabled = False, me_max_items_per_turn = 1, me_max_bytes_per_item = 1, me_max_total_bytes = 1,
       me_max_pdf_pages = 1, me_max_extracted_chars = 1, me_inline_images = False\<rparr>,
     cf_storage = \<lparr>st_profile_id = [], st_session_backend = [], st_memory_backend = [], st_artifact_backend = [], st_knowledge_backend = []\<rparr>,
     cf_instructions = [], cf_policy_version = 1, cf_created_at = 0\<rparr>"

definition qp_repository :: runtime_repository where
  "qp_repository = (init_repository (\<lambda>_. []))\<lparr>rp_configs := [(''t'', ''a'', 1) \<mapsto> qp_config]\<rparr>"

lemma qp_config_there: "\<not> config_missing qp_prepared qp_repository"
  by (simp add: config_missing_def qp_prepared_def qp_context_def qp_repository_def)

text \<open>The repository whose database is away when a message is to be accepted.\<close>

definition qp_down :: "runtime_repository inbound_repository" where
  "qp_down = (memory_repository (\<lambda>_. 0))\<lparr>
     ir_accept_inbound := (\<lambda>c e headers rp. raise_in rp (PostgresError ''connection is closed'')),
     ir_accept_inbound_v2 := (\<lambda>c e headers rp. raise_in rp (PostgresError ''connection is closed''))\<rparr>"

lemma qp_down_service: "inbound_service (\<lambda>_. qp_down) (\<lambda>rp. \<not> config_missing qp_prepared rp) (registered qp_prepared) qp_prepared"
  by unfold_locales
    (auto simp: qp_down_def memory_repository_def get_config_def config_missing_def unavailable_def split: option.splits)

definition qp_run :: "runtime_repository inbound_repository \<Rightarrow> (nat, emergency_queue \<times> qp_stream \<times> runtime_repository) outcome" where
  "qp_run repository = drain_once qp_decrypt qp_validate qp_group qp_claim qp_read qp_remove qp_remove V1 (\<lambda>_. repository) (\<lambda>_. False)
     (qp_queue ''1'' qp_old_key [(''1'', qp_old_key)], [(''7-0'', qp_entry)], qp_repository)"

text \<open>With the database there the entry is gone, with the database away the run raises and nothing is stored.\<close>

lemma qp_run_state:
  "fst (snd (snd (qp_run (memory_repository (\<lambda>_. 0))))) = []"
  "fst (qp_run qp_down) = Inl (PostgresError ''connection is closed'')" "snd (snd (snd (qp_run qp_down))) = qp_repository"
  using qp_decoded qp_config_there
  by (simp_all add: qp_run_def drain_once_def consume_def ensure_group_def contains_def starts_with_def qp_group_def qp_claim_def qp_read_def Let_def decode_row_cursor
      replay_prepared_def memory_repository_def qp_down_def replay_error_def get_config_def qp_remove_def ack_message_def exact_delete_def config_missing_def
      split: option.splits prod.splits)

lemma qp_not_stored: "\<not> registered qp_prepared qp_repository"
  by (simp add: registered_def qp_repository_def init_repository_def)

theorem emergency_record_kept_until_accepted_witness:
  "fst (snd (snd (qp_run (memory_repository (\<lambda>_. 0))))) = [] \<and> registered qp_prepared (snd (snd (snd (qp_run (memory_repository (\<lambda>_. 0))))))
   \<and> fst (qp_run qp_down) = Inl (PostgresError ''connection is closed'') \<and> ''7-0'' \<in> fst ` set (fst (snd (snd (qp_run qp_down))))"
proof -
  obtain x eq' q' r' where run: "qp_run (memory_repository (\<lambda>_. 0)) = (x, eq', q', r')" by (metis surj_pair)
  obtain y eq1 q1 r1 where down: "qp_run qp_down = (y, eq1, q1, r1)" by (metis surj_pair)
  have there: "''7-0'' \<in> fst ` set [(''7-0'', qp_entry)]" by simp
  note t = emergency_record_kept_until_accepted [where ok = "\<lambda>rp. \<not> config_missing qp_prepared rp" and stored = "registered qp_prepared"
      and pending = "\<lambda>q. fst ` set q", OF _ qp_config_there qp_redis(1) qp_redis(1) qp_redis(2) qp_decoded there]
  from t [OF memory_inbound.inbound_service_axioms run [unfolded qp_run_def]]
    t [OF qp_down_service down [unfolded qp_run_def]]
  show ?thesis using qp_run_state qp_not_stored unfolding run down by simp
qed

subsection \<open>Session identifiers\<close>

text \<open>
  C25. Two conversations share a session identifier only if they are the same one: same tenant, same binding, same kind, and same
  group or, for a direct conversation, same user; unless HMAC-SHA256 collides on the two named texts, which are then different.
\<close>

theorem session_ids_separate_scopes:
  assumes "make_session_id key t b k u c = Inr s" and "make_session_id key t' b' k' u' c' = Inr s"
    and "conversation_subject k u c = Inr subject" and "conversation_subject k' u' c' = Inr subject'"
    and "message = utf8_encode (mac_text ''session'' [t, b, conversation_kind_value k, subject])"
    and "message' = utf8_encode (mac_text ''session'' [t', b', conversation_kind_value k', subject'])"
  shows "t = t' \<and> b = b' \<and> k = k' \<and> subject = subject'
    \<or> message \<noteq> message' \<and> hmac_sha256 key message = hmac_sha256 key message'"
proof (rule disjCI)
  assume no_collision: "\<not> (message \<noteq> message' \<and> hmac_sha256 key message = hmac_sha256 key message')"
  have "base64_encode (mac key ''session'' [t, b, conversation_kind_value k, subject])
      = base64_encode (mac key ''session'' [t', b', conversation_kind_value k', subject'])"
    using assms(1-4) by (auto simp: make_session_id_result)
  then have "hmac_sha256 key message = hmac_sha256 key message'" by (simp add: base64_encode_inj mac_def assms(5,6))
  with no_collision have "message = message'" by blast
  then show "t = t' \<and> b = b' \<and> k = k' \<and> subject = subject'"
    by (auto simp: assms(5,6) utf8_inj conversation_kind_value_inj dest: mac_text_inj)
qed

theorem session_ids_separate_scopes_witness:
  "\<exists>s. make_session_id [1] ''t'' ''b'' GROUP ''u1'' (Some ''room'') = Inr s \<and> make_session_id [1] ''t'' ''b'' GROUP ''u2'' (Some ''room'') = Inr s
   \<and> (''t'' = ''t'' \<and> ''b'' = ''b'' \<and> GROUP = GROUP \<and> ''room'' = ''room''
      \<or> utf8_encode (mac_text ''session'' [''t'', ''b'', conversation_kind_value GROUP, ''room''])
          \<noteq> utf8_encode (mac_text ''session'' [''t'', ''b'', conversation_kind_value GROUP, ''room'']))"
proof -
  let ?s = "''s1_'' @ base64_encode (mac [1] ''session'' [''t'', ''b'', conversation_kind_value GROUP, ''room''])"
  have c: "conversation_subject GROUP u (Some ''room'') = Inr ''room''" for u by (simp add: conversation_subject_def)
  then have s: "make_session_id [1] ''t'' ''b'' GROUP u (Some ''room'') = Inr ?s" for u by (simp add: make_session_id_def)
  from session_ids_separate_scopes [OF s [of "''u1''"] s [of "''u2''"] c c refl refl] s [of "''u1''"] s [of "''u2''"] show ?thesis by blast
qed

subsection \<open>Media locators\<close>

text \<open>
  C26. A sealed media locator no longer shows the provider's address or key, opens to exactly the two texts that were sealed in
  the context it was sealed for, and to nothing in any other context. Assumed of AES-GCM: decryption undoes encryption, the
  ciphertext is sixteen bytes longer, and this ciphertext is rejected with the associated data of the other context if that data
  differs; that it differs for any other binding or message is proved.
\<close>

theorem locator_opens_only_in_its_context:
  assumes seal: "seal_locator encrypt key nonce reference b m = Inr sealed" and "length nonce = 12"
    and url: "mr_provider_url reference = Some url" and aes: "mr_encryption_key_ref reference = Some aes_key"
    and opens: "\<And>data aad. decrypt key nonce (encrypt key nonce data aad) aad = Some data"
    and grows: "\<And>data aad. length (encrypt key nonce data aad) = length data + 16"
    and rejects: "\<And>aad aad'. locator_aad b m = Inr aad \<Longrightarrow> locator_aad b' m' = Inr aad' \<Longrightarrow> aad \<noteq> aad'
      \<Longrightarrow> decrypt key nonce (encrypt key nonce (locator_payload url aes_key) aad) aad' = None"
  shows "mr_provider_url sealed = None \<and> mr_encryption_key_ref sealed = None
    \<and> open_locator decrypt key sealed b m = Inr (sealed, code_points url, code_points aes_key)
    \<and> ((b', m') \<noteq> (b, m) \<longrightarrow> open_locator decrypt key sealed b' m' = Inl locator_error)"
  using seal
proof (cases rule: seal_locator_result)
  case (1 url0 aes0 aad)
  let ?c = "encrypt key nonce (locator_payload url aes_key) aad"
  have same: "url0 = url" "aes0 = aes_key" using 1 url aes by simp_all
  note token = 1(7) [unfolded same]
  have "json_loads [] = None" by code_simp
  then have "locator_payload url aes_key \<noteq> []"
    using locator_values_payload [of url aes_key] 1(5,6) same by (auto simp: locator_values_def)
  then have long: "17 \<le> length ?c" using grows [of "locator_payload url aes_key" aad] by (cases "locator_payload url aes_key") simp_all
  have own: "open_locator decrypt key sealed b m = Inr (sealed, code_points url, code_points aes_key)"
    using open_sealed [OF assms(2) long 1(1,2) token 1(8,9), of decrypt key] 1(5,6) same by (simp add: opens locator_values_payload)
  have "open_locator decrypt key sealed b' m' = Inl locator_error" if "(b', m') \<noteq> (b, m)"
  proof (cases "context_valid b' m' \<and> (\<exists>aad'. locator_aad b' m' = Inr aad')")
    case True
    then obtain aad' where aad': "context_valid b' m'" "locator_aad b' m' = Inr aad'" by blast
    then have "aad \<noteq> aad'" using locator_aad_inj [OF 1(2), of b' m'] that by auto
    with rejects [OF 1(2) aad'(2)] show ?thesis
      using open_sealed [OF assms(2) long aad' token 1(8,9), of decrypt key] by simp
  next
    case False
    then show ?thesis by (cases "locator_aad b' m'") (auto simp: open_locator_def Let_def split: option.splits)
  qed
  then show ?thesis using 1(8,9) own by blast
qed

text \<open>A toy with the required laws: the ciphertext is the data after a tag made of the last byte of the associated data.\<close>

definition qp_tag :: "bytes \<Rightarrow> bytes" where
  "qp_tag aad = replicate 16 (last aad)"

definition qp_seal :: aead_encrypt where
  "qp_seal key nonce data aad = qp_tag aad @ data"

definition qp_open :: aead_decrypt where
  "qp_open key nonce data aad = (if take 16 data = qp_tag aad then Some (drop 16 data) else None)"

definition qp_reference :: media_reference where
  "qp_reference = \<lparr>mr_provider_url = Some ''u'', mr_provider_media_id = None, mr_encryption_key_ref = Some ''k'', mr_filename = None, mr_content_type = None\<rparr>"

definition qp_sealed :: media_reference where
  "qp_sealed = projr (seal_locator qp_seal [] (replicate 12 5) qp_reference ''b'' ''m'')"

lemma qp_aads: "\<exists>aad aad'. locator_aad ''b'' ''m'' = Inr aad \<and> locator_aad ''b'' ''n'' = Inr aad' \<and> qp_tag aad \<noteq> qp_tag aad'"
proof -
  have "utf8_encode ''b'' = [98]" "utf8_encode ''m'' = [109]" "utf8_encode ''n'' = [110]" by code_simp+
  moreover have "\<exists>p. length_prefix (Suc 0) = Inr p" by (simp add: length_prefix_def)
  ultimately show ?thesis by (auto simp: locator_aad_def qp_tag_def)
qed

lemma qp_sealed_result: "seal_locator qp_seal [] (replicate 12 5) qp_reference ''b'' ''m'' = Inr qp_sealed"
proof -
  have "\<not> blank_text (code_points ''u'')" "\<not> blank_text (code_points ''k'')" by (simp_all add: blank_text_def space_point_def)
  then show ?thesis using qp_aads by (auto simp: qp_sealed_def seal_locator_def context_valid_def qp_reference_def)
qed

theorem locator_opens_only_in_its_context_witness:
  "seal_locator qp_seal [] (replicate 12 5) qp_reference ''b'' ''m'' = Inr qp_sealed \<and> mr_provider_url qp_sealed = None
   \<and> open_locator qp_open [] qp_sealed ''b'' ''m'' = Inr (qp_sealed, code_points ''u'', code_points ''k'')
   \<and> open_locator qp_open [] qp_sealed ''b'' ''n'' = Inl locator_error"
proof -
  have tags: "length (qp_tag aad) = 16" for aad by (simp add: qp_tag_def)
  have other: "locator_aad ''b'' ''m'' = Inr aad \<Longrightarrow> locator_aad ''b'' ''n'' = Inr aad' \<Longrightarrow> qp_tag aad \<noteq> qp_tag aad'" for aad aad'
    using qp_aads by auto
  have "length (replicate 12 5 :: bytes) = 12" by simp
  from locator_opens_only_in_its_context [OF qp_sealed_result this, of "''u''" "''k''" qp_open "''b''" "''n''"]
  show ?thesis using qp_sealed_result tags other by (simp add: qp_reference_def qp_open_def qp_seal_def)
qed

end
