(* ===== verification/Control_Plane.thy ===== *)
theory Control_Plane
  imports Pg_Mailbox Tool_Confirmation Uuid Py_Rational
begin

text \<open>
  The tenant control plane of \<^verbatim>\<open>src/trpc_service/tenant/control.py\<close> on the tables of
  \<^verbatim>\<open>migrations/versions/0001_production_runtime.py\<close> and \<^verbatim>\<open>0010_consistency_guards.py\<close>: creating tenants, putting bindings,
  creating and activating configuration revisions, replaying outbound messages and paging through the audit log. Every
  operation is one transaction; \<open>now\<close> is the transaction's \<^verbatim>\<open>now()\<close>, \<open>wall\<close> the clock of the service. A violated constraint is
  a \<^verbatim>\<open>PostgresError\<close>. The evidence queries of the acceptance tests are not modelled.
\<close>

subsection \<open>Tables\<close>

text \<open>A reply is a dict of texts, integers, truth values and floats. It is stored as JSON and read back as the same dict.\<close>

datatype reply_value = RText string | RInt int | RFloat rat | RBool bool

type_synonym reply = "(string \<times> reply_value) list"

record tenant_row =
  tn_display_name :: string
  tn_status :: string
  tn_control_version :: nat
  tn_created_at :: time
  tn_updated_at :: time

record app_row =
  ap_display_name :: string
  ap_active_config_version :: nat
  ap_candidate_config_version :: "nat option"
  ap_candidate_percent :: rat
  ap_control_version :: nat
  ap_updated_at :: time

record config_revision =
  cr_config_json :: string
  cr_checksum :: string
  cr_created_by :: string

record binding_row =
  bd_binding :: channel_binding
  bd_control_version :: nat
  bd_updated_at :: time

record idempotency_row =
  id_operation :: string
  id_request_hash :: string
  id_response_status :: nat
  id_response :: reply
  id_expires_at :: time

record audit_log_row =
  au_tenant_id :: string
  au_audit_id :: string
  au_occurred_at :: time
  au_user_id :: string
  au_decision :: string
  au_trace_id :: string
  au_idempotency_key :: string

record outbound_row =
  ou_channel :: string
  ou_payload :: json
  ou_trace_headers :: "(string \<times> string) list"
  ou_status :: string
  ou_manual_replay_approved :: bool
  ou_updated_at :: time

record outbox_events_row =
  oo_tenant_id :: string
  oo_aggregate_id :: string
  oo_event_type :: string
  oo_payload :: json
  oo_trace_headers :: "(string \<times> string) list"
  oo_published :: bool

record dead_letter_row =
  dl_tenant_id :: string
  dl_source_id :: string
  dl_status :: string
  dl_resolved_at :: "time option"

record control_db =
  cp_tenants :: "string \<rightharpoonup> tenant_row"
  cp_apps :: "string \<times> string \<rightharpoonup> app_row"
  cp_revisions :: "string \<times> string \<Rightarrow> (nat \<times> config_revision) list"
  cp_bindings :: "((string \<times> string) \<times> binding_row) list"
  cp_idempotency :: "string \<times> string \<rightharpoonup> idempotency_row"
  cp_audit :: "audit_log_row list"
  cp_outbound :: "string \<times> string \<rightharpoonup> outbound_row"
  cp_outbox :: "outbox_events_row list"
  cp_dead_letters :: "dead_letter_row list"

subsection \<open>Helpers\<close>

text \<open>\<^verbatim>\<open>_cached\<close>; its callers test the truth of the dict, which is false for an empty one.\<close>

definition cached_reply :: "time \<Rightarrow> string \<Rightarrow> string \<Rightarrow> string \<Rightarrow> control_db \<Rightarrow> error + reply option" where
  "cached_reply now tenant_id key request_hash db =
     (case cp_idempotency db (tenant_id, key) of
        None \<Rightarrow> Inr None
      | Some row \<Rightarrow>
          if \<not> now < id_expires_at row then Inr None
          else if id_request_hash row \<noteq> request_hash
          then Inl (IdempotencyConflict ''idempotency key was used for another request'')
          else Inr (Some (id_response row)))"

definition store_idempotency ::
    "time \<Rightarrow> string \<Rightarrow> string \<Rightarrow> string \<Rightarrow> string \<Rightarrow> reply \<Rightarrow> nat \<Rightarrow> control_db \<Rightarrow> error + control_db"
where
  "store_idempotency wall tenant_id key operation request_hash response status db =
     (if cp_idempotency db (tenant_id, key) \<noteq> None
      then Inl (PostgresError ''duplicate key value violates unique constraint admin_idempotency_pkey'')
      else Inr (db\<lparr>cp_idempotency := (cp_idempotency db)((tenant_id, key) \<mapsto>
        \<lparr>id_operation = operation, id_request_hash = request_hash, id_response_status = status,
         id_response = response, id_expires_at = wall + seconds 86400\<rparr>)\<rparr>))"

definition lock_version :: "string \<Rightarrow> nat \<Rightarrow> control_db \<Rightarrow> error + nat" where
  "lock_version tenant_id expected db =
     (case cp_tenants db tenant_id of
        None \<Rightarrow> Inl (LookupError ''tenant does not exist'')
      | Some t \<Rightarrow>
          if tn_control_version t \<noteq> expected then Inl (ControlVersionConflict ''tenant control version changed'')
          else Inr (tn_control_version t))"

text \<open>\<^verbatim>\<open>int(None)\<close>, when no row has the version, is a \<^verbatim>\<open>TypeError\<close>; the row is locked, so it has.\<close>

definition bump_version :: "time \<Rightarrow> string \<Rightarrow> nat \<Rightarrow> control_db \<Rightarrow> error + (nat \<times> control_db)" where
  "bump_version now tenant_id current db =
     (case cp_tenants db tenant_id of
        None \<Rightarrow> Inl (TypeError ''int() argument must be a string, a bytes-like object or a real number'')
      | Some t \<Rightarrow>
          if tn_control_version t \<noteq> current
          then Inl (TypeError ''int() argument must be a string, a bytes-like object or a real number'')
          else Inr (current + 1, db\<lparr>cp_tenants := (cp_tenants db)(tenant_id \<mapsto>
                 t\<lparr>tn_control_version := current + 1, tn_updated_at := now\<rparr>)\<rparr>))"

definition write_audit :: "time \<Rightarrow> string \<Rightarrow> string \<Rightarrow> string \<Rightarrow> string \<Rightarrow> string \<Rightarrow> control_db \<Rightarrow> control_db" where
  "write_audit now audit_id tenant_id actor decision key db =
     db\<lparr>cp_audit := cp_audit db @ [\<lparr>au_tenant_id = tenant_id, au_audit_id = audit_id, au_occurred_at = now, au_user_id = actor,
          au_decision = decision, au_trace_id = ''admin:'' @ key, au_idempotency_key = key\<rparr>]\<rparr>"

text \<open>What every write does at the end: remember the reply, write the audit record. \<open>audit_id\<close> is drawn by the database.\<close>

definition finish_request ::
    "time \<Rightarrow> time \<Rightarrow> string \<Rightarrow> string \<Rightarrow> string \<Rightarrow> string \<Rightarrow> string \<Rightarrow> string \<Rightarrow> string \<Rightarrow> reply \<Rightarrow> nat \<Rightarrow> control_db
       \<Rightarrow> error + (reply \<times> control_db)"
where
  "finish_request now wall audit_id tenant_id actor key operation decision request_hash response status db =
     (case store_idempotency wall tenant_id key operation request_hash response status db of
        Inl e \<Rightarrow> Inl e
      | Inr db1 \<Rightarrow> Inr (response, write_audit now audit_id tenant_id actor decision key db1))"

text \<open>The frame of a write: a remembered reply ends the request.\<close>

definition replayed :: "time \<Rightarrow> string \<Rightarrow> string \<Rightarrow> string \<Rightarrow> (control_db \<Rightarrow> error + (reply \<times> control_db)) \<Rightarrow> control_db \<Rightarrow> (reply, control_db) outcome" where
  "replayed now tenant_id key request_hash body db =
     transaction db
       (case cached_reply now tenant_id key request_hash db of
          Inl e \<Rightarrow> Inl e
        | Inr (Some (r # rs)) \<Rightarrow> Inr (r # rs, db)
        | Inr _ \<Rightarrow> body db)"

text \<open>The three request parameters every write has, with the clocks and the audit id.\<close>

record request =
  rq_now :: time
  rq_wall :: time
  rq_audit_id :: string
  rq_actor :: string
  rq_key :: string
  rq_hash :: string

subsection \<open>Tenants and bindings\<close>

definition create_tenant :: "request \<Rightarrow> string \<Rightarrow> string \<Rightarrow> control_db \<Rightarrow> (reply, control_db) outcome" where
  "create_tenant rq tenant_id display_name =
     replayed (rq_now rq) tenant_id (rq_key rq) (rq_hash rq) (\<lambda>db.
       if cp_tenants db tenant_id \<noteq> None then Inl (ControlVersionConflict ''tenant already exists'')
       else finish_request (rq_now rq) (rq_wall rq) (rq_audit_id rq) tenant_id (rq_actor rq) (rq_key rq) ''create_tenant'' ''tenant_created'' (rq_hash rq)
              [(''tenant_id'', RText tenant_id), (''display_name'', RText display_name), (''status'', RText ''active''),
               (''control_version'', RInt 1), (''created_at'', RText (iso_text CHR ''T'' (rq_now rq)))] 201
              (db\<lparr>cp_tenants := (cp_tenants db)(tenant_id \<mapsto>
                 \<lparr>tn_display_name = display_name, tn_status = ''active'', tn_control_version = 1,
                  tn_created_at = rq_now rq, tn_updated_at = rq_now rq\<rparr>)\<rparr>))"

definition get_tenant :: "string \<Rightarrow> control_db \<Rightarrow> reply option" where
  "get_tenant tenant_id db =
     map_option (\<lambda>t. [(''tenant_id'', RText tenant_id), (''display_name'', RText (tn_display_name t)), (''status'', RText (tn_status t)),
        (''control_version'', RInt (int (tn_control_version t))), (''created_at'', RText (iso_text CHR ''T'' (tn_created_at t))),
        (''updated_at'', RText (iso_text CHR ''T'' (tn_updated_at t)))])
       (cp_tenants db tenant_id)"

text \<open>The upsert of a binding, with the foreign key on the application and the two unique constraints.\<close>

definition upsert_binding :: "time \<Rightarrow> channel_binding \<Rightarrow> control_db \<Rightarrow> error + (binding_row \<times> control_db)" where
  "upsert_binding now b db =
     (let k = (cb_tenant_id b, cb_binding_id b);
          others = filter (\<lambda>(k', _). k' \<noteq> k) (cp_bindings db)
      in if list_ex (\<lambda>((t, i), row). i = cb_binding_id b) others
         then Inl (PostgresError ''duplicate key value violates unique constraint channel_bindings_binding_id_key'')
         else if list_ex (\<lambda>((t, i), row). t = cb_tenant_id b \<and> cb_channel (bd_binding row) = cb_channel b
                 \<and> cb_account_id (bd_binding row) = cb_account_id b) others
         then Inl (PostgresError ''duplicate key value violates unique constraint channel_bindings_tenant_id_channel_account_id_key'')
         else if cp_apps db (cb_tenant_id b, cb_app_id b) = None
         then Inl (PostgresError ''insert or update on table channel_bindings violates foreign key constraint'')
         else (let row = \<lparr>bd_binding = b, bd_control_version = (case map_of (cp_bindings db) k of None \<Rightarrow> 1 | Some r \<Rightarrow> bd_control_version r + 1),
                          bd_updated_at = now\<rparr>
               in Inr (row, db\<lparr>cp_bindings := AList.update k row (cp_bindings db)\<rparr>)))"

text \<open>What the request does when no reply is remembered, and the request.\<close>

definition put_binding_body :: "request \<Rightarrow> string \<Rightarrow> string \<Rightarrow> channel_binding \<Rightarrow> nat \<Rightarrow> control_db \<Rightarrow> error + (reply \<times> control_db)" where
  "put_binding_body rq tenant_id binding_id b expected_version db =
     (case lock_version tenant_id expected_version db of
        Inl e \<Rightarrow> Inl e
      | Inr current \<Rightarrow>
          (case upsert_binding (rq_now rq) b db of
             Inl e \<Rightarrow> Inl e
           | Inr (row, db1) \<Rightarrow>
               (case bump_version (rq_now rq) tenant_id current db1 of
                  Inl e \<Rightarrow> Inl e
                | Inr (new_version, db2) \<Rightarrow>
                    finish_request (rq_now rq) (rq_wall rq) (rq_audit_id rq) tenant_id (rq_actor rq) (rq_key rq) ''put_binding'' ''binding_updated'' (rq_hash rq)
                      [(''binding_id'', RText binding_id), (''app_id'', RText (cb_app_id b)), (''channel'', RText (channel_value (cb_channel b))),
                       (''account_id'', RText (cb_account_id b)), (''enabled'', RBool (cb_enabled b)),
                       (''control_version'', RInt (int (bd_control_version row))), (''tenant_control_version'', RInt (int new_version))] 200 db2)))"

definition put_binding :: "request \<Rightarrow> string \<Rightarrow> string \<Rightarrow> channel_binding \<Rightarrow> nat \<Rightarrow> control_db \<Rightarrow> (reply, control_db) outcome" where
  "put_binding rq tenant_id binding_id b expected_version db =
     (if cb_tenant_id b \<noteq> tenant_id \<or> cb_binding_id b \<noteq> binding_id
      then raise_in db (ValueError ''binding identity does not match the request path'')
      else replayed (rq_now rq) tenant_id (rq_key rq) (rq_hash rq) (put_binding_body rq tenant_id binding_id b expected_version) db)"

subsection \<open>Configuration revisions\<close>

definition next_revision :: "(nat \<times> config_revision) list \<Rightarrow> nat" where
  "next_revision revisions = foldr (\<lambda>(v, _) m. max v m) revisions 0 + 1"

text \<open>\<open>validate\<close> stands for \<^verbatim>\<open>TenantConfig.model_validate\<close> and \<^verbatim>\<open>model_dump_json\<close> (pydantic): the canonical text of a valid
  payload. An application that does not exist yet is inserted with version 1 active.\<close>

definition create_config_body ::
    "(json \<Rightarrow> string option) \<Rightarrow> request \<Rightarrow> string \<Rightarrow> string \<Rightarrow> json \<Rightarrow> nat \<Rightarrow> control_db \<Rightarrow> error + (reply \<times> control_db)"
where
  "create_config_body validate rq tenant_id app_id config expected_version db =
      (case lock_version tenant_id expected_version db of
         Inl e \<Rightarrow> Inl e
       | Inr current \<Rightarrow>
           (let k = (tenant_id, app_id);
                app = (case cp_apps db k of
                         Some a \<Rightarrow> a
                       | None \<Rightarrow> \<lparr>ap_display_name = app_id, ap_active_config_version = 1, ap_candidate_config_version = None,
                                  ap_candidate_percent = 0, ap_control_version = 1, ap_updated_at = rq_now rq\<rparr>);
                version = next_revision (cp_revisions db k);
                payload = AList.update ''version'' (JInt (int version)) (AList.update ''app_id'' (JStr app_id)
                            (AList.update ''tenant_id'' (JStr tenant_id) config))
            in case validate payload of
                 None \<Rightarrow> Inl (ValueError ''validation error for TenantConfig'')
               | Some canonical \<Rightarrow>
                   (let checksum = hexdigest (sha256 (utf8_encode canonical));
                        revision = \<lparr>cr_config_json = canonical, cr_checksum = checksum, cr_created_by = rq_actor rq\<rparr>;
                        db1 = db\<lparr>cp_apps := (cp_apps db)(k \<mapsto> app\<lparr>ap_control_version := ap_control_version app + 1, ap_updated_at := rq_now rq\<rparr>),
                                 cp_revisions := (cp_revisions db)(k := cp_revisions db k @ [(version, revision)])\<rparr>
                    in case bump_version (rq_now rq) tenant_id current db1 of
                         Inl e \<Rightarrow> Inl e
                       | Inr (new_version, db2) \<Rightarrow>
                           finish_request (rq_now rq) (rq_wall rq) (rq_audit_id rq) tenant_id (rq_actor rq) (rq_key rq) ''create_config_revision'' ''config_created'' (rq_hash rq)
                             [(''tenant_id'', RText tenant_id), (''app_id'', RText app_id), (''version'', RInt (int version)),
                              (''checksum'', RText checksum), (''tenant_control_version'', RInt (int new_version))] 201 db2)))"

definition create_config_revision ::
    "(json \<Rightarrow> string option) \<Rightarrow> request \<Rightarrow> string \<Rightarrow> string \<Rightarrow> json \<Rightarrow> nat \<Rightarrow> control_db \<Rightarrow> (reply, control_db) outcome"
where
  "create_config_revision validate rq tenant_id app_id config expected_version =
     replayed (rq_now rq) tenant_id (rq_key rq) (rq_hash rq) (create_config_body validate rq tenant_id app_id config expected_version)"

text \<open>A column of type \<^verbatim>\<open>numeric(5,2)\<close> rounds to hundredths, half away from zero.\<close>

definition numeric_5_2 :: "rat \<Rightarrow> rat" where
  "numeric_5_2 x = of_int \<lfloor>x * 100 + 1 / 2\<rfloor> / 100"

definition rollout_app :: "time \<Rightarrow> nat \<Rightarrow> rat \<Rightarrow> app_row \<Rightarrow> app_row" where
  "rollout_app now version percentage app =
     (if percentage = 100
      then app\<lparr>ap_active_config_version := version, ap_candidate_config_version := None, ap_candidate_percent := 0,
               ap_control_version := ap_control_version app + 1, ap_updated_at := now\<rparr>
      else if percentage = 0
      then app\<lparr>ap_candidate_config_version := None, ap_candidate_percent := 0,
               ap_control_version := ap_control_version app + 1, ap_updated_at := now\<rparr>
      else app\<lparr>ap_candidate_config_version := Some version, ap_candidate_percent := numeric_5_2 percentage,
               ap_control_version := ap_control_version app + 1, ap_updated_at := now\<rparr>)"

text \<open>An \<^verbatim>\<open>UPDATE\<close> of an application that does not exist changes nothing.\<close>

definition activate_config_body ::
    "request \<Rightarrow> string \<Rightarrow> string \<Rightarrow> string \<Rightarrow> nat \<Rightarrow> rat \<Rightarrow> nat \<Rightarrow> control_db \<Rightarrow> error + (reply \<times> control_db)"
where
  "activate_config_body rq operation tenant_id app_id version percentage expected_version db =
     (case lock_version tenant_id expected_version db of
        Inl e \<Rightarrow> Inl e
      | Inr current \<Rightarrow>
          (let k = (tenant_id, app_id)
           in if 2 ^ 63 \<le> version then Inl (PostgresError ''value out of int64 range'')
              else if map_of (cp_revisions db k) version = None then Inl (LookupError ''configuration revision does not exist'')
              else (case bump_version (rq_now rq) tenant_id current
                           (db\<lparr>cp_apps := (cp_apps db)(k := map_option (rollout_app (rq_now rq) version percentage) (cp_apps db k))\<rparr>) of
                      Inl e \<Rightarrow> Inl e
                    | Inr (new_version, db2) \<Rightarrow>
                        finish_request (rq_now rq) (rq_wall rq) (rq_audit_id rq) tenant_id (rq_actor rq) (rq_key rq) operation operation (rq_hash rq)
                          [(''tenant_id'', RText tenant_id), (''app_id'', RText app_id), (''version'', RInt (int version)),
                           (''percentage'', RFloat percentage), (''tenant_control_version'', RInt (int new_version))] 200 db2)))"

definition activate_config ::
    "request \<Rightarrow> string \<Rightarrow> string \<Rightarrow> string \<Rightarrow> nat \<Rightarrow> rat \<Rightarrow> nat \<Rightarrow> control_db \<Rightarrow> (reply, control_db) outcome"
where
  "activate_config rq operation tenant_id app_id version percentage expected_version db =
     (if \<not> (0 \<le> percentage \<and> percentage \<le> 100)
      then raise_in db (ValueError ''rollout percentage must be between 0 and 100'')
      else replayed (rq_now rq) tenant_id (rq_key rq) (rq_hash rq)
             (activate_config_body rq operation tenant_id app_id version percentage expected_version) db)"

subsection \<open>Replaying an outbound message\<close>

text \<open>The partial unique index \<^verbatim>\<open>uq_outbox_active_outbound\<close> makes the insert do nothing while an unpublished event of the
  message is there. The identifiers in the outbox and the dead letters are the text of the request, not the parsed UUID.\<close>

definition requeue_outbound :: "string \<Rightarrow> string \<Rightarrow> outbound_row \<Rightarrow> control_db \<Rightarrow> control_db" where
  "requeue_outbound tenant_id outbound_id row db =
     (let event_type = ''outbound.'' @ ou_channel row @ ''.ready''
      in if list_ex (\<lambda>ev. oo_tenant_id ev = tenant_id \<and> oo_aggregate_id ev = outbound_id \<and> oo_event_type ev = event_type \<and> \<not> oo_published ev) (cp_outbox db)
         then db
         else db\<lparr>cp_outbox := cp_outbox db @ [\<lparr>oo_tenant_id = tenant_id, oo_aggregate_id = outbound_id, oo_event_type = event_type,
                oo_payload = ou_payload row, oo_trace_headers = ou_trace_headers row, oo_published = False\<rparr>]\<rparr>)"

definition resolve_dead_letters :: "time \<Rightarrow> string \<Rightarrow> string \<Rightarrow> control_db \<Rightarrow> control_db" where
  "resolve_dead_letters now tenant_id source_id db =
     db\<lparr>cp_dead_letters := map (\<lambda>d. if dl_tenant_id d = tenant_id \<and> dl_source_id d = source_id \<and> dl_status d = ''open''
          then d\<lparr>dl_status := ''replayed'', dl_resolved_at := Some now\<rparr> else d) (cp_dead_letters db)\<rparr>"

definition replay_outbound_body ::
    "request \<Rightarrow> string \<Rightarrow> string \<Rightarrow> bool \<Rightarrow> nat \<Rightarrow> control_db \<Rightarrow> error + (reply \<times> control_db)"
where
  "replay_outbound_body rq tenant_id outbound_id confirm_ambiguous expected_version db =
      (case lock_version tenant_id expected_version db of
         Inl e \<Rightarrow> Inl e
       | Inr current \<Rightarrow>
           (case uuid_of outbound_id of
              None \<Rightarrow> Inl (ValueError ''badly formed hexadecimal UUID string'')
            | Some u \<Rightarrow>
                (case cp_outbound db (tenant_id, u) of
                   None \<Rightarrow> Inl (LookupError ''outbound message does not exist'')
                 | Some row \<Rightarrow>
                     if ou_status row = ''ambiguous'' \<and> \<not> confirm_ambiguous
                     then Inl (ValueError ''ambiguous delivery requires explicit confirmation'')
                     else if ou_status row \<noteq> ''ambiguous'' \<and> ou_status row \<noteq> ''failed''
                     then Inl (ValueError ''only failed or explicitly confirmed ambiguous deliveries can be replayed'')
                     else
                       (let row1 = row\<lparr>ou_status := ''pending'', ou_manual_replay_approved := (ou_status row = ''ambiguous'' \<and> confirm_ambiguous),
                                       ou_updated_at := rq_now rq\<rparr>;
                            db1 = db\<lparr>cp_outbound := (cp_outbound db)((tenant_id, u) \<mapsto> row1)\<rparr>;
                            db2 = resolve_dead_letters (rq_now rq) tenant_id outbound_id (requeue_outbound tenant_id outbound_id row db1)
                        in case bump_version (rq_now rq) tenant_id current db2 of
                             Inl e \<Rightarrow> Inl e
                           | Inr (new_version, db3) \<Rightarrow>
                               finish_request (rq_now rq) (rq_wall rq) (rq_audit_id rq) tenant_id (rq_actor rq) (rq_key rq) ''replay_outbound'' ''outbound_replayed'' (rq_hash rq)
                                 [(''outbound_id'', RText outbound_id), (''status'', RText ''pending''),
                                  (''tenant_control_version'', RInt (int new_version))] 202 db3))))"

definition replay_outbound ::
    "request \<Rightarrow> string \<Rightarrow> string \<Rightarrow> bool \<Rightarrow> nat \<Rightarrow> control_db \<Rightarrow> (reply, control_db) outcome"
where
  "replay_outbound rq tenant_id outbound_id confirm_ambiguous expected_version =
     replayed (rq_now rq) tenant_id (rq_key rq) (rq_hash rq) (replay_outbound_body rq tenant_id outbound_id confirm_ambiguous expected_version)"

subsection \<open>The audit log\<close>

text \<open>One page, newest first; a boundary is the position the cursor of the previous page names. \<^verbatim>\<open>ORDER BY\<close> and the row
  comparison go by the time, then by the id.\<close>

definition audit_position :: "audit_log_row \<Rightarrow> time \<times> string" where
  "audit_position r = (au_occurred_at r, au_audit_id r)"

definition before_position :: "time \<times> string \<Rightarrow> time \<times> string \<Rightarrow> bool" where
  "before_position p q \<longleftrightarrow> fst p < fst q \<or> fst p = fst q \<and> snd p < snd q"

definition newest_first :: "audit_log_row list \<Rightarrow> audit_log_row list" where
  "newest_first rs = rev (sort_key au_occurred_at (sort_key au_audit_id rs))"

definition audit_page :: "string \<Rightarrow> (time \<times> string) option \<Rightarrow> int \<Rightarrow> control_db \<Rightarrow> audit_log_row list \<times> (time \<times> string) option" where
  "audit_page tenant_id boundary limit db =
     (let n = nat (max 1 (min limit 200));
          rows = take (n + 1) (newest_first (filter (\<lambda>r. au_tenant_id r = tenant_id
                   \<and> (case boundary of None \<Rightarrow> True | Some b \<Rightarrow> before_position (audit_position r) b)) (cp_audit db)));
          page = take n rows
      in (page, if n < length rows then Some (audit_position (last page)) else None))"

end
