(* ===== verification/Admin_Api.thy ===== *)
theory Admin_Api
  imports Control_Plane Py_Text
begin

text \<open>
  Who may call the control plane and how: the roles of \<^verbatim>\<open>src/trpc_service/tenant/auth.py\<close> and the write routes of
  \<^verbatim>\<open>src/trpc_service/web/admin.py\<close>. Verifying a bearer token (PyJWT) and dumping a request body (pydantic) are arguments, the
  HTTP framework is left out: a handler takes the parsed request and returns the reply or raises.
\<close>

datatype role = PLATFORM_ADMIN | TENANT_ADMIN | AUDITOR

definition role_value :: "role \<Rightarrow> string" where
  "role_value r = (case r of PLATFORM_ADMIN \<Rightarrow> ''platform_admin'' | TENANT_ADMIN \<Rightarrow> ''tenant_admin'' | AUDITOR \<Rightarrow> ''auditor'')"

record principal =
  pr_subject :: string
  pr_roles :: "role set"
  pr_tenant_ids :: "string set"

text \<open>\<open>decode\<close> stands for the key lookup and \<^verbatim>\<open>jwt.decode\<close>: \<open>None\<close> is a \<^verbatim>\<open>PyJWTError\<close>, a result are claims that have the
  required members.\<close>

definition text_values :: "jval list \<Rightarrow> string list option" where
  "text_values vs = those (map (\<lambda>v. case v of JStr s \<Rightarrow> Some s | _ \<Rightarrow> None) vs)"

definition oidc_authenticate :: "(string \<Rightarrow> json option) \<Rightarrow> string \<Rightarrow> error + principal" where
  "oidc_authenticate decode token =
     (case decode token of
        None \<Rightarrow> Inl (AuthenticationError ''invalid bearer token'')
      | Some claims \<Rightarrow>
          (case (case map_of claims ''roles'' of None \<Rightarrow> JList [] | Some v \<Rightarrow> v) of
             JList raw \<Rightarrow>
               (case text_values raw of
                  None \<Rightarrow> Inl (AuthenticationError ''invalid roles claim'')
                | Some values \<Rightarrow>
                    (case (case map_of claims ''tenant_ids'' of None \<Rightarrow> JList [] | Some v \<Rightarrow> v) of
                       JList tenants \<Rightarrow>
                         (case text_values tenants of
                            None \<Rightarrow> Inl (AuthenticationError ''invalid tenant scope claim'')
                          | Some ids \<Rightarrow>
                              if [] \<in> set ids then Inl (AuthenticationError ''invalid tenant scope claim'')
                              else (case map_of claims ''sub'' of
                                      None \<Rightarrow> Inl (KeyError ''sub'')
                                    | Some subject \<Rightarrow>
                                        Inr \<lparr>pr_subject = py_str subject,
                                             pr_roles = {r \<in> {PLATFORM_ADMIN, TENANT_ADMIN, AUDITOR}. role_value r \<in> set values},
                                             pr_tenant_ids = set ids\<rparr>))
                     | _ \<Rightarrow> Inl (AuthenticationError ''invalid tenant scope claim'')))
           | _ \<Rightarrow> Inl (AuthenticationError ''invalid roles claim'')))"

definition require_role :: "principal \<Rightarrow> role \<Rightarrow> string option \<Rightarrow> error option" where
  "require_role p r tenant_id =
     (if PLATFORM_ADMIN \<notin> pr_roles p \<and> r \<notin> pr_roles p then Some (AuthorizationError ''required role is missing'')
      else case tenant_id of
        None \<Rightarrow> None
      | Some t \<Rightarrow>
          if t \<noteq> [] \<and> PLATFORM_ADMIN \<notin> pr_roles p \<and> t \<notin> pr_tenant_ids p
          then Some (AuthorizationError ''principal is outside the tenant scope'') else None)"

definition request_hash :: "string \<Rightarrow> json \<Rightarrow> string" where
  "request_hash operation body =
     hexdigest (sha256 (utf8_encode (json_dumps (JObj [(''operation'', JStr operation), (''body'', JObj body)]))))"

definition etag :: "nat \<Rightarrow> string" where
  "etag version = ''\"'' @ nat_text version @ ''\"''"

definition parse_etag :: "string \<Rightarrow> error + nat" where
  "parse_etag value =
     (let unprefixed = (if take 2 value = ''W/'' then drop 2 value else value)
      in case py_int_text (strip_chars ''\"'' (strip_chars py_whitespace unprefixed)) of
           Inl _ \<Rightarrow> Inl (HTTPException 400 ''invalid If-Match header'')
         | Inr parsed \<Rightarrow> if parsed < 1 then Inl (HTTPException 400 ''invalid If-Match header'') else Inr (nat parsed))"

subsection \<open>The write routes\<close>

text \<open>The transport part of a request: who calls, with which headers and when.\<close>

record call =
  cl_actor :: principal
  cl_key :: string
  cl_if_match :: string
  cl_now :: time
  cl_wall :: time
  cl_audit_id :: string

definition admin_request :: "call \<Rightarrow> string \<Rightarrow> json \<Rightarrow> request" where
  "admin_request c operation body =
     \<lparr>rq_now = cl_now c, rq_wall = cl_wall c, rq_audit_id = cl_audit_id c, rq_actor = pr_subject (cl_actor c),
      rq_key = cl_key c, rq_hash = request_hash operation body\<rparr>"

text \<open>The guard of the routes under a tenant: role, then the expected version.\<close>

definition with_version :: "call \<Rightarrow> string \<Rightarrow> (nat \<Rightarrow> control_db \<Rightarrow> (reply, control_db) outcome) \<Rightarrow> control_db \<Rightarrow> (reply, control_db) outcome" where
  "with_version c tenant_id run db =
     (case require_role (cl_actor c) TENANT_ADMIN (Some tenant_id) of
        Some e \<Rightarrow> raise_in db e
      | None \<Rightarrow> (case parse_etag (cl_if_match c) of Inl e \<Rightarrow> raise_in db e | Inr expected \<Rightarrow> run expected db))"

definition admin_create_tenant :: "call \<Rightarrow> json \<Rightarrow> string \<Rightarrow> string \<Rightarrow> control_db \<Rightarrow> (reply, control_db) outcome" where
  "admin_create_tenant c body tenant_id display_name db =
     (case require_role (cl_actor c) PLATFORM_ADMIN None of
        Some e \<Rightarrow> raise_in db e
      | None \<Rightarrow> create_tenant (admin_request c ''create_tenant'' body) tenant_id display_name db)"

definition admin_put_binding :: "call \<Rightarrow> json \<Rightarrow> string \<Rightarrow> string \<Rightarrow> channel_binding \<Rightarrow> control_db \<Rightarrow> (reply, control_db) outcome" where
  "admin_put_binding c body tenant_id binding_id b =
     with_version c tenant_id (\<lambda>expected db.
       if cb_channel b = WECOM_AI_BOT \<and> cb_enabled b \<and> map_of (cb_secret_refs b) ''bot_secret'' = None
       then raise_in db (HTTPException 422 ''binding secret references are invalid'')
       else put_binding (admin_request c ''put_binding'' body) tenant_id binding_id
              (b\<lparr>cb_binding_id := binding_id, cb_tenant_id := tenant_id\<rparr>) expected db)"

definition admin_create_config ::
    "(json \<Rightarrow> string option) \<Rightarrow> call \<Rightarrow> json \<Rightarrow> string \<Rightarrow> string \<Rightarrow> json \<Rightarrow> control_db \<Rightarrow> (reply, control_db) outcome"
where
  "admin_create_config validate c body tenant_id app_id config =
     with_version c tenant_id (create_config_revision validate (admin_request c ''create_config'' body) tenant_id app_id config)"

definition admin_activate_config :: "call \<Rightarrow> json \<Rightarrow> string \<Rightarrow> nat \<Rightarrow> string \<Rightarrow> rat \<Rightarrow> control_db \<Rightarrow> (reply, control_db) outcome" where
  "admin_activate_config c body tenant_id version app_id percentage =
     with_version c tenant_id (\<lambda>expected db.
       activate_config (admin_request c ''activate_config'' body) ''activate_config'' tenant_id app_id version percentage expected db)"

definition admin_rollback_config :: "call \<Rightarrow> json \<Rightarrow> string \<Rightarrow> nat \<Rightarrow> string \<Rightarrow> control_db \<Rightarrow> (reply, control_db) outcome" where
  "admin_rollback_config c body tenant_id version app_id =
     with_version c tenant_id (\<lambda>expected db.
       activate_config (admin_request c ''rollback_config'' body) ''rollback_config'' tenant_id app_id version 100 expected db)"

definition admin_replay_outbound :: "call \<Rightarrow> string \<Rightarrow> string \<Rightarrow> bool \<Rightarrow> control_db \<Rightarrow> (reply, control_db) outcome" where
  "admin_replay_outbound c tenant_id outbound_id confirm_ambiguous =
     with_version c tenant_id (\<lambda>expected db.
       replay_outbound (admin_request c ''replay_outbound'' [(''confirm_ambiguous'', JBool confirm_ambiguous)])
         tenant_id outbound_id confirm_ambiguous expected db)"

end
