(* ===== verification/Control_Inv.thy ===== *)
theory Control_Inv
  imports Admin_Api Session_Id
begin

text \<open>
  Lemmas about the control plane: what a write that takes effect does to the version, the remembered replies and the audit
  log, the invariant that every version an application points to exists, and the steps of the whole system.
\<close>

subsection \<open>The frame of a write\<close>

lemma cached_reply_hit:
  assumes "cached_reply now t key h db = Inr (Some r)"
  shows "\<exists>row. cp_idempotency db (t, key) = Some row \<and> now < id_expires_at row \<and> id_request_hash row = h \<and> id_response row = r"
  using assms by (auto simp: cached_reply_def split: option.splits if_splits)

lemma replayed_cases:
  assumes "replayed now t key h body db = (x, db')"
  obtains (raised) e where "x = Inl e" and "db' = db"
  | (again) row where "cp_idempotency db (t, key) = Some row" and "now < id_expires_at row" and "id_request_hash row = h"
      and "id_response row \<noteq> []" and "x = Inr (id_response row)" and "db' = db"
  | (fresh) r where "body db = Inr (r, db')" and "x = Inr r"
proof (cases "cached_reply now t key h db")
  case (Inl e)
  then show thesis using assms raised [of e] by (auto simp: replayed_def transaction_def)
next
  case (Inr c)
  show thesis
  proof (cases "c = None \<or> c = Some []")
    case True
    then show thesis using assms raised fresh Inr by (cases "body db") (auto simp: replayed_def transaction_def)
  next
    case False
    then obtain a as where c: "c = Some (a # as)" by (cases c) (auto simp: neq_Nil_conv)
    from cached_reply_hit [OF Inr [unfolded c]] obtain row where
      row: "cp_idempotency db (t, key) = Some row" "now < id_expires_at row" "id_request_hash row = h" "id_response row = a # as" by blast
    have "x = Inr (id_response row)" "db' = db" using assms Inr c row(4) by (simp_all add: replayed_def transaction_def)
    with row show thesis using again [OF row(1-3)] by simp
  qed
qed

text \<open>A write that takes effect: the key was unused, the reply is remembered for a day, one audit record is added.\<close>

definition remembered :: "request \<Rightarrow> string \<Rightarrow> reply \<Rightarrow> idempotency_row \<Rightarrow> bool" where
  "remembered rq t r row \<longleftrightarrow> id_request_hash row = rq_hash rq \<and> id_response row = r \<and> id_expires_at row = rq_wall rq + seconds 86400"

definition takes_effect :: "request \<Rightarrow> string \<Rightarrow> reply \<Rightarrow> control_db \<Rightarrow> control_db \<Rightarrow> bool" where
  "takes_effect rq t r db db' \<longleftrightarrow>
     cp_idempotency db (t, rq_key rq) = None
     \<and> (\<exists>row. cp_idempotency db' (t, rq_key rq) = Some row \<and> remembered rq t r row)
     \<and> (\<forall>k. k \<noteq> (t, rq_key rq) \<longrightarrow> cp_idempotency db' k = cp_idempotency db k)
     \<and> (\<exists>a. cp_audit db' = cp_audit db @ [a] \<and> au_tenant_id a = t \<and> au_user_id a = rq_actor rq \<and> au_idempotency_key a = rq_key rq)"

lemma finish_request_effect:
  assumes "finish_request (rq_now rq) (rq_wall rq) (rq_audit_id rq) t (rq_actor rq) (rq_key rq) operation decision (rq_hash rq) response status db1 = Inr (r, db')"
    and "cp_idempotency db1 = cp_idempotency db" and "cp_audit db1 = cp_audit db"
  shows "takes_effect rq t r db db'" and "r = response"
    and "cp_tenants db' = cp_tenants db1" and "cp_apps db' = cp_apps db1" and "cp_revisions db' = cp_revisions db1"
    and "cp_bindings db' = cp_bindings db1" and "cp_outbound db' = cp_outbound db1" and "cp_outbox db' = cp_outbox db1"
  using assms by (auto simp: finish_request_def store_idempotency_def write_audit_def takes_effect_def remembered_def split: if_splits)

lemma bump_version_effect:
  assumes "bump_version now t v db = Inr (n, db')"
  shows "n = v + 1" and "cp_idempotency db' = cp_idempotency db" and "cp_audit db' = cp_audit db" and "cp_apps db' = cp_apps db"
    and "cp_revisions db' = cp_revisions db" and "cp_bindings db' = cp_bindings db" and "cp_outbound db' = cp_outbound db" and "cp_outbox db' = cp_outbox db"
    and "\<exists>row. cp_tenants db t = Some row \<and> tn_control_version row = v
      \<and> cp_tenants db' = (cp_tenants db)(t \<mapsto> row\<lparr>tn_control_version := v + 1, tn_updated_at := now\<rparr>)"
  using assms by (auto simp: bump_version_def split: option.splits if_splits)

definition tenant_version :: "control_db \<Rightarrow> string \<Rightarrow> nat option" where
  "tenant_version db t = map_option tn_control_version (cp_tenants db t)"

lemma lock_version_iff: "lock_version t v db = Inr w \<longleftrightarrow> tenant_version db t = Some v \<and> w = v"
  by (auto simp: lock_version_def tenant_version_def split: option.splits)

subsection \<open>Writes under an expected version\<close>

text \<open>The four operations that check and raise the version of the tenant.\<close>

datatype versioned =
    Put_Binding channel_binding
  | Create_Config string json
  | Activate string string nat rat
  | Replay string bool

fun run_versioned :: "(json \<Rightarrow> string option) \<Rightarrow> request \<Rightarrow> string \<Rightarrow> nat \<Rightarrow> versioned \<Rightarrow> control_db \<Rightarrow> (reply, control_db) outcome" where
  "run_versioned validate rq t v (Put_Binding b) db = put_binding rq t (cb_binding_id b) b v db"
| "run_versioned validate rq t v (Create_Config a config) db = create_config_revision validate rq t a config v db"
| "run_versioned validate rq t v (Activate operation a n percentage) db = activate_config rq operation t a n percentage v db"
| "run_versioned validate rq t v (Replay outbound confirm) db = replay_outbound rq t outbound confirm v db"


text \<open>What a versioned write does when its body runs to the end.\<close>

definition version_write :: "request \<Rightarrow> string \<Rightarrow> nat \<Rightarrow> reply \<Rightarrow> control_db \<Rightarrow> control_db \<Rightarrow> bool" where
  "version_write rq t v r db db' \<longleftrightarrow>
     takes_effect rq t r db db' \<and> r \<noteq> []
     \<and> tenant_version db t = Some v
     \<and> (\<forall>t'. tenant_version db' t' = (if t' = t then Some (v + 1) else tenant_version db t'))"

lemma version_write_intro:
  assumes lock: "lock_version t v db = Inr w"
    and same: "cp_idempotency db1 = cp_idempotency db" "cp_audit db1 = cp_audit db" "cp_tenants db1 = cp_tenants db"
    and bump: "bump_version now t w db1 = Inr (n, db2)"
    and fin: "finish_request (rq_now rq) (rq_wall rq) (rq_audit_id rq) t (rq_actor rq) (rq_key rq) operation decision (rq_hash rq) response status db2 = Inr (r, db')"
    and "response \<noteq> []"
  shows "version_write rq t v r db db'"
proof -
  have w: "w = v" "tenant_version db t = Some v" using lock by (simp_all add: lock_version_iff)
  note b = bump_version_effect [OF bump]
  note f = finish_request_effect [OF fin, of db]
  have "takes_effect rq t r db db'" "r = response" "cp_tenants db' = cp_tenants db2" using f b same by simp_all
  moreover have "tenant_version db' t' = (if t' = t then Some (v + 1) else tenant_version db t')" for t'
    using b(9) calculation(3) same(3) w(1) by (auto simp: tenant_version_def)
  ultimately show ?thesis using w(2) assms(7) by (simp add: version_write_def)
qed

lemma upsert_binding_frame:
  assumes "upsert_binding now b db = Inr (row, db')"
  shows "cp_idempotency db' = cp_idempotency db" "cp_audit db' = cp_audit db" "cp_tenants db' = cp_tenants db" "cp_apps db' = cp_apps db"
    "cp_revisions db' = cp_revisions db" "cp_outbound db' = cp_outbound db" "cp_outbox db' = cp_outbox db"
  using assms by (auto simp: upsert_binding_def Let_def split: if_splits)

lemma requeue_frame:
  "cp_idempotency (resolve_dead_letters now t i (requeue_outbound t i row db)) = cp_idempotency db"
  "cp_audit (resolve_dead_letters now t i (requeue_outbound t i row db)) = cp_audit db"
  "cp_tenants (resolve_dead_letters now t i (requeue_outbound t i row db)) = cp_tenants db"
  "cp_apps (resolve_dead_letters now t i (requeue_outbound t i row db)) = cp_apps db"
  "cp_revisions (resolve_dead_letters now t i (requeue_outbound t i row db)) = cp_revisions db"
  "cp_bindings (resolve_dead_letters now t i (requeue_outbound t i row db)) = cp_bindings db"
  "cp_outbound (resolve_dead_letters now t i (requeue_outbound t i row db)) = cp_outbound db"
  by (simp_all add: resolve_dead_letters_def requeue_outbound_def Let_def)

lemma put_binding_body_write:
  assumes "put_binding_body rq t i b v db = Inr (r, db')"
  shows "version_write rq t v r db db'"
  using assms unfolding put_binding_body_def
  by (auto split: sum.splits prod.splits dest: upsert_binding_frame intro: version_write_intro)

lemma create_config_body_write:
  assumes "create_config_body validate rq t a config v db = Inr (r, db')"
  shows "version_write rq t v r db db'"
  using assms unfolding create_config_body_def Let_def
  by (auto split: sum.splits prod.splits option.splits intro: version_write_intro [rotated 4])

lemma activate_config_body_write:
  assumes "activate_config_body rq operation t a n percentage v db = Inr (r, db')"
  shows "version_write rq t v r db db'"
  using assms unfolding activate_config_body_def Let_def
  by (auto split: sum.splits prod.splits option.splits if_splits intro: version_write_intro [rotated 4])

lemma replay_outbound_body_write:
  assumes "replay_outbound_body rq t i confirm v db = Inr (r, db')"
  shows "version_write rq t v r db db'"
  using assms unfolding replay_outbound_body_def Let_def
  by (auto split: sum.splits prod.splits option.splits if_splits simp: requeue_frame intro: version_write_intro [rotated 4])

lemmas body_writes = put_binding_body_write create_config_body_write activate_config_body_write replay_outbound_body_write

text \<open>The body a request runs when no reply is remembered, and the check it makes before.\<close>

fun versioned_body :: "(json \<Rightarrow> string option) \<Rightarrow> request \<Rightarrow> string \<Rightarrow> nat \<Rightarrow> versioned \<Rightarrow> control_db \<Rightarrow> error + (reply \<times> control_db)" where
  "versioned_body validate rq t v (Put_Binding b) = put_binding_body rq t (cb_binding_id b) b v"
| "versioned_body validate rq t v (Create_Config a config) = create_config_body validate rq t a config v"
| "versioned_body validate rq t v (Activate operation a n percentage) = activate_config_body rq operation t a n percentage v"
| "versioned_body validate rq t v (Replay outbound confirm) = replay_outbound_body rq t outbound confirm v"

fun well_posed :: "string \<Rightarrow> versioned \<Rightarrow> bool" where
  "well_posed t (Put_Binding b) = (cb_tenant_id b = t)"
| "well_posed t (Activate operation a n percentage) = (0 \<le> percentage \<and> percentage \<le> 100)"
| "well_posed t w = True"

lemma run_versioned_ill_posed: "\<not> well_posed t w \<Longrightarrow> \<exists>e. run_versioned validate rq t v w db = (Inl e, db)"
  by (cases w) (auto simp: put_binding_def activate_config_def)

lemma run_versioned_replayed:
  "well_posed t w \<Longrightarrow>
     run_versioned validate rq t v w db = replayed (rq_now rq) t (rq_key rq) (rq_hash rq) (versioned_body validate rq t v w) db"
  by (cases w) (auto simp: put_binding_def create_config_revision_def activate_config_def replay_outbound_def)

lemma versioned_body_write: "versioned_body validate rq t v w db = Inr (r, db') \<Longrightarrow> version_write rq t v r db db'"
  by (cases w) (auto dest: body_writes)

lemma run_versioned_cases:
  assumes "run_versioned validate rq t v w db = (x, db')"
  obtains (raised) e where "x = Inl e" and "db' = db"
  | (again) row where "well_posed t w" and "cp_idempotency db (t, rq_key rq) = Some row" and "rq_now rq < id_expires_at row" and "id_request_hash row = rq_hash rq"
      and "x = Inr (id_response row)" and "db' = db"
  | (fresh) r where "well_posed t w" and "versioned_body validate rq t v w db = Inr (r, db')" and "version_write rq t v r db db'" and "x = Inr r"
proof (cases "well_posed t w")
  case True
  then have "replayed (rq_now rq) t (rq_key rq) (rq_hash rq) (versioned_body validate rq t v w) db = (x, db')"
    using assms by (simp add: run_versioned_replayed)
  then show thesis
  proof (cases rule: replayed_cases)
    case (raised e) then show thesis by (rule that(1))
  next
    case (again row) then show thesis using that(2) True by blast
  next
    case (fresh r) then show thesis using that(3) [OF True _ versioned_body_write] by blast
  qed
next
  case False
  then show thesis using assms run_versioned_ill_posed [OF False, of validate rq v db] that(1) by auto
qed

subsection \<open>The system\<close>

text \<open>
  The production migration moves an application between its source and its target revision
  (\<^verbatim>\<open>_switch_profile\<close> of \<^verbatim>\<open>storage/production_migration_control.py\<close>). The arguments after the application are from the state of the
  migration and \<open>current_active\<close> from the row of the application that the transaction read before.
\<close>

definition switch_profile ::
    "time \<Rightarrow> bool \<Rightarrow> string \<Rightarrow> string \<Rightarrow> nat \<Rightarrow> nat \<Rightarrow> nat \<Rightarrow> nat \<Rightarrow> nat \<Rightarrow> control_db \<Rightarrow> error + ((nat \<times> nat) \<times> control_db)"
where
  "switch_profile now target tenant_id app_id source_version target_version app_version expected_tenant_version current_active db =
     (let next_version = (if target then target_version else source_version);
          expected_active = (if target then source_version else current_active)
      in case cp_tenants db tenant_id of
           None \<Rightarrow> Inl (MigrationManifestConflict ''tenant control version changed during migration'')
         | Some t \<Rightarrow>
             if tn_control_version t \<noteq> expected_tenant_version
             then Inl (MigrationManifestConflict ''tenant control version changed during migration'')
             else case cp_apps db (tenant_id, app_id) of
                    None \<Rightarrow> Inl (MigrationManifestConflict ''application config pointer changed or candidate is no longer staged'')
                  | Some a \<Rightarrow>
                      if ap_active_config_version a = expected_active \<and> ap_control_version a = app_version
                         \<and> (if target then ap_candidate_config_version a = Some next_version
                            else ap_candidate_config_version a \<in> {None, Some target_version})
                      then Inr ((app_version + 1, expected_tenant_version + 1),
                             db\<lparr>cp_tenants := (cp_tenants db)(tenant_id \<mapsto>
                                  t\<lparr>tn_control_version := expected_tenant_version + 1, tn_updated_at := now\<rparr>),
                                cp_apps := (cp_apps db)((tenant_id, app_id) \<mapsto>
                                  a\<lparr>ap_active_config_version := next_version, ap_candidate_config_version := None,
                                    ap_candidate_percent := 0, ap_control_version := app_version + 1, ap_updated_at := now\<rparr>)\<rparr>)
                      else Inl (MigrationManifestConflict ''application config pointer changed or candidate is no longer staged''))"

text \<open>
  The writes of the control plane, interleaved with the other writers of its tables. The migration started when its source
  version was the active one, so that version is a revision (no revision is ever deleted). The runtime and the tools change outbound
  messages, outbox and dead letters, and append to the audit log.
\<close>

inductive control_step :: "(json \<Rightarrow> string option) \<Rightarrow> control_db \<Rightarrow> control_db \<Rightarrow> bool" for validate where
  tenant_request: "create_tenant rq t name db = (x, db') \<Longrightarrow> control_step validate db db'"
| versioned_request: "run_versioned validate rq t v w db = (x, db') \<Longrightarrow> control_step validate db db'"
| migration: "switch_profile now target t a source target_version app_version v current_active db = Inr (x, db')
    \<Longrightarrow> source \<in> fst ` set (cp_revisions db (t, a)) \<Longrightarrow> control_step validate db db'"
| runtime: "control_step validate db
    (db\<lparr>cp_outbound := messages, cp_outbox := events, cp_dead_letters := letters, cp_audit := cp_audit db @ records\<rparr>)"

lemma create_tenant_effect:
  assumes "create_tenant rq t name db = (x, db')"
  shows "db' = db \<or> (\<exists>r. x = Inr r \<and> takes_effect rq t r db db' \<and> cp_tenants db t = None
    \<and> (\<exists>row. cp_tenants db' = (cp_tenants db)(t \<mapsto> row)) \<and> cp_apps db' = cp_apps db \<and> cp_revisions db' = cp_revisions db)"
  using assms unfolding create_tenant_def
proof (cases rule: replayed_cases)
  case (fresh r)
  let ?db1 = "db\<lparr>cp_tenants := (cp_tenants db)(t \<mapsto> \<lparr>tn_display_name = name, tn_status = ''active'', tn_control_version = 1,
    tn_created_at = rq_now rq, tn_updated_at = rq_now rq\<rparr>)\<rparr>"
  have new: "cp_tenants db t = None" using fresh(1) by (auto split: if_splits)
  with fresh(1) have fin: "finish_request (rq_now rq) (rq_wall rq) (rq_audit_id rq) t (rq_actor rq) (rq_key rq) ''create_tenant'' ''tenant_created'' (rq_hash rq)
    [(''tenant_id'', RText t), (''display_name'', RText name), (''status'', RText ''active''),
     (''control_version'', RInt 1), (''created_at'', RText (iso_text CHR ''T'' (rq_now rq)))] 201 ?db1 = Inr (r, db')" by simp
  from finish_request_effect [OF fin, of db] new fresh(2) show ?thesis by auto
qed simp_all

lemma switch_profile_effect:
  assumes "switch_profile now target t a source target_version app_version v current_active db = Inr (x, db')"
  shows "cp_idempotency db' = cp_idempotency db \<and> cp_audit db' = cp_audit db \<and> cp_revisions db' = cp_revisions db
    \<and> (\<exists>row. cp_tenants db t = Some row
         \<and> cp_tenants db' = (cp_tenants db)(t \<mapsto> row\<lparr>tn_control_version := tn_control_version row + 1, tn_updated_at := now\<rparr>))
    \<and> (\<exists>app. cp_apps db (t, a) = Some app \<and> (target \<longrightarrow> ap_candidate_config_version app = Some target_version)
         \<and> cp_apps db' = (cp_apps db)((t, a) \<mapsto> app\<lparr>ap_active_config_version := if target then target_version else source,
             ap_candidate_config_version := None, ap_candidate_percent := 0, ap_control_version := app_version + 1, ap_updated_at := now\<rparr>))"
  using assms by (auto simp: switch_profile_def Let_def split: option.splits if_splits)

lemma takes_effect_keeps:
  assumes "takes_effect rq t r db db'"
  shows "cp_idempotency db k = Some row \<Longrightarrow> cp_idempotency db' k = Some row" and "\<exists>new. cp_audit db' = cp_audit db @ new"
  using assms unfolding takes_effect_def by (metis option.distinct(1), blast)

lemma control_step_keeps:
  assumes "control_step validate db db'"
  shows "cp_idempotency db k = Some row \<Longrightarrow> cp_idempotency db' k = Some row"
    and "tenant_version db t = Some v \<Longrightarrow> \<exists>v' \<ge> v. tenant_version db' t = Some v'"
    and "\<exists>new. cp_audit db' = cp_audit db @ new"
  using assms
proof (induction rule: control_step.induct)
  case (tenant_request rq u name db x db')
  {
    case 1 with create_tenant_effect [OF tenant_request] show ?case by (metis takes_effect_keeps(1))
  next
    case 2 with create_tenant_effect [OF tenant_request] show ?case by (auto simp: tenant_version_def)
  next
    case 3 from create_tenant_effect [OF tenant_request] show ?case by (metis takes_effect_keeps(2) append_Nil2)
  }
next
  case (versioned_request rq u v w db x db')
  note c = run_versioned_cases [OF versioned_request]
  {
    case 1 then show ?case by (cases rule: c) (auto simp: version_write_def dest: takes_effect_keeps)
  next
    case 2 then show ?case by (cases rule: c) (auto simp: version_write_def)
  next
    case 3 show ?case by (cases rule: c) (auto simp: version_write_def dest: takes_effect_keeps(2))
  }
next
  case (migration now target u a source target_version app_version v' current_active db x db')
  note e = switch_profile_effect [OF migration(1)]
  {
    case 1 then show ?case using e by simp
  next
    case 2 then show ?case using e by (auto simp: tenant_version_def)
  next
    case 3 show ?case using e by simp
  }
next
  case (runtime db messages events letters records)
  {
    case 1 then show ?case by simp
  next
    case 2 then show ?case by (auto simp: tenant_version_def)
  next
    case 3 show ?case by simp
  }
qed

lemma control_path_keeps:
  assumes "reachable_from (control_step validate) db db'"
  shows "cp_idempotency db k = Some row \<Longrightarrow> cp_idempotency db' k = Some row"
    and "tenant_version db t = Some v \<Longrightarrow> \<exists>v' \<ge> v. tenant_version db' t = Some v'"
  using assms
proof (induction rule: reachable_from.induct)
  case here { case 1 then show ?case by simp next case 2 then show ?case by auto }
next
  case (there a b)
  {
    case 1 then show ?case using there control_step_keeps(1) by blast
  next
    case 2 then show ?case using there control_step_keeps(2) by (metis order_trans)
  }
qed

subsection \<open>Every configured version exists\<close>

definition app_wf :: "(nat \<times> config_revision) list \<Rightarrow> app_row option \<Rightarrow> bool" where
  "app_wf revisions app \<longleftrightarrow>
     map fst revisions = [1..<Suc (length revisions)]
     \<and> (case app of
          None \<Rightarrow> revisions = []
        | Some a \<Rightarrow> ap_active_config_version a \<in> fst ` set revisions
            \<and> (\<forall>c. ap_candidate_config_version a = Some c \<longrightarrow> c \<in> fst ` set revisions)
            \<and> 0 \<le> ap_candidate_percent a \<and> ap_candidate_percent a \<le> 100)"

definition control_inv :: "control_db \<Rightarrow> bool" where
  "control_inv db \<longleftrightarrow> (\<forall>k. app_wf (cp_revisions db k) (cp_apps db k))"

lemma foldr_max_pairs: "foldr (\<lambda>(v, _) m. max v m) xs b = Max (insert b (fst ` set xs))" for b :: nat
  by (induction xs) (auto simp: insert_commute [of b])

lemma next_revision_consecutive:
  assumes "map fst revisions = [1..<Suc (length revisions)]"
  shows "next_revision revisions = Suc (length revisions)"
proof -
  have "fst ` set revisions = {1..<Suc (length revisions)}" using arg_cong [OF assms, of set] by (simp only: set_map set_upt)
  moreover have "Max (insert 0 {1..<Suc n}) = n" for n by (rule Max_eqI) auto
  ultimately show ?thesis by (simp add: next_revision_def foldr_max_pairs)
qed

lemma numeric_5_2_bounds: "0 \<le> x \<Longrightarrow> x \<le> 100 \<Longrightarrow> 0 \<le> numeric_5_2 x \<and> numeric_5_2 x \<le> 100"
proof -
  assume "0 \<le> x" and "x \<le> 100"
  then have "0 \<le> \<lfloor>x * 100 + 1 / 2\<rfloor>" and "\<lfloor>x * 100 + 1 / 2\<rfloor> \<le> 10000" by (simp, linarith)
  then show ?thesis by (simp add: numeric_5_2_def)
qed

lemma rollout_app_wf:
  assumes "app_wf revisions (Some a)" and "n \<in> fst ` set revisions" and "0 \<le> p" and "p \<le> 100"
  shows "app_wf revisions (Some (rollout_app now n p a))"
  using assms numeric_5_2_bounds [OF assms(3,4)] by (auto simp: app_wf_def rollout_app_def)

lemma new_revision_wf:
  assumes "app_wf revisions app"
  shows "app_wf (revisions @ [(next_revision revisions, new)])
    (Some ((case app of Some a \<Rightarrow> a
      | None \<Rightarrow> \<lparr>ap_display_name = name, ap_active_config_version = 1, ap_candidate_config_version = None,
                 ap_candidate_percent = 0, ap_control_version = 1, ap_updated_at = now\<rparr>)\<lparr>ap_control_version := cv, ap_updated_at := now'\<rparr>))"
  using assms next_revision_consecutive [of revisions] by (cases app) (auto simp: app_wf_def)

text \<open>The helpers do not touch applications and revisions.\<close>

lemma same_configuration:
  "finish_request now wall aid t actor key operation decision h response status db = Inr (r, db') \<Longrightarrow> cp_apps db' = cp_apps db \<and> cp_revisions db' = cp_revisions db"
  "bump_version now t v db = Inr (n, db') \<Longrightarrow> cp_apps db' = cp_apps db \<and> cp_revisions db' = cp_revisions db"
  "upsert_binding now b db = Inr (row, db') \<Longrightarrow> cp_apps db' = cp_apps db \<and> cp_revisions db' = cp_revisions db"
  by (auto simp: finish_request_def store_idempotency_def write_audit_def bump_version_def upsert_binding_def Let_def
      split: if_splits option.splits)

lemma put_binding_body_frame:
  assumes "put_binding_body rq t i b v db = Inr (r, db')"
  shows "cp_apps db' = cp_apps db" and "cp_revisions db' = cp_revisions db"
  using assms unfolding put_binding_body_def
  by (auto split: sum.splits prod.splits dest!: same_configuration)

lemma replay_outbound_body_frame:
  assumes "replay_outbound_body rq t i confirm v db = Inr (r, db')"
  shows "cp_apps db' = cp_apps db" and "cp_revisions db' = cp_revisions db"
  using assms unfolding replay_outbound_body_def Let_def
  by (auto split: sum.splits prod.splits option.splits if_splits simp: requeue_frame
      dest!: same_configuration)

lemma activate_config_body_frame:
  assumes "activate_config_body rq operation t a n percentage v db = Inr (r, db')"
  shows "n \<in> fst ` set (cp_revisions db (t, a))" and "cp_revisions db' = cp_revisions db"
    and "cp_apps db' = (cp_apps db)((t, a) := map_option (rollout_app (rq_now rq) n percentage) (cp_apps db (t, a)))"
  using assms unfolding activate_config_body_def Let_def
  by (auto split: sum.splits prod.splits option.splits if_splits simp: map_of_eq_None_iff
      dest!: same_configuration)

lemma create_config_body_inv:
  assumes "create_config_body validate rq t a config v db = Inr (r, db')" and "control_inv db"
  shows "control_inv db'"
proof -
  have wf: "app_wf (cp_revisions db (t, a)) (cp_apps db (t, a))" using assms(2) by (simp add: control_inv_def)
  show ?thesis
    using assms new_revision_wf [OF wf] unfolding create_config_body_def Let_def control_inv_def
    by (auto split: sum.splits prod.splits option.splits if_splits
        dest!: same_configuration)
qed

lemma versioned_body_inv:
  assumes "versioned_body validate rq t v w db = Inr (r, db')" and "well_posed t w" and "control_inv db"
  shows "control_inv db'"
proof (cases w)
  case (Put_Binding b)
  with assms(1) have "put_binding_body rq t (cb_binding_id b) b v db = Inr (r, db')" by simp
  from put_binding_body_frame [OF this] show ?thesis using assms(3) by (simp add: control_inv_def)
next
  case (Create_Config a config)
  then show ?thesis using assms by (auto intro: create_config_body_inv)
next
  case (Activate operation a n percentage)
  then have run: "activate_config_body rq operation t a n percentage v db = Inr (r, db')" and range: "0 \<le> percentage" "percentage \<le> 100"
    using assms by auto
  note f = activate_config_body_frame [OF run]
  have "app_wf (cp_revisions db (t, a)) (cp_apps db (t, a))" using assms(3) by (simp add: control_inv_def)
  then have "app_wf (cp_revisions db (t, a)) (map_option (rollout_app (rq_now rq) n percentage) (cp_apps db (t, a)))"
    using rollout_app_wf [OF _ f(1) range] by (cases "cp_apps db (t, a)") auto
  then show ?thesis using assms(3) f(2,3) by (simp add: control_inv_def)
next
  case (Replay outbound confirm)
  with assms(1) have "replay_outbound_body rq t outbound confirm v db = Inr (r, db')" by simp
  from replay_outbound_body_frame [OF this] show ?thesis using assms(3) by (simp add: control_inv_def)
qed

lemma control_step_inv:
  assumes "control_step validate db db'" and "control_inv db"
  shows "control_inv db'"
  using assms
proof (induction rule: control_step.induct)
  case (tenant_request rq t name db x db')
  with create_tenant_effect [OF tenant_request(1)] show ?case by (auto simp: control_inv_def)
next
  case (versioned_request rq t v w db x db')
  from versioned_request(1) show ?case
    by (cases rule: run_versioned_cases) (use versioned_request(2) versioned_body_inv in \<open>auto\<close>)
next
  case (migration now target t a source target_version app_version v current_active db x db')
  from switch_profile_effect [OF migration(1)] obtain app where app: "cp_apps db (t, a) = Some app"
      "target \<longrightarrow> ap_candidate_config_version app = Some target_version" "cp_revisions db' = cp_revisions db"
      "cp_apps db' = (cp_apps db)((t, a) \<mapsto> app\<lparr>ap_active_config_version := if target then target_version else source,
         ap_candidate_config_version := None, ap_candidate_percent := 0, ap_control_version := app_version + 1, ap_updated_at := now\<rparr>)"
    by blast
  have "app_wf (cp_revisions db (t, a)) (Some app)" using migration(3) app(1) by (metis control_inv_def)
  then have "app_wf (cp_revisions db (t, a)) (cp_apps db' (t, a))" using migration(2) app(2) unfolding app(4) by (auto simp: app_wf_def)
  moreover have "cp_apps db' k = cp_apps db k" if "k \<noteq> (t, a)" for k using that by (simp add: app(4))
  ultimately show ?case using migration(3) unfolding control_inv_def app(3) by metis
qed (simp add: control_inv_def)

interpretation control_machine: state_machine "control_step validate" control_inv for validate
  by unfold_locales (rule control_step_inv)

end
