(* ===== verification/Audit_Pages.thy ===== *)
theory Audit_Pages
  imports Control_Plane
begin

text \<open>
  The pages of the audit log: a caller that follows the boundaries reads every record of the tenant once, newest first, and
  comes to an end.
\<close>

lemma insort_key_sorted_wrt:
  assumes "sorted_wrt (\<lambda>a b. f a < f b \<or> f a = f b \<and> g a \<le> g b) ys" and "\<And>y. y \<in> set ys \<Longrightarrow> g x \<le> g y"
  shows "sorted_wrt (\<lambda>a b. f a < f b \<or> f a = f b \<and> g a \<le> g b) (insort_key f x ys)"
  using assms by (induction ys) (auto simp: set_insort_key)

lemma sort_key_stable_order:
  assumes "sorted (map g xs)"
  shows "sorted_wrt (\<lambda>a b. f a < f b \<or> f a = f b \<and> g a \<le> g b) (sort_key f xs)"
  using assms by (induction xs) (auto simp: sort_key_def intro!: insort_key_sorted_wrt simp flip: sort_key_def)

lemma newest_first_descending:
  assumes "distinct (map au_audit_id rs)"
  shows "sorted_wrt (\<lambda>a b. before_position (audit_position b) (audit_position a)) (newest_first rs)"
proof -
  let ?rs = "sort_key au_audit_id rs"
  have "sorted_wrt (\<lambda>a b. au_occurred_at a < au_occurred_at b \<or> au_occurred_at a = au_occurred_at b \<and> au_audit_id a \<le> au_audit_id b)
    (sort_key au_occurred_at ?rs)"
    by (rule sort_key_stable_order) simp
  moreover have "distinct (map au_audit_id (sort_key au_occurred_at ?rs))"
    using assms by (simp add: distinct_map)
  ultimately have "sorted_wrt (\<lambda>a b. before_position (audit_position a) (audit_position b)) (sort_key au_occurred_at ?rs)"
    by (induction "sort_key au_occurred_at ?rs" rule: list.induct)
      (auto simp: before_position_def audit_position_def sorted_wrt_iff_nth_less distinct_conv_nth order.order_iff_strict)
  then show ?thesis by (simp add: newest_first_def sorted_wrt_rev)
qed

lemma newest_first_filter: "newest_first (filter P rs) = filter P (newest_first rs)"
  by (simp add: newest_first_def filter_sort flip: rev_filter)

lemma mset_newest_first: "mset (newest_first rs) = mset rs"
  by (simp add: newest_first_def)


text \<open>Reading page after page; \<open>None\<close> when the pages outnumber the fuel.\<close>

fun audit_walk :: "nat \<Rightarrow> string \<Rightarrow> (time \<times> string) option \<Rightarrow> int \<Rightarrow> control_db \<Rightarrow> audit_log_row list option" where
  "audit_walk 0 tenant_id boundary limit db = None"
| "audit_walk (Suc fuel) tenant_id boundary limit db =
     (case audit_page tenant_id boundary limit db of
        (page, None) \<Rightarrow> Some page
      | (page, Some b) \<Rightarrow> map_option ((@) page) (audit_walk fuel tenant_id (Some b) limit db))"

definition after_boundary :: "(time \<times> string) option \<Rightarrow> audit_log_row \<Rightarrow> bool" where
  "after_boundary boundary r = (case boundary of None \<Rightarrow> True | Some b \<Rightarrow> before_position (audit_position r) b)"

lemma audit_page_split:
  fixes limit :: int
  defines "n \<equiv> nat (max 1 (min limit 200))"
  assumes rows: "rows = newest_first (filter (\<lambda>r. au_tenant_id r = t) (cp_audit db))"
    and rest: "filter (after_boundary boundary) rows = rest"
  shows "audit_page t boundary limit db = (take n rest, if n < length rest then Some (audit_position (rest ! (n - 1))) else None)"
proof -
  have "newest_first (filter (\<lambda>r. au_tenant_id r = t \<and> after_boundary boundary r) (cp_audit db)) = rest"
    using rows rest newest_first_filter [of "after_boundary boundary" "filter (\<lambda>r. au_tenant_id r = t) (cp_audit db)"] by (simp add: conj_commute)
  moreover have "0 < n" by (simp add: n_def)
  then have "n < length rest \<Longrightarrow> last (take n rest) = rest ! (n - 1)" by (subst last_conv_nth) (auto simp: min_def)
  moreover have "audit_page t boundary limit db =
      (let rows = take (n + 1) (newest_first (filter (\<lambda>r. au_tenant_id r = t \<and> after_boundary boundary r) (cp_audit db))); page = take n rows
       in (page, if n < length rows then Some (audit_position (last page)) else None))"
    by (simp add: audit_page_def Let_def after_boundary_def n_def)
  ultimately show ?thesis by (auto simp: Let_def)
qed

lemma filter_below:
  assumes "sorted_wrt (\<lambda>a b. before_position (audit_position b) (audit_position a)) xs" and "i < length xs"
  shows "filter (after_boundary (Some (audit_position (xs ! i)))) xs = drop (Suc i) xs"
proof -
  let ?P = "after_boundary (Some (audit_position (xs ! i)))"
  have asym: "\<not> (before_position p q \<and> before_position q p)" for p q by (auto simp: before_position_def)
  have "\<not> ?P x" if "x \<in> set (take i xs)" for x
  proof -
    have "before_position (audit_position (xs ! i)) (audit_position x)"
      using that assms by (auto simp: sorted_wrt_iff_nth_less in_set_conv_nth)
    then show ?thesis using asym by (auto simp: after_boundary_def)
  qed
  moreover have "?P x" if "x \<in> set (drop (Suc i) xs)" for x
    using that assms by (auto simp: after_boundary_def sorted_wrt_iff_nth_less in_set_conv_nth)
  moreover have "\<not> ?P (xs ! i)" by (simp add: after_boundary_def before_position_def)
  ultimately have "filter ?P (take i xs @ xs ! i # drop (Suc i) xs) = drop (Suc i) xs" by (simp add: filter_empty_conv)
  then show ?thesis using id_take_nth_drop [OF assms(2)] by simp
qed

lemma audit_walk_rest:
  assumes rows: "rows = newest_first (filter (\<lambda>r. au_tenant_id r = t) (cp_audit db))"
    and desc: "sorted_wrt (\<lambda>a b. before_position (audit_position b) (audit_position a)) rows"
  shows "filter (after_boundary boundary) rows = drop k rows \<Longrightarrow> length rows - k < fuel
    \<Longrightarrow> audit_walk fuel t boundary limit db = Some (drop k rows)"
proof (induction fuel arbitrary: boundary k)
  case (Suc fuel)
  define n where "n = nat (max 1 (min limit 200))"
  have pos: "0 < n" by (simp add: n_def)
  note page = audit_page_split [OF rows Suc.prems(1), of limit, folded n_def]
  show ?case
  proof (cases "n < length (drop k rows)")
    case True
    let ?i = "k + (n - 1)"
    have i: "?i < length rows" and at: "drop k rows ! (n - 1) = rows ! ?i" and next_k: "Suc ?i = k + n" using True pos by auto
    have "filter (after_boundary (Some (audit_position (rows ! ?i)))) rows = drop (k + n) rows"
      using filter_below [OF desc i] next_k by simp
    from Suc.IH [OF this] have "audit_walk fuel t (Some (audit_position (rows ! ?i))) limit db = Some (drop (k + n) rows)"
      using Suc.prems(2) True pos by simp
    moreover have "take n (drop k rows) @ drop (k + n) rows = drop k rows" by (metis add.commute append_take_drop_id drop_drop)
    ultimately show ?thesis using True page at by simp
  qed (use page in simp)
qed simp

end
