(* ===== verification/Control_Props.thy ===== *)
theory Control_Props
  imports Control_Inv Audit_Pages
begin

text \<open>
  What the control plane promises to administrators, each property with a concrete request it applies to: no lost updates,
  repeated requests, scopes, the audit log.
\<close>

subsection \<open>A concrete tenant\<close>

definition cp_empty :: control_db where
  "cp_empty = \<lparr>cp_tenants = Map.empty, cp_apps = Map.empty, cp_revisions = (\<lambda>_. []), cp_bindings = [], cp_idempotency = Map.empty,
     cp_audit = [], cp_outbound = Map.empty, cp_outbox = [], cp_dead_letters = []\<rparr>"

definition cp_request :: "string \<Rightarrow> request" where
  "cp_request key = \<lparr>rq_now = 10, rq_wall = 10, rq_audit_id = key, rq_actor = ''root'', rq_key = key, rq_hash = ''h''\<rparr>"

definition cp_validate :: "json \<Rightarrow> string option" where
  "cp_validate payload = Some []"

definition cp_tenant :: control_db where
  "cp_tenant = snd (create_tenant (cp_request ''k0'') ''t'' ''T'' cp_empty)"

definition cp_config :: control_db where
  "cp_config = snd (run_versioned cp_validate (cp_request ''k1'') ''t'' 1 (Create_Config ''a'' []) cp_tenant)"

lemmas cp_defs = cp_empty_def cp_request_def cp_validate_def

lemmas cp_ops = replayed_def transaction_def cached_reply_def finish_request_def store_idempotency_def write_audit_def lock_version_def
  bump_version_def Let_def

lemma cp_tenant_state:
  "cp_tenants cp_tenant = [''t'' \<mapsto> \<lparr>tn_display_name = ''T'', tn_status = ''active'', tn_control_version = 1, tn_created_at = 10, tn_updated_at = 10\<rparr>]"
  "cp_apps cp_tenant = Map.empty" "cp_revisions cp_tenant = (\<lambda>_. [])" "cp_idempotency cp_tenant (''t'', ''k1'') = None"
  by (simp_all add: cp_tenant_def create_tenant_def cp_ops cp_defs)

lemma cp_config_run:
  "\<exists>checksum. run_versioned cp_validate (cp_request ''k1'') ''t'' 1 (Create_Config ''a'' []) cp_tenant
     = (Inr [(''tenant_id'', RText ''t''), (''app_id'', RText ''a''), (''version'', RInt 1), (''checksum'', RText checksum), (''tenant_control_version'', RInt 2)], cp_config)"
  by (simp add: cp_config_def create_config_revision_def create_config_body_def cp_ops cp_tenant_state next_revision_def cp_validate_def cp_request_def)

lemma cp_config_state:
  "tenant_version cp_config ''t'' = Some 2" "cp_idempotency cp_config (''t'', ''k2'') = None"
  "map fst (cp_revisions cp_config (''t'', ''a'')) = [1]"
  "map_option ap_active_config_version (cp_apps cp_config (''t'', ''a'')) = Some 1"
  by (simp_all add: cp_config_def create_config_revision_def create_config_body_def cp_ops cp_tenant_state next_revision_def cp_validate_def
      cp_request_def tenant_version_def cp_tenant_def create_tenant_def cp_empty_def)

lemma cp_config_changed: "cp_config \<noteq> cp_tenant"
  using cp_config_state(1) cp_tenant_state(1) by (auto simp: tenant_version_def)

lemma cp_config_reachable: "reachable_from (control_step cp_validate) cp_empty cp_config"
proof -
  have "control_step cp_validate cp_empty cp_tenant"
    unfolding cp_tenant_def by (rule control_step.tenant_request) (rule surjective_pairing)
  moreover have "control_step cp_validate cp_tenant cp_config"
    unfolding cp_config_def by (rule control_step.versioned_request) (rule surjective_pairing)
  ultimately show ?thesis by (meson reachable_from.intros)
qed

subsection \<open>Versions\<close>

lemma changed_write:
  assumes "run_versioned validate rq t v w db = (x, db')" and "db' \<noteq> db"
  obtains r where "x = Inr r" and "well_posed t w" and "versioned_body validate rq t v w db = Inr (r, db')" and "version_write rq t v r db db'"
  using assms by (cases rule: run_versioned_cases) auto

text \<open>
  C11. No update is lost: of the requests that expect the same version of a tenant at most one takes effect, however many
  requests of this and other tenants and whatever runtime activity lie in between. The one that does raises the version by one,
  of that tenant only, remembers its reply and adds one audit record that names the caller and the key.
\<close>

theorem no_lost_update:
  assumes "run_versioned validate rq t v w db = (x, db1)" and "db1 \<noteq> db"
    and "reachable_from (control_step validate) db1 db2"
    and "run_versioned validate rq' t v w' db2 = (x', db3)"
  shows "(\<exists>r. x = Inr r \<and> version_write rq t v r db db1) \<and> db3 = db2"
proof -
  obtain r where x: "x = Inr r" and w: "version_write rq t v r db db1" by (rule changed_write [OF assms(1,2)])
  then have "tenant_version db1 t = Some (v + 1)" by (simp add: version_write_def)
  from control_path_keeps(2) [OF assms(3) this] obtain v2 where v2: "v < v2" "tenant_version db2 t = Some v2" by auto
  have "db3 = db2"
    using assms(4) by (cases rule: run_versioned_cases) (use v2 in \<open>auto simp: version_write_def\<close>)
  with x w show ?thesis by blast
qed

theorem no_lost_update_witness:
  "cp_config \<noteq> cp_tenant \<and> tenant_version cp_config ''t'' = Some 2
   \<and> snd (run_versioned cp_validate (cp_request ''k2'') ''t'' 1 (Create_Config ''a'' []) cp_config) = cp_config"
proof -
  obtain r where run: "run_versioned cp_validate (cp_request ''k1'') ''t'' 1 (Create_Config ''a'' []) cp_tenant = (Inr r, cp_config)"
    using cp_config_run by blast
  from no_lost_update [OF run cp_config_changed reachable_from.here surjective_pairing, of "cp_request ''k2''" "Create_Config ''a'' []"]
  show ?thesis using cp_config_changed cp_config_state(1) by simp
qed

text \<open>
  C30. A repeated request: for a day after a request took effect, a request with the same key and body gets the same reply and
  changes nothing, whatever version it expects and whatever happened in between. From then on the key is unusable for good:
  the remembered reply is no longer read, but its row is still there, so that every request of the tenant with the key, whatever it
  asks for and whatever its body, raises and changes nothing.
\<close>

theorem repeated_request_replays_then_fails:
  assumes "run_versioned validate rq t v w db = (x, db1)" and "db1 \<noteq> db"
    and "reachable_from (control_step validate) db1 db2"
    and "rq_key rq' = rq_key rq"
  shows "(rq_now rq' < rq_wall rq + seconds 86400 \<longrightarrow> rq_hash rq' = rq_hash rq \<longrightarrow> run_versioned validate rq' t v' w db2 = (x, db2))
    \<and> (rq_wall rq + seconds 86400 \<le> rq_now rq' \<longrightarrow>
         (\<exists>e. run_versioned validate rq' t v' w' db2 = (Inl e, db2)) \<and> (\<exists>e. create_tenant rq' t name db2 = (Inl e, db2)))"
proof -
  obtain r where x: "x = Inr r" and wp: "well_posed t w" and w: "version_write rq t v r db db1" by (rule changed_write [OF assms(1,2)])
  then obtain row where row1: "cp_idempotency db1 (t, rq_key rq) = Some row" and rem: "remembered rq t r row"
    by (auto simp: version_write_def takes_effect_def)
  have row: "cp_idempotency db2 (t, rq_key rq') = Some row" using control_path_keeps(1) [OF assms(3) row1] assms(4) by simp
  have "run_versioned validate rq' t v' w db2 = (x, db2)" if "rq_now rq' < rq_wall rq + seconds 86400" "rq_hash rq' = rq_hash rq"
  proof -
    have "r \<noteq> []" using w by (simp add: version_write_def)
    then show ?thesis using row rem that x
      by (cases r) (simp_all add: run_versioned_replayed [OF wp] replayed_def cached_reply_def transaction_def remembered_def)
  qed
  moreover have "\<exists>e. run_versioned validate rq' t v' w' db2 = (Inl e, db2)" if "rq_wall rq + seconds 86400 \<le> rq_now rq'"
  proof -
    obtain y db3 where run: "run_versioned validate rq' t v' w' db2 = (y, db3)" by fastforce
    then show ?thesis
      by (cases rule: run_versioned_cases) (use run row rem that in \<open>auto simp: version_write_def takes_effect_def remembered_def\<close>)
  qed
  moreover have "\<exists>e. create_tenant rq' t name db2 = (Inl e, db2)" if "rq_wall rq + seconds 86400 \<le> rq_now rq'"
  proof -
    obtain v1 where "tenant_version db1 t = Some v1" using w by (auto simp: version_write_def)
    then have "cp_tenants db2 t \<noteq> None" using control_path_keeps(2) [OF assms(3)] by (fastforce simp: tenant_version_def)
    then show ?thesis using row rem that
      by (auto simp: create_tenant_def replayed_def cached_reply_def transaction_def remembered_def)
  qed
  ultimately show ?thesis by blast
qed

theorem repeated_request_replays_then_fails_witness:
  "fst (run_versioned cp_validate (cp_request ''k1'') ''t'' 7 (Create_Config ''a'' []) cp_config)
     = fst (run_versioned cp_validate (cp_request ''k1'') ''t'' 1 (Create_Config ''a'' []) cp_tenant)
   \<and> (\<exists>e. run_versioned cp_validate ((cp_request ''k1'')\<lparr>rq_now := 10 + seconds 86400, rq_hash := ''another body''\<rparr>) ''t'' 2
        (Activate ''activate_config'' ''a'' 1 100) cp_config = (Inl e, cp_config))"
proof -
  obtain r where run: "run_versioned cp_validate (cp_request ''k1'') ''t'' 1 (Create_Config ''a'' []) cp_tenant = (Inr r, cp_config)"
    using cp_config_run by blast
  note t = repeated_request_replays_then_fails [OF run cp_config_changed reachable_from.here]
  from t [of "cp_request ''k1''" 7]
    t [of "(cp_request ''k1'')\<lparr>rq_now := 10 + seconds 86400, rq_hash := ''another body''\<rparr>" 2 "Activate ''activate_config'' ''a'' 1 100"] run
  show ?thesis by (simp add: cp_request_def seconds_def)
qed

lemma activate_config_reply:
  assumes "activate_config_body rq operation t a n p v db = Inr (r, db')"
  shows "(''version'', RInt (int n)) \<in> set r"
  using assms by (auto simp: activate_config_body_def finish_request_def Let_def split: sum.splits if_splits)

text \<open>
  C40. The hash that tells requests with the same key apart covers the body but not the path. Activating another version of the
  configuration with a used key and an equal body is therefore taken for a repetition: the caller gets the reply of the first
  request, which names the version of that request, and nothing is activated.
\<close>

theorem used_key_ignores_path:
  assumes "admin_activate_config c body t n a p db = (Inr r, db1)" and "db1 \<noteq> db" and "cl_now c < cl_wall c + seconds 86400"
  shows "(''version'', RInt (int n)) \<in> set r \<and> admin_activate_config c body t n' a p db1 = (Inr r, db1)"
proof -
  let ?rq = "admin_request c ''activate_config'' body"
  obtain v where guard: "require_role (cl_actor c) TENANT_ADMIN (Some t) = None" "parse_etag (cl_if_match c) = Inr v"
    using assms(1) by (auto simp: admin_activate_config_def with_version_def split: option.splits sum.splits)
  then have run: "run_versioned (\<lambda>_. None) ?rq t v (Activate ''activate_config'' a n p) db = (Inr r, db1)"
    using assms(1) by (simp add: admin_activate_config_def with_version_def)
  obtain r' where "Inr r = (Inr r' :: error + reply)" and wp: "well_posed t (Activate ''activate_config'' a n p)"
    and body: "versioned_body (\<lambda>_. None) ?rq t v (Activate ''activate_config'' a n p) db = Inr (r', db1)"
    and w: "version_write ?rq t v r' db db1"
    by (rule changed_write [OF run assms(2)])
  then have r: "r' = r" and wp': "well_posed t (Activate ''activate_config'' a n' p)" by simp_all
  obtain row where row: "cp_idempotency db1 (t, rq_key ?rq) = Some row" "remembered ?rq t r row" "r \<noteq> []"
    using w by (auto simp: version_write_def takes_effect_def r)
  have "activate_config ?rq ''activate_config'' t a n' p v db1 = (Inr r, db1)"
    using row assms(3) run_versioned_replayed [OF wp', of "\<lambda>_. None" ?rq v db1]
    by (cases r) (simp_all add: replayed_def cached_reply_def transaction_def remembered_def admin_request_def)
  then show ?thesis using activate_config_reply body guard by (simp add: admin_activate_config_def with_version_def r)
qed

definition cp_call :: call where
  "cp_call = \<lparr>cl_actor = \<lparr>pr_subject = ''alice'', pr_roles = {TENANT_ADMIN}, pr_tenant_ids = {''t''}\<rparr>, cl_key = ''k2'', cl_if_match = ''\"2\"'',
     cl_now = 10, cl_wall = 10, cl_audit_id = ''a2''\<rparr>"

definition cp_active :: control_db where
  "cp_active = snd (admin_activate_config cp_call [] ''t'' 1 ''a'' 50 cp_config)"

lemma cp_active_run:
  "\<exists>r. admin_activate_config cp_call [] ''t'' 1 ''a'' 50 cp_config = (Inr r, cp_active)" and cp_active_changed: "cp_active \<noteq> cp_config"
proof -
  obtain row where row: "cp_tenants cp_config ''t'' = Some row" "tn_control_version row = 2"
    using cp_config_state(1) by (auto simp: tenant_version_def)
  obtain rev where rev: "cp_revisions cp_config (''t'', ''a'') = [(1, rev)]"
    using cp_config_state(3) by (cases "cp_revisions cp_config (''t'', ''a'')") auto
  have etag: "parse_etag ''\"2\"'' = Inr 2" by code_simp
  have run: "\<exists>r db. admin_activate_config cp_call [] ''t'' 1 ''a'' 50 cp_config = (Inr r, db) \<and> tenant_version db ''t'' = Some 3"
    using row rev etag cp_config_state(2)
    by (simp add: admin_activate_config_def with_version_def cp_call_def require_role_def admin_request_def activate_config_def
        activate_config_body_def cp_ops tenant_version_def)
  then show "\<exists>r. admin_activate_config cp_call [] ''t'' 1 ''a'' 50 cp_config = (Inr r, cp_active)" by (auto simp: cp_active_def)
  show "cp_active \<noteq> cp_config" using run cp_config_state(1) by (auto simp: cp_active_def)
qed

theorem used_key_ignores_path_witness:
  "\<exists>r. admin_activate_config cp_call [] ''t'' 1 ''a'' 50 cp_config = (Inr r, cp_active) \<and> cp_active \<noteq> cp_config
     \<and> (''version'', RInt 1) \<in> set r \<and> admin_activate_config cp_call [] ''t'' 2 ''a'' 50 cp_active = (Inr r, cp_active)"
proof -
  obtain r where run: "admin_activate_config cp_call [] ''t'' 1 ''a'' 50 cp_config = (Inr r, cp_active)" using cp_active_run by blast
  have "cl_now cp_call < cl_wall cp_call + seconds 86400" by (simp add: cp_call_def seconds_def)
  from used_key_ignores_path [OF run cp_active_changed this, of 2] run cp_active_changed show ?thesis by auto
qed

subsection \<open>Who may write\<close>

lemma with_version_changes:
  assumes "with_version c t run db = (x, db')" and "db' \<noteq> db" and "t \<noteq> []"
  obtains v where "PLATFORM_ADMIN \<in> pr_roles (cl_actor c) \<or> TENANT_ADMIN \<in> pr_roles (cl_actor c) \<and> t \<in> pr_tenant_ids (cl_actor c)"
    and "parse_etag (cl_if_match c) = Inr v" and "run v db = (x, db')"
  using assms by (auto simp: with_version_def require_role_def split: option.splits sum.splits if_splits)

lemma admin_request_fields: "rq_actor (admin_request c operation body) = pr_subject (cl_actor c)" "rq_key (admin_request c operation body) = cl_key c"
  by (simp_all add: admin_request_def)

lemma admin_route_runs:
  assumes "(x, db') \<in> {admin_put_binding c body t i b db, admin_create_config validate c body t a config db,
      admin_activate_config c body t n a p db, admin_rollback_config c body t n a db, admin_replay_outbound c t outbound confirm db}"
    and "db' \<noteq> db" and "t \<noteq> []"
  obtains v rq w where "PLATFORM_ADMIN \<in> pr_roles (cl_actor c) \<or> TENANT_ADMIN \<in> pr_roles (cl_actor c) \<and> t \<in> pr_tenant_ids (cl_actor c)"
    and "parse_etag (cl_if_match c) = Inr v" and "run_versioned validate rq t v w db = (x, db')"
    and "rq_actor rq = pr_subject (cl_actor c)" and "rq_key rq = cl_key c"
proof -
  from assms(1) consider (binding) "admin_put_binding c body t i b db = (x, db')" | (config) "admin_create_config validate c body t a config db = (x, db')"
    | (activate) "admin_activate_config c body t n a p db = (x, db')" | (rollback) "admin_rollback_config c body t n a db = (x, db')"
    | (replay) "admin_replay_outbound c t outbound confirm db = (x, db')" by auto
  then show thesis
  proof cases
    case binding
    then obtain v where v: "PLATFORM_ADMIN \<in> pr_roles (cl_actor c) \<or> TENANT_ADMIN \<in> pr_roles (cl_actor c) \<and> t \<in> pr_tenant_ids (cl_actor c)"
      "parse_etag (cl_if_match c) = Inr v"
      "put_binding (admin_request c ''put_binding'' body) t i (b\<lparr>cb_binding_id := i, cb_tenant_id := t\<rparr>) v db = (x, db')"
      unfolding admin_put_binding_def by (rule with_version_changes [OF _ assms(2,3)]) (use assms(2) in \<open>auto split: if_splits\<close>)
    show thesis
      by (rule that [OF v(1,2), of "admin_request c ''put_binding'' body" "Put_Binding (b\<lparr>cb_binding_id := i, cb_tenant_id := t\<rparr>)"])
        (use v(3) in \<open>simp_all add: admin_request_fields\<close>)
  next
    case config
    show thesis using config unfolding admin_create_config_def
      by (rule with_version_changes [OF _ assms(2,3)])
        (rule that [of _ "admin_request c ''create_config'' body" "Create_Config a config"], simp_all add: admin_request_fields)
  next
    case activate
    show thesis using activate unfolding admin_activate_config_def
      by (rule with_version_changes [OF _ assms(2,3)])
        (rule that [of _ "admin_request c ''activate_config'' body" "Activate ''activate_config'' a n p"], simp_all add: admin_request_fields)
  next
    case rollback
    show thesis using rollback unfolding admin_rollback_config_def
      by (rule with_version_changes [OF _ assms(2,3)])
        (rule that [of _ "admin_request c ''rollback_config'' body" "Activate ''rollback_config'' a n 100"], simp_all add: admin_request_fields)
  next
    case replay
    show thesis using replay unfolding admin_replay_outbound_def
      by (rule with_version_changes [OF _ assms(2,3)])
        (rule that [of _ "admin_request c ''replay_outbound'' [(''confirm_ambiguous'', JBool confirm)]" "Replay outbound confirm"],
          simp_all add: admin_request_fields)
  qed
qed

text \<open>
  C20. A request through the routes under a tenant changes something only if the caller is a platform administrator, or an
  administrator of tenants whose scope contains this tenant; and then the change is a write of the expected version, recorded
  under the caller's name. In every other case the state is unchanged.
\<close>

theorem admin_write_needs_scope:
  assumes "(x, db') \<in> {admin_put_binding c body t i b db, admin_create_config validate c body t a config db,
      admin_activate_config c body t n a p db, admin_rollback_config c body t n a db, admin_replay_outbound c t outbound confirm db}"
    and "db' \<noteq> db" and "t \<noteq> []"
  shows "(PLATFORM_ADMIN \<in> pr_roles (cl_actor c) \<or> TENANT_ADMIN \<in> pr_roles (cl_actor c) \<and> t \<in> pr_tenant_ids (cl_actor c))
    \<and> (\<exists>v rq r. parse_etag (cl_if_match c) = Inr v \<and> rq_actor rq = pr_subject (cl_actor c) \<and> rq_key rq = cl_key c
         \<and> x = Inr r \<and> version_write rq t v r db db')"
proof -
  from assms obtain v rq w where r: "PLATFORM_ADMIN \<in> pr_roles (cl_actor c) \<or> TENANT_ADMIN \<in> pr_roles (cl_actor c) \<and> t \<in> pr_tenant_ids (cl_actor c)"
    "parse_etag (cl_if_match c) = Inr v" "run_versioned validate rq t v w db = (x, db')"
    "rq_actor rq = pr_subject (cl_actor c)" "rq_key rq = cl_key c" by (rule admin_route_runs)
  from changed_write [OF r(3) assms(2)] r(1,2,4,5) show ?thesis by metis
qed

definition cp_binding :: channel_binding where
  "cp_binding = \<lparr>cb_binding_id = ''b'', cb_tenant_id = ''t'', cb_app_id = ''a'', cb_channel = FEISHU, cb_account_id = ''acc'',
     cb_secret_refs = [], cb_enabled = True, cb_control_version = 1, cb_capabilities = []\<rparr>"

theorem admin_write_needs_scope_witness:
  "cp_active \<noteq> cp_config \<and> TENANT_ADMIN \<in> pr_roles (cl_actor cp_call) \<and> ''t'' \<in> pr_tenant_ids (cl_actor cp_call)
   \<and> (\<exists>v rq r. parse_etag (cl_if_match cp_call) = Inr v \<and> rq_actor rq = ''alice'' \<and> version_write rq ''t'' v r cp_config cp_active)"
proof -
  obtain r where run: "admin_activate_config cp_call [] ''t'' 1 ''a'' 50 cp_config = (Inr r, cp_active)" using cp_active_run by blast
  have "(Inr r, cp_active) \<in> {admin_put_binding cp_call [] ''t'' ''b'' cp_binding cp_config, admin_create_config cp_validate cp_call [] ''t'' ''a'' [] cp_config,
      admin_activate_config cp_call [] ''t'' 1 ''a'' 50 cp_config, admin_rollback_config cp_call [] ''t'' 1 ''a'' cp_config,
      admin_replay_outbound cp_call ''t'' [] False cp_config}"
    using run by simp
  from admin_write_needs_scope [OF this cp_active_changed] show ?thesis using cp_active_changed by (auto simp: cp_call_def)
qed

subsection \<open>The audit log\<close>

text \<open>
  C29. A caller that pages through the audit log with the boundary each page names comes to an end and reads every record of the
  tenant exactly once and no other, newest first, whatever the page size. Audit ids are unique within a tenant.
\<close>

theorem audit_pages_complete:
  assumes "distinct (map au_audit_id (filter (\<lambda>r. au_tenant_id r = t) (cp_audit db)))" and "length (cp_audit db) < fuel"
  shows "\<exists>records. audit_walk fuel t None limit db = Some records
    \<and> mset records = mset (filter (\<lambda>r. au_tenant_id r = t) (cp_audit db))
    \<and> sorted_wrt (\<lambda>a b. before_position (audit_position b) (audit_position a)) records"
proof -
  let ?rows = "newest_first (filter (\<lambda>r. au_tenant_id r = t) (cp_audit db))"
  have desc: "sorted_wrt (\<lambda>a b. before_position (audit_position b) (audit_position a)) ?rows"
    by (rule newest_first_descending [OF assms(1)])
  have "length ?rows \<le> length (cp_audit db)" by (simp add: newest_first_def)
  then have "audit_walk fuel t None limit db = Some (drop 0 ?rows)"
    using assms(2) by (intro audit_walk_rest [OF refl desc]) (simp_all add: after_boundary_def)
  then show ?thesis using desc by (simp add: mset_newest_first)
qed

lemma cp_audit_log: "map au_audit_id (cp_audit cp_config) = [''k0'', ''k1'']" "map au_tenant_id (cp_audit cp_config) = [''t'', ''t'']"
  by (simp_all add: cp_config_def create_config_revision_def create_config_body_def cp_ops cp_tenant_state next_revision_def cp_validate_def
      cp_request_def cp_tenant_def create_tenant_def cp_empty_def)

theorem audit_pages_complete_witness:
  "\<exists>records. audit_walk 3 ''t'' None 1 cp_config = Some records \<and> mset (map au_audit_id records) = {#''k0'', ''k1''#}"
proof -
  have all: "filter (\<lambda>r. au_tenant_id r = ''t'') (cp_audit cp_config) = cp_audit cp_config"
    using cp_audit_log(2) by (auto simp: filter_id_conv map_eq_Cons_conv)
  have "length (map au_audit_id (cp_audit cp_config)) < 3" unfolding cp_audit_log(1) by simp
  then have few: "length (cp_audit cp_config) < 3" by (simp only: length_map)
  have "distinct (map au_audit_id (filter (\<lambda>r. au_tenant_id r = ''t'') (cp_audit cp_config)))"
    unfolding all cp_audit_log(1) by simp
  from audit_pages_complete [OF this few, of 1] obtain records where
    r: "audit_walk 3 ''t'' None 1 cp_config = Some records" "mset records = mset (cp_audit cp_config)" unfolding all by blast
  have "mset (map au_audit_id records) = mset (map au_audit_id (cp_audit cp_config))" using r(2) by simp
  with r(1) show ?thesis by (simp add: cp_audit_log(1) del: mset_map)
qed

end
