(* ===== verification/Spec2Isabelle.thy ===== *)
theory Spec2Isabelle
  imports Repository_Props Pg_Props Tool_Props Channel_Props Queue_Props Control_Props
begin

text \<open>
  A verification library for the session runtime of the tRPC agent service (\<^verbatim>\<open>src/trpc_service\<close>).

  \<^bold>\<open>The program.\<close> Messages of chat users arrive over several channels. The service stores each of them in the mailbox of
  its session, wakes a worker, and the worker takes the session's lease, runs an agent for the next message, and commits
  events, state and the reply together. Replies leave through an outbox and a delivery protocol that knows ambiguous
  outcomes. While an agent runs it may call tools; every call passes a governance pipeline and an execution ledger.
  Workers are many, crash and are slow, so everything that matters is fenced by a lease with an epoch.

  \<^bold>\<open>Theories and what they model.\<close>
  \<^item> \<open>Prelude\<close>: time, exceptions as values, association lists for Python's \<^verbatim>\<open>dict\<close>, JSON values; the locales every component
    shares (\<open>state_machine\<close>, \<open>fenced_machine\<close>, \<open>batch\<close>, \<open>clearing_batch\<close>, \<open>row_batch\<close>). \<open>Models\<close>: the records of
    \<^verbatim>\<open>storage/models.py\<close>, \<^verbatim>\<open>tenant/models.py\<close> and \<^verbatim>\<open>channels/envelopes.py\<close>.
  \<^item> \<open>Mailbox\<close>: \<^verbatim>\<open>InMemorySessionMailboxStore\<close> of \<^verbatim>\<open>storage/mailbox.py\<close>, method by method. \<open>Mailbox_Inv\<close> has its invariant and
    that every operation keeps it, \<open>Mailbox_History\<close> what is true of all histories (order of resolution, epochs),
    \<open>Mailbox_Loops\<close> the batch jobs, \<open>Mailbox_Props\<close> the properties.
  \<^item> \<open>Repository\<close>: \<^verbatim>\<open>InMemoryRuntimeRepository\<close> of \<^verbatim>\<open>storage/memory.py\<close>, built on the mailbox: acceptance, claims, renewals, commits,
    retries, failures, outbox, deliveries. \<open>Repository_Inv\<close> and \<open>Repository_Props\<close> as above.
  \<^item> \<open>Pg_Mailbox\<close>: \<^verbatim>\<open>PostgresSessionMailboxStore\<close>, each method a transaction on the tables of \<^verbatim>\<open>0001\<close> and \<^verbatim>\<open>0008\<close>; \<open>Pg_Recovery\<close>: the
    recovery functions inside the database (\<^verbatim>\<open>0008\<close>, \<^verbatim>\<open>0011\<close>); \<open>Uuid\<close>: \<^verbatim>\<open>UUID(value)\<close>. \<open>Pg_Inv\<close>, \<open>Pg_History\<close> and \<open>Pg_Errors\<close> have
    the invariant of the tables, histories and the errors a transaction can raise, \<open>Pg_Refine\<close> the simulation of the
    in-memory store, \<open>Pg_Props\<close> the properties.
  \<^item> \<open>Py_Bytes\<close>, \<open>Py_Calendar\<close>, \<open>Py_Json\<close>, \<open>Py_Text\<close>: the parts of the Python standard library the tool boundary uses, as functions:
    UTF-8, SHA-256 and HMAC on \<open>32 word\<close>, base64, ISO dates, \<^verbatim>\<open>json.dumps\<close> and \<^verbatim>\<open>json.loads\<close>, \<^verbatim>\<open>str\<close>, \<^verbatim>\<open>repr\<close>, \<^verbatim>\<open>int\<close>.
    \<open>Py_Json_Roundtrip\<close> proves that loading what was dumped gives the value back.
  \<^item> \<open>Tool_Confirmation\<close>, \<open>Tool_Governance\<close>, \<open>Tool_Execution\<close>, \<open>Tool_Integration\<close>, \<open>Redaction\<close>: \<^verbatim>\<open>tool/confirmation.py\<close>,
    \<^verbatim>\<open>tool/governance.py\<close>, \<^verbatim>\<open>tool/execution.py\<close>, \<^verbatim>\<open>tool/integration.py\<close>, \<^verbatim>\<open>log/redaction.py\<close>. \<open>Pg_Tools\<close>: the ledgers of
    \<^verbatim>\<open>tool/postgres.py\<close> over the database of \<open>Pg_Mailbox\<close>. \<open>Tool_Props\<close>: the properties.
  \<^item> \<open>Channel_Dispatcher\<close>: \<^verbatim>\<open>channels/dispatcher.py\<close> on the repository, and many dispatchers as \<open>delivery_step\<close>. \<open>Channel_Delivery\<close> has
    the invariant of the attempts and that a cycle is a path of that system, \<open>Channel_Conserve\<close> that messages are accounted
    for. \<open>Outbox_Dispatcher\<close>: \<^verbatim>\<open>queue/dispatcher.py\<close>. \<open>Channel_Props\<close>: the properties.
  \<^item> \<open>Py_Raw_Json\<close> (\<^verbatim>\<open>json.dumps\<close> with \<^verbatim>\<open>ensure_ascii=False\<close>) and \<open>Py_Rational\<close> (\<^verbatim>\<open>round\<close>, \<^verbatim>\<open>timedelta\<close>). \<open>Session_Id\<close>:
    \<^verbatim>\<open>tenant/session_id.py\<close>; \<open>Media_Locator\<close>: \<^verbatim>\<open>channels/media_locator.py\<close>; \<open>Emergency_Queue\<close>: \<^verbatim>\<open>queue/emergency.py\<close>.
    \<open>Queue_Props\<close>: the properties of these three.
  \<^item> \<open>Control_Plane\<close>: the tables and transactions of \<^verbatim>\<open>tenant/control.py\<close>; \<open>Admin_Api\<close>: roles of \<^verbatim>\<open>tenant/auth.py\<close> and the write
    routes of \<^verbatim>\<open>web/admin.py\<close>. \<open>Control_Inv\<close> has what every write does, the invariant of configurations and the system
    \<open>control_step\<close>, \<open>Audit_Pages\<close> the paging through the audit log, \<open>Control_Props\<close> the properties. The property of this theory
    spans the control plane and the choice of a session's configuration.

  \<^bold>\<open>How state and operations correspond.\<close> The object of a class is a record, a method is a function of the same name that
  returns the exception or the value together with the new state; half-done updates before an exception are in that state.
  Clock readings, random identifiers and the choices of a race are arguments. In the PostgreSQL theories a transaction is
  one step, an exception undoes it, row locks are what makes it one step, and every statement that reads the clock reads
  its own. Where several parties act at once, an \<open>inductive\<close> step relation has one rule per await point
  (\<open>mailbox_step\<close>, \<open>pg_step\<close>, \<open>tool_step\<close>, \<open>delivery_step\<close>, \<open>control_step\<close>), and \<open>reachable_from\<close> gives all interleavings.
  Code that is not part of the repository is an argument: AES-GCM, Redis, the providers, pydantic. What is relied on of it is
  a named predicate or hypothesis (\<open>send_frames\<close>, \<open>keeps_published\<close>, \<open>touches_one\<close>, \<open>stream_keeps\<close>), met by a concrete function in
  the example next to the property. Writers of the same tables that are not modelled are a rule of the step relation: in \<open>pg_step\<close>
  any other transaction that keeps the invariant of the mailbox tables and takes nothing back (\<open>environment_ok\<close>), in \<open>control_step\<close>
  the switch of a production migration (\<^verbatim>\<open>storage/production_migration_control.py\<close>) and the runtime's appends to the audit log.

  \<^bold>\<open>What is shown.\<close> Mailboxes: invariant, order and completeness of resolution, mutual exclusion and fencing of stale
  leases, idempotent acceptance, termination and effect of the recovery jobs, and that one round of them wakes every due backlog. Repository: atomic commits, no lost or
  doubled message, outbox and delivery protocol. PostgreSQL: the same mailbox contract by simulation, no
  transaction of the mailbox store violates a constraint by itself, sweep and reconciliation never evict a live session. Tools: a tool that is not idempotent is started at most once per
  key under all interleavings and crashes; a tool runs only if the pipeline allowed it; confirmations are used once, in
  their scope, for their arguments; budgets are never exceeded; the scanner's loops compute the strictest decision;
  redaction hides sensitive values; and one defect, the retry of a failed idempotent call. Channels: a provider is asked
  again only after it reported a failure, under all interleavings and crashes of dispatchers; no message vanishes; a record
  leaves the outbox only through the queue; a defect, the ambiguous receipt without a call. Buffers and identifiers: an
  emergency record stays until its message is accepted and survives a change of keys; session ids separate scopes up to
  a collision on two named texts; a media locator opens in its own context only. Control plane: no lost updates,
  repetition of requests, scopes, complete audit pages, existence of the chosen configuration; two defects of the
  idempotency keys.

  \<^bold>\<open>Interfaces.\<close> \<open>confirmation_ledger\<close>, \<open>budget_ledger\<close> and \<open>execution_ledger\<close> are the protocols of the source with the laws their
  clients rely on, interpreted on the in-memory and on the PostgreSQL ledgers; \<open>governance\<close> is the pipeline over them,
  interpreted on the production wiring of \<^verbatim>\<open>_cli.py\<close>. \<open>inbound_service\<close> is what the emergency drainer relies on of a runtime
  repository, including that its database may be away, interpreted on the in-memory repository.

  \<^bold>\<open>Fuel and bounds.\<close> Only the JSON scanner has fuel: twice the length of the text and one, because each level of nesting
  takes at most two calls per character; \<open>json_roundtrip\<close> shows it is enough for every text the printer makes. All other
  recursion is structural or has a termination proof. Confirmation tokens of at most 16384 characters are accepted;
  \<open>issued_token_fits\<close> shows that issued tokens are that short. Database counters that only grow are natural
  numbers, and times are unbounded; priorities and configuration versions from callers are checked against the range of their column.

  \<^bold>\<open>Not modelled.\<close> The PostgreSQL runtime repository (\<^verbatim>\<open>storage/postgres.py\<close>) apart from the mailbox tables, the rows the tool
  ledgers read and the rows the control plane writes; its own writes to the mailbox tables are part of the environment of
  \<open>pg_step\<close>. The dispatchers are on the in-memory repository, the emergency drainer on any repository behind the interface.
  NUL characters in texts for the database, and values beyond \<^verbatim>\<open>timestamptz\<close> and \<^verbatim>\<open>integer\<close> that statements compute. Of the control plane the text of an audit cursor, the list of dead letters and the operations of acceptance
  runs. Everything that is mainly a conversation with an external service: channel adapters, Redis queues and consumers,
  object and vector stores, projections, data migration, the other web routes, agents (the SDK runs them), metrics, settings
  and start-up, and the loops that only wait between two cycles. Migrations that only change grants, fixtures or tables
  outside the modelled ones. The acceptance tooling under \<^verbatim>\<open>scripts\<close> and \<^verbatim>\<open>deploy\<close>, which drives deployed systems and is not part of
  the service. Texts of the service have code points below 256, floats are exact rationals, and JSON values contain no floats.
\<close>

section \<open>Configurations and sessions\<close>

text \<open>
  C18. Whatever administrators do, in whatever order and however often they repeat requests, the configuration chosen for a
  session exists: the rollout always selects a version, by the session's bucket, and there is a revision with that version. The
  histories start without applications; besides the control plane only a production migration changes an application, and it
  moves between versions that were the active one or the candidate.
\<close>

theorem configured_versions_exist:
  assumes "cp_apps db0 = Map.empty" and "cp_revisions db0 = (\<lambda>_. [])"
    and "reachable_from (control_step validate) db0 db" and "cp_apps db (t, a) = Some app"
  shows "\<exists>v. select_config_version (ap_active_config_version app) (ap_candidate_config_version app) (ap_candidate_percent app)
      (rollout_bucket key t a s) = Inr v \<and> map_of (cp_revisions db (t, a)) v \<noteq> None"
proof -
  have "control_inv db0" using assms(1,2) by (simp add: control_inv_def app_wf_def)
  then have "control_inv db" by (rule control_machine.reachable_inv [OF assms(3)])
  then have "app_wf (cp_revisions db (t, a)) (Some app)" using assms(4) by (metis control_inv_def)
  then show ?thesis by (auto simp: app_wf_def select_config_version_def map_of_eq_None_iff split: option.splits)
qed

theorem configured_versions_exist_witness:
  "reachable_from (control_step cp_validate) cp_empty cp_config
   \<and> (\<exists>app v. cp_apps cp_config (''t'', ''a'') = Some app
        \<and> select_config_version (ap_active_config_version app) (ap_candidate_config_version app) (ap_candidate_percent app)
            (rollout_bucket [1] ''t'' ''a'' ''s'') = Inr v
        \<and> map_of (cp_revisions cp_config (''t'', ''a'')) v \<noteq> None)"
proof -
  have start: "cp_apps cp_empty = Map.empty" "cp_revisions cp_empty = (\<lambda>_. [])" by (simp_all add: cp_empty_def)
  obtain app where app: "cp_apps cp_config (''t'', ''a'') = Some app" using cp_config_state(4) by auto
  from configured_versions_exist [OF start cp_config_reachable app, of "[1]" "''s''"] app cp_config_reachable show ?thesis by blast
qed

end
